(* ===== verification/Prelude.thy ===== *)
theory Prelude
  imports "HOL-Library.Word" "HOL-Library.Char_ord" "HOL-Library.List_Lexorder"
begin

text \<open>
  Shared vocabulary of the development: names for the machine integers of the Rust
  sources, the saturating operations of the standard library, a generic locale about
  runs of state machines, and the theorem collections that the component theories feed.

  \<^item> \<open>u8\<close> .. \<open>u64\<close> are words of that width, so \<open>+\<close> wraps as the release build does.
  \<^item> \<open>word_nat\<close> collects the equations that move a goal from words to natural numbers.
  \<^item> \<open>run_machine\<close> lifts a one-step invariant to every run.
\<close>

named_theorems word_nat "equations and rules that turn word arithmetic into arithmetic on nat"
named_theorems step_simps "rewrite rules that describe one operation of a component"

section \<open>Machine integers\<close>

type_synonym u8 = "8 word"
type_synonym u16 = "16 word"
type_synonym u32 = "32 word"
type_synonym u64 = "64 word"
type_synonym i8 = "8 word"
type_synonym i16 = "16 word"
type_synonym bytes = "8 word list"

text \<open>\<open>saturating_sub\<close> and \<open>saturating_add\<close> of the unsigned integers.\<close>

definition sat_sub :: "'a::len word \<Rightarrow> 'a word \<Rightarrow> 'a word" where
  "sat_sub a b = (if b \<le> a then a - b else 0)"

definition sat_add :: "'a::len word \<Rightarrow> 'a word \<Rightarrow> 'a word" where
  "sat_add a b = (if a \<le> a + b then a + b else - 1)"

definition as_u64 :: "'a::len word \<Rightarrow> u64" where
  "as_u64 x = ucast x"

definition as_u32 :: "'a::len word \<Rightarrow> u32" where
  "as_u32 x = ucast x"

text \<open>\<open>secs as u64 * 1_000\<close>, the conversion every duration of the configuration goes through.\<close>

definition secs_to_ms :: "u32 \<Rightarrow> u64" where
  "secs_to_ms s = as_u64 s * 1000"

lemma unat_lt_pow: "unat x < 2 ^ LENGTH('a)" for x :: "'a::len word"
  by (rule unsigned_less)

lemma unat_sat_sub [word_nat, simp]: "unat (sat_sub a b) = unat a - unat b"
  by (auto simp: sat_sub_def unat_sub_if' word_le_nat_alt)

lemma sat_sub_self [simp]: "sat_sub a a = 0"
  by (simp add: sat_sub_def)

lemma unat_sat_add: "unat (sat_add a b) = min (unat a + unat b) (2 ^ LENGTH('a) - 1)"
  for a b :: "'a::len word"
proof (cases "unat a + unat b < 2 ^ LENGTH('a)")
  case True
  then have "unat (a + b) = unat a + unat b"
    by (simp add: unat_add_lem)
  with True show ?thesis
    by (auto simp: sat_add_def word_le_nat_alt)
next
  case False
  then have big: "unat (a + b) = unat a + unat b - 2 ^ LENGTH('a)"
    by (simp add: unat_plus_if')
  moreover have "unat b < 2 ^ LENGTH('a)" by (rule unat_lt_pow)
  moreover have "unat a < 2 ^ LENGTH('a)" by (rule unat_lt_pow)
  ultimately have "unat (a + b) < unat a"
    using False by arith
  then have "\<not> a \<le> a + b" by (simp add: word_le_nat_alt)
  moreover have "unat (- 1 :: 'a word) = 2 ^ LENGTH('a) - 1"
    by (simp add: unsigned_minus_1_eq_mask mask_eq_exp_minus_1)
  ultimately show ?thesis
    using False by (auto simp: sat_add_def)
qed

lemma sat_add_ge_left: "a \<le> sat_add a b"
  using unat_lt_pow [of a] by (simp add: word_le_nat_alt unat_sat_add less_eq_Suc_le)

lemma sat_add_zero [simp]: "sat_add a 0 = a"
  by (simp add: sat_add_def)

lemma unat_as_u64_u32 [word_nat, simp]: "unat (as_u64 (x :: u32)) = unat x"
  by (simp add: as_u64_def unsigned_ucast_eq take_bit_nat_eq_self_iff order.strict_trans [OF unsigned_less [of x]])

lemma unat_u32_bound: "unat (x :: u32) < 4294967296"
  using unat_lt_pow [of x] by simp

lemma unat_u64_bound: "unat (x :: u64) < 18446744073709551616"
  using unat_lt_pow [of x] by simp

lemma unat_secs_to_ms [word_nat, simp]: "unat (secs_to_ms s) = unat s * 1000"
proof -
  have "unat s * 1000 < 2 ^ 64" using unat_u32_bound [of s] by simp
  then show ?thesis
    by (simp add: secs_to_ms_def unat_word_ariths)
qed

lemma secs_to_ms_eq_0 [simp]: "secs_to_ms s = 0 \<longleftrightarrow> s = 0"
  by (metis mult_is_0 unat_eq_zero unat_secs_to_ms zero_neq_numeral)

lemmas word_order_nat [word_nat] = word_le_nat_alt word_less_nat_alt

lemma unat_add_u64 [word_nat]:
  "unat a + unat b < 18446744073709551616 \<Longrightarrow> unat (a + b) = unat a + unat b" for a b :: u64
  by (simp add: unat_word_ariths)

section \<open>Lists\<close>

definition last_n :: "nat \<Rightarrow> 'a list \<Rightarrow> 'a list" where
  "last_n n xs = drop (length xs - n) xs"

lemma length_last_n [simp]: "length (last_n n xs) = min n (length xs)"
  by (simp add: last_n_def)

lemma last_n_all: "length xs \<le> n \<Longrightarrow> last_n n xs = xs"
  by (simp add: last_n_def)

lemma last_n_zero [simp]: "last_n 0 xs = []"
  by (simp add: last_n_def)

lemma last_n_snoc: "last_n (Suc n) (xs @ [x]) = last_n n xs @ [x]"
  by (simp add: last_n_def)

lemma set_last_n: "set (last_n n xs) \<subseteq> set xs"
  by (simp add: last_n_def set_drop_subset)

lemma last_n_idem [simp]: "last_n n (last_n n xs) = last_n n xs"
  by (simp add: last_n_def)

lemma last_n_append_last_n: "last_n n (last_n n xs @ ys) = last_n n (xs @ ys)"
proof (cases "n \<le> length ys")
  case True
  then show ?thesis by (simp add: last_n_def)
next
  case False
  show ?thesis
  proof (cases "n \<le> length xs")
    case True
    with False have "length xs + length ys - n = length ys + (length xs - n)" by simp
    with True False show ?thesis by (simp add: last_n_def add.commute)
  next
    case False
    then show ?thesis by (simp add: last_n_all)
  qed
qed

section \<open>Runs of state machines\<close>

text \<open>
  A component is a state and a step function. An invariant that one step keeps holds after
  every run; \<open>ok\<close> is the contract the caller has to keep (\<open>\<lambda>_ _. True\<close> when there is none).
\<close>

primrec ok_run :: "('s \<Rightarrow> 'e \<Rightarrow> 's) \<Rightarrow> ('s \<Rightarrow> 'e \<Rightarrow> bool) \<Rightarrow> 's \<Rightarrow> 'e list \<Rightarrow> bool" where
  "ok_run step ok s [] = True"
| "ok_run step ok s (e # es) = (ok s e \<and> ok_run step ok (step s e) es)"

lemma ok_run_list_all: "ok_run step (\<lambda>_. ok) s es = list_all ok es"
  by (induction es arbitrary: s) simp_all

locale run_machine =
  fixes step :: "'s \<Rightarrow> 'e \<Rightarrow> 's"
    and ok :: "'s \<Rightarrow> 'e \<Rightarrow> bool"
    and inv :: "'s \<Rightarrow> bool"
  assumes step_inv: "inv s \<Longrightarrow> ok s e \<Longrightarrow> inv (step s e)"
begin

lemma run_inv: "inv s \<Longrightarrow> ok_run step ok s es \<Longrightarrow> inv (foldl step s es)"
  by (induction es arbitrary: s) (auto intro: step_inv)

lemma run_inv_total: "(\<And>s e. ok s e) \<Longrightarrow> inv s \<Longrightarrow> inv (foldl step s es)"
  by (induction es arbitrary: s) (auto intro: step_inv)

end

text \<open>Timestamps of a run never go back: what the \<open>Clock\<close> trait promises of \<open>monotonic_ms\<close>.\<close>

fun times_from :: "u64 \<Rightarrow> (u64 \<times> 'e) list \<Rightarrow> bool" where
  "times_from t [] = True"
| "times_from t ((u, _) # es) = (t \<le> u \<and> times_from u es)"

lemma times_from_mono: "times_from t es \<Longrightarrow> s \<le> t \<Longrightarrow> times_from s es"
  by (cases es) auto

end
