(* ===== verification/Water_Valve.thy ===== *)
theory Water_Valve
  imports Prelude
begin

text \<open>
  The motorised water valve, \<open>crates/core/src/water_valve.rs\<close>: its timing record, the
  private \<open>Phase\<close> of the sequencer, the observable \<open>WaterState\<close>, and every operation of
  \<open>WaterValve\<close>. Times are milliseconds of the monotonic clock (\<open>u64\<close>).
\<close>

section \<open>State\<close>

definition SETTLE_MS :: u64 where
  "SETTLE_MS = 1000"

record valve_timing =
  motor_run_secs :: u32
  drain_secs :: u32

definition default_valve_timing :: valve_timing where
  "default_valve_timing = \<lparr>motor_run_secs = 14, drain_secs = 300\<rparr>"

definition motor_run_ms :: "valve_timing \<Rightarrow> u64" where
  "motor_run_ms t = secs_to_ms (motor_run_secs t)"

definition drain_hold_ms :: "valve_timing \<Rightarrow> u64" where
  "drain_hold_ms t = secs_to_ms (drain_secs t)"

definition sequence_ms :: "valve_timing \<Rightarrow> u64" where
  "sequence_ms t = SETTLE_MS + motor_run_ms t + SETTLE_MS"

definition SEQUENCE_DURATION_MS :: u64 where
  "SEQUENCE_DURATION_MS = 16000"

datatype water_state = Off | TurningOn | On | TurningOff

record valve_outputs =
  open_motor :: bool
  close_motor :: bool
  drain :: bool

definition default_valve_outputs :: valve_outputs where
  "default_valve_outputs = \<lparr>open_motor = False, close_motor = False, drain = False\<rparr>"

text \<open>\<open>Phase\<close>: the constructors carry \<open>start_ms\<close>.\<close>

datatype phase = Idle | PTurningOn u64 | PTurningOff u64 | Draining u64

record water_valve =
  wv_phase :: phase
  wv_user_state :: bool
  wv_timing :: valve_timing

section \<open>Operations\<close>

definition valve_with_timing :: "valve_timing \<Rightarrow> water_valve" where
  "valve_with_timing t = \<lparr>wv_phase = Idle, wv_user_state = False, wv_timing = t\<rparr>"

definition valve_new :: water_valve where
  "valve_new = valve_with_timing default_valve_timing"

definition valve_set_timing :: "water_valve \<Rightarrow> valve_timing \<Rightarrow> water_valve" where
  "valve_set_timing v t = v\<lparr>wv_timing := t\<rparr>"

definition valve_restore :: "water_valve \<Rightarrow> bool \<Rightarrow> water_valve" where
  "valve_restore v on = v\<lparr>wv_user_state := on\<rparr>"

definition valve_is_busy :: "water_valve \<Rightarrow> bool" where
  "valve_is_busy v = (case wv_phase v of Idle \<Rightarrow> False | Draining _ \<Rightarrow> False | _ \<Rightarrow> True)"

definition valve_state :: "water_valve \<Rightarrow> water_state" where
  "valve_state v = (case wv_phase v of
      PTurningOn _ \<Rightarrow> TurningOn
    | PTurningOff _ \<Rightarrow> TurningOff
    | Draining _ \<Rightarrow> Off
    | Idle \<Rightarrow> if wv_user_state v then On else Off)"

definition valve_turn_on :: "water_valve \<Rightarrow> u64 \<Rightarrow> water_valve" where
  "valve_turn_on v now_ms = (case wv_phase v of
      Idle \<Rightarrow> if \<not> wv_user_state v then v\<lparr>wv_phase := PTurningOn now_ms\<rparr> else v
    | Draining _ \<Rightarrow> v\<lparr>wv_phase := PTurningOn now_ms\<rparr>
    | _ \<Rightarrow> v)"

definition valve_turn_off :: "water_valve \<Rightarrow> u64 \<Rightarrow> water_valve" where
  "valve_turn_off v now_ms = (case wv_phase v of
      Idle \<Rightarrow> if wv_user_state v then v\<lparr>wv_phase := PTurningOff now_ms\<rparr> else v
    | _ \<Rightarrow> v)"

definition valve_tick :: "water_valve \<Rightarrow> u64 \<Rightarrow> water_valve \<times> valve_outputs" where
  "valve_tick v now_ms =
    (let motor_run = motor_run_ms (wv_timing v);
         seq = sequence_ms (wv_timing v);
         drain_hold = drain_hold_ms (wv_timing v)
     in case wv_phase v of
       Idle \<Rightarrow> (v, default_valve_outputs)
     | PTurningOn start_ms \<Rightarrow>
         (let elapsed = sat_sub now_ms start_ms in
          if seq \<le> elapsed then
            (v\<lparr>wv_user_state := True, wv_phase := Idle\<rparr>, default_valve_outputs)
          else if elapsed < SETTLE_MS then (v, default_valve_outputs)
          else if elapsed < SETTLE_MS + motor_run then
            (v, default_valve_outputs\<lparr>open_motor := True\<rparr>)
          else (v, default_valve_outputs))
     | PTurningOff start_ms \<Rightarrow>
         (let elapsed = sat_sub now_ms start_ms in
          if seq \<le> elapsed then
            (let v' = v\<lparr>wv_user_state := False\<rparr> in
             if drain_hold = 0 then (v'\<lparr>wv_phase := Idle\<rparr>, default_valve_outputs)
             else (v'\<lparr>wv_phase := Draining now_ms\<rparr>, default_valve_outputs\<lparr>drain := True\<rparr>))
          else if elapsed < SETTLE_MS then (v, default_valve_outputs)
          else if elapsed < SETTLE_MS + motor_run then
            (v, default_valve_outputs\<lparr>close_motor := True\<rparr>)
          else (v, default_valve_outputs))
     | Draining start_ms \<Rightarrow>
         (let elapsed = sat_sub now_ms start_ms in
          if drain_hold \<le> elapsed then (v\<lparr>wv_phase := Idle\<rparr>, default_valve_outputs)
          else (v, default_valve_outputs\<lparr>drain := True\<rparr>)))"

text \<open>The calls the rest of the program makes, as one event type, and runs of them.\<close>

datatype valve_op = VTurnOn | VTurnOff | VTick | VSetTiming valve_timing

fun valve_apply :: "water_valve \<Rightarrow> u64 \<times> valve_op \<Rightarrow> water_valve" where
  "valve_apply v (now, VTurnOn) = valve_turn_on v now"
| "valve_apply v (now, VTurnOff) = valve_turn_off v now"
| "valve_apply v (now, VTick) = fst (valve_tick v now)"
| "valve_apply v (now, VSetTiming t) = valve_set_timing v t"

fun valve_trace :: "water_valve \<Rightarrow> (u64 \<times> valve_op) list \<Rightarrow> (u64 \<times> valve_outputs) list" where
  "valve_trace v [] = []"
| "valve_trace v ((now, VTick) # es) =
     (now, snd (valve_tick v now)) # valve_trace (valve_apply v (now, VTick)) es"
| "valve_trace v (e # es) = valve_trace (valve_apply v e) es"

section \<open>Basic facts\<close>

lemma unat_SETTLE [word_nat, simp]: "unat SETTLE_MS = 1000"
  by (simp add: SETTLE_MS_def)

lemma unat_motor_run_ms [word_nat, simp]: "unat (motor_run_ms t) = unat (motor_run_secs t) * 1000"
  by (simp add: motor_run_ms_def)

lemma unat_drain_hold_ms [word_nat, simp]: "unat (drain_hold_ms t) = unat (drain_secs t) * 1000"
  by (simp add: drain_hold_ms_def)

lemma unat_settle_motor [word_nat, simp]:
  "unat (SETTLE_MS + motor_run_ms t) = 1000 + unat (motor_run_secs t) * 1000"
  using unat_u32_bound [of "motor_run_secs t"] by (simp add: unat_add_u64)

text \<open>The sum of \<open>sequence_ms\<close> never wraps: \<open>u32\<close> seconds leave room in \<open>u64\<close> milliseconds.\<close>

lemma unat_sequence_ms [word_nat, simp]:
  "unat (sequence_ms t) = 2000 + unat (motor_run_secs t) * 1000"
  using unat_u32_bound [of "motor_run_secs t"]
  unfolding sequence_ms_def by (subst unat_add_u64) simp_all

lemma drain_hold_ms_eq_0 [simp]: "drain_hold_ms t = 0 \<longleftrightarrow> drain_secs t = 0"
  by (simp add: drain_hold_ms_def)

lemma default_outputs_sel [simp]:
  "\<not> open_motor default_valve_outputs" "\<not> close_motor default_valve_outputs"
  "\<not> drain default_valve_outputs"
  by (simp_all add: default_valve_outputs_def)

lemmas valve_defs [step_simps] =
  valve_tick_def valve_turn_on_def valve_turn_off_def valve_set_timing_def

lemmas valve_splits = phase.splits if_splits

text \<open>What an output says about the phase that produced it.\<close>

lemma valve_tick_openD:
  "open_motor (snd (valve_tick v n)) \<Longrightarrow>
     \<exists>s. wv_phase v = PTurningOn s \<and> unat s + 1000 \<le> unat n"
  by (auto simp: valve_tick_def Let_def word_nat split: valve_splits)

lemma valve_tick_closeD:
  "close_motor (snd (valve_tick v n)) \<Longrightarrow>
     \<exists>s. wv_phase v = PTurningOff s \<and> unat s + 1000 \<le> unat n"
  by (auto simp: valve_tick_def Let_def word_nat split: valve_splits)

text \<open>How a tick moves the phase: it never starts a motor sequence.\<close>

lemma valve_tick_phase_on:
  "wv_phase (fst (valve_tick v n)) = PTurningOn s \<Longrightarrow> wv_phase v = PTurningOn s"
  by (auto simp: valve_tick_def Let_def split: valve_splits)

lemma valve_tick_phase_off:
  "wv_phase (fst (valve_tick v n)) = PTurningOff s \<Longrightarrow> wv_phase v = PTurningOff s"
  by (auto simp: valve_tick_def Let_def split: valve_splits)

lemma valve_apply_phase_on:
  "wv_phase (valve_apply v (n, e)) = PTurningOn s \<Longrightarrow> wv_phase v = PTurningOn s \<or> s = n"
  by (cases e) (auto simp: valve_turn_on_def valve_turn_off_def valve_set_timing_def
      dest: valve_tick_phase_on split: valve_splits)

lemma valve_apply_phase_off:
  "wv_phase (valve_apply v (n, e)) = PTurningOff s \<Longrightarrow> wv_phase v = PTurningOff s \<or> s = n"
  by (cases e) (auto simp: valve_turn_on_def valve_turn_off_def valve_set_timing_def
      dest: valve_tick_phase_off split: valve_splits)

lemma valve_trace_other:
  "e \<noteq> VTick \<Longrightarrow> valve_trace v ((n, e) # es) = valve_trace (valve_apply v (n, e)) es"
  by (cases e) auto

lemma valve_trace_cases:
  "valve_trace v ((n, e) # es) =
     (if e = VTick then [(n, snd (valve_tick v n))] else []) @ valve_trace (valve_apply v (n, e)) es"
  by (cases e) auto

section \<open>Electrical safety\<close>

definition at_most_one :: "valve_outputs \<Rightarrow> bool" where
  "at_most_one outs \<longleftrightarrow>
     \<not> (open_motor outs \<and> close_motor outs) \<and>
     \<not> (open_motor outs \<and> drain outs) \<and> \<not> (close_motor outs \<and> drain outs)"

lemma valve_tick_at_most_one: "at_most_one (snd (valve_tick v n))"
  by (auto simp: at_most_one_def valve_tick_def Let_def split: valve_splits)

text \<open>The first safety rule of the valve: no call sequence whatever (commands, ticks and
  timing changes, at any times, from any state) ever drives two of the three outputs at once.
  In particular the open and the close winding of the motor are never energised together.\<close>

theorem valve_outputs_exclusive:
  "list_all (\<lambda>(_, outs). at_most_one outs) (valve_trace v es)"
proof (induction es arbitrary: v)
  case (Cons e es)
  obtain n ev where "e = (n, ev)" by (cases e)
  with Cons show ?case by (simp add: valve_trace_cases valve_tick_at_most_one)
qed simp

text \<open>The settle window. Two outputs are opposed when one opens and the other closes.\<close>

definition opposed :: "valve_outputs \<Rightarrow> valve_outputs \<Rightarrow> bool" where
  "opposed p q \<longleftrightarrow> open_motor p \<and> close_motor q \<or> close_motor p \<and> open_motor q"

fun motors_interlocked :: "(u64 \<times> valve_outputs) list \<Rightarrow> bool" where
  "motors_interlocked [] = True"
| "motors_interlocked ((t, p) # tr) =
     (list_all (\<lambda>(u, q). opposed p q \<longrightarrow> unat t + 1000 \<le> unat u) tr \<and> motors_interlocked tr)"

lemma no_close_before_settle:
  assumes "times_from t es"
    and "\<And>s. wv_phase v = PTurningOff s \<Longrightarrow> t0 \<le> s" and "t0 \<le> t"
  shows "list_all (\<lambda>(u, q). close_motor q \<longrightarrow> unat t0 + 1000 \<le> unat u) (valve_trace v es)"
  using assms
proof (induction es arbitrary: v t)
  case (Cons e es)
  obtain n ev where e: "e = (n, ev)" by (cases e)
  from Cons.prems e have n: "t \<le> n" "times_from n es" by simp_all
  have "list_all (\<lambda>(u, q). close_motor q \<longrightarrow> unat t0 + 1000 \<le> unat u)
          (valve_trace (valve_apply v (n, ev)) es)"
  proof (rule Cons.IH [OF n(2)])
    show "t0 \<le> s" if "wv_phase (valve_apply v (n, ev)) = PTurningOff s" for s
      using valve_apply_phase_off [OF that] Cons.prems(2,3) n(1) by (auto intro: order_trans)
    show "t0 \<le> n" using Cons.prems(3) n(1) by simp
  qed
  moreover have "unat t0 + 1000 \<le> unat n" if "close_motor (snd (valve_tick v n))"
    using valve_tick_closeD [OF that] Cons.prems(2) by (fastforce simp: word_le_nat_alt)
  ultimately show ?case by (simp add: e valve_trace_cases)
qed simp

lemma no_open_before_settle:
  assumes "times_from t es"
    and "\<And>s. wv_phase v = PTurningOn s \<Longrightarrow> t0 \<le> s" and "t0 \<le> t"
  shows "list_all (\<lambda>(u, q). open_motor q \<longrightarrow> unat t0 + 1000 \<le> unat u) (valve_trace v es)"
  using assms
proof (induction es arbitrary: v t)
  case (Cons e es)
  obtain n ev where e: "e = (n, ev)" by (cases e)
  from Cons.prems e have n: "t \<le> n" "times_from n es" by simp_all
  have "list_all (\<lambda>(u, q). open_motor q \<longrightarrow> unat t0 + 1000 \<le> unat u)
          (valve_trace (valve_apply v (n, ev)) es)"
  proof (rule Cons.IH [OF n(2)])
    show "t0 \<le> s" if "wv_phase (valve_apply v (n, ev)) = PTurningOn s" for s
      using valve_apply_phase_on [OF that] Cons.prems(2,3) n(1) by (auto intro: order_trans)
    show "t0 \<le> n" using Cons.prems(3) n(1) by simp
  qed
  moreover have "unat t0 + 1000 \<le> unat n" if "open_motor (snd (valve_tick v n))"
    using valve_tick_openD [OF that] Cons.prems(2) by (fastforce simp: word_le_nat_alt)
  ultimately show ?case by (simp add: e valve_trace_cases)
qed simp

lemma interlock_head:
  assumes "times_from n es"
  shows "list_all (\<lambda>(u, q). opposed (snd (valve_tick v n)) q \<longrightarrow> unat n + 1000 \<le> unat u)
           (valve_trace (fst (valve_tick v n)) es)" (is "list_all ?P ?tr")
proof -
  have o: "list_all ?P ?tr" if od: "open_motor (snd (valve_tick v n))"
  proof -
    have "list_all (\<lambda>(u, q). close_motor q \<longrightarrow> unat n + 1000 \<le> unat u) ?tr"
    proof (rule no_close_before_settle [OF assms])
      fix s assume "wv_phase (fst (valve_tick v n)) = PTurningOff s"
      from valve_tick_phase_off [OF this] valve_tick_openD [OF od] show "n \<le> s" by auto
    qed simp
    then show ?thesis
      using od valve_tick_at_most_one [of v n]
      by (auto simp: opposed_def at_most_one_def list_all_iff)
  qed
  have c: "list_all ?P ?tr" if cd: "close_motor (snd (valve_tick v n))"
  proof -
    have "list_all (\<lambda>(u, q). open_motor q \<longrightarrow> unat n + 1000 \<le> unat u) ?tr"
    proof (rule no_open_before_settle [OF assms])
      fix s assume "wv_phase (fst (valve_tick v n)) = PTurningOn s"
      from valve_tick_phase_on [OF this] valve_tick_closeD [OF cd] show "n \<le> s" by auto
    qed simp
    then show ?thesis
      using cd valve_tick_at_most_one [of v n]
      by (auto simp: opposed_def at_most_one_def list_all_iff)
  qed
  show ?thesis using o c by (auto simp: opposed_def list_all_iff)
qed

text \<open>C1. The settle interlock: on every run with non-decreasing timestamps, whatever commands
  and timing changes it contains and from whatever state it starts, a tick that drives the motor
  in one direction and a later tick that drives it in the other are at least 1000 ms apart.\<close>

theorem valve_settle_interlock:
  assumes "times_from t es"
  shows "motors_interlocked (valve_trace v es)"
  using assms
proof (induction es arbitrary: v t)
  case (Cons e es)
  obtain n ev where e: "e = (n, ev)" by (cases e)
  from Cons.prems e have n: "times_from n es" by simp
  show ?case
    using Cons.IH [OF n] interlock_head [OF n, of v]
    by (cases "ev = VTick") (simp_all add: e valve_trace_cases)
qed simp

lemma valve_settle_interlock_witness:
  "motors_interlocked (valve_trace valve_new
     [(0, VTurnOn), (2000, VTick), (16000, VTick), (16000, VTurnOff), (17000, VTick)])"
  by (rule valve_settle_interlock [where t = 0]) simp

section \<open>The abstract four-state machine\<close>

text \<open>The contract the API, MQTT and the display see: a labelled step relation on \<open>WaterState\<close>.
  Commands act at once in a settled state and are ignored in a moving one; only a tick ends a
  movement.\<close>

inductive water_step :: "water_state \<Rightarrow> valve_op \<Rightarrow> water_state \<Rightarrow> bool" where
  start_open: "water_step Off VTurnOn TurningOn"
| start_close: "water_step On VTurnOff TurningOff"
| opened: "water_step TurningOn VTick On"
| closed: "water_step TurningOff VTick Off"
| off_off: "water_step Off VTurnOff Off"
| on_on: "water_step On VTurnOn On"
| busy_cmd: "s = TurningOn \<or> s = TurningOff \<Longrightarrow> e = VTurnOn \<or> e = VTurnOff \<Longrightarrow> water_step s e s"
| silent_tick: "water_step s VTick s"
| retime: "water_step s (VSetTiming t) s"

inductive_simps water_step_simps [step_simps]:
  "water_step s VTurnOn s'" "water_step s VTurnOff s'" "water_step s VTick s'"
  "water_step s (VSetTiming t) s'"

text \<open>The representation invariant: the remembered position agrees with the phase.\<close>

definition valve_ok :: "water_valve \<Rightarrow> bool" where
  "valve_ok v = (case wv_phase v of
      Idle \<Rightarrow> True
    | PTurningOn _ \<Rightarrow> \<not> wv_user_state v
    | PTurningOff _ \<Rightarrow> wv_user_state v
    | Draining _ \<Rightarrow> \<not> wv_user_state v)"

lemma valve_ok_apply: "valve_ok v \<Longrightarrow> valve_ok (valve_apply v te)"
  by (cases te; cases "snd te")
     (auto simp: valve_ok_def valve_defs Let_def split: valve_splits)

interpretation vm: run_machine valve_apply "\<lambda>_ _. True" valve_ok
  by unfold_locales (rule valve_ok_apply)

lemma valve_ok_new [simp]: "valve_ok valve_new"
  by (simp add: valve_ok_def valve_new_def valve_with_timing_def)

lemma valve_ok_with_timing [simp]: "valve_ok (valve_with_timing t)"
  by (simp add: valve_ok_def valve_with_timing_def)

lemma valve_apply_water_step:
  "valve_ok v \<Longrightarrow> water_step (valve_state v) e (valve_state (valve_apply v (n, e)))"
  by (cases e)
     (auto simp: valve_ok_def valve_defs valve_state_def Let_def water_step_simps split: valve_splits)

text \<open>C2. Refinement: in every state the valve can reach from power-up (any timing, any sequence of
  calls at any times), each further call is a step of the abstract machine. So the valve never
  jumps from off to on, a command in a settled state always starts the movement, a command in a
  moving state is ignored, and only a tick completes a movement.\<close>

theorem valve_refines_water_step:
  "water_step (valve_state (foldl valve_apply (valve_with_timing t) es)) e
     (valve_state (foldl valve_apply (valve_with_timing t) (es @ [(n, e)])))"
  using valve_apply_water_step [OF vm.run_inv_total [of "valve_with_timing t" es]] by simp

section \<open>The timing tables of the module documentation\<close>

definition elapsed_ms :: "u64 \<Rightarrow> u64 \<Rightarrow> nat" where
  "elapsed_ms start_ms n = unat n - unat start_ms"

definition seq_len :: "valve_timing \<Rightarrow> nat" where
  "seq_len t = 2000 + 1000 * unat (motor_run_secs t)"

definition motor_window :: "valve_timing \<Rightarrow> nat \<Rightarrow> bool" where
  "motor_window t e \<longleftrightarrow> 1000 \<le> e \<and> e < 1000 + 1000 * unat (motor_run_secs t)"

definition open_program :: "valve_timing \<Rightarrow> u64 \<Rightarrow> u64 \<Rightarrow> valve_outputs" where
  "open_program t s n =
     \<lparr>open_motor = motor_window t (elapsed_ms s n), close_motor = False, drain = False\<rparr>"

definition close_program :: "valve_timing \<Rightarrow> u64 \<Rightarrow> u64 \<Rightarrow> u64 \<Rightarrow> valve_outputs" where
  "close_program t s d n =
     \<lparr>open_motor = False, close_motor = motor_window t (elapsed_ms s n),
      drain = (seq_len t \<le> elapsed_ms s n \<and> elapsed_ms d n < 1000 * unat (drain_secs t))\<rparr>"

abbreviation ticks :: "u64 list \<Rightarrow> (u64 \<times> valve_op) list" where
  "ticks ts \<equiv> map (\<lambda>t. (t, VTick)) ts"

lemma tick_turning_on:
  "wv_phase v = PTurningOn s \<Longrightarrow>
   valve_tick v n =
     (if seq_len (wv_timing v) \<le> elapsed_ms s n
      then v\<lparr>wv_user_state := True, wv_phase := Idle\<rparr> else v,
      open_program (wv_timing v) s n)"
  by (auto simp: valve_tick_def Let_def word_nat seq_len_def elapsed_ms_def open_program_def
      motor_window_def default_valve_outputs_def)

lemma tick_idle: "wv_phase v = Idle \<Longrightarrow> valve_tick v n = (v, default_valve_outputs)"
  by (simp add: valve_tick_def)

lemma trace_ticks_idle:
  "wv_phase v = Idle \<Longrightarrow>
     valve_trace v (ticks ts) = map (\<lambda>t. (t, default_valve_outputs)) ts \<and>
     foldl valve_apply v (ticks ts) = v"
  by (induction ts) (simp_all add: tick_idle)

lemma elapsed_mono: "m \<le> n \<Longrightarrow> elapsed_ms s m \<le> elapsed_ms s n"
  by (simp add: elapsed_ms_def word_le_nat_alt)

lemma times_from_ticks: "times_from t (ticks ts) \<Longrightarrow> u \<in> set ts \<Longrightarrow> t \<le> u"
  by (induction ts arbitrary: t) force+

lemma open_program_done:
  "seq_len t \<le> elapsed_ms s n \<Longrightarrow> open_program t s n = default_valve_outputs"
  by (simp add: open_program_def motor_window_def seq_len_def default_valve_outputs_def)

lemma trace_turning_on:
  assumes "wv_phase v = PTurningOn s" "times_from u (ticks ts)"
  shows "valve_trace v (ticks ts) = map (\<lambda>t. (t, open_program (wv_timing v) s t)) ts \<and>
         foldl valve_apply v (ticks ts) =
           (if \<exists>t\<in>set ts. seq_len (wv_timing v) \<le> elapsed_ms s t
            then v\<lparr>wv_user_state := True, wv_phase := Idle\<rparr> else v)"
  using assms
proof (induction ts arbitrary: u)
  case (Cons t ts)
  from Cons.prems have ts: "times_from t (ticks ts)" by simp
  show ?case
  proof (cases "seq_len (wv_timing v) \<le> elapsed_ms s t")
    case True
    have "open_program (wv_timing v) s r = default_valve_outputs" if "r \<in> set ts" for r
      using elapsed_mono [OF times_from_ticks [OF ts that], of s] True
      by (intro open_program_done) simp
    with True Cons.prems show ?thesis
      by (simp add: tick_turning_on trace_ticks_idle)
  next
    case False
    with Cons.IH [OF Cons.prems(1) ts] Cons.prems show ?thesis
      by (simp add: tick_turning_on)
  qed
qed simp

lemma turn_on_from_off:
  "valve_state v = Off \<Longrightarrow> valve_turn_on v s = v\<lparr>wv_phase := PTurningOn s\<rparr>"
  by (auto simp: valve_state_def valve_turn_on_def split: valve_splits)

text \<open>The turn-on table. A turn-on accepted in state Off (idle, or mid-drain) and then ticked at
  any later times drives exactly the open motor, exactly while the elapsed time lies in
  [1 s, 1 s + motor run), never the other outputs; and the valve reports On precisely once some
  tick has reached motor run + 2 s, TurningOn before.\<close>

theorem valve_turn_on_program:
  assumes "valve_state v = Off" "times_from s (ticks ts)"
  shows "valve_trace (valve_turn_on v s) (ticks ts) =
           map (\<lambda>t. (t, open_program (wv_timing v) s t)) ts \<and>
         valve_state (foldl valve_apply (valve_turn_on v s) (ticks ts)) =
           (if list_ex (\<lambda>t. seq_len (wv_timing v) \<le> elapsed_ms s t) ts then On else TurningOn)"
  using trace_turning_on [of "valve_turn_on v s" s s ts] assms
  by (auto simp: turn_on_from_off valve_state_def list_ex_iff)

lemma valve_turn_on_program_witness:
  "valve_state (foldl valve_apply (valve_turn_on valve_new 0) (ticks [1000, 16000])) = On"
  using valve_turn_on_program [of valve_new 0 "[1000, 16000]"]
  by (simp add: valve_state_def valve_new_def valve_with_timing_def default_valve_timing_def
      seq_len_def elapsed_ms_def)

text \<open>The closing movement and the drain hold that follows it.\<close>

definition close_done_at :: "valve_timing \<Rightarrow> u64 \<Rightarrow> u64 list \<Rightarrow> u64" where
  "close_done_at t s ts = (case find (\<lambda>n. seq_len t \<le> elapsed_ms s n) ts of Some d \<Rightarrow> d | None \<Rightarrow> 0)"

lemma tick_draining:
  "wv_phase v = Draining d \<Longrightarrow>
   valve_tick v n =
     (if 1000 * unat (drain_secs (wv_timing v)) \<le> elapsed_ms d n then v\<lparr>wv_phase := Idle\<rparr> else v,
      default_valve_outputs\<lparr>drain := elapsed_ms d n < 1000 * unat (drain_secs (wv_timing v))\<rparr>)"
  by (auto simp: valve_tick_def Let_def word_nat elapsed_ms_def default_valve_outputs_def)

lemma trace_draining:
  assumes "wv_phase v = Draining d" "times_from u (ticks ts)"
  shows "valve_trace v (ticks ts) =
    map (\<lambda>t. (t, default_valve_outputs\<lparr>drain := elapsed_ms d t < 1000 * unat (drain_secs (wv_timing v))\<rparr>)) ts"
  using assms
proof (induction ts arbitrary: u)
  case (Cons t ts)
  from Cons.prems have ts: "times_from t (ticks ts)" by simp
  show ?case
  proof (cases "1000 * unat (drain_secs (wv_timing v)) \<le> elapsed_ms d t")
    case True
    have "\<not> elapsed_ms d r < 1000 * unat (drain_secs (wv_timing v))" if "r \<in> set ts" for r
      using elapsed_mono [OF times_from_ticks [OF ts that], of d] True by simp
    with True Cons.prems show ?thesis
      by (simp add: tick_draining trace_ticks_idle default_valve_outputs_def)
  next
    case False
    with Cons.IH [OF Cons.prems(1) ts] Cons.prems show ?thesis
      by (simp add: tick_draining)
  qed
qed simp

lemma tick_turning_off_before:
  "wv_phase v = PTurningOff s \<Longrightarrow> elapsed_ms s n < seq_len (wv_timing v) \<Longrightarrow>
   valve_tick v n = (v, close_program (wv_timing v) s d n)"
  by (auto simp: valve_tick_def Let_def word_nat seq_len_def elapsed_ms_def close_program_def
      motor_window_def default_valve_outputs_def)

lemma tick_turning_off_done:
  "wv_phase v = PTurningOff s \<Longrightarrow> seq_len (wv_timing v) \<le> elapsed_ms s n \<Longrightarrow>
   valve_tick v n =
     (v\<lparr>wv_user_state := False,
        wv_phase := (if drain_secs (wv_timing v) = 0 then Idle else Draining n)\<rparr>,
      close_program (wv_timing v) s n n)"
  by (auto simp: valve_tick_def Let_def word_nat seq_len_def elapsed_ms_def close_program_def
      motor_window_def default_valve_outputs_def unat_eq_zero unat_gt_0)

lemma close_program_done:
  "seq_len t \<le> elapsed_ms s n \<Longrightarrow>
   close_program t s d n = default_valve_outputs\<lparr>drain := elapsed_ms d n < 1000 * unat (drain_secs t)\<rparr>"
  by (simp add: close_program_def motor_window_def seq_len_def default_valve_outputs_def)

lemma trace_turning_off:
  assumes "wv_phase v = PTurningOff s" "times_from u (ticks ts)"
  shows "valve_trace v (ticks ts) =
    map (\<lambda>t. (t, close_program (wv_timing v) s (close_done_at (wv_timing v) s ts) t)) ts"
  using assms
proof (induction ts arbitrary: u)
  case (Cons t ts)
  from Cons.prems have ts: "times_from t (ticks ts)" by simp
  show ?case
  proof (cases "seq_len (wv_timing v) \<le> elapsed_ms s t")
    case True
    then have d: "close_done_at (wv_timing v) s (t # ts) = t"
      by (simp add: close_done_at_def)
    have late: "close_program (wv_timing v) s t r =
        default_valve_outputs\<lparr>drain := elapsed_ms t r < 1000 * unat (drain_secs (wv_timing v))\<rparr>"
      if "r \<in> set ts" for r
      using elapsed_mono [OF times_from_ticks [OF ts that], of s] True
      by (intro close_program_done) simp
    show ?thesis
    proof (cases "drain_secs (wv_timing v) = 0")
      case True
      with \<open>seq_len _ \<le> _\<close> Cons.prems d late show ?thesis
        by (simp add: tick_turning_off_done trace_ticks_idle default_valve_outputs_def)
    next
      case False
      then have "valve_trace (fst (valve_tick v t)) (ticks ts) =
          map (\<lambda>r. (r, close_program (wv_timing v) s t r)) ts"
        using \<open>seq_len _ \<le> _\<close> Cons.prems late ts
        by (simp add: tick_turning_off_done trace_draining [where d = t and u = t])
      with \<open>seq_len _ \<le> _\<close> Cons.prems d show ?thesis
        by (simp add: tick_turning_off_done)
    qed
  next
    case False
    then have "close_done_at (wv_timing v) s (t # ts) = close_done_at (wv_timing v) s ts"
      by (simp add: close_done_at_def)
    moreover have "valve_tick v t =
        (v, close_program (wv_timing v) s (close_done_at (wv_timing v) s ts) t)"
      using False Cons.prems by (intro tick_turning_off_before) simp_all
    ultimately show ?thesis
      using Cons.IH [OF Cons.prems(1) ts] by simp
  qed
qed simp

lemma turn_off_from_on:
  "valve_state v = On \<Longrightarrow> valve_turn_off v s = v\<lparr>wv_phase := PTurningOff s\<rparr>"
  by (auto simp: valve_state_def valve_turn_off_def split: valve_splits)

text \<open>The turn-off table. A turn-off accepted in state On and then ticked at any later times
  drives the close motor exactly in the window [1 s, 1 s + motor run), and from the first tick that
  reaches motor run + 2 s it drives the drain for exactly the configured hold (not at all when the
  hold is 0), whatever the tick spacing.\<close>

theorem valve_turn_off_program:
  assumes "valve_state v = On" "times_from s (ticks ts)"
  shows "valve_trace (valve_turn_off v s) (ticks ts) =
    map (\<lambda>t. (t, close_program (wv_timing v) s (close_done_at (wv_timing v) s ts) t)) ts"
  using trace_turning_off [of "valve_turn_off v s" s s ts] assms
  by (simp add: turn_off_from_on)

lemma valve_turn_off_program_witness:
  "map (drain o snd) (valve_trace (valve_turn_off (valve_restore valve_new True) 0)
     (ticks [1000, 16000, 315999, 316000])) = [False, True, True, False]"
proof -
  have "valve_state (valve_restore valve_new True) = On"
    "times_from 0 (ticks [1000, 16000, 315999, 316000])"
    by (simp_all add: valve_state_def valve_restore_def valve_new_def valve_with_timing_def)
  from valve_turn_off_program [OF this] show ?thesis
    by (simp add: valve_restore_def valve_new_def valve_with_timing_def default_valve_timing_def
        close_program_def close_done_at_def seq_len_def elapsed_ms_def)
qed

section \<open>A started sequence cannot be disturbed\<close>

definition is_retime :: "valve_op \<Rightarrow> bool" where
  "is_retime e = (case e of VSetTiming _ \<Rightarrow> True | _ \<Rightarrow> False)"

lemma opening_keeps:
  assumes "wv_phase v = PTurningOn s" "elapsed_ms s n < seq_len (wv_timing v)" "\<not> is_retime e"
  shows "valve_apply v (n, e) = v"
  using assms by (cases e) (simp_all add: is_retime_def valve_turn_on_def valve_turn_off_def tick_turning_on)

lemma opening_run:
  assumes "wv_phase v = PTurningOn s"
    "list_all (\<lambda>(n, e). elapsed_ms s n < seq_len (wv_timing v) \<and> \<not> is_retime e) es"
  shows "foldl valve_apply v es = v"
  using assms(2) by (induction es) (auto simp: opening_keeps [OF assms(1)])

text \<open>Commitment: once an opening has started, no sequence of commands and ticks before the
  end of the sequence changes anything, and the first tick at or after motor run + 2 s completes
  it. Turn-off commands issued meanwhile are dropped, not queued.\<close>

theorem valve_opening_commits:
  assumes "valve_state v = Off"
    "list_all (\<lambda>(n, e). elapsed_ms s n < seq_len (wv_timing v) \<and> \<not> is_retime e) es"
    "seq_len (wv_timing v) \<le> elapsed_ms s n"
  shows "foldl valve_apply (valve_turn_on v s) es = valve_turn_on v s \<and>
         valve_state (valve_apply (foldl valve_apply (valve_turn_on v s) es) (n, VTick)) = On"
proof -
  have "foldl valve_apply (valve_turn_on v s) es = valve_turn_on v s"
    using assms by (intro opening_run [where s = s]) (simp_all add: turn_on_from_off)
  with assms show ?thesis
    by (simp add: turn_on_from_off tick_turning_on valve_state_def)
qed

lemma valve_opening_commits_witness:
  "valve_state (valve_apply (foldl valve_apply (valve_turn_on valve_new 5)
     [(7, VTick), (8, VTurnOff), (9000, VTurnOn)]) (16005, VTick)) = On"
proof -
  have "valve_state valve_new = Off"
    "list_all (\<lambda>(n, e). elapsed_ms 5 n < seq_len (wv_timing valve_new) \<and> \<not> is_retime e)
       [(7, VTick), (8, VTurnOff), (9000, VTurnOn)]"
    "seq_len (wv_timing valve_new) \<le> elapsed_ms 5 16005"
    by (simp_all add: valve_state_def valve_new_def valve_with_timing_def
        default_valve_timing_def seq_len_def elapsed_ms_def is_retime_def)
  from valve_opening_commits [OF this] show ?thesis by blast
qed

end
