(* ===== verification/Timed_Switch.thy ===== *)
theory Timed_Switch
  imports Prelude
begin

text \<open>
  A GPIO output with an auto-off timer, \<open>crates/core/src/switch.rs\<close>: the sprinklers. The record
  has the four private fields of \<open>TimedSwitch\<close>; \<open>duration\<close> is \<open>core::time::Duration\<close>, whose
  \<open>as_millis() as u64\<close> is the only observation the code makes.
\<close>

section \<open>State and operations\<close>

record duration =
  dur_secs :: u64
  dur_nanos :: u32

definition duration_from_secs :: "u64 \<Rightarrow> duration" where
  "duration_from_secs s = \<lparr>dur_secs = s, dur_nanos = 0\<rparr>"

text \<open>\<open>as_millis\<close> is computed in \<open>u128\<close> and cut to \<open>u64\<close>: arithmetic modulo \<open>2 ^ 64\<close>.\<close>

definition as_millis_u64 :: "duration \<Rightarrow> u64" where
  "as_millis_u64 d = dur_secs d * 1000 + as_u64 (dur_nanos d div 1000000)"

record timed_switch =
  sw_on :: bool
  sw_on_since :: "u64 option"
  sw_auto_off :: "duration option"
  sw_override :: "duration option"

definition switch_new :: "duration option \<Rightarrow> timed_switch" where
  "switch_new auto_off =
     \<lparr>sw_on = False, sw_on_since = None, sw_auto_off = auto_off, sw_override = None\<rparr>"

definition switch_set_auto_off :: "timed_switch \<Rightarrow> duration option \<Rightarrow> timed_switch" where
  "switch_set_auto_off sw a = sw\<lparr>sw_auto_off := a\<rparr>"

definition switch_turn_on :: "timed_switch \<Rightarrow> u64 \<Rightarrow> timed_switch" where
  "switch_turn_on sw now_ms =
     (if \<not> sw_on sw then sw\<lparr>sw_on := True, sw_on_since := Some now_ms, sw_override := None\<rparr> else sw)"

definition switch_turn_on_for :: "timed_switch \<Rightarrow> u64 \<Rightarrow> duration \<Rightarrow> timed_switch" where
  "switch_turn_on_for sw now_ms d =
     (if \<not> sw_on sw then sw\<lparr>sw_on := True, sw_on_since := Some now_ms, sw_override := Some d\<rparr>
      else sw)"

definition switch_turn_off :: "timed_switch \<Rightarrow> u64 \<Rightarrow> timed_switch" where
  "switch_turn_off sw now_ms = sw\<lparr>sw_on := False, sw_on_since := None, sw_override := None\<rparr>"

definition effective_auto_off :: "timed_switch \<Rightarrow> duration option" where
  "effective_auto_off sw = (case sw_override sw of Some d \<Rightarrow> Some d | None \<Rightarrow> sw_auto_off sw)"

definition switch_tick :: "timed_switch \<Rightarrow> u64 \<Rightarrow> timed_switch \<times> bool" where
  "switch_tick sw now_ms =
    (if \<not> sw_on sw then (sw, False)
     else case effective_auto_off sw of
       None \<Rightarrow> (sw, False)
     | Some d \<Rightarrow> (case sw_on_since sw of
         None \<Rightarrow> (sw, False)
       | Some t0 \<Rightarrow>
           if as_millis_u64 d \<le> sat_sub now_ms t0 then (switch_turn_off sw now_ms, True)
           else (sw, False)))"

datatype switch_op = SOn | SOnFor duration | SOff | STick | SSetAutoOff "duration option"

fun switch_apply :: "timed_switch \<Rightarrow> u64 \<times> switch_op \<Rightarrow> timed_switch" where
  "switch_apply sw (n, SOn) = switch_turn_on sw n"
| "switch_apply sw (n, SOnFor d) = switch_turn_on_for sw n d"
| "switch_apply sw (n, SOff) = switch_turn_off sw n"
| "switch_apply sw (n, STick) = fst (switch_tick sw n)"
| "switch_apply sw (n, SSetAutoOff a) = switch_set_auto_off sw a"

section \<open>The representation invariant\<close>

lemmas switch_defs [step_simps] =
  switch_turn_on_def switch_turn_on_for_def switch_turn_off_def switch_tick_def
  switch_set_auto_off_def effective_auto_off_def

text \<open>On exactly when a start time is remembered; no override survives the
  switch-off.\<close>

definition switch_ok :: "timed_switch \<Rightarrow> bool" where
  "switch_ok sw \<longleftrightarrow> (sw_on sw \<longleftrightarrow> sw_on_since sw \<noteq> None) \<and> (\<not> sw_on sw \<longrightarrow> sw_override sw = None)"

lemma switch_ok_new [simp]: "switch_ok (switch_new a)"
  by (simp add: switch_ok_def switch_new_def)

lemma switch_ok_apply: "switch_ok sw \<Longrightarrow> switch_ok (switch_apply sw e)"
  by (cases e; cases "snd e") (auto simp: switch_ok_def switch_defs split: option.splits)

interpretation sm: run_machine switch_apply "\<lambda>_ _. True" switch_ok
  by unfold_locales (rule switch_ok_apply)

lemma switch_ok_turn_on [simp]: "switch_ok sw \<Longrightarrow> switch_ok (switch_turn_on sw n)"
  using switch_ok_apply [of sw "(n, SOn)"] by simp

lemma switch_ok_turn_on_for [simp]: "switch_ok sw \<Longrightarrow> switch_ok (switch_turn_on_for sw n d)"
  using switch_ok_apply [of sw "(n, SOnFor d)"] by simp

lemma switch_ok_turn_off [simp]: "switch_ok (switch_turn_off sw n)"
  by (simp add: switch_ok_def switch_turn_off_def)

lemma switch_ok_tick [simp]: "switch_ok sw \<Longrightarrow> switch_ok (fst (switch_tick sw n))"
  using switch_ok_apply [of sw "(n, STick)"] by simp

lemma switch_ok_set_auto_off [simp]: "switch_ok sw \<Longrightarrow> switch_ok (switch_set_auto_off sw a)"
  using switch_ok_apply [of sw "(0, SSetAutoOff a)"] by simp

lemma switch_tick_off: "\<not> sw_on sw \<Longrightarrow> switch_tick sw n = (sw, False)"
  by (simp add: switch_tick_def)

lemma switch_auto_off_kept [simp]:
  "sw_auto_off (switch_turn_on sw n) = sw_auto_off sw"
  "sw_auto_off (switch_turn_on_for sw n d) = sw_auto_off sw"
  "sw_auto_off (switch_turn_off sw n) = sw_auto_off sw"
  "sw_auto_off (fst (switch_tick sw n)) = sw_auto_off sw"
  by (auto simp: switch_defs split: option.splits)

lemma switch_tick_result: "snd (switch_tick sw n) \<longleftrightarrow> sw_on sw \<and> \<not> sw_on (fst (switch_tick sw n))"
  by (auto simp: switch_defs split: option.splits)

text \<open>C19. On every switch that any run of calls can produce from \<open>TimedSwitch::new\<close>, a tick at or
  after start + effective limit switches the output off and reports it: the early return for a
  missing start time is never taken, so no reachable switch with a limit is stuck on.\<close>

theorem switch_never_stuck_on:
  assumes "sw = foldl switch_apply (switch_new a) es" "sw_on sw"
    and "effective_auto_off sw = Some d"
  shows "\<exists>t0. sw_on_since sw = Some t0 \<and>
    switch_tick sw n =
      (if unat (as_millis_u64 d) \<le> unat n - unat t0 then (switch_turn_off sw n, True) else (sw, False))"
proof -
  have "switch_ok sw"
    using sm.run_inv_total [of "switch_new a" es] assms(1) by simp
  with assms(2) obtain t0 where "sw_on_since sw = Some t0"
    by (auto simp: switch_ok_def)
  with assms(2,3) show ?thesis
    by (simp add: switch_tick_def word_le_nat_alt)
qed

lemma switch_never_stuck_on_witness:
  "switch_tick (foldl switch_apply (switch_new None) [(5, SOnFor (duration_from_secs 2))]) 2005 =
     (switch_turn_off (foldl switch_apply (switch_new None) [(5, SOnFor (duration_from_secs 2))]) 2005, True)"
  using switch_never_stuck_on
    [of "foldl switch_apply (switch_new None) [(5, SOnFor (duration_from_secs 2))]" None
       "[(5, SOnFor (duration_from_secs 2))]" "duration_from_secs 2" 2005]
  by (simp add: switch_new_def switch_turn_on_for_def effective_auto_off_def as_millis_u64_def
      duration_from_secs_def as_u64_def)

section \<open>One activation\<close>

definition keeps_on :: "u64 \<Rightarrow> duration \<Rightarrow> u64 \<times> switch_op \<Rightarrow> bool" where
  "keeps_on s d = (\<lambda>(n, e). case e of
      SOn \<Rightarrow> True
    | SOnFor _ \<Rightarrow> True
    | STick \<Rightarrow> unat n - unat s < unat (as_millis_u64 d)
    | _ \<Rightarrow> False)"

lemma keeps_on_apply:
  "sw_on sw \<Longrightarrow> sw_on_since sw = Some s \<Longrightarrow> effective_auto_off sw = Some d \<Longrightarrow> keeps_on s d e \<Longrightarrow>
     switch_apply sw e = sw"
  by (cases e; cases "snd e")
     (auto simp: keeps_on_def switch_turn_on_def switch_turn_on_for_def switch_tick_def
       word_le_nat_alt)

lemma keeps_on_run:
  assumes "sw_on sw" "sw_on_since sw = Some s" "effective_auto_off sw = Some d"
    and "list_all (keeps_on s d) es"
  shows "foldl switch_apply sw es = sw"
  using assms(4) by (induction es) (simp_all add: keeps_on_apply [OF assms(1-3)])

text \<open>One activation runs for its own limit and no longer. After \<open>turn_on_for\<close> on an off
  switch, repeated turn-on commands (of both kinds, with any duration) and early ticks change
  nothing, in particular they do not extend the run; the next tick fires exactly when the override
  has elapsed, and the following plain activation is back on the configured limit.\<close>

theorem switch_activation_exact:
  assumes "\<not> sw_on sw" "list_all (keeps_on s d) es"
  shows "let sw' = foldl switch_apply (switch_turn_on_for sw s d) es in
     sw' = switch_turn_on_for sw s d \<and>
     switch_tick sw' n =
       (if unat (as_millis_u64 d) \<le> unat n - unat s then (switch_turn_off sw' n, True) else (sw', False)) \<and>
     effective_auto_off (switch_turn_on (switch_turn_off sw' n) m) = sw_auto_off sw"
proof -
  have "foldl switch_apply (switch_turn_on_for sw s d) es = switch_turn_on_for sw s d"
    using assms by (intro keeps_on_run [where s = s and d = d])
      (simp_all add: switch_turn_on_for_def effective_auto_off_def)
  with assms(1) show ?thesis
    by (simp add: switch_defs word_le_nat_alt)
qed

lemma switch_activation_exact_witness:
  "sw_on (foldl switch_apply (switch_turn_on_for (switch_new None) 0 (duration_from_secs 3))
      [(1000, STick), (1500, SOn), (2900, SOnFor (duration_from_secs 60)), (2999, STick)])"
proof -
  have "\<not> sw_on (switch_new None)"
    "list_all (keeps_on 0 (duration_from_secs 3))
      [(1000, STick), (1500, SOn), (2900, SOnFor (duration_from_secs 60)), (2999, STick)]"
    by (simp_all add: switch_new_def keeps_on_def as_millis_u64_def duration_from_secs_def as_u64_def)
  from switch_activation_exact [OF this, of 3000] show ?thesis
    by (simp add: Let_def switch_turn_on_for_def switch_new_def)
qed

end
