(* ===== verification/Float32.thy ===== *)
theory Float32
  imports Prelude "HOL-Library.Log_Nat"
begin

text \<open>
  The \<open>f32\<close> of the Rust sources: IEEE 754 binary32 values as sign and exact rational
  magnitude, with the operations the program uses. Every arithmetic result is the exact one
  rounded to nearest, ties to even, with 24 significant bits and gradual underflow; a result
  of at least \<open>2 ^ 128\<close> after rounding is infinite.
\<close>

section \<open>Values and rounding\<close>

datatype f32 = NaN | Inf bool | Fin bool rat

text \<open>\<open>Fin s q\<close> is \<open>q\<close> with sign \<open>s\<close> (\<open>True\<close> is negative); \<open>q\<close> is never negative.\<close>

definition pow2 :: "int \<Rightarrow> rat" where
  "pow2 e = (if 0 \<le> e then of_int (2 ^ nat e) else 1 / of_int (2 ^ nat (- e)))"

definition round_even :: "rat \<Rightarrow> int" where
  "round_even q =
    (let f = floor q; r = q - of_int f in
     if r < 1 / 2 then f else if 1 / 2 < r then f + 1 else if even f then f else f + 1)"

text \<open>The largest exponent \<open>e\<close> with \<open>2 ^ e \<le> q\<close>, for a positive \<open>q\<close>.\<close>

definition binade :: "rat \<Rightarrow> int" where
  "binade q =
    (let (n, d) = quotient_of q; e = bitlen n - bitlen d in
     if pow2 e \<le> q then e else e - 1)"

definition f32_ulp_exp :: "rat \<Rightarrow> int" where
  "f32_ulp_exp q = max (binade q - 23) (- 149)"

definition round_mag :: "rat \<Rightarrow> rat" where
  "round_mag q = (if q = 0 then 0 else
    (let u = pow2 (f32_ulp_exp q) in of_int (round_even (q / u)) * u))"

definition f32_make :: "bool \<Rightarrow> rat \<Rightarrow> f32" where
  "f32_make s q = (let r = round_mag q in if r < pow2 128 then Fin s r else Inf s)"

text \<open>An exact rational to \<open>f32\<close>; the exact zero is \<open>+0\<close>.\<close>

definition f32_of_rat :: "rat \<Rightarrow> f32" where
  "f32_of_rat q = f32_make (q < 0) \<bar>q\<bar>"

definition f32_of_int :: "int \<Rightarrow> f32" where
  "f32_of_int i = f32_of_rat (of_int i)"

fun signed_mag :: "bool \<Rightarrow> rat \<Rightarrow> rat" where
  "signed_mag s q = (if s then - q else q)"

fun is_finite :: "f32 \<Rightarrow> bool" where
  "is_finite (Fin _ _) = True"
| "is_finite _ = False"

text \<open>The rational value of a finite number; 0 stands for the others, which the lemmas exclude.\<close>

fun f32_value :: "f32 \<Rightarrow> rat" where
  "f32_value (Fin s q) = signed_mag s q"
| "f32_value _ = 0"

section \<open>Arithmetic\<close>

fun f32_neg :: "f32 \<Rightarrow> f32" where
  "f32_neg NaN = NaN"
| "f32_neg (Inf s) = Inf (\<not> s)"
| "f32_neg (Fin s q) = Fin (\<not> s) q"

fun f32_abs :: "f32 \<Rightarrow> f32" where
  "f32_abs NaN = NaN"
| "f32_abs (Inf s) = Inf False"
| "f32_abs (Fin s q) = Fin False q"

fun f32_add :: "f32 \<Rightarrow> f32 \<Rightarrow> f32" where
  "f32_add (Fin s p) (Fin t q) =
     (if p = 0 \<and> q = 0 then Fin (s \<and> t) 0 else f32_of_rat (signed_mag s p + signed_mag t q))"
| "f32_add (Inf s) (Inf t) = (if s = t then Inf s else NaN)"
| "f32_add (Inf s) (Fin _ _) = Inf s"
| "f32_add (Fin _ _) (Inf t) = Inf t"
| "f32_add _ _ = NaN"

definition f32_sub :: "f32 \<Rightarrow> f32 \<Rightarrow> f32" where
  "f32_sub a b = f32_add a (f32_neg b)"

fun f32_mul :: "f32 \<Rightarrow> f32 \<Rightarrow> f32" where
  "f32_mul (Fin s p) (Fin t q) = f32_make (s \<noteq> t) (p * q)"
| "f32_mul (Inf s) (Inf t) = Inf (s \<noteq> t)"
| "f32_mul (Inf s) (Fin t q) = (if q = 0 then NaN else Inf (s \<noteq> t))"
| "f32_mul (Fin s p) (Inf t) = (if p = 0 then NaN else Inf (s \<noteq> t))"
| "f32_mul _ _ = NaN"

fun f32_div :: "f32 \<Rightarrow> f32 \<Rightarrow> f32" where
  "f32_div (Fin s p) (Fin t q) =
     (if q = 0 then (if p = 0 then NaN else Inf (s \<noteq> t)) else f32_make (s \<noteq> t) (p / q))"
| "f32_div (Inf s) (Fin t _) = Inf (s \<noteq> t)"
| "f32_div (Fin s _) (Inf t) = Fin (s \<noteq> t) 0"
| "f32_div _ _ = NaN"

section \<open>Comparison\<close>

text \<open>Every comparison with \<open>NaN\<close> is false; \<open>-0\<close> and \<open>+0\<close> are equal.\<close>

fun f32_lt :: "f32 \<Rightarrow> f32 \<Rightarrow> bool" where
  "f32_lt (Fin s p) (Fin t q) = (signed_mag s p < signed_mag t q)"
| "f32_lt (Inf s) (Fin _ _) = s"
| "f32_lt (Fin _ _) (Inf t) = (\<not> t)"
| "f32_lt (Inf s) (Inf t) = (s \<and> \<not> t)"
| "f32_lt _ _ = False"

fun f32_le :: "f32 \<Rightarrow> f32 \<Rightarrow> bool" where
  "f32_le (Fin s p) (Fin t q) = (signed_mag s p \<le> signed_mag t q)"
| "f32_le (Inf s) (Fin _ _) = s"
| "f32_le (Fin _ _) (Inf t) = (\<not> t)"
| "f32_le (Inf s) (Inf t) = (s \<or> \<not> t)"
| "f32_le _ _ = False"

text \<open>\<open>f32::min\<close> and \<open>f32::max\<close> return the other operand when one is \<open>NaN\<close>.\<close>

definition f32_min :: "f32 \<Rightarrow> f32 \<Rightarrow> f32" where
  "f32_min a b = (if a = NaN then b else if b = NaN then a else if f32_le a b then a else b)"

definition f32_max :: "f32 \<Rightarrow> f32 \<Rightarrow> f32" where
  "f32_max a b = (if a = NaN then b else if b = NaN then a else if f32_le b a then a else b)"

definition F32_EPSILON :: f32 where
  "F32_EPSILON = Fin False (1 / 8388608)"

abbreviation f32_zero :: f32 where
  "f32_zero \<equiv> Fin False 0"

section \<open>Facts\<close>

text \<open>A number is well formed when rounding keeps it: the values a binary32 register holds.\<close>

fun wf_f32 :: "f32 \<Rightarrow> bool" where
  "wf_f32 (Fin _ q) = (0 \<le> q \<and> round_mag q = q \<and> q < pow2 128)"
| "wf_f32 _ = True"

lemma pow2_pos [simp]: "0 < pow2 e"
  by (simp add: pow2_def)

lemma pow2_nonneg [simp]: "0 \<le> pow2 e"
  using pow2_pos [of e] by linarith

lemma pow2_neq_0 [simp]: "pow2 e \<noteq> 0"
  using pow2_pos [of e] by linarith

lemma round_even_of_int [simp]: "round_even (of_int i) = i"
  by (simp add: round_even_def)

lemma round_even_nonneg: "0 \<le> q \<Longrightarrow> 0 \<le> round_even q"
  by (simp add: round_even_def Let_def)

text \<open>Rounding to an integer is off by at most a half.\<close>

lemma round_even_error: "\<bar>of_int (round_even q) - q\<bar> \<le> 1 / 2"
proof -
  have "of_int \<lfloor>q\<rfloor> \<le> q" "q < of_int \<lfloor>q\<rfloor> + 1" by linarith+
  then show ?thesis
    by (auto simp: round_even_def Let_def abs_le_iff)
qed

lemma round_mag_zero [simp]: "round_mag 0 = 0"
  by (simp add: round_mag_def)

lemma round_mag_nonneg: "0 \<le> q \<Longrightarrow> 0 \<le> round_mag q"
  by (simp add: round_mag_def Let_def round_even_nonneg)

lemma round_mag_error:
  "q \<noteq> 0 \<Longrightarrow> \<bar>round_mag q - q\<bar> \<le> pow2 (f32_ulp_exp q) / 2"
proof -
  assume q: "q \<noteq> 0"
  let ?u = "pow2 (f32_ulp_exp q)"
  have "round_mag q - q = (of_int (round_even (q / ?u)) - q / ?u) * ?u"
    using q by (simp add: round_mag_def Let_def field_simps)
  then have "\<bar>round_mag q - q\<bar> = \<bar>of_int (round_even (q / ?u)) - q / ?u\<bar> * ?u"
    by (simp add: abs_mult)
  also have "\<dots> \<le> 1 / 2 * ?u"
    by (intro mult_right_mono round_even_error) simp
  finally show ?thesis by simp
qed

lemma f32_make_zero [simp]: "f32_make s 0 = Fin s 0"
  by (simp add: f32_make_def)

lemma f32_make_wf: "0 \<le> q \<Longrightarrow> round_mag q = q \<Longrightarrow> q < pow2 128 \<Longrightarrow> f32_make s q = Fin s q"
  by (simp add: f32_make_def)

lemma f32_of_rat_0 [simp]: "f32_of_rat 0 = Fin False 0"
  by (simp add: f32_of_rat_def)

lemma f32_sub_self: "is_finite x \<Longrightarrow> f32_sub x x = f32_zero"
  by (cases x) (auto simp: f32_sub_def)

lemma f32_le_refl [simp]: "f32_le x x \<longleftrightarrow> x \<noteq> NaN"
  by (cases x) auto

lemma f32_lt_irrefl [simp]: "\<not> f32_lt x x"
  by (cases x) auto

lemma f32_not_le: "x \<noteq> NaN \<Longrightarrow> y \<noteq> NaN \<Longrightarrow> \<not> f32_le x y \<longleftrightarrow> f32_lt y x"
  by (cases x; cases y) auto

lemma f32_lt_imp_le: "f32_lt x y \<Longrightarrow> f32_le x y"
  by (cases x; cases y) auto

lemma f32_le_trans: "f32_le x y \<Longrightarrow> f32_le y z \<Longrightarrow> f32_le x z"
  by (cases x; cases y; cases z) (auto split: if_splits)

lemma f32_lt_trans: "f32_lt x y \<Longrightarrow> f32_lt y z \<Longrightarrow> f32_lt x z"
  by (cases x; cases y; cases z) (auto split: if_splits)

lemma f32_lt_le_trans: "f32_lt x y \<Longrightarrow> f32_le y z \<Longrightarrow> f32_lt x z"
  by (cases x; cases y; cases z) (auto split: if_splits)

lemma f32_le_lt_trans: "f32_le x y \<Longrightarrow> f32_lt y z \<Longrightarrow> f32_lt x z"
  by (cases x; cases y; cases z) (auto split: if_splits)

lemma f32_le_not_NaN: "f32_le x y \<Longrightarrow> x \<noteq> NaN \<and> y \<noteq> NaN"
  by (cases x; cases y) auto

lemma f32_lt_not_NaN: "f32_lt x y \<Longrightarrow> x \<noteq> NaN \<and> y \<noteq> NaN"
  by (cases x; cases y) auto

text \<open>Adding a zero of either sign gives back the value, with a zero result normalised.\<close>

lemma f32_add_zero:
  "wf_f32 (Fin s q) \<Longrightarrow> f32_add (Fin s q) (Fin t 0) = (if q = 0 then Fin (s \<and> t) 0 else Fin s q)"
  by (auto simp: f32_of_rat_def f32_make_wf)

lemma f32_mul_zero_left: "is_finite y \<Longrightarrow> \<exists>t. f32_mul (Fin s 0) y = Fin t 0"
  by (cases y) auto

end
