(* ===== verification/Calibration.thy ===== *)
theory Calibration
  imports Float32 "HOL-Library.Multiset"
begin

text \<open>
  Piecewise-linear calibration, \<open>crates/core/src/calibration.rs\<close>. A point is a pair
  (raw, calibrated); \<open>None\<close> of \<open>cal_apply\<close> and \<open>cal_then\<close> is a panic (an index out of range, or
  the \<open>expect\<close>), \<open>None\<close> of \<open>cal_new\<close> is the constructor's own \<open>None\<close>. \<open>sort_by\<close> is a stable
  insertion sort; on raws that contain \<open>NaN\<close> the standard library leaves the order open and the
  model takes one of the allowed ones, so the ordering theorems exclude \<open>NaN\<close>.
\<close>

type_synonym cal_point = "f32 \<times> f32"

record calibration =
  cal_points :: "cal_point list"

section \<open>Operations\<close>

fun insert_by :: "('a \<Rightarrow> 'a \<Rightarrow> bool) \<Rightarrow> 'a \<Rightarrow> 'a list \<Rightarrow> 'a list" where
  "insert_by lt x [] = [x]"
| "insert_by lt x (y # ys) = (if lt y x then y # insert_by lt x ys else x # y # ys)"

definition sort_by :: "('a \<Rightarrow> 'a \<Rightarrow> bool) \<Rightarrow> 'a list \<Rightarrow> 'a list" where
  "sort_by lt xs = foldr (insert_by lt) xs []"

definition windows2 :: "'a list \<Rightarrow> ('a \<times> 'a) list" where
  "windows2 xs = zip xs (tl xs)"

definition raw_lt :: "cal_point \<Rightarrow> cal_point \<Rightarrow> bool" where
  "raw_lt a b = f32_lt (fst a) (fst b)"

definition too_close :: "f32 \<Rightarrow> f32 \<Rightarrow> bool" where
  "too_close a b = f32_lt (f32_abs (f32_sub a b)) F32_EPSILON"

definition cal_new :: "cal_point list \<Rightarrow> calibration option" where
  "cal_new points =
    (if length points < 2 then None
     else let pts = sort_by raw_lt points in
       if list_ex (\<lambda>(a, b). too_close (fst a) (fst b)) (windows2 pts) then None
       else Some \<lparr>cal_points = pts\<rparr>)"

definition interp :: "cal_point \<Rightarrow> cal_point \<Rightarrow> f32 \<Rightarrow> f32" where
  "interp a b x =
    (let t = f32_div (f32_sub x (fst a)) (f32_sub (fst b) (fst a)) in
     f32_add (snd a) (f32_mul t (f32_sub (snd b) (snd a))))"

definition cal_apply :: "calibration \<Rightarrow> f32 \<Rightarrow> f32 option" where
  "cal_apply c raw = (case cal_points c of
      [] \<Rightarrow> None
    | [_] \<Rightarrow> None
    | p0 # p1 # _ \<Rightarrow>
        if f32_lt raw (fst p0) then Some (interp p0 p1 raw)
        else (case find (\<lambda>(a, b). f32_le (fst a) raw \<and> f32_le raw (fst b)) (windows2 (cal_points c)) of
            Some (a, b) \<Rightarrow> Some (interp a b raw)
          | None \<Rightarrow>
              let n = length (cal_points c) in
              Some (interp (cal_points c ! (n - 2)) (cal_points c ! (n - 1)) raw)))"

definition invert_self :: "calibration \<Rightarrow> f32 \<Rightarrow> f32 option" where
  "invert_self c y =
    (case find (\<lambda>(a, b). f32_le (f32_min (snd a) (snd b)) y \<and> f32_le y (f32_max (snd a) (snd b)))
        (windows2 (cal_points c)) of
      None \<Rightarrow> None
    | Some ((x0, y0), (x1, y1)) \<Rightarrow>
        if too_close y1 y0 then Some x0
        else Some (f32_add x0 (f32_mul (f32_div (f32_sub y y0) (f32_sub y1 y0)) (f32_sub x1 x0))))"

text \<open>\<open>dedup_by\<close> drops an element that is close to the last one kept.\<close>

fun dedup_close :: "f32 list \<Rightarrow> f32 list" where
  "dedup_close [] = []"
| "dedup_close [x] = [x]"
| "dedup_close (x # y # ys) =
     (if too_close y x then dedup_close (x # ys) else x # dedup_close (y # ys))"

definition cal_then :: "calibration \<Rightarrow> calibration \<Rightarrow> calibration option" where
  "cal_then self other =
    (let outs = map snd (cal_points self);
         lo = foldl f32_min (Inf False) outs;
         hi = foldl f32_max (Inf True) outs;
         pulled = List.map_filter (\<lambda>op. let y = fst op in
            if f32_le lo y \<and> f32_le y hi then invert_self self y else None) (cal_points other);
         xs = dedup_close (sort_by f32_lt (map fst (cal_points self) @ pulled))
     in case those (map (\<lambda>x. case cal_apply self x of
            None \<Rightarrow> None
          | Some y \<Rightarrow> map_option (\<lambda>z. (x, z)) (cal_apply other y)) xs) of
          None \<Rightarrow> None
        | Some pairs \<Rightarrow> cal_new pairs)"

section \<open>Sorting\<close>

lemma mset_insert_by [simp]: "mset (insert_by lt x xs) = add_mset x (mset xs)"
  by (induction xs) auto

lemma mset_sort_by [simp]: "mset (sort_by lt xs) = mset xs"
  by (induction xs) (simp_all add: sort_by_def)

lemma length_sort_by [simp]: "length (sort_by lt xs) = length xs"
  by (metis mset_sort_by size_mset)

lemma set_sort_by [simp]: "set (sort_by lt xs) = set xs"
  by (metis mset_sort_by set_mset_mset)

lemma set_insert_by [simp]: "set (insert_by lt x xs) = insert x (set xs)"
  by (metis mset_insert_by set_mset_mset set_mset_add_mset_insert)

abbreviation raw_le :: "cal_point \<Rightarrow> cal_point \<Rightarrow> bool" where
  "raw_le a b \<equiv> f32_le (fst a) (fst b)"

definition finite_raws :: "cal_point list \<Rightarrow> bool" where
  "finite_raws pts = list_all (\<lambda>p. is_finite (fst p)) pts"

lemma finite_not_NaN: "is_finite x \<Longrightarrow> x \<noteq> NaN"
  by (cases x) auto

lemma sorted_insert_by:
  "sorted_wrt raw_le xs \<Longrightarrow> finite_raws (x # xs) \<Longrightarrow> sorted_wrt raw_le (insert_by raw_lt x xs)"
proof (induction xs)
  case (Cons y ys)
  show ?case
  proof (cases "raw_lt y x")
    case True
    with Cons have "sorted_wrt raw_le (insert_by raw_lt x ys)"
      by (simp add: finite_raws_def)
    moreover have "raw_le y x"
      using True by (simp add: raw_lt_def f32_lt_imp_le)
    ultimately show ?thesis
      using True Cons.prems(1) by simp
  next
    case False
    have "fst x \<noteq> NaN" "fst y \<noteq> NaN"
      using Cons.prems(2) by (auto simp: finite_raws_def finite_not_NaN)
    with False have "raw_le x y"
      using f32_not_le [of "fst y" "fst x"] f32_not_le [of "fst x" "fst y"] by (auto simp: raw_lt_def)
    with False Cons.prems(1) show ?thesis
      by (auto simp: raw_lt_def intro: f32_le_trans)
  qed
qed simp

lemma finite_sort_by [simp]: "finite_raws (sort_by lt pts) = finite_raws pts"
  by (simp add: finite_raws_def list_all_iff)

lemma sorted_sort_by: "finite_raws xs \<Longrightarrow> sorted_wrt raw_le (sort_by raw_lt xs)"
proof (induction xs)
  case (Cons x xs)
  have "sort_by raw_lt (x # xs) = insert_by raw_lt x (sort_by raw_lt xs)"
    by (simp add: sort_by_def)
  moreover have "finite_raws (x # sort_by raw_lt xs)" "finite_raws xs"
    using Cons.prems by (simp_all add: finite_raws_def list_all_iff)
  ultimately show ?case
    using Cons.IH by (simp add: sorted_insert_by)
qed (simp add: sort_by_def)

lemma windows2_Cons [simp]: "windows2 (x # y # ys) = (x, y) # windows2 (y # ys)"
  and windows2_short [simp]: "windows2 [] = []" "windows2 [x] = []"
  by (simp_all add: windows2_def)

lemma f32_sub_eq_value:
  "is_finite a \<Longrightarrow> is_finite b \<Longrightarrow> f32_value a = f32_value b \<Longrightarrow> \<exists>s. f32_sub a b = Fin s 0"
  by (cases a; cases b) (auto simp: f32_sub_def split: if_splits)

lemma f32_le_value: "is_finite a \<Longrightarrow> is_finite b \<Longrightarrow> f32_le a b \<longleftrightarrow> f32_value a \<le> f32_value b"
  and f32_lt_value: "is_finite a \<Longrightarrow> is_finite b \<Longrightarrow> f32_lt a b \<longleftrightarrow> f32_value a < f32_value b"
  by (cases a; cases b; simp)+

lemma not_close_lt:
  assumes "is_finite a" "is_finite b" "f32_le a b" "\<not> too_close a b"
  shows "f32_lt a b"
proof (rule ccontr)
  assume "\<not> f32_lt a b"
  with assms have "f32_value a = f32_value b"
    by (simp add: f32_le_value f32_lt_value)
  from f32_sub_eq_value [OF assms(1,2) this] have "too_close a b"
    by (auto simp: too_close_def F32_EPSILON_def)
  with assms(4) show False ..
qed

lemma raw_lt_trans: "raw_lt a b \<Longrightarrow> raw_lt b c \<Longrightarrow> raw_lt a c"
  unfolding raw_lt_def by (rule f32_lt_trans)

lemma strictly_sorted:
  "finite_raws xs \<Longrightarrow> sorted_wrt raw_le xs \<Longrightarrow>
   \<not> list_ex (\<lambda>(a, b). too_close (fst a) (fst b)) (windows2 xs) \<Longrightarrow> sorted_wrt raw_lt xs"
proof (induction xs rule: induct_list012)
  case (3 x y zs)
  then have rest: "sorted_wrt raw_lt (y # zs)"
    by (simp add: finite_raws_def)
  have "raw_lt x y"
    using 3 by (auto simp: raw_lt_def finite_raws_def intro: not_close_lt)
  with rest show ?case
    by (auto intro: raw_lt_trans)
qed simp_all

section \<open>The constructor\<close>

lemma cal_new_SomeD:
  assumes "finite_raws pts" "cal_new pts = Some c"
  shows "2 \<le> length (cal_points c)" "mset (cal_points c) = mset pts" "sorted_wrt raw_lt (cal_points c)"
  using assms strictly_sorted [of "sort_by raw_lt pts"] sorted_sort_by [of pts]
  by (auto simp: cal_new_def Let_def split: if_splits)

text \<open>\<open>Calibration::new\<close> on finite raws: it answers \<open>None\<close> exactly when there are fewer than two
  points or two neighbours in raw order are closer than \<open>f32::EPSILON\<close>; otherwise the stored points
  are a permutation of the given ones in strictly increasing raw order, so no two share a raw.\<close>

theorem calibration_new_spec:
  assumes "finite_raws pts"
  shows "case cal_new pts of
      None \<Rightarrow> length pts < 2 \<or>
        list_ex (\<lambda>(a, b). too_close (fst a) (fst b)) (windows2 (sort_by raw_lt pts))
    | Some c \<Rightarrow> 2 \<le> length (cal_points c) \<and> mset (cal_points c) = mset pts \<and>
        sorted_wrt raw_lt (cal_points c)"
  using cal_new_SomeD [OF assms] by (auto simp: cal_new_def Let_def)

abbreviation fin_nat :: "nat \<Rightarrow> f32" where
  "fin_nat n \<equiv> Fin False (of_nat n)"

lemma calibration_new_spec_witness:
  "(case cal_new [(fin_nat 3, fin_nat 10), (fin_nat 1, fin_nat 20)] of
     None \<Rightarrow> False | Some c \<Rightarrow> sorted_wrt raw_lt (cal_points c))"
proof -
  have "finite_raws [(fin_nat 3, fin_nat 10), (fin_nat 1, fin_nat 20)]"
    by (simp add: finite_raws_def)
  moreover have "\<not> too_close (fin_nat 1) (fin_nat 3)" by code_simp
  ultimately show ?thesis
    using calibration_new_spec [of "[(fin_nat 3, fin_nat 10), (fin_nat 1, fin_nat 20)]"]
    by (auto simp: sort_by_def raw_lt_def windows2_def split: option.splits)
qed

section \<open>Application\<close>

text \<open>\<open>apply\<close> indexes \<open>points[0]\<close>, \<open>points[1]\<close> and \<open>points[n - 2]\<close> without a check: it
  panics exactly on a calibration of fewer than two points, whatever the input. The constructor
  excludes those, the derived \<open>Deserialize\<close> does not.\<close>

theorem calibration_apply_panics_iff:
  "cal_apply c raw = None \<longleftrightarrow> length (cal_points c) < 2"
  by (auto simp: cal_apply_def Let_def split: list.splits option.splits)

text \<open>The segment the contract names: the first whose right end is not below the input, and the
  last one when there is none.\<close>

definition segment_index :: "cal_point list \<Rightarrow> f32 \<Rightarrow> nat" where
  "segment_index pts raw = length (takeWhile (\<lambda>p. f32_lt (fst p) raw) (butlast (tl pts)))"

lemma find_segment:
  assumes "sorted_wrt raw_lt pts" "2 \<le> length pts" "raw \<noteq> NaN" "f32_le (fst (hd pts)) raw"
  shows "let i = segment_index pts raw in
    (case find (\<lambda>(a, b). f32_le (fst a) raw \<and> f32_le raw (fst b)) (windows2 pts) of
       Some (a, b) \<Rightarrow> a = pts ! i \<and> b = pts ! Suc i
     | None \<Rightarrow> i = length pts - 2)"
  using assms
proof (induction pts rule: induct_list012)
  case (3 x y zs)
  then have xy: "f32_lt (fst x) (fst y)" by (simp add: raw_lt_def)
  then have nn: "fst x \<noteq> NaN" "fst y \<noteq> NaN" using f32_lt_not_NaN by blast+
  show ?case
  proof (cases "f32_le raw (fst y)")
    case True
    then have "\<not> f32_lt (fst y) raw"
      using f32_not_le [of raw "fst y"] 3 nn by simp
    with True 3 show ?thesis
      by (simp add: segment_index_def)
  next
    case False
    then have lt: "f32_lt (fst y) raw"
      using f32_not_le [of raw "fst y"] 3 nn by simp
    show ?thesis
    proof (cases zs)
      case Nil
      with False show ?thesis by (simp add: segment_index_def)
    next
      case (Cons z zs')
      with 3 lt have "let i = segment_index (y # zs) raw in
        (case find (\<lambda>(a, b). f32_le (fst a) raw \<and> f32_le raw (fst b)) (windows2 (y # zs)) of
           Some (a, b) \<Rightarrow> a = (y # zs) ! i \<and> b = (y # zs) ! Suc i
         | None \<Rightarrow> i = length (y # zs) - 2)"
        by (simp add: f32_lt_imp_le)
      moreover have "segment_index (x # y # zs) raw = Suc (segment_index (y # zs) raw)"
        using Cons lt by (simp add: segment_index_def)
      ultimately show ?thesis
        using False Cons by (auto simp: Let_def split: option.splits)
    qed
  qed
qed simp_all

text \<open>Segment selection. On a calibration the constructor accepted and any input that is not
  \<open>NaN\<close>, \<open>apply\<close> interpolates on the segment the contract names: the one whose interval contains the
  input (the left one at a shared breakpoint), the first segment below the range, the last above.\<close>

theorem calibration_apply_segment:
  assumes "finite_raws pts" "cal_new pts = Some c" "raw \<noteq> NaN"
  shows "let i = segment_index (cal_points c) raw in
    Suc i < length (cal_points c) \<and>
    cal_apply c raw = Some (interp (cal_points c ! i) (cal_points c ! Suc i) raw)"
proof -
  note c = cal_new_SomeD(1,3) [OF assms(1,2)]
  then obtain p0 p1 ps where p: "cal_points c = p0 # p1 # ps"
    by (metis Suc_le_length_iff numeral_2_eq_2)
  let ?i = "segment_index (cal_points c) raw"
  have len: "Suc ?i < length (cal_points c)"
    using c(1) length_takeWhile_le [of "\<lambda>p. f32_lt (fst p) raw" "butlast (tl (cal_points c))"]
    by (simp add: segment_index_def)
  have "cal_apply c raw = Some (interp (cal_points c ! ?i) (cal_points c ! Suc ?i) raw)"
  proof (cases "f32_lt raw (fst p0)")
    case True
    with c(2) p have "f32_lt raw (fst p1)"
      by (auto simp: raw_lt_def intro: f32_lt_trans)
    then have "\<not> f32_lt (fst p1) raw"
      using f32_lt_trans f32_lt_irrefl by blast
    then have "?i = 0"
      by (cases ps) (simp_all add: segment_index_def p)
    with True p show ?thesis by (simp add: cal_apply_def)
  next
    case False
    have "f32_lt (fst p0) (fst p1)" using c(2) p by (simp add: raw_lt_def)
    then have "fst p0 \<noteq> NaN" using f32_lt_not_NaN by blast
    with False assms(3) have "f32_le (fst p0) raw"
      using f32_not_le [of "fst p0" raw] by blast
    then have seg: "f32_le (fst (hd (cal_points c))) raw" by (simp add: p)
    show ?thesis
      using find_segment [OF c(2,1) assms(3) seg] False p
      by (auto simp: cal_apply_def Let_def simp del: windows2_Cons split: option.splits)
  qed
  with len show ?thesis by (simp add: Let_def)
qed

lemma calibration_apply_segment_witness:
  "cal_apply \<lparr>cal_points = [(fin_nat 1, fin_nat 20), (fin_nat 3, fin_nat 10)]\<rparr> (fin_nat 2) =
     Some (interp (fin_nat 1, fin_nat 20) (fin_nat 3, fin_nat 10) (fin_nat 2))"
proof -
  have "finite_raws [(fin_nat 3, fin_nat 10), (fin_nat 1, fin_nat 20)]"
    by (simp add: finite_raws_def)
  moreover have "\<not> too_close (fin_nat 1) (fin_nat 3)" by code_simp
  then have "cal_new [(fin_nat 3, fin_nat 10), (fin_nat 1, fin_nat 20)] =
      Some \<lparr>cal_points = [(fin_nat 1, fin_nat 20), (fin_nat 3, fin_nat 10)]\<rparr>"
    by (simp add: cal_new_def sort_by_def raw_lt_def windows2_def)
  ultimately show ?thesis
    using calibration_apply_segment [of "[(fin_nat 3, fin_nat 10), (fin_nat 1, fin_nat 20)]" _ "fin_nat 2"]
    by (simp add: segment_index_def Let_def)
qed

text \<open>The value at the first anchor is exact: no rounding is left over.\<close>

lemma interp_left_exact:
  assumes "is_finite x0" "f32_lt x0 x1" "is_finite (f32_sub x1 x0)" "f32_value (f32_sub x1 x0) \<noteq> 0"
    and "wf_f32 y0" "is_finite y0" "is_finite (f32_sub y1 y0)"
  shows "f32_value (interp (x0, y0) (x1, y1) x0) = f32_value y0"
proof -
  obtain s q where d: "f32_sub x1 x0 = Fin s q" "q \<noteq> 0"
    using assms(3,4) by (cases "f32_sub x1 x0") (auto split: if_splits)
  have "f32_sub x0 x0 = f32_zero" using assms(1) by (rule f32_sub_self)
  with d have t: "f32_div (f32_sub x0 x0) (f32_sub x1 x0) = Fin s 0" by simp
  obtain u where m: "f32_mul (Fin s 0) (f32_sub y1 y0) = Fin u 0"
    using f32_mul_zero_left [OF assms(7)] by blast
  obtain sy qy where y: "y0 = Fin sy qy" using assms(6) by (cases y0) auto
  from assms(5) y have "f32_add (Fin sy qy) (Fin u 0) = (if qy = 0 then Fin (sy \<and> u) 0 else Fin sy qy)"
    by (intro f32_add_zero) simp
  with t m y show ?thesis
    by (auto simp: interp_def Let_def simp del: f32_add.simps f32_mul.simps f32_div.simps)
qed

end
