(* ===== verification/Schedule.thy ===== *)
theory Schedule
  imports Prelude
begin

text \<open>
  The cron-like schedule, \<open>crates/core/src/schedule.rs\<close>. The date-time type is chrono's
  (not part of the repository): it is the type variable \<open>'t\<close> with the record \<open>civil_ops\<close> of the
  methods the code calls. The locale \<open>civil_time\<close> states what chrono documents of them, over the
  position of a date-time on the time line in nanoseconds; \<open>naive_ops\<close> is a model of the laws.
\<close>

section \<open>Data\<close>

datatype action = ASwitch string | AWaterControl bool

record rule =
  rule_id :: string
  rule_action :: action
  rule_hours :: "u8 list"
  rule_minutes :: "u8 list"
  rule_days :: "u8 list"
  rule_enabled :: bool
  rule_duration :: "u32 option"

definition default_minutes :: "u8 list" where
  "default_minutes = [0]"

definition default_enabled :: bool where
  "default_enabled = True"

record schedule =
  sched_rules :: "rule list"

text \<open>The chrono methods: \<open>with_second\<close> and \<open>with_nanosecond\<close> answer \<open>None\<close> on a value out of range,
  which the code unwraps.\<close>

record 't civil_ops =
  c_hour :: "'t \<Rightarrow> u32"
  c_minute :: "'t \<Rightarrow> u32"
  c_weekday :: "'t \<Rightarrow> u32"
  c_le :: "'t \<Rightarrow> 't \<Rightarrow> bool"
  c_with_second :: "'t \<Rightarrow> u32 \<Rightarrow> 't option"
  c_with_nanosecond :: "'t \<Rightarrow> u32 \<Rightarrow> 't option"
  c_plus_secs :: "'t \<Rightarrow> int \<Rightarrow> 't"

section \<open>Operations\<close>

definition matches_dow :: "rule \<Rightarrow> u32 \<Rightarrow> bool" where
  "matches_dow r w = (if rule_days r = [] then True else (ucast w :: u8) \<in> set (rule_days r))"

definition matches_minute :: "'t civil_ops \<Rightarrow> rule \<Rightarrow> 't \<Rightarrow> bool" where
  "matches_minute ops r dt =
    (if \<not> rule_enabled r then False
     else if (ucast (c_hour ops dt) :: u8) \<notin> set (rule_hours r) then False
     else if (ucast (c_minute ops dt) :: u8) \<notin> set (rule_minutes r) then False
     else matches_dow r (c_weekday ops dt))"

text \<open>\<open>None\<close> is the panic of an \<open>unwrap\<close>.\<close>

definition floor_to_minute :: "'t civil_ops \<Rightarrow> 't \<Rightarrow> 't option" where
  "floor_to_minute ops dt = (case c_with_second ops dt 0 of
      None \<Rightarrow> None
    | Some d \<Rightarrow> c_with_nanosecond ops d 0)"

definition MAX_ITERS :: nat where
  "MAX_ITERS = 25 * 60"

text \<open>The loop of \<open>evaluate_range\<close>; the first argument is \<open>max_iters - iters\<close>.\<close>

primrec sched_loop :: "nat \<Rightarrow> 't civil_ops \<Rightarrow> rule list \<Rightarrow> 't \<Rightarrow> 't \<Rightarrow> rule list" where
  "sched_loop 0 ops rules t end_t = []"
| "sched_loop (Suc n) ops rules t end_t =
     (if c_le ops t end_t
      then filter (\<lambda>r. matches_minute ops r t) rules @ sched_loop n ops rules (c_plus_secs ops t 60) end_t
      else [])"

definition evaluate_range :: "'t civil_ops \<Rightarrow> schedule \<Rightarrow> 't \<Rightarrow> 't \<Rightarrow> rule list option" where
  "evaluate_range ops sch last_t now =
    (if c_le ops now last_t then Some []
     else case floor_to_minute ops last_t of
       None \<Rightarrow> None
     | Some fl \<Rightarrow> (case floor_to_minute ops now of
         None \<Rightarrow> None
       | Some end_t \<Rightarrow>
           Some (sched_loop MAX_ITERS ops (sched_rules sch) (c_plus_secs ops fl 60) end_t)))"

definition evaluate_minute :: "'t civil_ops \<Rightarrow> schedule \<Rightarrow> 't \<Rightarrow> rule list option" where
  "evaluate_minute ops sch now = (case floor_to_minute ops now of
      None \<Rightarrow> None
    | Some f \<Rightarrow> evaluate_range ops sch (c_plus_secs ops f (- 1)) now)"

text \<open>\<open>to_local\<close>: the time-zone database, the fixed offset and the two UTC readings are chrono's.\<close>

record ('u, 't) zone_ops =
  z_parse :: "string \<Rightarrow> ('u \<Rightarrow> 't) option"
  z_timestamp :: "'u \<Rightarrow> int"
  z_from_timestamp :: "int \<Rightarrow> 'u option"
  z_at_offset :: "int \<Rightarrow> 'u \<Rightarrow> 't"
  z_naive_utc :: "'u \<Rightarrow> 't"

definition to_local :: "('u, 't) zone_ops \<Rightarrow> 'u \<Rightarrow> string \<Rightarrow> 't" where
  "to_local z utc tz_name = (case z_parse z tz_name of
      Some local \<Rightarrow> local utc
    | None \<Rightarrow> (case z_from_timestamp z (z_timestamp z utc) of
        Some t \<Rightarrow> z_at_offset z 3600 t
      | None \<Rightarrow> z_naive_utc z utc))"

definition default_schedule :: schedule where
  "default_schedule = \<lparr>sched_rules = [
     \<lparr>rule_id = ''riego_exterior'', rule_action = ASwitch ''sprinkler_1'', rule_hours = [10, 22],
      rule_minutes = [0], rule_days = [], rule_enabled = True, rule_duration = None\<rparr>,
     \<lparr>rule_id = ''riego_interior'', rule_action = ASwitch ''sprinkler_2'', rule_hours = [10, 22],
      rule_minutes = [30], rule_days = [], rule_enabled = True, rule_duration = None\<rparr>]\<rparr>"

section \<open>What chrono documents\<close>

definition minute_ns :: int where
  "minute_ns = 60000000000"

definition floor_minute_ns :: "int \<Rightarrow> int" where
  "floor_minute_ns n = n div minute_ns * minute_ns"

text \<open>\<open>ns\<close> is the position of a date-time on the time line. Order and sums are those of the
  positions, and clearing seconds and nanoseconds goes back to the start of the minute.\<close>

locale civil_time =
  fixes ops :: "'t civil_ops" and ns :: "'t \<Rightarrow> int"
  assumes ns_inj: "ns a = ns b \<Longrightarrow> a = b"
    and le_ns: "c_le ops a b \<longleftrightarrow> ns a \<le> ns b"
    and plus_ns: "ns (c_plus_secs ops a k) = ns a + k * 1000000000"
    and floor_ns: "\<exists>d e. c_with_second ops a 0 = Some d \<and> c_with_nanosecond ops d 0 = Some e \<and>
      ns e = floor_minute_ns (ns a)"
begin

lemma floor_Some: "\<exists>e. floor_to_minute ops a = Some e \<and> ns e = floor_minute_ns (ns a)"
  using floor_ns [of a] by (auto simp: floor_to_minute_def)

end

text \<open>The rules that fire in the minutes \<open>k, k + 1, .., m\<close> of the time line, in order. \<open>mk\<close> gives
  the date-time of a minute.\<close>

definition due :: "'t civil_ops \<Rightarrow> (int \<Rightarrow> 't) \<Rightarrow> rule list \<Rightarrow> int \<Rightarrow> int \<Rightarrow> rule list" where
  "due ops mk rules k m = concat (map (\<lambda>i. filter (\<lambda>r. matches_minute ops r (mk i)) rules) [k..m])"

lemma due_empty: "m < k \<Longrightarrow> due ops mk rules k m = []"
  by (simp add: due_def)

lemma due_step:
  "k \<le> m \<Longrightarrow> due ops mk rules k m =
     filter (\<lambda>r. matches_minute ops r (mk k)) rules @ due ops mk rules (k + 1) m"
  by (simp add: due_def upto.simps [of k m])

lemma due_append: "k \<le> j + 1 \<Longrightarrow> j \<le> m \<Longrightarrow> due ops mk rules k m = due ops mk rules k j @ due ops mk rules (j + 1) m"
proof (induction "nat (j + 1 - k)" arbitrary: k)
  case 0
  then have "k = j + 1" by simp
  then show ?case by (simp add: due_empty)
next
  case (Suc n)
  then have "n = nat (j + 1 - (k + 1))" "k + 1 \<le> j + 1" "k \<le> j" "k \<le> m" by simp_all
  with Suc.hyps(1) [of "k + 1"] Suc.prems show ?case
    by (simp add: due_step [of k m] due_step [of k j])
qed

lemma set_due: "r \<in> set (due ops mk rules k m) \<longleftrightarrow>
    r \<in> set rules \<and> (\<exists>i. k \<le> i \<and> i \<le> m \<and> matches_minute ops r (mk i))"
  by (auto simp: due_def)

text \<open>\<open>mk\<close> is the minute clock of a time line: minute \<open>k\<close> starts at \<open>k\<close> times 60 s.\<close>

definition minute_clock :: "('t \<Rightarrow> int) \<Rightarrow> (int \<Rightarrow> 't) \<Rightarrow> bool" where
  "minute_clock ns mk \<longleftrightarrow> (\<forall>k. ns (mk k) = k * minute_ns)"

context civil_time
begin

lemma loop_due:
  assumes mk: "minute_clock ns mk" and t: "t = mk k" and e: "e = mk m"
  shows "sched_loop n ops rules t e = due ops mk rules k (min m (k + int n - 1))"
  using t
proof (induction n arbitrary: t k)
  case 0
  then show ?case by (simp add: due_empty)
next
  case (Suc n)
  have ns: "ns (mk i) = i * minute_ns" for i
    using mk by (simp add: minute_clock_def)
  have le: "c_le ops t e \<longleftrightarrow> k \<le> m"
    using Suc.prems e by (simp add: le_ns ns minute_ns_def)
  have next_t: "c_plus_secs ops t 60 = mk (k + 1)"
    using Suc.prems by (intro ns_inj) (simp add: plus_ns ns minute_ns_def algebra_simps)
  show ?case
  proof (cases "k \<le> m")
    case True
    have "sched_loop n ops rules (mk (k + 1)) e = due ops mk rules (k + 1) (min m (k + 1 + int n - 1))"
      by (rule Suc.IH) simp
    with True le next_t Suc.prems show ?thesis
      by (simp add: due_step [of k "min m (k + int n)"] algebra_simps)
  next
    case False
    with le show ?thesis by (simp add: due_empty)
  qed
qed

lemma evaluate_range_due:
  assumes "minute_clock ns mk"
  shows "evaluate_range ops sch a b = Some (due ops mk (sched_rules sch)
     (ns a div minute_ns + 1) (min (ns b div minute_ns) (ns a div minute_ns + int MAX_ITERS)))"
proof (cases "ns b \<le> ns a")
  case True
  then have "ns b div minute_ns \<le> ns a div minute_ns"
    by (simp add: minute_ns_def zdiv_mono1)
  with True show ?thesis
    by (simp add: evaluate_range_def le_ns due_empty)
next
  case False
  obtain fa fb where f: "floor_to_minute ops a = Some fa" "ns fa = floor_minute_ns (ns a)"
      "floor_to_minute ops b = Some fb" "ns fb = floor_minute_ns (ns b)"
    using floor_Some by metis
  have ns: "ns (mk i) = i * minute_ns" for i
    using assms by (simp add: minute_clock_def)
  have "c_plus_secs ops fa 60 = mk (ns a div minute_ns + 1)"
    by (intro ns_inj) (simp add: plus_ns ns f floor_minute_ns_def minute_ns_def algebra_simps)
  moreover have "fb = mk (ns b div minute_ns)"
    by (intro ns_inj) (simp add: ns f floor_minute_ns_def)
  ultimately show ?thesis
    using False f loop_due [OF assms, of _ "ns a div minute_ns + 1" _ "ns b div minute_ns" MAX_ITERS]
    by (simp add: evaluate_range_def le_ns algebra_simps)
qed

end

section \<open>A model of the laws\<close>

text \<open>Nanoseconds since the Unix epoch, without leap seconds.\<close>

definition naive_ops :: "int civil_ops" where
  "naive_ops =
    \<lparr>c_hour = (\<lambda>n. word_of_int (n div 3600000000000 mod 24)),
     c_minute = (\<lambda>n. word_of_int (n div minute_ns mod 60)),
     c_weekday = (\<lambda>n. word_of_int ((n div 86400000000000 + 3) mod 7)),
     c_le = (\<le>),
     c_with_second = (\<lambda>n s. if unat s < 60
        then Some (n div minute_ns * minute_ns + int (unat s) * 1000000000 + n mod 1000000000) else None),
     c_with_nanosecond = (\<lambda>n s. if unat s < 2000000000
        then Some (n div 1000000000 * 1000000000 + int (unat s)) else None),
     c_plus_secs = (\<lambda>n k. n + k * 1000000000)\<rparr>"

definition naive_minute :: "int \<Rightarrow> int" where
  "naive_minute k = k * minute_ns"

interpretation naive: civil_time naive_ops "\<lambda>n. n"
proof unfold_locales
  fix a :: int
  have "(a div minute_ns * minute_ns + a mod 1000000000) div 1000000000 * 1000000000 =
      a div minute_ns * minute_ns"
    by (simp add: minute_ns_def)
  then show "\<exists>d e. c_with_second naive_ops a 0 = Some d \<and> c_with_nanosecond naive_ops d 0 = Some e \<and>
      e = floor_minute_ns a"
    by (simp add: naive_ops_def floor_minute_ns_def)
qed (simp_all add: naive_ops_def)

lemma naive_civil_time: "civil_time naive_ops (\<lambda>n. n)"
  by (rule naive.civil_time_axioms)

lemma naive_minute_clock: "minute_clock (\<lambda>n. n) naive_minute"
  by (simp add: minute_clock_def naive_minute_def)

lemmas naive_eval = naive_ops_def naive_minute_def due_def matches_minute_def matches_dow_def
  default_schedule_def minute_ns_def MAX_ITERS_def upto.simps

section \<open>Properties\<close>

text \<open>What \<open>evaluate_range\<close> reports: for each minute start in \<open>(last, now]\<close>, in order, the matching
  rules in schedule order, cut off after the first 25 h; and it never panics.\<close>

theorem evaluate_range_spec:
  assumes "civil_time ops ns" "minute_clock ns mk"
  shows "evaluate_range ops sch a b = Some (due ops mk (sched_rules sch)
     (ns a div minute_ns + 1) (min (ns b div minute_ns) (ns a div minute_ns + int MAX_ITERS)))"
  using civil_time.evaluate_range_due [OF assms] .

lemma evaluate_range_spec_witness:
  "map_option (map rule_id) (evaluate_range naive_ops default_schedule
      (naive_minute 599 + 30000000000) (naive_minute 600 + 5)) = Some [''riego_exterior'']"
  unfolding evaluate_range_spec [OF naive_civil_time naive_minute_clock]
  by (simp add: naive_eval)

text \<open>Polls of the evaluator task that never go back and are at most 25 h apart.\<close>

fun polls_ok :: "('t \<Rightarrow> int) \<Rightarrow> 't \<Rightarrow> 't list \<Rightarrow> bool" where
  "polls_ok ns a [] = True"
| "polls_ok ns a (b # bs) =
    (ns a \<le> ns b \<and> ns b div minute_ns \<le> ns a div minute_ns + int MAX_ITERS \<and> polls_ok ns b bs)"

lemma polls_ok_last: "polls_ok ns a bs \<Longrightarrow> ns a \<le> ns (last (a # bs))"
  by (induction bs arbitrary: a) (auto intro: order_trans)

text \<open>The cap loses minutes: once the clock has jumped by 25 h or more, the answer no longer
  depends on the present time at all. The rules of the first 25 h after the old time are fired,
  and those of every later minute, the present one included, are dropped.\<close>

theorem evaluate_range_capped:
  assumes "civil_time ops ns" "minute_clock ns mk"
    and "ns a div minute_ns + int MAX_ITERS \<le> ns b div minute_ns"
  shows "evaluate_range ops sch a b = Some (due ops mk (sched_rules sch)
     (ns a div minute_ns + 1) (ns a div minute_ns + 1500))"
  using civil_time.evaluate_range_due [OF assms(1,2), of sch a b] assms(3)
  by (simp add: MAX_ITERS_def min_def)

lemma evaluate_range_capped_witness:
  "evaluate_range naive_ops default_schedule 0 (naive_minute 20000000) =
     evaluate_range naive_ops default_schedule 0 (naive_minute 30000000)"
  using evaluate_range_capped [OF naive_civil_time naive_minute_clock, of 0 "naive_minute 20000000"]
    evaluate_range_capped [OF naive_civil_time naive_minute_clock, of 0 "naive_minute 30000000"]
  by (simp add: naive_minute_def minute_ns_def MAX_ITERS_def)

text \<open>\<open>evaluate_minute\<close> reports exactly the rules that match the minute of its argument.\<close>

theorem evaluate_minute_spec:
  assumes "civil_time ops ns" "minute_clock ns mk"
  shows "evaluate_minute ops sch t =
    Some (filter (\<lambda>r. matches_minute ops r (mk (ns t div minute_ns))) (sched_rules sch))"
proof -
  obtain f where f: "floor_to_minute ops t = Some f" "ns f = floor_minute_ns (ns t)"
    using civil_time.floor_Some [OF assms(1)] by blast
  have "ns (c_plus_secs ops f (- 1)) = floor_minute_ns (ns t) - 1000000000"
    using civil_time.plus_ns [OF assms(1), of f "- 1"] f(2) by simp
  also have "\<dots> div minute_ns = ns t div minute_ns - 1"
    by (simp add: floor_minute_ns_def minute_ns_def)
  finally show ?thesis
    using civil_time.evaluate_range_due [OF assms, of sch "c_plus_secs ops f (- 1)" t] f(1)
    by (simp add: evaluate_minute_def due_step due_empty MAX_ITERS_def)
qed

lemma evaluate_minute_spec_witness:
  "map_option (map rule_id) (evaluate_minute naive_ops default_schedule (naive_minute 630 + 59999999999)) =
     Some [''riego_interior'']"
  unfolding evaluate_minute_spec [OF naive_civil_time naive_minute_clock]
  by (simp add: naive_eval)

end
