(* ===== verification/Webhook.thy ===== *)
theory Webhook
  imports Text
begin

text \<open>
  Webhook events, configuration and templates, \<open>crates/core/src/webhook.rs\<close>. \<open>BTreeMap\<close> is the
  ordered association list of theory \<open>Text\<close>, so \<open>render_template\<close> substitutes in key order as the
  iteration of the source does.
\<close>

section \<open>Events\<close>

datatype event_kind =
    FlowAlarmFire | FlowAlarmClear | Boot | PanicBoot | ScheduleFire | WifiFlap | MqttDown
  | OtaCompleted | OtaRollback | WaterBudgetExceeded | ConfigChanged | ManualValveOff

text \<open>The \<open>serde(rename)\<close> attributes give the names of the wire format.\<close>

fun event_of_wire :: "string \<Rightarrow> event_kind option" where
  "event_of_wire s =
    (if s = ''flow_alarm.fire'' then Some FlowAlarmFire
     else if s = ''flow_alarm.clear'' then Some FlowAlarmClear
     else if s = ''boot'' then Some Boot
     else if s = ''panic_boot'' then Some PanicBoot
     else if s = ''schedule.fire'' then Some ScheduleFire
     else if s = ''wifi.flap'' then Some WifiFlap
     else if s = ''mqtt.down'' then Some MqttDown
     else if s = ''ota.completed'' then Some OtaCompleted
     else if s = ''ota.rollback'' then Some OtaRollback
     else if s = ''water_budget.exceeded'' then Some WaterBudgetExceeded
     else if s = ''config.changed'' then Some ConfigChanged
     else if s = ''manual.valve_off'' then Some ManualValveOff
     else None)"

fun event_as_str :: "event_kind \<Rightarrow> string" where
  "event_as_str FlowAlarmFire = ''flow_alarm.fire''"
| "event_as_str FlowAlarmClear = ''flow_alarm.clear''"
| "event_as_str Boot = ''boot''"
| "event_as_str PanicBoot = ''panic_boot''"
| "event_as_str ScheduleFire = ''schedule.fire''"
| "event_as_str WifiFlap = ''wifi.flap''"
| "event_as_str MqttDown = ''mqtt.down''"
| "event_as_str OtaCompleted = ''ota.completed''"
| "event_as_str OtaRollback = ''ota.rollback''"
| "event_as_str WaterBudgetExceeded = ''water_budget.exceeded''"
| "event_as_str ConfigChanged = ''config.changed''"
| "event_as_str ManualValveOff = ''manual.valve_off''"

fun event_label :: "event_kind \<Rightarrow> string" where
  "event_label FlowAlarmFire = ''Flow alarm fired''"
| "event_label FlowAlarmClear = ''Flow alarm cleared''"
| "event_label Boot = ''Device booted''"
| "event_label PanicBoot = ''Device rebooted after a crash''"
| "event_label ScheduleFire = ''Schedule rule fired''"
| "event_label WifiFlap = ''WiFi reconnect storm''"
| "event_label MqttDown = ''MQTT broker unreachable''"
| "event_label OtaCompleted = ''OTA update completed''"
| "event_label OtaRollback = ''OTA rolled back''"
| "event_label WaterBudgetExceeded = ''Water budget exceeded''"
| "event_label ConfigChanged = ''Configuration changed''"
| "event_label ManualValveOff = ''Water valve manually closed''"

definition event_all :: "event_kind list" where
  "event_all = [FlowAlarmFire, FlowAlarmClear, Boot, PanicBoot, ScheduleFire, WifiFlap, MqttDown,
     OtaCompleted, OtaRollback, WaterBudgetExceeded, ConfigChanged, ManualValveOff]"

section \<open>Configuration\<close>

datatype webhook_kind = Generic | Slack | Discord | HomeAssistant

definition default_webhook_kind :: webhook_kind where
  "default_webhook_kind = Generic"

record header_entry =
  hdr_name :: string
  hdr_value :: string

record webhook_config =
  wh_enabled :: bool
  wh_url :: string
  wh_kind :: webhook_kind
  wh_events :: "event_kind list"
  wh_method :: string
  wh_headers :: "header_entry list"
  wh_body_template :: string

definition default_method :: string where
  "default_method = ''POST''"

text \<open>\<open>CHR 0x22\<close> is the double quote of the raw string.\<close>

definition quoted :: "string \<Rightarrow> string" where
  "quoted s = [CHR 0x22] @ s @ [CHR 0x22]"

definition default_body_template :: string where
  "default_body_template =
     ''{'' @ quoted ''event'' @ '':'' @ quoted ''{{event}}'' @ '','' @
     quoted ''label'' @ '':'' @ quoted ''{{event_label}}'' @ '','' @
     quoted ''device'' @ '':'' @ quoted ''{{device}}'' @ '','' @
     quoted ''ts'' @ '':'' @ quoted ''{{iso_ts}}'' @ '','' @
     quoted ''uptime_s'' @ '':{{uptime_s}}}''"

definition default_webhook_config :: webhook_config where
  "default_webhook_config =
     \<lparr>wh_enabled = True, wh_url = [], wh_kind = Generic, wh_events = [], wh_method = default_method,
      wh_headers = [], wh_body_template = default_body_template\<rparr>"

definition WEBHOOKS_MAX :: nat where
  "WEBHOOKS_MAX = 4"

section \<open>Events with variables, templates, dispatchers\<close>

type_synonym vars = "(string \<times> string) list"

record webhook_event =
  we_kind :: event_kind
  we_vars :: vars

definition event_new :: "event_kind \<Rightarrow> webhook_event" where
  "event_new k = \<lparr>we_kind = k, we_vars = []\<rparr>"

definition event_with :: "webhook_event \<Rightarrow> string \<Rightarrow> string \<Rightarrow> webhook_event" where
  "event_with ev k v = ev\<lparr>we_vars := bm_insert k v (we_vars ev)\<rparr>"

definition placeholder :: "string \<Rightarrow> string" where
  "placeholder k = ''{{'' @ k @ ''}}''"

definition render_template :: "string \<Rightarrow> vars \<Rightarrow> string" where
  "render_template template vs = foldl (\<lambda>out (k, v). replace_all (placeholder k) v out) template vs"

text \<open>The dispatcher trait has one method; its two implementations in the core crate.\<close>

definition noop_dispatch :: "unit \<Rightarrow> webhook_event \<Rightarrow> unit" where
  "noop_dispatch s ev = s"

record recording_dispatcher =
  rd_events :: "webhook_event list"

definition recording_dispatch :: "recording_dispatcher \<Rightarrow> webhook_event \<Rightarrow> recording_dispatcher" where
  "recording_dispatch d ev = d\<lparr>rd_events := rd_events d @ [ev]\<rparr>"

definition recording_take :: "recording_dispatcher \<Rightarrow> webhook_event list \<times> recording_dispatcher" where
  "recording_take d = (rd_events d, d\<lparr>rd_events := []\<rparr>)"

definition recording_len :: "recording_dispatcher \<Rightarrow> nat" where
  "recording_len d = length (rd_events d)"

section \<open>Names\<close>

text \<open>The three tables of \<open>EventKind\<close> agree: parsing the wire name that \<open>as_str\<close> prints gives
  the event back, every accepted wire name is one \<open>as_str\<close> prints, and \<open>all()\<close> lists every kind
  exactly once, in declaration order, so the picker of the web page misses none.\<close>

theorem event_names_roundtrip:
  "event_of_wire (event_as_str k) = Some k \<and>
   (event_of_wire s = Some j \<longleftrightarrow> s = event_as_str j) \<and>
   length (filter ((=) k) event_all) = 1"
proof (intro conjI)
  show "event_of_wire (event_as_str k) = Some k" by (cases k) simp_all
  show "event_of_wire s = Some j \<longleftrightarrow> s = event_as_str j"
    by (cases j) (auto split: if_splits)
  show "length (filter ((=) k) event_all) = 1"
    by (cases k) (simp_all add: event_all_def)
qed

section \<open>Template rendering\<close>

text \<open>A template as the documentation reads it: literal text and placeholders.\<close>

datatype token = Lit string | Var string

fun token_text :: "token \<Rightarrow> string" where
  "token_text (Lit s) = s"
| "token_text (Var k) = placeholder k"

definition template_text :: "token list \<Rightarrow> string" where
  "template_text ts = concat (map token_text ts)"

text \<open>Literal text may contain single braces (JSON needs them), but no doubled opening brace, and
  does not end in one; names and values contain no brace.\<close>

fun lit_ok :: "string \<Rightarrow> bool" where
  "lit_ok [] = True"
| "lit_ok [c] = (c \<noteq> CHR ''{'')"
| "lit_ok (c # d # cs) = (\<not> (c = CHR ''{'' \<and> d = CHR ''{'') \<and> lit_ok (d # cs))"

definition no_brace :: "string \<Rightarrow> bool" where
  "no_brace s \<longleftrightarrow> list_all (\<lambda>c. c \<noteq> CHR ''{'' \<and> c \<noteq> CHR ''}'') s"

fun token_ok :: "token \<Rightarrow> bool" where
  "token_ok (Lit s) = lit_ok s"
| "token_ok (Var k) = no_brace k"

fun render_token :: "vars \<Rightarrow> token \<Rightarrow> string" where
  "render_token vs (Lit s) = s"
| "render_token vs (Var k) = (case map_of vs k of Some v \<Rightarrow> v | None \<Rightarrow> placeholder k)"

fun subst_token :: "string \<Rightarrow> string \<Rightarrow> token \<Rightarrow> token" where
  "subst_token k v (Lit s) = Lit s"
| "subst_token k v (Var j) = (if j = k then Lit v else Var j)"

lemma replace_lit:
  "lit_ok s \<Longrightarrow> replace_all (CHR ''{'' # CHR ''{'' # p) v (s @ t) = s @ replace_all (CHR ''{'' # CHR ''{'' # p) v t"
proof (induction s rule: lit_ok.induct)
  case (2 c)
  then show ?case by simp
next
  case (3 c d cs)
  then have "strip_pre (CHR ''{'' # CHR ''{'' # p) (c # d # cs @ t) = None" by auto
  with 3 show ?case by simp
qed simp

lemma no_brace_lit_ok: "no_brace s \<Longrightarrow> lit_ok s"
  by (induction s rule: lit_ok.induct) (auto simp: no_brace_def)

lemma no_brace_lit_ok_tail: "no_brace s \<Longrightarrow> lit_ok (s @ ''}}'')"
  by (induction s rule: lit_ok.induct) (auto simp: no_brace_def)

lemma lit_ok_placeholder_tail: "no_brace k \<Longrightarrow> lit_ok (CHR ''{'' # k @ ''}}'')"
  using no_brace_lit_ok_tail [of k] by (cases k) (auto simp: no_brace_def)

lemma close_unique:
  "no_brace j \<Longrightarrow> no_brace k \<Longrightarrow> j @ ''}}'' @ x = k @ ''}}'' @ y \<Longrightarrow> j = k"
proof (induction j arbitrary: k)
  case Nil
  then show ?case by (cases k) (auto simp: no_brace_def)
next
  case (Cons c j)
  then show ?case by (cases k) (auto simp: no_brace_def)
qed

lemma strip_other_placeholder:
  assumes "no_brace j" "no_brace k" "j \<noteq> k"
  shows "strip_pre (placeholder k) (placeholder j @ t) = None"
  using close_unique [OF assms(1,2), of t] assms(3)
  by (auto simp: strip_pre_None placeholder_def)

lemma replace_var_same:
  "replace_all (placeholder k) v (placeholder k @ t) = v @ replace_all (placeholder k) v t"
proof -
  have "strip_pre (placeholder k) (placeholder k @ t) = Some t" by simp
  then show ?thesis
    by (simp add: placeholder_def)
qed

lemma replace_var_other:
  assumes "no_brace j" "no_brace k" "j \<noteq> k"
  shows "replace_all (placeholder k) v (placeholder j @ t) = placeholder j @ replace_all (placeholder k) v t"
proof -
  have "replace_all (placeholder k) v (placeholder j @ t) =
      CHR ''{'' # replace_all (placeholder k) v ((CHR ''{'' # j @ ''}}'') @ t)"
    using strip_other_placeholder [OF assms, of t] by (simp add: placeholder_def)
  also have "replace_all (placeholder k) v ((CHR ''{'' # j @ ''}}'') @ t) =
      (CHR ''{'' # j @ ''}}'') @ replace_all (placeholder k) v t"
    using replace_lit [OF lit_ok_placeholder_tail [OF assms(1)], of "k @ ''}}''" v t]
    by (simp add: placeholder_def)
  finally show ?thesis by (simp add: placeholder_def)
qed

lemma replace_tokens:
  assumes "no_brace k" "list_all token_ok ts"
  shows "replace_all (placeholder k) v (template_text ts) = template_text (map (subst_token k v) ts)"
  using assms(2)
proof (induction ts)
  case Nil
  then show ?case by (simp add: template_text_def placeholder_def)
next
  case (Cons t ts)
  note IH = Cons.IH [unfolded template_text_def] and tok = Cons.prems
  show ?case
  proof (cases t)
    case (Lit s)
    with IH tok show ?thesis
      using replace_lit [of s "k @ ''}}''" v] by (simp add: template_text_def placeholder_def)
  next
    case (Var j)
    with IH tok assms(1) show ?thesis
      by (cases "j = k") (simp_all add: template_text_def replace_var_same replace_var_other)
  qed
qed

lemma subst_token_ok: "no_brace v \<Longrightarrow> token_ok t \<Longrightarrow> token_ok (subst_token k v t)"
  by (cases t) (simp_all add: no_brace_lit_ok)

lemma render_subst:
  "k \<notin> fst ` set vs \<Longrightarrow> render_token vs (subst_token k v t) = render_token ((k, v) # vs) t"
  by (cases t) (auto simp: map_of_eq_None_iff split: option.splits)

text \<open>Rendering is simultaneous substitution. Although the code replaces one variable after the
  other in the growing text, on templates whose literal text has no doubled opening brace, and for
  names and values without braces, the result is what the documentation describes: every known
  placeholder is replaced by its value, unknown placeholders and all other text stay intact.\<close>

theorem render_template_simultaneous:
  assumes "distinct (map fst vs)" "list_all token_ok ts"
    and "list_all (\<lambda>(k, v). no_brace k \<and> no_brace v) vs"
  shows "render_template (template_text ts) vs = concat (map (render_token vs) ts)"
  using assms
proof (induction vs arbitrary: ts)
  case Nil
  have "token_text = render_token []"
  proof
    fix t show "token_text t = render_token [] t" by (cases t) simp_all
  qed
  then show ?case by (simp add: render_template_def template_text_def)
next
  case (Cons kv vs)
  obtain k v where kv: "kv = (k, v)" by (cases kv)
  have "list_all token_ok (map (subst_token k v) ts)"
    using Cons.prems kv by (auto simp: list_all_iff intro: subst_token_ok)
  with Cons kv have "render_template (template_text (map (subst_token k v) ts)) vs =
      concat (map (render_token vs) (map (subst_token k v) ts))"
    by simp
  moreover have "k \<notin> fst ` set vs" using Cons.prems kv by simp
  ultimately show ?case
    using kv Cons.prems by (simp add: render_template_def replace_tokens render_subst comp_def)
qed

lemma render_template_simultaneous_witness:
  "render_template (template_text [Lit (''{'' @ quoted ''ts'' @ '':''), Var ''ts'', Lit ''}'', Var ''nope''])
     [(''ts'', ''17''), (''zz'', ''1'')] = ''{'' @ quoted ''ts'' @ '':17}{{nope}}''"
  by (subst render_template_simultaneous)
     (simp_all add: quoted_def no_brace_def placeholder_def)

text \<open>Why the values must not contain braces: the substitution is repeated on substituted text.\<close>

lemma render_template_resubstitutes:
  "render_template ''{{device}}'' [(''device'', ''{{uptime_s}}''), (''uptime_s'', ''5'')] = ''5''"
  by (simp add: render_template_def placeholder_def)

end
