(* ===== verification/Traits.thy ===== *)
theory Traits
  imports Text
begin

text \<open>
  The platform traits, \<open>crates/core/src/traits.rs\<close>, and the fakes of the host build,
  \<open>crates/host/src/fakes.rs\<close>. A trait object over an interior-mutable store is a record of
  functions over an explicit store state \<open>'s\<close>; the locale \<open>nvs_store\<close> is the contract its
  clients rely on. Outgoing MQTT traffic is a log of calls.
\<close>

section \<open>Values\<close>

datatype nvs_error = NotFound | Full | Io string

fun nvs_error_display :: "nvs_error \<Rightarrow> string" where
  "nvs_error_display NotFound = ''key not found''"
| "nvs_error_display Full = ''storage full''"
| "nvs_error_display (Io s) = ''io error: '' @ s"

record publish_opts =
  po_retained :: bool
  po_qos :: u8

definition default_publish_opts :: publish_opts where
  "default_publish_opts = \<lparr>po_retained = False, po_qos = 1\<rparr>"

datatype wifi_state =
    Disconnected
  | Connecting string
  | Connected string string
  | ApMode string string

record wifi_creds =
  wc_ssid :: string
  wc_password :: string

section \<open>The key-value store\<close>

record 's nvs_ops =
  nvs_get :: "'s \<Rightarrow> string \<Rightarrow> bytes option"
  nvs_set :: "'s \<Rightarrow> string \<Rightarrow> bytes \<Rightarrow> 's \<times> (nvs_error + unit)"
  nvs_remove :: "'s \<Rightarrow> string \<Rightarrow> 's \<times> (nvs_error + unit)"

text \<open>What a client may rely on: the store keeps its own invariant, and an operation that reports
  success has updated exactly the named key. Nothing is promised about a failed one.\<close>

locale nvs_store =
  fixes ops :: "'s nvs_ops" and ok :: "'s \<Rightarrow> bool"
  assumes set_ok: "ok s \<Longrightarrow> ok (fst (nvs_set ops s k v))"
    and remove_ok: "ok s \<Longrightarrow> ok (fst (nvs_remove ops s k))"
    and set_get: "ok s \<Longrightarrow> nvs_set ops s k v = (s', Inr ()) \<Longrightarrow> nvs_get ops s' = (nvs_get ops s)(k \<mapsto> v)"
    and remove_get: "ok s \<Longrightarrow> nvs_remove ops s k = (s', Inr ()) \<Longrightarrow> nvs_get ops s' = (nvs_get ops s)(k := None)"
begin

lemma set_get_same: "ok s \<Longrightarrow> nvs_set ops s k v = (s', Inr ()) \<Longrightarrow> nvs_get ops s' k = Some v"
  by (simp add: set_get)

lemma set_get_other:
  "ok s \<Longrightarrow> nvs_set ops s k v = (s', Inr ()) \<Longrightarrow> j \<noteq> k \<Longrightarrow> nvs_get ops s' j = nvs_get ops s j"
  by (simp add: set_get)

lemma remove_get_same: "ok s \<Longrightarrow> nvs_remove ops s k = (s', Inr ()) \<Longrightarrow> nvs_get ops s' k = None"
  by (simp add: remove_get)

end

text \<open>\<open>FakeNvs\<close>: a hash map that never fails.\<close>

type_synonym fake_nvs = "(string, bytes) map"

definition fake_nvs_new :: fake_nvs where
  "fake_nvs_new = Map.empty"

definition fake_nvs_get :: "fake_nvs \<Rightarrow> string \<Rightarrow> bytes option" where
  "fake_nvs_get s key = s key"

definition fake_nvs_set :: "fake_nvs \<Rightarrow> string \<Rightarrow> bytes \<Rightarrow> fake_nvs \<times> (nvs_error + unit)" where
  "fake_nvs_set s key val = (s(key \<mapsto> val), Inr ())"

definition fake_nvs_remove :: "fake_nvs \<Rightarrow> string \<Rightarrow> fake_nvs \<times> (nvs_error + unit)" where
  "fake_nvs_remove s key = (s(key := None), Inr ())"

definition fake_nvs_ops :: "fake_nvs nvs_ops" where
  "fake_nvs_ops = \<lparr>nvs_get = fake_nvs_get, nvs_set = fake_nvs_set, nvs_remove = fake_nvs_remove\<rparr>"

lemmas fake_nvs_defs [step_simps] =
  fake_nvs_ops_def fake_nvs_get_def fake_nvs_set_def fake_nvs_remove_def

interpretation fake: nvs_store fake_nvs_ops "\<lambda>_. True"
  by unfold_locales (auto simp: fake_nvs_defs)

lemma fake_nvs_store: "nvs_store fake_nvs_ops (\<lambda>_. True)"
  by (rule fake.nvs_store_axioms)

section \<open>The other fakes of the host build\<close>

text \<open>Pins, ADC and counter are cells that return what was put into them.\<close>

record fake_gpio =
  fg_label :: string
  fg_state :: bool

definition fake_gpio_new :: "string \<Rightarrow> fake_gpio" where
  "fake_gpio_new label = \<lparr>fg_label = label, fg_state = False\<rparr>"

definition fake_gpio_set :: "fake_gpio \<Rightarrow> bool \<Rightarrow> fake_gpio" where
  "fake_gpio_set g high = g\<lparr>fg_state := high\<rparr>"

record fake_adc =
  fa_value :: u16

definition fake_adc_read :: "fake_adc \<Rightarrow> u16" where
  "fake_adc_read a = fa_value a"

record fake_pulses =
  fp_count :: u64

definition fake_pulses_count :: "fake_pulses \<Rightarrow> u64" where
  "fake_pulses_count p = fp_count p"

text \<open>\<open>FakeMqtt\<close> records every publish and subscription; an injected message goes to the handler, if
  one is set. The handler is a function on the state \<open>'a\<close> of its owner.\<close>

record 'a fake_mqtt =
  fm_published :: "(string \<times> bytes \<times> publish_opts) list"
  fm_subscriptions :: "string list"
  fm_handler :: "(string \<Rightarrow> bytes \<Rightarrow> 'a \<Rightarrow> 'a) option"
  fm_connected :: bool

definition fake_mqtt_new :: "'a fake_mqtt" where
  "fake_mqtt_new = \<lparr>fm_published = [], fm_subscriptions = [], fm_handler = None, fm_connected = True\<rparr>"

definition fake_mqtt_publish :: "'a fake_mqtt \<Rightarrow> string \<Rightarrow> bytes \<Rightarrow> publish_opts \<Rightarrow> 'a fake_mqtt" where
  "fake_mqtt_publish m topic payload opts =
     m\<lparr>fm_published := fm_published m @ [(topic, payload, opts)]\<rparr>"

definition fake_mqtt_subscribe :: "'a fake_mqtt \<Rightarrow> string \<Rightarrow> 'a fake_mqtt" where
  "fake_mqtt_subscribe m topic = m\<lparr>fm_subscriptions := fm_subscriptions m @ [topic]\<rparr>"

definition fake_mqtt_set_handler :: "'a fake_mqtt \<Rightarrow> (string \<Rightarrow> bytes \<Rightarrow> 'a \<Rightarrow> 'a) \<Rightarrow> 'a fake_mqtt" where
  "fake_mqtt_set_handler m h = m\<lparr>fm_handler := Some h\<rparr>"

definition fake_mqtt_inject :: "'a fake_mqtt \<Rightarrow> string \<Rightarrow> bytes \<Rightarrow> 'a \<Rightarrow> 'a" where
  "fake_mqtt_inject m topic payload a =
     (case fm_handler m of Some h \<Rightarrow> h topic payload a | None \<Rightarrow> a)"

definition fake_mqtt_publishes :: "'a fake_mqtt \<Rightarrow> (string \<times> bytes) list" where
  "fake_mqtt_publishes m = map (\<lambda>(t, p, _). (t, p)) (fm_published m)"

end
