(* ===== verification/Config.thy ===== *)
theory Config
  imports Calibration Schedule Webhook Traits Water_Valve
begin

text \<open>
  The runtime configuration, \<open>crates/core/src/config.rs\<close>: its sections with their defaults,
  persistence under one key of the store, redaction for the API and the merge that puts the
  stored secrets back. The JSON codec is serde_json's: a pair of functions, an argument of
  \<open>config_load\<close> and \<open>config_save\<close>, with its own error type \<open>'j\<close>. The WiFi seed of the build is
  the pair of compile-time variables \<open>WC_WIFI_SSID\<close> and \<open>WC_WIFI_PASSWORD\<close>.
\<close>

section \<open>Sections and defaults\<close>

definition NVS_KEY :: string where
  "NVS_KEY = ''wc.cfg''"

record wifi_config =
  wf_networks :: "wifi_creds list"
  wf_hostname :: string
  wf_ap_ssid :: string
  wf_ap_password :: string

definition default_hostname :: string where
  "default_hostname = ''doremorwater''"

definition default_ap_ssid :: string where
  "default_ap_ssid = ''Doremorwater Fallback Hotspot''"

definition default_wifi_config :: "string option \<Rightarrow> string option \<Rightarrow> wifi_config" where
  "default_wifi_config env_ssid env_password =
    (let seed = (case (env_ssid, env_password) of
        (Some ssid, Some password) \<Rightarrow>
          if ssid \<noteq> [] then [\<lparr>wc_ssid = ssid, wc_password = password\<rparr>] else []
      | _ \<Rightarrow> [])
     in \<lparr>wf_networks = seed, wf_hostname = default_hostname, wf_ap_ssid = default_ap_ssid,
         wf_ap_password = []\<rparr>)"

record mqtt_config =
  mq_broker_url :: string
  mq_username :: string
  mq_password :: string
  mq_base_topic :: string
  mq_ha_discovery_prefix :: string
  mq_enabled :: bool
  mq_ca_cert_pem :: string
  mq_client_cert_pem :: string
  mq_client_key_pem :: string

definition default_mqtt_config :: mqtt_config where
  "default_mqtt_config =
     \<lparr>mq_broker_url = [], mq_username = [], mq_password = [], mq_base_topic = ''doremorwater'',
      mq_ha_discovery_prefix = ''homeassistant'', mq_enabled = False, mq_ca_cert_pem = [],
      mq_client_cert_pem = [], mq_client_key_pem = []\<rparr>"

record sensors_config =
  sc_battery :: calibration
  sc_pressure_stage1 :: calibration
  sc_pressure_stage2 :: calibration
  sc_flow_l_per_pulse :: f32
  sc_flow_lph_per_pps :: f32

text \<open>A literal is the nearest \<open>f32\<close>. \<open>None\<close> is the panic of an \<open>unwrap\<close>.\<close>

definition default_sensors_config :: "sensors_config option" where
  "default_sensors_config =
    (case cal_new [(f32_of_rat 1130, f32_of_rat 5), (f32_of_rat 2931, f32_of_rat (122 / 10))] of
       None \<Rightarrow> None
     | Some battery \<Rightarrow>
    (case cal_new [(f32_of_rat (37 / 100), f32_of_rat (54 / 100)),
                   (f32_of_rat (262 / 100), f32_of_rat (398 / 100))] of
       None \<Rightarrow> None
     | Some stage1 \<Rightarrow>
    (case cal_new [(f32_of_rat (54 / 100), f32_of_rat 0),
                   (f32_of_rat (450 / 100), f32_of_rat (1034214 / 100000))] of
       None \<Rightarrow> None
     | Some stage2 \<Rightarrow>
       Some \<lparr>sc_battery = battery, sc_pressure_stage1 = stage1, sc_pressure_stage2 = stage2,
         sc_flow_l_per_pulse = f32_div (f32_of_rat 1) (f32_of_rat (5165 / 10)),
         sc_flow_lph_per_pps = f32_mul (f32_of_rat (225012 / 100000000)) (f32_of_rat 60)\<rparr>)))"

record wireguard_config =
  wg_enabled :: bool
  wg_address :: string
  wg_private_key :: string
  wg_peer_endpoint :: string
  wg_peer_public_key :: string
  wg_peer_preshared_key :: string
  wg_peer_allowed_ips :: "string list"
  wg_keepalive_secs :: u16

definition default_wireguard_config :: wireguard_config where
  "default_wireguard_config =
     \<lparr>wg_enabled = False, wg_address = ''10.6.0.5'', wg_private_key = [], wg_peer_endpoint = [],
      wg_peer_public_key = [], wg_peer_preshared_key = [],
      wg_peer_allowed_ips = [''192.168.1.0/24'', ''10.6.0.1/32''], wg_keepalive_secs = 25\<rparr>"

record https_config =
  hs_enabled :: bool
  hs_cert_pem :: string
  hs_key_pem :: string

definition default_https_config :: https_config where
  "default_https_config = \<lparr>hs_enabled = True, hs_cert_pem = [], hs_key_pem = []\<rparr>"

record switches_config =
  sprinkler_1_auto_off_secs :: u32
  sprinkler_2_auto_off_secs :: u32
  sw_valve_timing :: valve_timing

definition default_switches_config :: switches_config where
  "default_switches_config =
     \<lparr>sprinkler_1_auto_off_secs = 7 * 60, sprinkler_2_auto_off_secs = 5 * 60,
      sw_valve_timing = default_valve_timing\<rparr>"

record flow_alarm_config =
  al_enabled :: bool
  al_threshold_lph :: f32
  al_duration_secs :: u32

definition default_flow_alarm_config :: flow_alarm_config where
  "default_flow_alarm_config =
     \<lparr>al_enabled = False, al_threshold_lph = f32_of_rat 100, al_duration_secs = 60\<rparr>"

record config =
  cf_wifi :: wifi_config
  cf_mqtt :: mqtt_config
  cf_https :: https_config
  cf_switches :: switches_config
  cf_sensors :: sensors_config
  cf_flow_alarm :: flow_alarm_config
  cf_timezone :: string
  cf_sntp_servers :: "string list"
  cf_schedule :: schedule
  cf_wireguard :: wireguard_config
  cf_admin_token :: string
  cf_webhooks :: "webhook_config list"

definition default_timezone :: string where
  "default_timezone = ''Europe/Madrid''"

definition default_sntp_servers :: "string list" where
  "default_sntp_servers = [''0.es.pool.ntp.org'', ''1.es.pool.ntp.org'', ''2.es.pool.ntp.org'']"

definition default_config :: "string option \<Rightarrow> string option \<Rightarrow> config option" where
  "default_config env_ssid env_password = (case default_sensors_config of
      None \<Rightarrow> None
    | Some sc \<Rightarrow> Some
       \<lparr>cf_wifi = default_wifi_config env_ssid env_password, cf_mqtt = default_mqtt_config,
        cf_https = default_https_config, cf_switches = default_switches_config, cf_sensors = sc,
        cf_flow_alarm = default_flow_alarm_config, cf_timezone = default_timezone,
        cf_sntp_servers = default_sntp_servers, cf_schedule = default_schedule,
        cf_wireguard = default_wireguard_config, cf_admin_token = [], cf_webhooks = []\<rparr>)"

section \<open>Persistence\<close>

datatype 'j config_error = ENvs nvs_error | EJson 'j

fun config_error_display :: "('j \<Rightarrow> string) \<Rightarrow> 'j config_error \<Rightarrow> string" where
  "config_error_display js (ENvs e) = ''nvs error: '' @ nvs_error_display e"
| "config_error_display js (EJson e) = ''json error: '' @ js e"

record 'j config_codec =
  cc_enc :: "config \<Rightarrow> 'j + bytes"
  cc_dec :: "bytes \<Rightarrow> 'j + config"

text \<open>\<open>dflt\<close> is \<open>Config::default()\<close> of the build.\<close>

definition config_load :: "'s nvs_ops \<Rightarrow> 'j config_codec \<Rightarrow> config \<Rightarrow> 's \<Rightarrow> 'j config_error + config" where
  "config_load ops codec dflt s = (case nvs_get ops s NVS_KEY of
      None \<Rightarrow> Inr dflt
    | Some bytes \<Rightarrow> (case cc_dec codec bytes of Inl e \<Rightarrow> Inl (EJson e) | Inr cfg \<Rightarrow> Inr cfg))"

definition config_save :: "'s nvs_ops \<Rightarrow> 'j config_codec \<Rightarrow> config \<Rightarrow> 's \<Rightarrow> 's \<times> ('j config_error + unit)" where
  "config_save ops codec cfg s = (case cc_enc codec cfg of
      Inl e \<Rightarrow> (s, Inl (EJson e))
    | Inr bytes \<Rightarrow> (let (s', r) = nvs_set ops s NVS_KEY bytes in (s', map_sum ENvs id r)))"

definition config_factory_reset :: "'s nvs_ops \<Rightarrow> 's \<Rightarrow> 's \<times> ('j config_error + unit)" where
  "config_factory_reset ops s = (let (s', r) = nvs_remove ops s NVS_KEY in (s', map_sum ENvs id r))"

section \<open>Secrets\<close>

definition redact_secrets_for_api :: "config \<Rightarrow> config" where
  "redact_secrets_for_api c = c\<lparr>
     cf_wifi := (cf_wifi c)\<lparr>wf_networks := map (\<lambda>n. n\<lparr>wc_password := []\<rparr>) (wf_networks (cf_wifi c))\<rparr>,
     cf_mqtt := (cf_mqtt c)\<lparr>mq_password := [], mq_client_key_pem := []\<rparr>,
     cf_https := (cf_https c)\<lparr>hs_key_pem := []\<rparr>,
     cf_wireguard := (cf_wireguard c)\<lparr>wg_private_key := [], wg_peer_preshared_key := []\<rparr>,
     cf_admin_token := []\<rparr>"

definition keep_if_empty :: "string \<Rightarrow> string \<Rightarrow> string" where
  "keep_if_empty incoming stored = (if incoming = [] then stored else incoming)"

definition restore_network :: "wifi_creds list \<Rightarrow> wifi_creds \<Rightarrow> wifi_creds" where
  "restore_network stored net =
    (if wc_password net = [] then
       (case find (\<lambda>n. wc_ssid n = wc_ssid net) stored of
          Some existing \<Rightarrow> net\<lparr>wc_password := wc_password existing\<rparr>
        | None \<Rightarrow> net)
     else net)"

definition restore_secrets_from :: "config \<Rightarrow> config \<Rightarrow> config" where
  "restore_secrets_from self stored = self\<lparr>
     cf_wifi := (cf_wifi self)\<lparr>wf_networks :=
       map (restore_network (wf_networks (cf_wifi stored))) (wf_networks (cf_wifi self))\<rparr>,
     cf_mqtt := (cf_mqtt self)\<lparr>
       mq_password := keep_if_empty (mq_password (cf_mqtt self)) (mq_password (cf_mqtt stored)),
       mq_client_key_pem :=
         keep_if_empty (mq_client_key_pem (cf_mqtt self)) (mq_client_key_pem (cf_mqtt stored))\<rparr>,
     cf_https := (cf_https self)\<lparr>
       hs_key_pem := keep_if_empty (hs_key_pem (cf_https self)) (hs_key_pem (cf_https stored))\<rparr>,
     cf_wireguard := (cf_wireguard self)\<lparr>
       wg_private_key :=
         keep_if_empty (wg_private_key (cf_wireguard self)) (wg_private_key (cf_wireguard stored)),
       wg_peer_preshared_key :=
         keep_if_empty (wg_peer_preshared_key (cf_wireguard self))
           (wg_peer_preshared_key (cf_wireguard stored))\<rparr>,
     cf_admin_token := keep_if_empty (cf_admin_token self) (cf_admin_token stored)\<rparr>"

definition merge_preserving_secrets :: "config \<Rightarrow> config \<Rightarrow> config" where
  "merge_preserving_secrets self incoming = restore_secrets_from incoming self"

section \<open>Facts about persistence\<close>

lemma map_sum_Inr_iff [simp]: "map_sum f id r = Inr u \<longleftrightarrow> r = Inr u"
  by (cases r) simp_all

lemma config_save_ok:
  assumes "config_save ops codec c s = (s', Inr ())"
  obtains bs where "cc_enc codec c = Inr bs" "nvs_set ops s NVS_KEY bs = (s', Inr ())"
proof (cases "cc_enc codec c")
  case (Inl e)
  with assms show ?thesis by (simp add: config_save_def)
next
  case (Inr bs)
  with assms that show ?thesis
    by (cases "nvs_set ops s NVS_KEY bs") (simp add: config_save_def)
qed

lemma config_reset_ok:
  assumes "config_factory_reset ops s = (s', Inr ())"
  shows "nvs_remove ops s NVS_KEY = (s', Inr ())"
  using assms by (cases "nvs_remove ops s NVS_KEY") (simp add: config_factory_reset_def)

context nvs_store
begin

lemma save_load:
  assumes "ok s" "config_save ops codec c s = (s', Inr ())"
    and "\<And>bs. cc_enc codec c = Inr bs \<Longrightarrow> cc_dec codec bs = Inr c"
  shows "config_load ops codec dflt s' = Inr c"
proof -
  obtain bs where "cc_enc codec c = Inr bs" "nvs_set ops s NVS_KEY bs = (s', Inr ())"
    using assms(2) by (rule config_save_ok)
  with assms(1,3) show ?thesis
    by (simp add: config_load_def set_get_same)
qed

lemma save_other:
  assumes "ok s" "config_save ops codec c s = (s', Inr ())" "k \<noteq> NVS_KEY"
  shows "nvs_get ops s' k = nvs_get ops s k"
proof -
  obtain bs where "nvs_set ops s NVS_KEY bs = (s', Inr ())"
    using assms(2) by (rule config_save_ok)
  with assms(1,3) show ?thesis by (simp add: set_get_other)
qed

lemma reset_load:
  "ok s \<Longrightarrow> config_factory_reset ops s = (s', Inr ()) \<Longrightarrow> config_load ops codec dflt s' = Inr dflt"
  by (auto dest!: config_reset_ok simp: config_load_def remove_get_same)

lemma reset_other:
  "ok s \<Longrightarrow> config_factory_reset ops s = (s', Inr ()) \<Longrightarrow> k \<noteq> NVS_KEY \<Longrightarrow>
     nvs_get ops s' k = nvs_get ops s k"
  by (auto dest!: config_reset_ok simp: remove_get)

lemma save_keeps_ok:
  assumes "ok s"
  shows "ok (fst (config_save ops codec c s))"
proof (cases "cc_enc codec c")
  case (Inr bs)
  with set_ok [OF assms, of NVS_KEY bs] show ?thesis
    by (cases "nvs_set ops s NVS_KEY bs") (simp add: config_save_def)
qed (simp add: config_save_def assms)

end

section \<open>Properties of persistence\<close>

text \<open>A configuration that was saved is the one the next boot loads: on every store that keeps
  the contract, after a save that reported success, \<open>load\<close> returns exactly the saved value (if
  the JSON codec decodes what it encoded for it), and no other key of the store has changed.\<close>

theorem config_save_load:
  assumes "nvs_store ops ok" "ok s" "config_save ops codec c s = (s', Inr ())"
    and "cc_enc codec c = Inr bs" "cc_dec codec bs = Inr c"
  shows "config_load ops codec dflt s' = Inr c \<and>
         (nvs_get ops s')(NVS_KEY := None) = (nvs_get ops s)(NVS_KEY := None)"
  using nvs_store.save_load [OF assms(1-3)] nvs_store.save_other [OF assms(1-3)] assms(4,5)
  by auto

text \<open>A closed configuration for concrete instances of the theorems.\<close>

definition sample_calibration :: calibration where
  "sample_calibration = \<lparr>cal_points = [(f32_zero, f32_zero), (fin_nat 1, fin_nat 1)]\<rparr>"

definition sample_config :: config where
  "sample_config =
     \<lparr>cf_wifi = \<lparr>wf_networks = [\<lparr>wc_ssid = ''a'', wc_password = ''x''\<rparr>, \<lparr>wc_ssid = ''b'', wc_password = []\<rparr>],
        wf_hostname = default_hostname, wf_ap_ssid = default_ap_ssid, wf_ap_password = ''ap''\<rparr>,
      cf_mqtt = default_mqtt_config, cf_https = default_https_config,
      cf_switches = default_switches_config,
      cf_sensors = \<lparr>sc_battery = sample_calibration, sc_pressure_stage1 = sample_calibration,
        sc_pressure_stage2 = sample_calibration, sc_flow_l_per_pulse = fin_nat 1, sc_flow_lph_per_pps = fin_nat 1\<rparr>,
      cf_flow_alarm = \<lparr>al_enabled = True, al_threshold_lph = fin_nat 100, al_duration_secs = 60\<rparr>,
      cf_timezone = default_timezone, cf_sntp_servers = default_sntp_servers,
      cf_schedule = default_schedule, cf_wireguard = default_wireguard_config,
      cf_admin_token = ''secret'', cf_webhooks = []\<rparr>"

definition constant_codec :: "config \<Rightarrow> unit config_codec" where
  "constant_codec c = \<lparr>cc_enc = (\<lambda>_. Inr [123, 125]), cc_dec = (\<lambda>_. Inr c)\<rparr>"

lemma config_save_load_witness:
  "config_load fake_nvs_ops (constant_codec sample_config) sample_config
     (fst (config_save fake_nvs_ops (constant_codec sample_config) sample_config fake_nvs_new)) = Inr sample_config"
proof -
  have "config_save fake_nvs_ops (constant_codec sample_config) sample_config fake_nvs_new =
      (fake_nvs_new(NVS_KEY \<mapsto> [123, 125]), Inr ())"
    "cc_enc (constant_codec sample_config) sample_config = Inr [123, 125]" "cc_dec (constant_codec sample_config) [123, 125] = Inr sample_config"
    by (simp_all add: config_save_def constant_codec_def fake_nvs_defs)
  from config_save_load [OF fake_nvs_store _ this] show ?thesis
    using \<open>config_save _ _ _ _ = _\<close> by simp
qed

text \<open>Factory reset: after a reset that reported success the next load returns the defaults,
  whatever was stored, and every other key (the valve position, the alarm history) is still there.\<close>

theorem config_reset_load:
  assumes "nvs_store ops ok" "ok s" "config_factory_reset ops s = (s', (Inr () :: 'j config_error + unit))"
  shows "config_load ops codec dflt s' = Inr dflt \<and>
         (nvs_get ops s')(NVS_KEY := None) = (nvs_get ops s)(NVS_KEY := None)"
  using nvs_store.reset_load [OF assms] nvs_store.reset_other [OF assms] by auto

lemma config_reset_load_witness:
  "config_load fake_nvs_ops (constant_codec sample_config) sample_config (fst (fake_nvs_remove [NVS_KEY \<mapsto> [1]] NVS_KEY)) = Inr sample_config"
proof -
  have "config_factory_reset fake_nvs_ops [NVS_KEY \<mapsto> [1]] =
      (Map.empty, (Inr () :: unit config_error + unit))"
    by (simp add: config_factory_reset_def fake_nvs_defs)
  from config_reset_load [OF fake_nvs_store _ this, where codec = "constant_codec sample_config" and dflt = sample_config]
  show ?thesis
    by (simp add: fake_nvs_defs)
qed

section \<open>Properties of the secrets\<close>

text \<open>The values redaction must hide, as one record, and their replacement in a configuration.\<close>

record secrets =
  sec_wifi :: "wifi_creds \<Rightarrow> string"
  sec_mqtt_password :: string
  sec_mqtt_key :: string
  sec_https_key :: string
  sec_wg_private :: string
  sec_wg_psk :: string
  sec_admin :: string

definition put_secrets :: "secrets \<Rightarrow> config \<Rightarrow> config" where
  "put_secrets x c = c\<lparr>
     cf_wifi := (cf_wifi c)\<lparr>wf_networks :=
       map (\<lambda>n. n\<lparr>wc_password := sec_wifi x n\<rparr>) (wf_networks (cf_wifi c))\<rparr>,
     cf_mqtt := (cf_mqtt c)\<lparr>mq_password := sec_mqtt_password x, mq_client_key_pem := sec_mqtt_key x\<rparr>,
     cf_https := (cf_https c)\<lparr>hs_key_pem := sec_https_key x\<rparr>,
     cf_wireguard := (cf_wireguard c)\<lparr>wg_private_key := sec_wg_private x,
       wg_peer_preshared_key := sec_wg_psk x\<rparr>,
     cf_admin_token := sec_admin x\<rparr>"

text \<open>Redaction is noninterfering in the seven kinds of secret it names: whatever values they
  have, the configuration the API shows is the same, and redacting twice is redacting once. It is
  not complete: the password of the fallback access point and the headers of the webhooks (where
  bearer tokens go) are shown as they are.\<close>

theorem redact_hides_secrets:
  "redact_secrets_for_api (put_secrets x c) = redact_secrets_for_api c \<and>
   redact_secrets_for_api (redact_secrets_for_api c) = redact_secrets_for_api c \<and>
   wf_ap_password (cf_wifi (redact_secrets_for_api c)) = wf_ap_password (cf_wifi c) \<and>
   cf_webhooks (redact_secrets_for_api c) = cf_webhooks c"
  by (simp add: redact_secrets_for_api_def put_secrets_def comp_def)

lemma find_ssid:
  "distinct (map wc_ssid ns) \<Longrightarrow> n \<in> set ns \<Longrightarrow> find (\<lambda>m. wc_ssid m = wc_ssid n) ns = Some n"
  by (induction ns) auto

lemma restore_network_redacted:
  "distinct (map wc_ssid ns) \<Longrightarrow> n \<in> set ns \<Longrightarrow> restore_network ns (n\<lparr>wc_password := []\<rparr>) = n"
  by (simp add: restore_network_def find_ssid)

lemma keep_if_empty_simps [simp]:
  "keep_if_empty [] s = s" "keep_if_empty (c # cs) s = c # cs"
  by (simp_all add: keep_if_empty_def)

lemma restore_sample [simp]: "restore_secrets_from sample_config sample_config = sample_config"
  by (simp add: restore_secrets_from_def sample_config_def restore_network_def default_mqtt_config_def
      default_https_config_def default_wireguard_config_def)

text \<open>The round trip of the settings page: reading the configuration through the API and
  writing it back unchanged changes nothing, secrets included, if no SSID is stored twice.\<close>

theorem merge_redacted_identity:
  assumes "distinct (map wc_ssid (wf_networks (cf_wifi c)))"
  shows "merge_preserving_secrets c (redact_secrets_for_api c) = c"
proof -
  have "map (restore_network (wf_networks (cf_wifi c)) \<circ> (\<lambda>n. n\<lparr>wc_password := []\<rparr>))
      (wf_networks (cf_wifi c)) = wf_networks (cf_wifi c)"
    by (rule map_idI) (simp add: restore_network_redacted [OF assms])
  then show ?thesis
    by (simp add: merge_preserving_secrets_def restore_secrets_from_def redact_secrets_for_api_def)
qed

lemma merge_redacted_identity_witness:
  "merge_preserving_secrets sample_config (redact_secrets_for_api sample_config) = sample_config"
  by (rule merge_redacted_identity) (simp add: sample_config_def)

text \<open>The merge field by field. A secret sent non-empty overwrites, one sent empty keeps the
  stored value, so the admin token can be changed but never cleared through the API; a network
  whose SSID is not stored passes through as sent; every public field is the incoming one.\<close>

theorem merge_semantics:
  "let m = merge_preserving_secrets stored incoming in
     (cf_admin_token m = [] \<longleftrightarrow> cf_admin_token stored = [] \<and> cf_admin_token incoming = []) \<and>
     mq_password (cf_mqtt m) =
       (if mq_password (cf_mqtt incoming) = [] then mq_password (cf_mqtt stored)
        else mq_password (cf_mqtt incoming)) \<and>
     hs_key_pem (cf_https m) =
       (if hs_key_pem (cf_https incoming) = [] then hs_key_pem (cf_https stored)
        else hs_key_pem (cf_https incoming)) \<and>
     map wc_ssid (wf_networks (cf_wifi m)) = map wc_ssid (wf_networks (cf_wifi incoming)) \<and>
     filter (\<lambda>n. wc_ssid n \<notin> wc_ssid ` set (wf_networks (cf_wifi stored))) (wf_networks (cf_wifi m)) =
     filter (\<lambda>n. wc_ssid n \<notin> wc_ssid ` set (wf_networks (cf_wifi stored))) (wf_networks (cf_wifi incoming)) \<and>
     redact_secrets_for_api m = redact_secrets_for_api incoming"
proof -
  let ?st = "wf_networks (cf_wifi stored)"
  have ssid: "wc_ssid (restore_network ?st n) = wc_ssid n" for n
    by (simp add: restore_network_def split: option.split)
  have pass: "(restore_network ?st n)\<lparr>wc_password := []\<rparr> = n\<lparr>wc_password := []\<rparr>" for n
    by (simp add: restore_network_def split: option.split)
  have new: "restore_network ?st n = n" if "wc_ssid n \<notin> wc_ssid ` set ?st" for n
  proof -
    from that have "find (\<lambda>m. wc_ssid m = wc_ssid n) ?st = None"
      by (auto simp: find_None_iff image_iff)
    then show ?thesis by (simp add: restore_network_def)
  qed
  have filt: "filter (\<lambda>n. wc_ssid n \<notin> wc_ssid ` set ?st) (map (restore_network ?st) ns) =
      filter (\<lambda>n. wc_ssid n \<notin> wc_ssid ` set ?st) ns" for ns
    by (induction ns) (simp_all add: ssid new)
  show ?thesis
    unfolding Let_def merge_preserving_secrets_def restore_secrets_from_def redact_secrets_for_api_def
    by (simp add: keep_if_empty_def comp_def ssid pass filt del: filter.simps)
qed

end
