(* ===== verification/Device_State.thy ===== *)
theory Device_State
  imports Traits Water_Valve
begin

text \<open>
  The shared device state, \<open>crates/core/src/state.rs\<close>, and the types of the HTTP API,
  \<open>crates/core/src/api.rs\<close>. The mutex of \<open>DeviceState\<close> is the atomicity of one operation:
  \<open>snapshot\<close> reads the state, \<open>update\<close> applies a function to it.
\<close>

section \<open>The snapshot\<close>

record sensors =
  battery_v :: "f32 option"
  pressure_bar :: "f32 option"
  flow_lph :: "f32 option"
  total_l :: "f32 option"
  loop_time_ms :: "u32 option"

datatype water_control_state = WcOff | WcOn | WcTransitioning

definition default_water_control_state :: water_control_state where
  "default_water_control_state = WcOff"

fun water_control_of :: "water_state \<Rightarrow> water_control_state" where
  "water_control_of Off = WcOff"
| "water_control_of On = WcOn"
| "water_control_of TurningOn = WcTransitioning"
| "water_control_of TurningOff = WcTransitioning"

record switches =
  st_sprinkler_1 :: bool
  st_sprinkler_2 :: bool
  st_water_control :: water_control_state

record network =
  net_wifi :: "wifi_state option"
  mqtt_connected :: bool
  wifi_rssi_dbm :: "i8 option"

record diagnostics =
  free_heap_bytes :: "u32 option"
  min_free_heap_bytes :: "u32 option"
  reset_reason :: "string option"

record flow_alarm =
  fa_active :: bool
  fa_elapsed_secs :: u32

record alarm_event =
  ae_epoch_secs :: u64
  ae_uptime_ms :: u64
  ae_flow_lph :: f32
  ae_duration_secs :: u32

record device_snapshot =
  sn_sensors :: sensors
  sn_switches :: switches
  sn_network :: network
  sn_diagnostics :: diagnostics
  sn_alarm :: flow_alarm
  sn_uptime_ms :: u64
  sn_firmware_version :: string

definition default_sensors :: sensors where
  "default_sensors = \<lparr>battery_v = None, pressure_bar = None, flow_lph = None, total_l = None,
     loop_time_ms = None\<rparr>"

definition default_switches :: switches where
  "default_switches = \<lparr>st_sprinkler_1 = False, st_sprinkler_2 = False,
     st_water_control = default_water_control_state\<rparr>"

definition default_network :: network where
  "default_network = \<lparr>net_wifi = None, mqtt_connected = False, wifi_rssi_dbm = None\<rparr>"

definition default_diagnostics :: diagnostics where
  "default_diagnostics = \<lparr>free_heap_bytes = None, min_free_heap_bytes = None, reset_reason = None\<rparr>"

definition default_flow_alarm :: flow_alarm where
  "default_flow_alarm = \<lparr>fa_active = False, fa_elapsed_secs = 0\<rparr>"

definition default_snapshot :: device_snapshot where
  "default_snapshot = \<lparr>sn_sensors = default_sensors, sn_switches = default_switches,
     sn_network = default_network, sn_diagnostics = default_diagnostics,
     sn_alarm = default_flow_alarm, sn_uptime_ms = 0, sn_firmware_version = []\<rparr>"

record device_state =
  ds_inner :: device_snapshot

definition device_state_new :: device_state where
  "device_state_new = \<lparr>ds_inner = default_snapshot\<rparr>"

definition state_snapshot :: "device_state \<Rightarrow> device_snapshot" where
  "state_snapshot d = ds_inner d"

definition state_update :: "device_state \<Rightarrow> (device_snapshot \<Rightarrow> device_snapshot) \<Rightarrow> device_state" where
  "state_update d f = d\<lparr>ds_inner := f (ds_inner d)\<rparr>"

lemma snapshot_update [simp]: "state_snapshot (state_update d f) = f (state_snapshot d)"
  by (simp add: state_snapshot_def state_update_def)

section \<open>API types\<close>

datatype switch_command = Sprinkler1 bool | Sprinkler2 bool | WaterControl bool

datatype command_outcome = CmdOk | CmdBusy string

record api_error =
  ae_message :: string

definition api_error_new :: "string \<Rightarrow> api_error" where
  "api_error_new s = \<lparr>ae_message = s\<rparr>"

record wifi_scan_result =
  ws_ssid :: string
  ws_rssi_dbm :: i8
  ws_auth :: string
  ws_channel :: u8

record wifi_scan_response =
  ws_networks :: "wifi_scan_result list"

text \<open>The paths of the HTTP routes.\<close>

definition STATUS :: string where "STATUS = ''/api/status''"
definition CONFIG :: string where "CONFIG = ''/api/config''"
definition SWITCH :: string where "SWITCH = ''/api/switch''"
definition LOGS_WS :: string where "LOGS_WS = ''/ws/logs''"
definition OTA_UPLOAD :: string where "OTA_UPLOAD = ''/api/ota''"
definition FACTORY_RESET :: string where "FACTORY_RESET = ''/api/factory_reset''"
definition WIFI_SCAN :: string where "WIFI_SCAN = ''/api/wifi/scan''"
definition ALARM_CLEAR :: string where "ALARM_CLEAR = ''/api/alarm/clear''"
definition ALARM_HISTORY :: string where "ALARM_HISTORY = ''/api/alarm/history''"
definition WEBHOOKS_TEST :: string where "WEBHOOKS_TEST = ''/api/webhooks/test''"

end
