(* ===== verification/App.thy ===== *)
theory App
  imports Config Timed_Switch Device_State
begin

text \<open>
  The application object, \<open>crates/core/src/app.rs\<close>: commands, the tick, the flow alarm, the
  alarm history, event emission and the persistence of the valve position.

  \<^item> \<open>app\<close> is \<open>AppInner\<close>; each mutex is a field, and a method is one step; App_Locks has the
    sections of a method between which other threads run.
  \<^item> The clock is read through \<open>read_mono\<close> and \<open>read_wall\<close>: the \<open>n\<close>-th call of either, over the
    whole run, gets \<open>env_mono n\<close> and \<open>env_wall n\<close>; \<open>ap_reads\<close> counts the calls.
  \<^item> \<open>env\<close> holds what is not part of the repository or varies with the platform: the clock, the
    chrono readings of a timestamp, the JSON codec of the alarm history, the store and the
    webhook dispatcher.
\<close>

section \<open>Environment and state\<close>

record ('s, 't, 'd) env =
  env_mono :: "nat \<Rightarrow> u64"
  env_wall :: "nat \<Rightarrow> 't"
  env_rfc3339 :: "'t \<Rightarrow> string"
  env_timestamp :: "'t \<Rightarrow> int"
  env_enc_history :: "alarm_event list \<Rightarrow> bytes option"
  env_dec_history :: "bytes \<Rightarrow> alarm_event list option"
  env_nvs :: "'s nvs_ops"
  env_dispatch :: "'d \<Rightarrow> webhook_event \<Rightarrow> 'd"
  env_noop :: 'd

definition ALARM_HISTORY_CAP :: nat where
  "ALARM_HISTORY_CAP = 16"

definition NVS_ALARM_HISTORY :: string where
  "NVS_ALARM_HISTORY = ''wc.almhist''"

definition NVS_VALVE_STATE :: string where
  "NVS_VALVE_STATE = ''wc.valve''"

record ('s, 'd) app =
  ap_reads :: nat
  ap_state :: device_state
  ap_config :: config
  ap_valve :: water_valve
  ap_sprinkler1 :: timed_switch
  ap_sprinkler2 :: timed_switch
  ap_nvs :: "'s option"
  ap_last_persisted :: "bool option"
  ap_last_check :: "u64 option"
  ap_history :: "alarm_event list"
  ap_webhooks :: 'd

record tick_outputs =
  to_sprinkler_1 :: bool
  to_sprinkler_2 :: bool
  to_valve :: valve_outputs

definition read_mono :: "('s, 't, 'd) env \<Rightarrow> ('s, 'd) app \<Rightarrow> u64 \<times> ('s, 'd) app" where
  "read_mono env a = (env_mono env (ap_reads a), a\<lparr>ap_reads := Suc (ap_reads a)\<rparr>)"

definition read_wall :: "('s, 't, 'd) env \<Rightarrow> ('s, 'd) app \<Rightarrow> 't \<times> ('s, 'd) app" where
  "read_wall env a = (env_wall env (ap_reads a), a\<lparr>ap_reads := Suc (ap_reads a)\<rparr>)"

section \<open>Construction\<close>

definition auto_off_or_none :: "u32 \<Rightarrow> duration option" where
  "auto_off_or_none secs = (if secs = 0 then None else Some (duration_from_secs (as_u64 secs)))"

definition stored_valve_state :: "('s, 't, 'd) env \<Rightarrow> 's option \<Rightarrow> bool option" where
  "stored_valve_state env nvs = (case nvs of
      None \<Rightarrow> None
    | Some s \<Rightarrow> (case nvs_get (env_nvs env) s NVS_VALVE_STATE of
        Some (x # _) \<Rightarrow> Some (x \<noteq> 0)
      | _ \<Rightarrow> None))"

definition stored_history :: "('s, 't, 'd) env \<Rightarrow> 's option \<Rightarrow> alarm_event list" where
  "stored_history env nvs = (case nvs of
      None \<Rightarrow> []
    | Some s \<Rightarrow> (case nvs_get (env_nvs env) s NVS_ALARM_HISTORY of
        None \<Rightarrow> []
      | Some b \<Rightarrow> (case env_dec_history env b of
          None \<Rightarrow> []
        | Some v \<Rightarrow> rev (take ALARM_HISTORY_CAP (rev v)))))"

definition app_with_nvs :: "('s, 't, 'd) env \<Rightarrow> config \<Rightarrow> 's option \<Rightarrow> ('s, 'd) app" where
  "app_with_nvs env cfg nvs =
    (let s1 = switch_new (auto_off_or_none (sprinkler_1_auto_off_secs (cf_switches cfg)));
         s2 = switch_new (auto_off_or_none (sprinkler_2_auto_off_secs (cf_switches cfg)));
         restored_state = stored_valve_state env nvs;
         valve0 = valve_with_timing (sw_valve_timing (cf_switches cfg));
         valve = (case restored_state of Some on \<Rightarrow> valve_restore valve0 on | None \<Rightarrow> valve0)
     in \<lparr>ap_reads = 0, ap_state = device_state_new, ap_config = cfg, ap_valve = valve,
         ap_sprinkler1 = s1, ap_sprinkler2 = s2, ap_nvs = nvs, ap_last_persisted = restored_state,
         ap_last_check = None, ap_history = stored_history env nvs, ap_webhooks = env_noop env\<rparr>)"

definition app_new :: "('s, 't, 'd) env \<Rightarrow> config \<Rightarrow> ('s, 'd) app" where
  "app_new env cfg = app_with_nvs env cfg None"

definition set_webhook_dispatcher :: "('s, 'd) app \<Rightarrow> 'd \<Rightarrow> ('s, 'd) app" where
  "set_webhook_dispatcher a d = a\<lparr>ap_webhooks := d\<rparr>"

section \<open>Events and history\<close>

definition emit_event :: "('s, 't, 'd) env \<Rightarrow> ('s, 'd) app \<Rightarrow> webhook_event \<Rightarrow> ('s, 'd) app" where
  "emit_event env a ev =
    (let cfg = ap_config a;
         (now, a) = read_wall env a;
         (ms, a) = read_mono env a;
         uptime_s = ms div 1000;
         v = we_vars ev;
         v = bm_insert_if_absent ''event'' (event_as_str (we_kind ev)) v;
         v = bm_insert_if_absent ''event_label'' (event_label (we_kind ev)) v;
         v = bm_insert_if_absent ''iso_ts'' (env_rfc3339 env now) v;
         v = bm_insert_if_absent ''device'' (wf_hostname (cf_wifi cfg)) v;
         v = bm_insert_if_absent ''uptime_s'' (show_word uptime_s) v
     in a\<lparr>ap_webhooks := env_dispatch env (ap_webhooks a) (ev\<lparr>we_vars := v\<rparr>)\<rparr>)"

definition alarm_history :: "('s, 'd) app \<Rightarrow> alarm_event list" where
  "alarm_history a = ap_history a"

definition push_history :: "alarm_event list \<Rightarrow> alarm_event \<Rightarrow> alarm_event list" where
  "push_history h ev = (if length h = ALARM_HISTORY_CAP then tl h else h) @ [ev]"

definition record_alarm_event :: "('s, 't, 'd) env \<Rightarrow> ('s, 'd) app \<Rightarrow> alarm_event \<Rightarrow> ('s, 'd) app" where
  "record_alarm_event env a ev =
    (let h = push_history (ap_history a) ev;
         a = a\<lparr>ap_history := h\<rparr>
     in case ap_nvs a of
       None \<Rightarrow> a
     | Some s \<Rightarrow> (case env_enc_history env h of
         None \<Rightarrow> a
       | Some bytes \<Rightarrow> a\<lparr>ap_nvs := Some (fst (nvs_set (env_nvs env) s NVS_ALARM_HISTORY bytes))\<rparr>))"

definition restored_valve_state :: "('s, 'd) app \<Rightarrow> bool option" where
  "restored_valve_state a = ap_last_persisted a"

definition app_snapshot :: "('s, 'd) app \<Rightarrow> device_snapshot" where
  "app_snapshot a = state_snapshot (ap_state a)"

definition app_update_state :: "('s, 'd) app \<Rightarrow> (device_snapshot \<Rightarrow> device_snapshot) \<Rightarrow> ('s, 'd) app" where
  "app_update_state a f = a\<lparr>ap_state := state_update (ap_state a) f\<rparr>"

section \<open>Configuration\<close>

definition replace_config_section :: "('s, 't, 'd) env \<Rightarrow> ('s, 'd) app \<Rightarrow> config \<Rightarrow> string \<Rightarrow> ('s, 'd) app" where
  "replace_config_section env a cfg section_name =
    (let sw = cf_switches cfg;
         a = a\<lparr>ap_sprinkler1 := switch_set_auto_off (ap_sprinkler1 a) (auto_off_or_none (sprinkler_1_auto_off_secs sw)),
               ap_sprinkler2 := switch_set_auto_off (ap_sprinkler2 a) (auto_off_or_none (sprinkler_2_auto_off_secs sw)),
               ap_valve := valve_set_timing (ap_valve a) (sw_valve_timing sw),
               ap_config := cfg\<rparr>
     in emit_event env a (event_with (event_new ConfigChanged) ''section'' section_name))"

definition replace_config :: "('s, 't, 'd) env \<Rightarrow> ('s, 'd) app \<Rightarrow> config \<Rightarrow> ('s, 'd) app" where
  "replace_config env a cfg = replace_config_section env a cfg ''all''"

section \<open>Commands\<close>

definition schedule_turn_on :: "timed_switch \<Rightarrow> u64 \<Rightarrow> u32 option \<Rightarrow> timed_switch" where
  "schedule_turn_on s now duration_secs = (case duration_secs of
      Some d \<Rightarrow> switch_turn_on_for s now (duration_from_secs (as_u64 d))
    | None \<Rightarrow> switch_turn_on s now)"

definition fire_schedule_sprinkler ::
    "('s, 't, 'd) env \<Rightarrow> ('s, 'd) app \<Rightarrow> string \<Rightarrow> u32 option \<Rightarrow> ('s, 'd) app \<times> bool" where
  "fire_schedule_sprinkler env a sid duration_secs =
    (let (now, a) = read_mono env a in
     if sid = ''sprinkler_1'' then
       (a\<lparr>ap_sprinkler1 := schedule_turn_on (ap_sprinkler1 a) now duration_secs\<rparr>, True)
     else if sid = ''sprinkler_2'' then
       (a\<lparr>ap_sprinkler2 := schedule_turn_on (ap_sprinkler2 a) now duration_secs\<rparr>, True)
     else (a, False))"

definition switch_command ::
    "('s, 't, 'd) env \<Rightarrow> ('s, 'd) app \<Rightarrow> switch_command \<Rightarrow> ('s, 'd) app \<times> command_outcome" where
  "switch_command env a cmd =
    (let (now, a) = read_mono env a in
     case cmd of
       Sprinkler1 on \<Rightarrow>
         (a\<lparr>ap_sprinkler1 := (if on then switch_turn_on (ap_sprinkler1 a) now
                             else switch_turn_off (ap_sprinkler1 a) now)\<rparr>, CmdOk)
     | Sprinkler2 on \<Rightarrow>
         (a\<lparr>ap_sprinkler2 := (if on then switch_turn_on (ap_sprinkler2 a) now
                             else switch_turn_off (ap_sprinkler2 a) now)\<rparr>, CmdOk)
     | WaterControl on \<Rightarrow>
         if valve_is_busy (ap_valve a) then (a, CmdBusy ''valve sequence in progress'')
         else (a\<lparr>ap_valve := (if on then valve_turn_on (ap_valve a) now
                             else valve_turn_off (ap_valve a) now)\<rparr>, CmdOk))"

section \<open>The flow alarm\<close>

definition flow_above :: "device_snapshot \<Rightarrow> flow_alarm_config \<Rightarrow> bool" where
  "flow_above snap al =
     f32_le (al_threshold_lph al) (case flow_lph (sn_sensors snap) of Some f \<Rightarrow> f | None \<Rightarrow> f32_zero)"

definition evaluate_flow_alarm :: "('s, 't, 'd) env \<Rightarrow> ('s, 'd) app \<Rightarrow> u64 \<Rightarrow> ('s, 'd) app" where
  "evaluate_flow_alarm env a now_ms =
    (let al = cf_flow_alarm (ap_config a);
         delta_s = (case ap_last_check a of
            Some t \<Rightarrow> (ucast (sat_sub now_ms t div 1000) :: u32)
          | None \<Rightarrow> 0);
         a = a\<lparr>ap_last_check := Some now_ms\<rparr>
     in if \<not> al_enabled al then
          app_update_state a (\<lambda>s. s\<lparr>sn_alarm := \<lparr>fa_active = False, fa_elapsed_secs = 0\<rparr>\<rparr>)
        else
          (let snap = app_snapshot a;
               any_sprinkler_on = (st_sprinkler_1 (sn_switches snap) \<or> st_sprinkler_2 (sn_switches snap));
               flow = (case flow_lph (sn_sensors snap) of Some f \<Rightarrow> f | None \<Rightarrow> f32_zero);
               above = flow_above snap al;
               dur = al_duration_secs al;
               was_active = fa_active (sn_alarm snap);
               elapsed = (if any_sprinkler_on \<or> \<not> above then 0
                          else sat_add (fa_elapsed_secs (sn_alarm snap)) delta_s);
               just_fired = (\<not> was_active \<and> dur \<le> elapsed);
               a = app_update_state a (\<lambda>s. s\<lparr>sn_alarm :=
                     \<lparr>fa_active = fa_active (sn_alarm s) \<or> just_fired, fa_elapsed_secs = elapsed\<rparr>\<rparr>)
           in if just_fired then
                (let (wall, a) = read_wall env a;
                     epoch_secs = (word_of_int (max (env_timestamp env wall) 0) :: u64);
                     a = record_alarm_event env a
                       \<lparr>ae_epoch_secs = epoch_secs, ae_uptime_ms = now_ms, ae_flow_lph = flow,
                        ae_duration_secs = dur\<rparr>;
                     a = emit_event env a
                       (event_with (event_with (event_with (event_new FlowAlarmFire)
                          ''flow_lph'' (fmt_f32 1 flow))
                          ''threshold_lph'' (fmt_f32 1 (al_threshold_lph al)))
                          ''duration_secs'' (show_word dur))
                 in fst (switch_command env a (WaterControl False)))
              else if was_active \<and> st_water_control (sn_switches snap) = WcOn then
                fst (switch_command env a (WaterControl False))
              else a))"

definition clear_flow_alarm :: "('s, 't, 'd) env \<Rightarrow> ('s, 'd) app \<Rightarrow> ('s, 'd) app" where
  "clear_flow_alarm env a =
    (let was_active = fa_active (sn_alarm (app_snapshot a));
         a = app_update_state a (\<lambda>s. s\<lparr>sn_alarm := \<lparr>fa_active = False, fa_elapsed_secs = 0\<rparr>\<rparr>)
     in if was_active then emit_event env a (event_new FlowAlarmClear) else a)"

section \<open>The tick\<close>

definition mirror_switches :: "bool \<Rightarrow> bool \<Rightarrow> water_state \<Rightarrow> device_snapshot \<Rightarrow> device_snapshot" where
  "mirror_switches s1_on s2_on vs s = s\<lparr>sn_switches :=
     (sn_switches s)\<lparr>st_sprinkler_1 := s1_on, st_sprinkler_2 := s2_on,
       st_water_control := water_control_of vs\<rparr>\<rparr>"

definition persist_valve :: "('s, 't, 'd) env \<Rightarrow> ('s, 'd) app \<Rightarrow> ('s, 'd) app" where
  "persist_valve env a = (case ap_nvs a of
      None \<Rightarrow> a
    | Some s \<Rightarrow>
        (let user_on = wv_user_state (ap_valve a) in
         if ap_last_persisted a \<noteq> Some user_on then
           (case nvs_set (env_nvs env) s NVS_VALVE_STATE [if user_on then 1 else 0] of
              (s', Inl e) \<Rightarrow> a\<lparr>ap_nvs := Some s'\<rparr>
            | (s', Inr u) \<Rightarrow> a\<lparr>ap_nvs := Some s', ap_last_persisted := Some user_on\<rparr>)
         else a))"

definition app_tick :: "('s, 't, 'd) env \<Rightarrow> ('s, 'd) app \<Rightarrow> ('s, 'd) app \<times> tick_outputs" where
  "app_tick env a =
    (let (now, a) = read_mono env a;
         (s1, s1_fired) = switch_tick (ap_sprinkler1 a) now;
         (s2, s2_fired) = switch_tick (ap_sprinkler2 a) now;
         (v, outs) = valve_tick (ap_valve a) now;
         a = a\<lparr>ap_sprinkler1 := s1, ap_sprinkler2 := s2, ap_valve := v\<rparr>;
         a = app_update_state a (mirror_switches (sw_on s1) (sw_on s2) (valve_state v));
         a = evaluate_flow_alarm env a now;
         a = persist_valve env a
     in (a, \<lparr>to_sprinkler_1 = sw_on s1, to_sprinkler_2 = sw_on s2, to_valve = outs\<rparr>))"

text \<open>The calls of the platform, as one event type. \<open>AUpdate\<close> is a sensor or network writer: it
  may change everything in the snapshot but the alarm and the mirrored switches.\<close>

datatype app_op =
    ATick
  | ACommand switch_command
  | AFire string "u32 option"
  | AReplace config string
  | AClear
  | AEmit webhook_event
  | AUpdate "sensors option" "network option" "diagnostics option" u64

definition app_write :: "sensors option \<Rightarrow> network option \<Rightarrow> diagnostics option \<Rightarrow> u64 \<Rightarrow> device_snapshot \<Rightarrow> device_snapshot" where
  "app_write se ne di up s = s\<lparr>
     sn_sensors := (case se of Some x \<Rightarrow> x | None \<Rightarrow> sn_sensors s),
     sn_network := (case ne of Some x \<Rightarrow> x | None \<Rightarrow> sn_network s),
     sn_diagnostics := (case di of Some x \<Rightarrow> x | None \<Rightarrow> sn_diagnostics s), sn_uptime_ms := up\<rparr>"

fun app_apply :: "('s, 't, 'd) env \<Rightarrow> ('s, 'd) app \<Rightarrow> app_op \<Rightarrow> ('s, 'd) app" where
  "app_apply env a ATick = fst (app_tick env a)"
| "app_apply env a (ACommand c) = fst (switch_command env a c)"
| "app_apply env a (AFire i d) = fst (fire_schedule_sprinkler env a i d)"
| "app_apply env a (AReplace c n) = replace_config_section env a c n"
| "app_apply env a AClear = clear_flow_alarm env a"
| "app_apply env a (AEmit ev) = emit_event env a ev"
| "app_apply env a (AUpdate se ne di up) = app_update_state a (app_write se ne di up)"

text \<open>A closed environment for concrete instances: the fake store, a dispatcher that logs, a clock
  given by its readings.\<close>

definition sample_env :: "(nat \<Rightarrow> u64) \<Rightarrow> (fake_nvs, int, webhook_event list) env" where
  "sample_env f = \<lparr>env_mono = f, env_wall = (\<lambda>_. 0), env_rfc3339 = (\<lambda>_. ''1970-01-01T00:00:00+00:00''),
     env_timestamp = id, env_enc_history = (\<lambda>_. Some [91, 93]), env_dec_history = (\<lambda>_. Some []),
     env_nvs = fake_nvs_ops, env_dispatch = (\<lambda>l ev. l @ [ev]), env_noop = []\<rparr>"

lemma sample_env_sel [simp]:
  "env_mono (sample_env f) = f" "env_nvs (sample_env f) = fake_nvs_ops"
  by (simp_all add: sample_env_def)

section \<open>What each step leaves alone\<close>

lemma read_simps [simp]:
  "read_mono env a = (env_mono env (ap_reads a), a\<lparr>ap_reads := Suc (ap_reads a)\<rparr>)"
  "read_wall env a = (env_wall env (ap_reads a), a\<lparr>ap_reads := Suc (ap_reads a)\<rparr>)"
  by (simp_all add: read_mono_def read_wall_def)

lemma emit_event_frame [simp]:
  "ap_state (emit_event env a ev) = ap_state a" "ap_config (emit_event env a ev) = ap_config a"
  "ap_valve (emit_event env a ev) = ap_valve a"
  "ap_sprinkler1 (emit_event env a ev) = ap_sprinkler1 a"
  "ap_sprinkler2 (emit_event env a ev) = ap_sprinkler2 a" "ap_nvs (emit_event env a ev) = ap_nvs a"
  "ap_last_persisted (emit_event env a ev) = ap_last_persisted a"
  "ap_last_check (emit_event env a ev) = ap_last_check a"
  "ap_history (emit_event env a ev) = ap_history a"
  "ap_reads (emit_event env a ev) = ap_reads a + 2"
  by (simp_all add: emit_event_def Let_def)

lemma record_frame [simp]:
  "ap_state (record_alarm_event env a ev) = ap_state a"
  "ap_config (record_alarm_event env a ev) = ap_config a"
  "ap_valve (record_alarm_event env a ev) = ap_valve a"
  "ap_sprinkler1 (record_alarm_event env a ev) = ap_sprinkler1 a"
  "ap_sprinkler2 (record_alarm_event env a ev) = ap_sprinkler2 a"
  "ap_last_persisted (record_alarm_event env a ev) = ap_last_persisted a"
  "ap_last_check (record_alarm_event env a ev) = ap_last_check a"
  "ap_history (record_alarm_event env a ev) = push_history (ap_history a) ev"
  "ap_webhooks (record_alarm_event env a ev) = ap_webhooks a"
  "ap_reads (record_alarm_event env a ev) = ap_reads a"
  by (auto simp: record_alarm_event_def Let_def split: option.split)

lemma switch_command_frame [simp]:
  "ap_state (fst (switch_command env a c)) = ap_state a"
  "ap_config (fst (switch_command env a c)) = ap_config a"
  "ap_nvs (fst (switch_command env a c)) = ap_nvs a"
  "ap_last_persisted (fst (switch_command env a c)) = ap_last_persisted a"
  "ap_last_check (fst (switch_command env a c)) = ap_last_check a"
  "ap_history (fst (switch_command env a c)) = ap_history a"
  "ap_webhooks (fst (switch_command env a c)) = ap_webhooks a"
  "ap_reads (fst (switch_command env a c)) = Suc (ap_reads a)"
  by (auto simp: switch_command_def Let_def split: switch_command.split)

lemma switch_command_water [simp]:
  "ap_sprinkler1 (fst (switch_command env a (WaterControl on))) = ap_sprinkler1 a"
  "ap_sprinkler2 (fst (switch_command env a (WaterControl on))) = ap_sprinkler2 a"
  by (auto simp: switch_command_def Let_def)

lemma update_state_frame [simp]:
  "ap_config (app_update_state a f) = ap_config a" "ap_valve (app_update_state a f) = ap_valve a"
  "ap_sprinkler1 (app_update_state a f) = ap_sprinkler1 a"
  "ap_sprinkler2 (app_update_state a f) = ap_sprinkler2 a" "ap_nvs (app_update_state a f) = ap_nvs a"
  "ap_last_persisted (app_update_state a f) = ap_last_persisted a"
  "ap_last_check (app_update_state a f) = ap_last_check a"
  "ap_history (app_update_state a f) = ap_history a" "ap_reads (app_update_state a f) = ap_reads a"
  "ap_webhooks (app_update_state a f) = ap_webhooks a"
  "app_snapshot (app_update_state a f) = f (app_snapshot a)"
  by (simp_all add: app_update_state_def app_snapshot_def)

lemma persist_frame [simp]:
  "ap_state (persist_valve env a) = ap_state a" "ap_config (persist_valve env a) = ap_config a"
  "ap_valve (persist_valve env a) = ap_valve a"
  "ap_sprinkler1 (persist_valve env a) = ap_sprinkler1 a"
  "ap_sprinkler2 (persist_valve env a) = ap_sprinkler2 a"
  "ap_last_check (persist_valve env a) = ap_last_check a"
  "ap_history (persist_valve env a) = ap_history a"
  "ap_webhooks (persist_valve env a) = ap_webhooks a"
  "ap_reads (persist_valve env a) = ap_reads a"
  by (auto simp: persist_valve_def Let_def split: option.split prod.split sum.split)

lemma app_snapshot_cong:
  "ap_state a = ap_state b \<Longrightarrow> app_snapshot a = app_snapshot b"
  by (simp add: app_snapshot_def)

lemma snapshot_frame [simp]:
  "app_snapshot (emit_event env a ev) = app_snapshot a"
  "app_snapshot (record_alarm_event env a e) = app_snapshot a"
  "app_snapshot (fst (switch_command env a c)) = app_snapshot a"
  "app_snapshot (persist_valve env a) = app_snapshot a"
  by (simp_all add: app_snapshot_def)

lemma snapshot_update_simps [simp]:
  "app_snapshot (a\<lparr>ap_reads := n\<rparr>) = app_snapshot a"
  "app_snapshot (a\<lparr>ap_last_check := t\<rparr>) = app_snapshot a"
  "app_snapshot (a\<lparr>ap_sprinkler1 := x\<rparr>) = app_snapshot a"
  "app_snapshot (a\<lparr>ap_sprinkler2 := x\<rparr>) = app_snapshot a"
  "app_snapshot (a\<lparr>ap_valve := v\<rparr>) = app_snapshot a"
  by (simp_all add: app_snapshot_def)

section \<open>The alarm rule\<close>

text \<open>The rule of the user's specification, on the two fields of the alarm alone: what one
  evaluation does, given the whole seconds since the last one.\<close>

definition alarm_rule :: "flow_alarm_config \<Rightarrow> bool \<Rightarrow> bool \<Rightarrow> u32 \<Rightarrow> flow_alarm \<Rightarrow> flow_alarm" where
  "alarm_rule al sprinkler over_limit delta_s fa =
    (if \<not> al_enabled al then \<lparr>fa_active = False, fa_elapsed_secs = 0\<rparr>
     else let elapsed = (if sprinkler \<or> \<not> over_limit then 0 else sat_add (fa_elapsed_secs fa) delta_s)
       in \<lparr>fa_active = (fa_active fa \<or> al_duration_secs al \<le> elapsed), fa_elapsed_secs = elapsed\<rparr>)"

definition alarm_delta :: "('s, 'd) app \<Rightarrow> u64 \<Rightarrow> u32" where
  "alarm_delta a now = (case ap_last_check a of
      Some t \<Rightarrow> ucast (sat_sub now t div 1000) | None \<Rightarrow> 0)"

lemma evaluate_alarm:
  "sn_alarm (app_snapshot (evaluate_flow_alarm env a now)) =
     alarm_rule (cf_flow_alarm (ap_config a))
       (st_sprinkler_1 (sn_switches (app_snapshot a)) \<or> st_sprinkler_2 (sn_switches (app_snapshot a)))
       (flow_above (app_snapshot a) (cf_flow_alarm (ap_config a)))
       (alarm_delta a now) (sn_alarm (app_snapshot a))"
  by (auto simp: evaluate_flow_alarm_def alarm_rule_def alarm_delta_def Let_def)

lemma evaluate_frame [simp]:
  "ap_config (evaluate_flow_alarm env a now) = ap_config a"
  "ap_sprinkler1 (evaluate_flow_alarm env a now) = ap_sprinkler1 a"
  "ap_sprinkler2 (evaluate_flow_alarm env a now) = ap_sprinkler2 a"
  "ap_last_persisted (evaluate_flow_alarm env a now) = ap_last_persisted a"
  "ap_last_check (evaluate_flow_alarm env a now) = Some now"
  by (auto simp: evaluate_flow_alarm_def Let_def)

lemma evaluate_switches [simp]:
  "sn_switches (app_snapshot (evaluate_flow_alarm env a now)) = sn_switches (app_snapshot a)"
  "sn_sensors (app_snapshot (evaluate_flow_alarm env a now)) = sn_sensors (app_snapshot a)"
  by (auto simp: evaluate_flow_alarm_def Let_def)

text \<open>The state after the timers of a tick, before the alarm is evaluated.\<close>

definition tick_timers :: "('s, 't, 'd) env \<Rightarrow> ('s, 'd) app \<Rightarrow> ('s, 'd) app" where
  "tick_timers env a =
    (let now = env_mono env (ap_reads a);
         s1 = fst (switch_tick (ap_sprinkler1 a) now);
         s2 = fst (switch_tick (ap_sprinkler2 a) now);
         v = fst (valve_tick (ap_valve a) now)
     in app_update_state
          (a\<lparr>ap_reads := Suc (ap_reads a), ap_sprinkler1 := s1, ap_sprinkler2 := s2, ap_valve := v\<rparr>)
          (mirror_switches (sw_on s1) (sw_on s2) (valve_state v)))"

lemma app_tick_split:
  "fst (app_tick env a) =
     persist_valve env (evaluate_flow_alarm env (tick_timers env a) (env_mono env (ap_reads a)))"
  by (simp add: app_tick_def tick_timers_def Let_def case_prod_beta)

lemma app_tick_outputs:
  "snd (app_tick env a) =
     \<lparr>to_sprinkler_1 = sw_on (ap_sprinkler1 (tick_timers env a)),
      to_sprinkler_2 = sw_on (ap_sprinkler2 (tick_timers env a)),
      to_valve = snd (valve_tick (ap_valve a) (env_mono env (ap_reads a)))\<rparr>"
  by (simp add: app_tick_def tick_timers_def Let_def case_prod_beta)

lemma tick_timers_frame [simp]:
  "ap_config (tick_timers env a) = ap_config a" "ap_nvs (tick_timers env a) = ap_nvs a"
  "ap_last_persisted (tick_timers env a) = ap_last_persisted a"
  "ap_last_check (tick_timers env a) = ap_last_check a"
  "ap_history (tick_timers env a) = ap_history a" "ap_webhooks (tick_timers env a) = ap_webhooks a"
  "sn_alarm (app_snapshot (tick_timers env a)) = sn_alarm (app_snapshot a)"
  "sn_sensors (app_snapshot (tick_timers env a)) = sn_sensors (app_snapshot a)"
  "ap_valve (tick_timers env a) = fst (valve_tick (ap_valve a) (env_mono env (ap_reads a)))"
  "ap_sprinkler1 (tick_timers env a) = fst (switch_tick (ap_sprinkler1 a) (env_mono env (ap_reads a)))"
  "ap_sprinkler2 (tick_timers env a) = fst (switch_tick (ap_sprinkler2 a) (env_mono env (ap_reads a)))"
  "ap_reads (tick_timers env a) = Suc (ap_reads a)"
  by (simp_all add: tick_timers_def Let_def mirror_switches_def)

lemma tick_timers_mirror [simp]:
  "sn_switches (app_snapshot (tick_timers env a)) =
     \<lparr>st_sprinkler_1 = sw_on (ap_sprinkler1 (tick_timers env a)),
      st_sprinkler_2 = sw_on (ap_sprinkler2 (tick_timers env a)),
      st_water_control = water_control_of (valve_state (ap_valve (tick_timers env a)))\<rparr>"
  by (simp add: tick_timers_def Let_def mirror_switches_def)

lemma app_tick_frame [simp]:
  "ap_config (fst (app_tick env a)) = ap_config a"
  "ap_sprinkler1 (fst (app_tick env a)) = ap_sprinkler1 (tick_timers env a)"
  "ap_sprinkler2 (fst (app_tick env a)) = ap_sprinkler2 (tick_timers env a)"
  "ap_last_check (fst (app_tick env a)) = Some (env_mono env (ap_reads a))"
  by (simp_all add: app_tick_split)

lemma flow_above_sensors:
  "sn_sensors s = sn_sensors t \<Longrightarrow> flow_above s al = flow_above t al"
  by (simp add: flow_above_def)

text \<open>The tick implements the alarm rule: the alarm shown after a tick is the rule applied to the
  alarm before, with the sprinklers as this tick left them, the last flow reading compared with the
  threshold, and the whole seconds since the previous tick.\<close>

theorem app_tick_alarm_rule:
  "sn_alarm (app_snapshot (fst (app_tick env a))) =
     alarm_rule (cf_flow_alarm (ap_config a))
       (sw_on (ap_sprinkler1 (fst (app_tick env a))) \<or> sw_on (ap_sprinkler2 (fst (app_tick env a))))
       (flow_above (app_snapshot a) (cf_flow_alarm (ap_config a)))
       (alarm_delta a (env_mono env (ap_reads a))) (sn_alarm (app_snapshot a))"
  using flow_above_sensors [of "app_snapshot (tick_timers env a)" "app_snapshot a"]
  by (simp add: app_tick_split evaluate_alarm alarm_delta_def del: tick_timers_frame(10,11))

lemma alarm_rule_latched:
  "al_enabled al \<Longrightarrow> fa_active fa \<Longrightarrow> fa_active (alarm_rule al sp ab d fa)"
  by (simp add: alarm_rule_def Let_def)

lemma fire_frame [simp]:
  "ap_state (fst (fire_schedule_sprinkler env a i d)) = ap_state a"
  "ap_config (fst (fire_schedule_sprinkler env a i d)) = ap_config a"
  "ap_valve (fst (fire_schedule_sprinkler env a i d)) = ap_valve a"
  "ap_nvs (fst (fire_schedule_sprinkler env a i d)) = ap_nvs a"
  "ap_last_persisted (fst (fire_schedule_sprinkler env a i d)) = ap_last_persisted a"
  "ap_last_check (fst (fire_schedule_sprinkler env a i d)) = ap_last_check a"
  "ap_history (fst (fire_schedule_sprinkler env a i d)) = ap_history a"
  "app_snapshot (fst (fire_schedule_sprinkler env a i d)) = app_snapshot a"
  by (simp_all add: fire_schedule_sprinkler_def app_snapshot_def Let_def)

lemma replace_frame [simp]:
  "ap_state (replace_config_section env a c n) = ap_state a"
  "ap_config (replace_config_section env a c n) = c"
  "ap_valve (replace_config_section env a c n) =
     valve_set_timing (ap_valve a) (sw_valve_timing (cf_switches c))"
  "ap_nvs (replace_config_section env a c n) = ap_nvs a"
  "ap_last_persisted (replace_config_section env a c n) = ap_last_persisted a"
  "ap_last_check (replace_config_section env a c n) = ap_last_check a"
  "ap_history (replace_config_section env a c n) = ap_history a"
  "app_snapshot (replace_config_section env a c n) = app_snapshot a"
  by (simp_all add: replace_config_section_def app_snapshot_def Let_def)

lemma clear_frame [simp]:
  "ap_config (clear_flow_alarm env a) = ap_config a" "ap_valve (clear_flow_alarm env a) = ap_valve a"
  "ap_sprinkler1 (clear_flow_alarm env a) = ap_sprinkler1 a"
  "ap_sprinkler2 (clear_flow_alarm env a) = ap_sprinkler2 a"
  "ap_nvs (clear_flow_alarm env a) = ap_nvs a"
  "ap_last_persisted (clear_flow_alarm env a) = ap_last_persisted a"
  "ap_last_check (clear_flow_alarm env a) = ap_last_check a"
  "ap_history (clear_flow_alarm env a) = ap_history a"
  "sn_alarm (app_snapshot (clear_flow_alarm env a)) = \<lparr>fa_active = False, fa_elapsed_secs = 0\<rparr>"
  by (simp_all add: clear_flow_alarm_def Let_def)

lemma write_alarm [simp]: "sn_alarm (app_write se ne di up s) = sn_alarm s"
  by (simp add: app_write_def)

definition alarm_armed :: "app_op \<Rightarrow> bool" where
  "alarm_armed e = (case e of AClear \<Rightarrow> False | AReplace c _ \<Rightarrow> al_enabled (cf_flow_alarm c) | _ \<Rightarrow> True)"

interpretation latch: run_machine "app_apply env" "\<lambda>_. alarm_armed"
  "\<lambda>a. al_enabled (cf_flow_alarm (ap_config a)) \<and> fa_active (sn_alarm (app_snapshot a))"
  for env :: "('s, 't, 'd) env"
proof unfold_locales
  fix a :: "('s, 'd) app" and e
  assume "al_enabled (cf_flow_alarm (ap_config a)) \<and> fa_active (sn_alarm (app_snapshot a))" "alarm_armed e"
  then show "al_enabled (cf_flow_alarm (ap_config (app_apply env a e))) \<and>
      fa_active (sn_alarm (app_snapshot (app_apply env a e)))"
    by (cases e) (simp_all add: alarm_armed_def app_tick_split evaluate_alarm alarm_rule_latched)
qed

text \<open>C5. The alarm is latched. Once active it stays active through every sequence of ticks, commands,
  schedule activations, sensor updates, events and configuration changes that keep the alarm
  enabled: only a clear (or disabling the alarm) ends it.\<close>

theorem alarm_latched:
  assumes "al_enabled (cf_flow_alarm (ap_config a))" "fa_active (sn_alarm (app_snapshot a))"
    and "list_all alarm_armed ops"
  shows "fa_active (sn_alarm (app_snapshot (foldl (app_apply env) a ops)))"
  using latch.run_inv [where s = a and es = ops and env = env] assms by (simp add: ok_run_list_all)

lemma alarm_latched_witness:
  "fa_active (sn_alarm (app_snapshot (foldl (app_apply (sample_env (\<lambda>n. of_nat (1000 * n))))
     (app_update_state (app_new (sample_env (\<lambda>n. of_nat (1000 * n))) sample_config)
        (\<lambda>s. s\<lparr>sn_alarm := \<lparr>fa_active = True, fa_elapsed_secs = 60\<rparr>\<rparr>))
     [ATick, ACommand (WaterControl True), ATick])))"
  by (rule alarm_latched)
     (simp_all add: app_new_def app_with_nvs_def Let_def sample_config_def alarm_armed_def)

section \<open>Closing the valve\<close>

lemma close_not_on:
  "valve_state (ap_valve (fst (switch_command env a (WaterControl False)))) \<noteq> On"
  by (auto simp: switch_command_def Let_def valve_is_busy_def valve_state_def valve_turn_off_def
      split: phase.splits)

lemma water_control_of_On: "water_control_of s = WcOn \<longleftrightarrow> s = On"
  by (cases s) simp_all

lemma evaluate_closes:
  assumes "st_water_control (sn_switches (app_snapshot a)) = water_control_of (valve_state (ap_valve a))"
    and "fa_active (sn_alarm (app_snapshot (evaluate_flow_alarm env a now)))"
  shows "valve_state (ap_valve (evaluate_flow_alarm env a now)) \<noteq> On"
  using assms by (auto simp: evaluate_flow_alarm_def Let_def close_not_on water_control_of_On
      split: if_splits)

text \<open>An active alarm never leaves the water on: after every tick, from any state, if the alarm is
  active then the valve is not in state On. Firing starts the closing at once when the valve is
  open; a valve that is still opening is closed by the first tick that finds it open.\<close>

theorem alarm_closes_valve:
  "\<not> (fa_active (sn_alarm (app_snapshot (fst (app_tick env a)))) \<and>
      valve_state (ap_valve (fst (app_tick env a))) = On)"
proof -
  have "st_water_control (sn_switches (app_snapshot (tick_timers env a))) =
      water_control_of (valve_state (ap_valve (tick_timers env a)))"
    by simp
  from evaluate_closes [OF this, of env "env_mono env (ap_reads a)"] show ?thesis
    by (auto simp: app_tick_split)
qed

section \<open>Sub-second ticks\<close>

text \<open>A tick that comes less than a second after the previous one; the durations are not zero.\<close>

definition fast_op :: "('s, 't, 'd) env \<Rightarrow> ('s, 'd) app \<Rightarrow> app_op \<Rightarrow> bool" where
  "fast_op env a e = (case e of
      ATick \<Rightarrow> (case ap_last_check a of
        Some t \<Rightarrow> unat (env_mono env (ap_reads a)) < unat t + 1000 | None \<Rightarrow> True)
    | AReplace c _ \<Rightarrow> al_duration_secs (cf_flow_alarm c) \<noteq> 0
    | _ \<Rightarrow> True)"

definition alarm_idle :: "('s, 'd) app \<Rightarrow> bool" where
  "alarm_idle a \<longleftrightarrow> al_duration_secs (cf_flow_alarm (ap_config a)) \<noteq> 0 \<and>
     sn_alarm (app_snapshot a) = \<lparr>fa_active = False, fa_elapsed_secs = 0\<rparr>"

lemma alarm_delta_zero: "fast_op env a ATick \<Longrightarrow> alarm_delta a (env_mono env (ap_reads a)) = 0"
proof (cases "ap_last_check a")
  case (Some t)
  assume "fast_op env a ATick"
  with Some have "unat (sat_sub (env_mono env (ap_reads a)) t div 1000) = 0"
    by (simp add: fast_op_def unat_div)
  with Some show ?thesis
    by (simp add: alarm_delta_def unat_eq_zero)
qed (simp add: alarm_delta_def)

lemma alarm_rule_idle:
  "al_duration_secs al \<noteq> 0 \<Longrightarrow> alarm_rule al sp ab 0 \<lparr>fa_active = False, fa_elapsed_secs = 0\<rparr> =
     \<lparr>fa_active = False, fa_elapsed_secs = 0\<rparr>"
  by (simp add: alarm_rule_def Let_def word_le_0_iff)

interpretation subsec: run_machine "app_apply env" "fast_op env" alarm_idle
  for env :: "('s, 't, 'd) env"
proof unfold_locales
  fix a :: "('s, 'd) app" and e
  assume inv: "alarm_idle a" and ok: "fast_op env a e"
  show "alarm_idle (app_apply env a e)"
  proof (cases e)
    case ATick
    with ok have "alarm_delta (tick_timers env a) (env_mono env (ap_reads a)) = 0"
      using alarm_delta_zero [of env a] by (simp add: alarm_delta_def)
    with ATick inv show ?thesis
      by (simp add: alarm_idle_def app_tick_split evaluate_alarm alarm_rule_idle)
  qed (use inv ok in \<open>simp_all add: alarm_idle_def fast_op_def\<close>)
qed

text \<open>C13. The alarm never fires when the device ticks faster than once a second. The elapsed time is
  accumulated in whole seconds per tick and the rest is discarded, so on every run whose ticks are
  less than 1000 ms apart (the firmware and the host tick every 10 ms) the counter stays 0 and
  the alarm stays off for every non-zero duration, whatever the flow.\<close>

theorem alarm_never_fires_subsecond:
  assumes "alarm_idle a" "ok_run (app_apply env) (fast_op env) a ops"
  shows "sn_alarm (app_snapshot (foldl (app_apply env) a ops)) = \<lparr>fa_active = False, fa_elapsed_secs = 0\<rparr>"
  using subsec.run_inv [OF assms] by (simp add: alarm_idle_def)

lemma idle_tick_reads:
  "alarm_idle a \<Longrightarrow> alarm_delta a (env_mono env (ap_reads a)) = 0 \<Longrightarrow>
     ap_reads (fst (app_tick env a)) = Suc (ap_reads a)"
  by (simp add: alarm_idle_def app_tick_split evaluate_flow_alarm_def alarm_delta_def Let_def word_le_0_iff)

definition slow_reads :: "nat \<Rightarrow> u64" where
  "slow_reads n = of_nat (999 * n)"

abbreviation slow_env :: "(fake_nvs, int, webhook_event list) env" where
  "slow_env \<equiv> sample_env slow_reads"

lemma boot_reads [simp]:
  "ap_reads (app_new env cfg) = 0" "ap_last_check (app_new env cfg) = None"
  "ap_config (app_new env cfg) = cfg"
  "sn_alarm (app_snapshot (app_new env cfg)) = \<lparr>fa_active = False, fa_elapsed_secs = 0\<rparr>"
  by (simp_all add: app_new_def app_with_nvs_def Let_def app_snapshot_def device_state_new_def
      state_snapshot_def default_snapshot_def default_flow_alarm_def)

text \<open>The leak of the instance: 500 l/h with both sprinklers off, over a threshold of 100 l/h, for a duration
  of one second, at ticks 999 ms apart.\<close>

abbreviation leak_sensors :: sensors where
  "leak_sensors \<equiv> default_sensors\<lparr>flow_lph := Some (fin_nat 500)\<rparr>"

abbreviation one_second_config :: config where
  "one_second_config \<equiv> sample_config\<lparr>cf_flow_alarm :=
     \<lparr>al_enabled = True, al_threshold_lph = fin_nat 100, al_duration_secs = 1\<rparr>\<rparr>"

lemma alarm_never_fires_subsecond_witness:
  "flow_above (app_snapshot (app_apply slow_env (app_new slow_env one_second_config) (AUpdate (Some leak_sensors) None None 0)))
     (cf_flow_alarm one_second_config) \<and>
   sn_alarm (app_snapshot (foldl (app_apply slow_env) (app_new slow_env one_second_config)
       [AUpdate (Some leak_sensors) None None 0, ATick, ATick, ATick])) = \<lparr>fa_active = False, fa_elapsed_secs = 0\<rparr>"
proof
  let ?a = "app_new slow_env one_second_config" and ?u = "AUpdate (Some leak_sensors) None None 0"
  let ?b = "app_apply slow_env ?a ?u"
  have reads: "ap_reads ?b = 0" "ap_last_check ?b = None" by (simp_all add: app_update_state_def)
  have "flow_lph (sn_sensors (app_snapshot ?b)) = Some (fin_nat 500)"
    by (simp add: app_update_state_def app_write_def app_snapshot_def state_update_def state_snapshot_def)
  then show "flow_above (app_snapshot ?b) (cf_flow_alarm one_second_config)"
    by (simp add: flow_above_def)
  have idle: "alarm_idle ?a" by (simp add: alarm_idle_def)
  have ok0: "fast_op slow_env ?a ?u" by (simp add: fast_op_def)
  let ?c = "app_apply slow_env ?b ATick"
  let ?d = "app_apply slow_env ?c ATick"
  have ib: "alarm_idle ?b" by (rule subsec.step_inv [OF idle ok0])
  have ok1: "fast_op slow_env ?b ATick" using reads by (simp add: fast_op_def)
  have ic: "alarm_idle ?c" by (rule subsec.step_inv [OF ib ok1])
  have rc: "ap_reads ?c = 1" using idle_tick_reads [OF ib alarm_delta_zero [OF ok1]] reads by simp
  have ok2: "fast_op slow_env ?c ATick" using reads rc by (simp add: fast_op_def sample_env_def slow_reads_def)
  have rd: "ap_reads ?d = 2" using idle_tick_reads [OF ic alarm_delta_zero [OF ok2]] rc by simp
  have ok3: "fast_op slow_env ?d ATick" using rc rd by (simp add: fast_op_def sample_env_def slow_reads_def)
  show "sn_alarm (app_snapshot (foldl (app_apply slow_env) ?a [?u, ATick, ATick, ATick])) = \<lparr>fa_active = False, fa_elapsed_secs = 0\<rparr>"
    by (rule alarm_never_fires_subsecond [OF idle]) (use ok0 ok1 ok2 ok3 in simp)
qed

text \<open>A duration of zero fires the alarm at the next tick whatever the flow is and even while a
  sprinkler runs, although the rule asks for a sustained flow over the threshold.\<close>

theorem alarm_zero_duration_fires:
  assumes "al_enabled (cf_flow_alarm (ap_config a))" "al_duration_secs (cf_flow_alarm (ap_config a)) = 0"
  shows "fa_active (sn_alarm (app_snapshot (fst (app_tick env a))))"
  using assms by (simp add: app_tick_split evaluate_alarm alarm_rule_def Let_def)

lemma alarm_zero_duration_fires_witness:
  "fa_active (sn_alarm (app_snapshot (fst (app_tick (sample_env slow_reads)
     (app_new (sample_env slow_reads)
        (sample_config\<lparr>cf_flow_alarm := \<lparr>al_enabled = True, al_threshold_lph = fin_nat 100, al_duration_secs = 0\<rparr>\<rparr>))))))"
  by (rule alarm_zero_duration_fires) (simp_all add: app_new_def app_with_nvs_def Let_def)

section \<open>Ticks a second apart\<close>

text \<open>A leak as the ticks see it: every tick comes at least a second after the previous one (and less than
  2 to the 32 seconds), finds the last flow reading over the threshold and leaves both sprinklers off;
  nothing in between clears the alarm or changes its settings.\<close>

definition leak_op :: "('s, 't, 'd) env \<Rightarrow> ('s, 'd) app \<Rightarrow> app_op \<Rightarrow> bool" where
  "leak_op env a e = (case e of
      ATick \<Rightarrow> (case ap_last_check a of
          None \<Rightarrow> False
        | Some t \<Rightarrow> unat t + 1000 \<le> unat (env_mono env (ap_reads a)) \<and>
            unat (env_mono env (ap_reads a)) < unat t + 1000 * 2 ^ 32) \<and>
        flow_above (app_snapshot a) (cf_flow_alarm (ap_config a)) \<and>
        \<not> sw_on (ap_sprinkler1 (fst (app_tick env a))) \<and> \<not> sw_on (ap_sprinkler2 (fst (app_tick env a)))
    | AReplace c _ \<Rightarrow> cf_flow_alarm c = cf_flow_alarm (ap_config a)
    | AClear \<Rightarrow> False
    | _ \<Rightarrow> True)"

definition tick_count :: "app_op list \<Rightarrow> nat" where
  "tick_count es = length (filter (\<lambda>e. e = ATick) es)"

lemma leak_delta:
  assumes "leak_op env a ATick"
  shows "1 \<le> unat (alarm_delta a (env_mono env (ap_reads a)))"
proof -
  obtain t where t: "ap_last_check a = Some t" "unat t + 1000 \<le> unat (env_mono env (ap_reads a))"
    "unat (env_mono env (ap_reads a)) < unat t + 1000 * 2 ^ 32"
    using assms by (auto simp: leak_op_def split: option.splits)
  let ?d = "sat_sub (env_mono env (ap_reads a)) t div 1000"
  have d: "unat ?d = (unat (env_mono env (ap_reads a)) - unat t) div 1000" by (simp add: unat_div)
  then have "1 \<le> unat ?d" "unat ?d < 2 ^ 32" using t(2,3) by auto
  then have "unat (ucast ?d :: u32) = unat ?d" by (simp add: unsigned_ucast_eq take_bit_nat_eq_self)
  with \<open>1 \<le> unat ?d\<close> t(1) show ?thesis by (simp add: alarm_delta_def)
qed

text \<open>One tick of a leak: active, or a second more on the counter.\<close>

lemma leak_tick:
  assumes "leak_op env a ATick" "al_enabled (cf_flow_alarm (ap_config a))"
    and "fa_active (sn_alarm (app_snapshot a)) \<or> n \<le> unat (fa_elapsed_secs (sn_alarm (app_snapshot a)))"
  defines "fa \<equiv> sn_alarm (app_snapshot (fst (app_tick env a)))"
  shows "fa_active fa \<or> (Suc n \<le> unat (fa_elapsed_secs fa) \<and>
    unat (fa_elapsed_secs fa) < unat (al_duration_secs (cf_flow_alarm (ap_config a))))"
proof -
  let ?al = "cf_flow_alarm (ap_config a)" and ?fa = "sn_alarm (app_snapshot a)"
  let ?d = "alarm_delta a (env_mono env (ap_reads a))"
  have fa: "fa = alarm_rule ?al False True ?d ?fa"
    using assms(1) flow_above_sensors [of "app_snapshot (tick_timers env a)" "app_snapshot a"]
    by (simp add: fa_def leak_op_def app_tick_split evaluate_alarm alarm_delta_def del: tick_timers_frame(10,11))
  have e: "unat (fa_elapsed_secs fa) = min (unat (fa_elapsed_secs ?fa) + unat ?d) (2 ^ 32 - 1)"
    using assms(2) by (simp add: fa alarm_rule_def unat_sat_add Let_def)
  have a: "fa_active fa \<longleftrightarrow> fa_active ?fa \<or> al_duration_secs ?al \<le> fa_elapsed_secs fa"
    using assms(2) by (simp add: fa alarm_rule_def Let_def)
  show ?thesis
  proof (cases "fa_active fa")
    case False
    with a have lt: "unat (fa_elapsed_secs fa) < unat (al_duration_secs ?al)" by (simp add: word_le_nat_alt)
    with unat_u32_bound [of "al_duration_secs ?al"] have "unat (fa_elapsed_secs fa) < 2 ^ 32 - 1" by simp
    with e have "unat (fa_elapsed_secs fa) = unat (fa_elapsed_secs ?fa) + unat ?d" by simp
    with leak_delta [OF assms(1)] assms(3) False a lt show ?thesis by auto
  qed simp
qed

lemma leak_other:
  assumes "leak_op env a e" "e \<noteq> ATick"
  shows "sn_alarm (app_snapshot (app_apply env a e)) = sn_alarm (app_snapshot a)"
    "cf_flow_alarm (ap_config (app_apply env a e)) = cf_flow_alarm (ap_config a)"
  using assms by (cases e; simp add: leak_op_def)+

lemma leak_run:
  assumes "ok_run (app_apply env) (leak_op env) a es" "al_enabled (cf_flow_alarm (ap_config a))"
    and "fa_active (sn_alarm (app_snapshot a)) \<or>
      (n \<le> unat (fa_elapsed_secs (sn_alarm (app_snapshot a))) \<and> 0 < tick_count es \<and>
       unat (al_duration_secs (cf_flow_alarm (ap_config a))) \<le> n + tick_count es)"
  shows "fa_active (sn_alarm (app_snapshot (foldl (app_apply env) a es)))"
  using assms
proof (induction es arbitrary: a n)
  case Nil
  then show ?case by (simp add: tick_count_def)
next
  case (Cons e es)
  have ok: "leak_op env a e" and run: "ok_run (app_apply env) (leak_op env) (app_apply env a e) es"
    using Cons.prems(1) by simp_all
  show ?case
  proof (cases "e = ATick")
    case True
    have al: "cf_flow_alarm (ap_config (app_apply env a e)) = cf_flow_alarm (ap_config a)" by (simp add: True)
    have "fa_active (sn_alarm (app_snapshot a)) \<or> n \<le> unat (fa_elapsed_secs (sn_alarm (app_snapshot a)))"
      using Cons.prems(3) by blast
    from leak_tick [OF ok [unfolded True] Cons.prems(2) this] Cons.prems(2,3)
    have next_n: "fa_active (sn_alarm (app_snapshot (app_apply env a e))) \<or>
        (Suc n \<le> unat (fa_elapsed_secs (sn_alarm (app_snapshot (app_apply env a e)))) \<and> 0 < tick_count es \<and>
         unat (al_duration_secs (cf_flow_alarm (ap_config (app_apply env a e)))) \<le> Suc n + tick_count es)"
      unfolding al by (auto simp: True tick_count_def alarm_rule_latched app_tick_split evaluate_alarm)
    show ?thesis
      using Cons.IH [OF run _ next_n] Cons.prems(2) al by simp
  next
    case False
    note same = leak_other [OF ok False]
    have next_n: "fa_active (sn_alarm (app_snapshot (app_apply env a e))) \<or>
        (n \<le> unat (fa_elapsed_secs (sn_alarm (app_snapshot (app_apply env a e)))) \<and> 0 < tick_count es \<and>
         unat (al_duration_secs (cf_flow_alarm (ap_config (app_apply env a e)))) \<le> n + tick_count es)"
      using Cons.prems(3) False unfolding same by (auto simp: tick_count_def)
    show ?thesis
      using Cons.IH [OF run _ next_n] Cons.prems(2) same by simp
  qed
qed

text \<open>C6. A leak is found where ticks are at least a second apart, as on the no_std firmware: with the alarm
  enabled, and the flow over the threshold with both sprinklers off at every tick, the alarm is active
  after at most as many ticks as its duration has seconds, whatever commands, events and sensor
  updates come in between, and behind a tick the valve is then not open.\<close>

theorem leak_fires_alarm:
  assumes "ok_run (app_apply env) (leak_op env) a (es @ [ATick])" "al_enabled (cf_flow_alarm (ap_config a))"
    and "unat (al_duration_secs (cf_flow_alarm (ap_config a))) \<le> Suc (tick_count es)"
  shows "fa_active (sn_alarm (app_snapshot (foldl (app_apply env) a (es @ [ATick])))) \<and>
    valve_state (ap_valve (foldl (app_apply env) a (es @ [ATick]))) \<noteq> On"
proof
  show act: "fa_active (sn_alarm (app_snapshot (foldl (app_apply env) a (es @ [ATick]))))"
    by (rule leak_run [OF assms(1,2), of 0]) (use assms(3) in \<open>simp add: tick_count_def\<close>)
  let ?b = "foldl (app_apply env) a es"
  have "st_water_control (sn_switches (app_snapshot (tick_timers env ?b))) =
      water_control_of (valve_state (ap_valve (tick_timers env ?b)))" by simp
  from evaluate_closes [OF this, of env "env_mono env (ap_reads ?b)"] act
  show "valve_state (ap_valve (foldl (app_apply env) a (es @ [ATick]))) \<noteq> On"
    by (auto simp: app_tick_split)
qed

definition leaking_app :: "(fake_nvs, webhook_event list) app" where
  "leaking_app = (app_new (sample_env (\<lambda>n. of_nat (1000 * n + 1000)))
     (sample_config\<lparr>cf_flow_alarm := \<lparr>al_enabled = True, al_threshold_lph = f32_zero, al_duration_secs = 1\<rparr>\<rparr>))
       \<lparr>ap_last_check := Some 0\<rparr>"

lemma leak_fires_alarm_witness:
  "fa_active (sn_alarm (app_snapshot (fst (app_tick (sample_env (\<lambda>n. of_nat (1000 * n + 1000))) leaking_app))))"
proof -
  have "leak_op (sample_env (\<lambda>n. of_nat (1000 * n + 1000))) leaking_app ATick"
    by (simp add: leak_op_def leaking_app_def app_new_def app_with_nvs_def Let_def sample_env_def flow_above_def
        switch_new_def switch_tick_def device_state_new_def state_snapshot_def default_snapshot_def default_sensors_def app_snapshot_def)
  then have "ok_run (app_apply (sample_env (\<lambda>n. of_nat (1000 * n + 1000)))) (leak_op (sample_env (\<lambda>n. of_nat (1000 * n + 1000))))
      leaking_app ([] @ [ATick])" by simp
  from leak_fires_alarm [OF this] show ?thesis
    by (simp add: leaking_app_def tick_count_def app_new_def app_with_nvs_def Let_def)
qed

section \<open>Commands\<close>

text \<open>The whole behaviour of the water command. In a moving state it answers \<open>Busy\<close> and changes
  nothing; in a settled state it answers \<open>Ok\<close>, starts the movement towards the wanted position
  at the time it read, and does nothing when the valve is already there.\<close>

theorem water_command_spec:
  "switch_command env a (WaterControl on) =
    (let now = env_mono env (ap_reads a); a' = a\<lparr>ap_reads := Suc (ap_reads a)\<rparr> in
     case valve_state (ap_valve a) of
       Off \<Rightarrow> (a'\<lparr>ap_valve := (if on then (ap_valve a)\<lparr>wv_phase := PTurningOn now\<rparr> else ap_valve a)\<rparr>, CmdOk)
     | On \<Rightarrow> (a'\<lparr>ap_valve := (if on then ap_valve a else (ap_valve a)\<lparr>wv_phase := PTurningOff now\<rparr>)\<rparr>, CmdOk)
     | _ \<Rightarrow> (a', CmdBusy ''valve sequence in progress''))"
  by (auto simp: switch_command_def Let_def valve_is_busy_def valve_state_def valve_turn_on_def
      valve_turn_off_def split: phase.splits)

section \<open>Components agree with the configuration\<close>

definition app_consistent :: "('s, 'd) app \<Rightarrow> bool" where
  "app_consistent a \<longleftrightarrow>
     sw_auto_off (ap_sprinkler1 a) = auto_off_or_none (sprinkler_1_auto_off_secs (cf_switches (ap_config a))) \<and>
     sw_auto_off (ap_sprinkler2 a) = auto_off_or_none (sprinkler_2_auto_off_secs (cf_switches (ap_config a))) \<and>
     wv_timing (ap_valve a) = sw_valve_timing (cf_switches (ap_config a)) \<and>
     switch_ok (ap_sprinkler1 a) \<and> switch_ok (ap_sprinkler2 a) \<and> valve_ok (ap_valve a)"

lemma valve_timing_kept [simp]:
  "wv_timing (valve_turn_on v n) = wv_timing v" "wv_timing (valve_turn_off v n) = wv_timing v"
  "wv_timing (fst (valve_tick v n)) = wv_timing v"
  by (auto simp: valve_defs Let_def split: valve_splits)

lemma valve_ok_steps [simp]:
  "valve_ok v \<Longrightarrow> valve_ok (valve_turn_on v n)" "valve_ok v \<Longrightarrow> valve_ok (valve_turn_off v n)"
  "valve_ok v \<Longrightarrow> valve_ok (fst (valve_tick v n))" "valve_ok v \<Longrightarrow> valve_ok (valve_set_timing v t)"
  using valve_ok_apply [of v "(n, VTurnOn)"] valve_ok_apply [of v "(n, VTurnOff)"]
    valve_ok_apply [of v "(n, VTick)"] valve_ok_apply [of v "(n, VSetTiming t)"] by simp_all

lemma consistent_switch_command: "app_consistent a \<Longrightarrow> app_consistent (fst (switch_command env a c))"
  by (cases c) (simp_all add: app_consistent_def switch_command_def Let_def)

lemma consistent_cong:
  assumes "app_consistent a" "ap_config b = ap_config a" "ap_sprinkler1 b = ap_sprinkler1 a"
    "ap_sprinkler2 b = ap_sprinkler2 a" "ap_valve b = ap_valve a"
  shows "app_consistent b"
  using assms by (simp add: app_consistent_def)

lemma command_valve_off:
  "ap_valve (fst (switch_command env a (WaterControl False))) =
     (if valve_is_busy (ap_valve a) then ap_valve a
      else valve_turn_off (ap_valve a) (env_mono env (ap_reads a)))"
  by (simp add: switch_command_def Let_def)

lemma evaluate_valve:
  "\<exists>n. ap_valve (evaluate_flow_alarm env a now) = ap_valve a \<or>
       ap_valve (evaluate_flow_alarm env a now) = valve_turn_off (ap_valve a) n"
  unfolding evaluate_flow_alarm_def Let_def by (auto simp: command_valve_off)

lemma consistent_tick:
  assumes "app_consistent a"
  shows "app_consistent (fst (app_tick env a))"
proof -
  have t: "app_consistent (tick_timers env a)"
    using assms by (simp add: app_consistent_def)
  obtain n where "ap_valve (fst (app_tick env a)) = ap_valve (tick_timers env a) \<or>
      ap_valve (fst (app_tick env a)) = valve_turn_off (ap_valve (tick_timers env a)) n"
    using evaluate_valve [of env "tick_timers env a" "env_mono env (ap_reads a)"]
    by (auto simp: app_tick_split simp del: tick_timers_frame)
  with t show ?thesis
    unfolding app_consistent_def by (auto simp del: tick_timers_frame(9-11) simp add: app_tick_frame)
qed

lemma consistent_apply: "app_consistent a \<Longrightarrow> app_consistent (app_apply env a e)"
proof (cases e)
  case (AFire i d)
  assume "app_consistent a"
  then show ?thesis using AFire
    by (auto simp: app_consistent_def fire_schedule_sprinkler_def schedule_turn_on_def Let_def
        split: option.split)
next
  case (AReplace c n)
  assume "app_consistent a"
  then show ?thesis using AReplace
    by (simp add: app_consistent_def replace_config_section_def Let_def valve_set_timing_def
        switch_set_auto_off_def switch_ok_def valve_ok_def split: phase.splits)
qed (auto intro: consistent_tick consistent_switch_command elim: consistent_cong)

interpretation cons: run_machine "app_apply env" "\<lambda>_ _. True" app_consistent
  for env :: "('s, 't, 'd) env"
  by unfold_locales (rule consistent_apply)

lemma consistent_boot: "app_consistent (app_with_nvs env cfg nvs)"
  by (auto simp: app_consistent_def app_with_nvs_def Let_def valve_with_timing_def valve_restore_def
      switch_new_def switch_ok_def valve_ok_def split: option.split)

text \<open>The running components always agree with the configuration in force: after every run from
  boot, with any configuration changes in between, the auto-off of both sprinklers and the timing
  of the valve are those of the current configuration, and the three components satisfy their
  own invariants.\<close>

theorem app_consistent_run:
  "app_consistent (foldl (app_apply env) (app_with_nvs env cfg nvs) ops)"
  by (rule cons.run_inv_total [OF TrueI consistent_boot])

section \<open>The alarm history\<close>

lemma push_history_last_n:
  "length h \<le> ALARM_HISTORY_CAP \<Longrightarrow> push_history h ev = last_n ALARM_HISTORY_CAP (h @ [ev])"
  by (cases h) (auto simp: push_history_def last_n_def ALARM_HISTORY_CAP_def)

definition tick_fires :: "('s, 't, 'd) env \<Rightarrow> ('s, 'd) app \<Rightarrow> bool" where
  "tick_fires env a \<longleftrightarrow> \<not> fa_active (sn_alarm (app_snapshot a)) \<and>
     fa_active (sn_alarm (app_snapshot (fst (app_tick env a))))"

text \<open>The event a firing tick has to record: wall clock (0 before 1970), uptime, flow, duration.\<close>

definition fire_event :: "('s, 't, 'd) env \<Rightarrow> ('s, 'd) app \<Rightarrow> alarm_event" where
  "fire_event env a =
    \<lparr>ae_epoch_secs = word_of_int (max (env_timestamp env (env_wall env (Suc (ap_reads a)))) 0),
     ae_uptime_ms = env_mono env (ap_reads a),
     ae_flow_lph = (case flow_lph (sn_sensors (app_snapshot a)) of Some f \<Rightarrow> f | None \<Rightarrow> f32_zero),
     ae_duration_secs = al_duration_secs (cf_flow_alarm (ap_config a))\<rparr>"

fun fire_log :: "('s, 't, 'd) env \<Rightarrow> ('s, 'd) app \<Rightarrow> app_op list \<Rightarrow> alarm_event list" where
  "fire_log env a [] = []"
| "fire_log env a (e # es) =
     (if e = ATick \<and> tick_fires env a then [fire_event env a] else []) @ fire_log env (app_apply env a e) es"

lemma tick_history:
  "ap_history (fst (app_tick env a)) =
     (if tick_fires env a then push_history (ap_history a) (fire_event env a) else ap_history a)"
proof -
  have "ap_history (evaluate_flow_alarm env (tick_timers env a) now) =
      (if \<not> fa_active (sn_alarm (app_snapshot a)) \<and>
          fa_active (sn_alarm (app_snapshot (evaluate_flow_alarm env (tick_timers env a) now)))
       then push_history (ap_history a) (fire_event env a) else ap_history a)"
    if "now = env_mono env (ap_reads a)" for now
    unfolding evaluate_flow_alarm_def Let_def fire_event_def that
    by (simp add: flow_above_def)
  then show ?thesis
    by (simp add: app_tick_split tick_fires_def)
qed

lemma op_history:
  "ap_history (app_apply env a e) =
     (if e = ATick \<and> tick_fires env a then push_history (ap_history a) (fire_event env a) else ap_history a)"
  by (cases e) (simp_all add: tick_history)

lemma history_run:
  "length (ap_history a) \<le> ALARM_HISTORY_CAP \<Longrightarrow>
     ap_history (foldl (app_apply env) a es) = last_n ALARM_HISTORY_CAP (ap_history a @ fire_log env a es)"
proof (induction es arbitrary: a)
  case Nil
  then show ?case by (simp add: last_n_all)
next
  case (Cons e es)
  have h: "ap_history (app_apply env a e) =
      last_n ALARM_HISTORY_CAP (ap_history a @ (if e = ATick \<and> tick_fires env a then [fire_event env a] else []))"
    using Cons.prems by (simp add: op_history push_history_last_n last_n_all)
  then have "length (ap_history (app_apply env a e)) \<le> ALARM_HISTORY_CAP" by simp
  from Cons.IH [OF this] h show ?case
    by (simp add: last_n_append_last_n)
qed

text \<open>The alarm history is the last sixteen fires. After every run from boot it is the tail of
  the history restored from the store followed by one event per tick that switched the alarm on,
  in order, each with the time, flow and duration of that tick; nothing else ever changes it.\<close>

theorem alarm_history_run:
  "alarm_history (foldl (app_apply env) (app_with_nvs env cfg nvs) ops) =
     last_n 16 (stored_history env nvs @ fire_log env (app_with_nvs env cfg nvs) ops)"
proof -
  have h: "ap_history (app_with_nvs env cfg nvs) = stored_history env nvs"
    by (simp add: app_with_nvs_def Let_def)
  moreover have "length (stored_history env nvs) \<le> ALARM_HISTORY_CAP"
    by (simp add: stored_history_def split: option.split)
  ultimately show ?thesis
    using history_run [of "app_with_nvs env cfg nvs" env ops]
    by (simp add: alarm_history_def ALARM_HISTORY_CAP_def)
qed

section \<open>Events\<close>

lemma bm_insert_if_absent_add: "map_of (bm_insert_if_absent k v m) = [k \<mapsto> v] ++ map_of m"
  by (auto simp: bm_insert_if_absent_def fun_eq_iff map_add_def split: option.split)

text \<open>The variables the documentation promises on every event.\<close>

definition standard_vars :: "('s, 't, 'd) env \<Rightarrow> ('s, 'd) app \<Rightarrow> event_kind \<Rightarrow> (string, string) map" where
  "standard_vars env a k =
     [''event'' \<mapsto> event_as_str k, ''event_label'' \<mapsto> event_label k,
      ''iso_ts'' \<mapsto> env_rfc3339 env (env_wall env (ap_reads a)),
      ''device'' \<mapsto> wf_hostname (cf_wifi (ap_config a)),
      ''uptime_s'' \<mapsto> show_word (env_mono env (Suc (ap_reads a)) div 1000)]"

text \<open>Every emitted event reaches the dispatcher exactly once, with all five standard variables,
  where a value the caller has set wins, and with the caller's other variables unchanged.\<close>

theorem emit_event_vars:
  "\<exists>vs. ap_webhooks (emit_event env a ev) = env_dispatch env (ap_webhooks a) (ev\<lparr>we_vars := vs\<rparr>) \<and>
     map_of vs = standard_vars env a (we_kind ev) ++ map_of (we_vars ev)"
proof -
  have std: "[''uptime_s'' \<mapsto> u] ++ ([''device'' \<mapsto> d] ++ ([''iso_ts'' \<mapsto> i] ++
      ([''event_label'' \<mapsto> l] ++ ([''event'' \<mapsto> e] ++ m)))) =
      [''event'' \<mapsto> e, ''event_label'' \<mapsto> l, ''iso_ts'' \<mapsto> i, ''device'' \<mapsto> d, ''uptime_s'' \<mapsto> u] ++ m"
    for u d i l e :: string and m
    by (rule ext) (auto simp: map_add_def split: option.split)
  show ?thesis
    unfolding emit_event_def Let_def
    by (simp, rule exI, rule conjI, rule refl)
       (simp only: bm_insert_if_absent_add standard_vars_def std)
qed

section \<open>The valve position across a reboot\<close>

text \<open>A store whose writes succeed.\<close>

locale reliable_nvs = nvs_store +
  assumes set_succeeds: "ok s \<Longrightarrow> snd (nvs_set ops s k v) = Inr ()"
begin

lemma set_get_reliable: "ok s \<Longrightarrow> nvs_get ops (fst (nvs_set ops s k v)) = (nvs_get ops s)(k \<mapsto> v)"
  using set_get [of s k v "fst (nvs_set ops s k v)"] set_succeeds [of s k v]
  by (cases "nvs_set ops s k v") simp

end

interpretation fake_reliable: reliable_nvs fake_nvs_ops "\<lambda>_. True"
  by unfold_locales (simp add: fake_nvs_defs)

lemma fake_reliable_nvs: "reliable_nvs fake_nvs_ops (\<lambda>_. True)"
  by (rule fake_reliable.reliable_nvs_axioms)

definition persisted_ok :: "('s, 't, 'd) env \<Rightarrow> ('s \<Rightarrow> bool) \<Rightarrow> ('s, 'd) app \<Rightarrow> bool" where
  "persisted_ok env ok a = (case ap_nvs a of
      None \<Rightarrow> True
    | Some s \<Rightarrow> ok s \<and> ap_last_persisted a = stored_valve_state env (Some s))"

lemma persisted_cong:
  "persisted_ok env ok a \<Longrightarrow> ap_nvs b = ap_nvs a \<Longrightarrow> ap_last_persisted b = ap_last_persisted a \<Longrightarrow>
     persisted_ok env ok b"
  by (simp add: persisted_ok_def split: option.splits)

definition record_nvs :: "('s, 't, 'd) env \<Rightarrow> 's option \<Rightarrow> alarm_event list \<Rightarrow> 's option" where
  "record_nvs env n h = (case n of
      None \<Rightarrow> None
    | Some s \<Rightarrow> (case env_enc_history env h of
        None \<Rightarrow> Some s
      | Some b \<Rightarrow> Some (fst (nvs_set (env_nvs env) s NVS_ALARM_HISTORY b))))"

lemma record_nvs_eq:
  "ap_nvs (record_alarm_event env a ev) = record_nvs env (ap_nvs a) (push_history (ap_history a) ev)"
  by (simp add: record_alarm_event_def record_nvs_def Let_def split: option.split)

lemma other_key: "NVS_VALVE_STATE \<noteq> NVS_ALARM_HISTORY"
  by (simp add: NVS_VALVE_STATE_def NVS_ALARM_HISTORY_def)

context reliable_nvs
begin

lemma reliable_set:
  assumes "ok s"
  obtains s' where "nvs_set ops s k v = (s', Inr ())" "ok s'" "nvs_get ops s' = (nvs_get ops s)(k \<mapsto> v)"
  using set_succeeds [OF assms, of k v] set_ok [OF assms, of k v] set_get_reliable [OF assms, of k v]
  by (cases "nvs_set ops s k v") simp

lemma stored_valve_other:
  "env_nvs env = ops \<Longrightarrow> nvs_get ops s' = (nvs_get ops s)(NVS_ALARM_HISTORY \<mapsto> b) \<Longrightarrow>
     stored_valve_state env (Some s') = stored_valve_state env (Some s)"
  using other_key by (simp add: stored_valve_state_def)

lemma persisted_record:
  assumes env: "env_nvs env = ops" and p: "persisted_ok env ok a"
  shows "persisted_ok env ok (record_alarm_event env a ev)"
proof (cases "ap_nvs a")
  case None
  then show ?thesis by (simp add: persisted_ok_def record_alarm_event_def Let_def)
next
  case (Some s)
  show ?thesis
  proof (cases "env_enc_history env (push_history (ap_history a) ev)")
    case None
    with Some p show ?thesis by (simp add: persisted_ok_def record_alarm_event_def Let_def)
  next
    case (Some b)
    from p \<open>ap_nvs a = Some s\<close> have s: "ok s" "ap_last_persisted a = stored_valve_state env (Some s)"
      by (simp_all add: persisted_ok_def)
    obtain s' where s': "nvs_set ops s NVS_ALARM_HISTORY b = (s', Inr ())" "ok s'"
      "nvs_get ops s' = (nvs_get ops s)(NVS_ALARM_HISTORY \<mapsto> b)"
      using s(1) by (rule reliable_set)
    from stored_valve_other [OF env s'(3)] s s' Some \<open>ap_nvs a = Some s\<close> env show ?thesis
      by (simp add: persisted_ok_def record_alarm_event_def Let_def)
  qed
qed

lemma evaluate_nvs:
  "\<exists>ev. ap_nvs (evaluate_flow_alarm env a now) = ap_nvs a \<or>
     ap_nvs (evaluate_flow_alarm env a now) = ap_nvs (record_alarm_event env a ev)"
  unfolding evaluate_flow_alarm_def Let_def by (auto simp: record_nvs_eq)

lemma persisted_evaluate:
  assumes "env_nvs env = ops" "persisted_ok env ok a"
  shows "persisted_ok env ok (evaluate_flow_alarm env a now)"
proof -
  obtain ev where "ap_nvs (evaluate_flow_alarm env a now) = ap_nvs a \<or>
      ap_nvs (evaluate_flow_alarm env a now) = ap_nvs (record_alarm_event env a ev)"
    using evaluate_nvs by blast
  then show ?thesis
    using persisted_cong [OF assms(2)] persisted_cong [OF persisted_record [OF assms]] by fastforce
qed

lemma persisted_persist:
  assumes env: "env_nvs env = ops" and p: "persisted_ok env ok a"
  shows "persisted_ok env ok (persist_valve env a) \<and>
    (ap_nvs a \<noteq> None \<longrightarrow>
      stored_valve_state env (ap_nvs (persist_valve env a)) = Some (wv_user_state (ap_valve a)))"
proof (cases "ap_nvs a")
  case None
  then show ?thesis by (simp add: persisted_ok_def persist_valve_def)
next
  case (Some s)
  with p have s: "ok s" "ap_last_persisted a = stored_valve_state env (Some s)"
    by (simp_all add: persisted_ok_def)
  let ?u = "wv_user_state (ap_valve a)"
  show ?thesis
  proof (cases "ap_last_persisted a = Some ?u")
    case True
    with Some s show ?thesis by (simp add: persisted_ok_def persist_valve_def)
  next
    case False
    obtain s' where s': "nvs_set ops s NVS_VALVE_STATE [if ?u then 1 else 0] = (s', Inr ())" "ok s'"
      "nvs_get ops s' = (nvs_get ops s)(NVS_VALVE_STATE \<mapsto> [if ?u then 1 else 0])"
      using s(1) by (rule reliable_set)
    then have "stored_valve_state env (Some s') = Some ?u"
      by (simp add: stored_valve_state_def env)
    with Some s s' False env show ?thesis
      by (simp add: persisted_ok_def persist_valve_def Let_def)
  qed
qed

lemma persisted_tick:
  assumes "env_nvs env = ops" "persisted_ok env ok a"
  shows "persisted_ok env ok (fst (app_tick env a)) \<and>
    (ap_nvs a \<noteq> None \<longrightarrow> stored_valve_state env (ap_nvs (fst (app_tick env a))) =
       Some (wv_user_state (ap_valve (fst (app_tick env a)))))"
proof -
  let ?e = "evaluate_flow_alarm env (tick_timers env a) (env_mono env (ap_reads a))"
  have "persisted_ok env ok (tick_timers env a)"
    by (rule persisted_cong [OF assms(2)]) simp_all
  then have e: "persisted_ok env ok ?e" by (rule persisted_evaluate [OF assms(1)])
  have "ap_nvs ?e \<noteq> None" if "ap_nvs a \<noteq> None"
    using that evaluate_nvs [of env "tick_timers env a" "env_mono env (ap_reads a)"]
    by (auto simp: record_nvs_eq record_nvs_def split: option.splits)
  with persisted_persist [OF assms(1) e] show ?thesis
    by (simp add: app_tick_split)
qed

lemma persisted_apply:
  "env_nvs env = ops \<Longrightarrow> persisted_ok env ok a \<Longrightarrow> persisted_ok env ok (app_apply env a e)"
  by (cases e) (auto simp: persisted_tick elim: persisted_cong)

lemma persisted_boot:
  "(\<And>s. nvs = Some s \<Longrightarrow> ok s) \<Longrightarrow> persisted_ok env ok (app_with_nvs env cfg nvs)"
  by (simp add: persisted_ok_def app_with_nvs_def Let_def split: option.split)

lemma persisted_run:
  "env_nvs env = ops \<Longrightarrow> persisted_ok env ok a \<Longrightarrow> persisted_ok env ok (foldl (app_apply env) a es)"
  by (induction es arbitrary: a) (simp_all add: persisted_apply)

end

lemma boot_valve:
  "ap_valve (app_with_nvs env cfg nvs) =
     \<lparr>wv_phase = Idle,
      wv_user_state = (case stored_valve_state env nvs of Some on \<Rightarrow> on | None \<Rightarrow> False),
      wv_timing = sw_valve_timing (cf_switches cfg)\<rparr>"
  by (simp add: app_with_nvs_def Let_def valve_with_timing_def valve_restore_def split: option.split)

lemma store_kept: "ap_nvs a \<noteq> None \<Longrightarrow> ap_nvs (app_apply env a e) \<noteq> None"
proof (cases e)
  case ATick
  assume "ap_nvs a \<noteq> None"
  moreover have "ap_nvs (evaluate_flow_alarm env (tick_timers env a) n) \<noteq> None" if "ap_nvs a \<noteq> None" for n
    using that unfolding evaluate_flow_alarm_def Let_def
    by (auto simp: record_nvs_eq record_nvs_def split: option.splits)
  ultimately show ?thesis
    using ATick by (auto simp: app_tick_split persist_valve_def Let_def split: option.splits prod.splits sum.splits)
qed (simp_all add: record_nvs_def)

lemma store_kept_run: "ap_nvs a \<noteq> None \<Longrightarrow> ap_nvs (foldl (app_apply env) a es) \<noteq> None"
proof (induction es arbitrary: a)
  case (Cons e es)
  from Cons.IH [OF store_kept [OF Cons.prems]] show ?case by simp
qed simp

lemma stored_after_tick:
  assumes "reliable_nvs (env_nvs env) ok" "ok s0"
  shows "stored_valve_state env (ap_nvs (foldl (app_apply env) (app_with_nvs env cfg (Some s0)) (ops @ [ATick]))) =
    Some (wv_user_state (ap_valve (foldl (app_apply env) (app_with_nvs env cfg (Some s0)) (ops @ [ATick]))))"
proof -
  let ?b = "foldl (app_apply env) (app_with_nvs env cfg (Some s0)) ops"
  have "persisted_ok env ok (app_with_nvs env cfg (Some s0))"
    using assms(2) by (intro reliable_nvs.persisted_boot [OF assms(1)]) simp
  then have "persisted_ok env ok ?b"
    by (rule reliable_nvs.persisted_run [OF assms(1) refl])
  moreover have "ap_nvs ?b \<noteq> None"
    by (rule store_kept_run) (simp add: app_with_nvs_def Let_def)
  ultimately show ?thesis
    using reliable_nvs.persisted_tick [OF assms(1) refl] by simp
qed

lemma stored_env_cong:
  "env_nvs env' = env_nvs env \<Longrightarrow> stored_valve_state env' n = stored_valve_state env n"
  by (cases n) (simp_all add: stored_valve_state_def)

lemma app_valve_same: "a\<lparr>ap_reads := n, ap_valve := ap_valve a\<rparr> = a\<lparr>ap_reads := n\<rparr>"
  by simp

text \<open>C18. The valve position survives a reboot. On a store whose writes succeed, after any run from
  boot that ends with a tick, booting again from the store gives an idle valve with the position
  the running valve had reached: the last completed one, also in the middle of a movement.\<close>

theorem reboot_restores_valve:
  assumes "reliable_nvs (env_nvs env) ok" "ok s0" "env_nvs env' = env_nvs env"
    and "a = foldl (app_apply env) (app_with_nvs env cfg (Some s0)) (ops @ [ATick])"
  shows "ap_valve (app_with_nvs env' cfg' (ap_nvs a)) =
    \<lparr>wv_phase = Idle, wv_user_state = wv_user_state (ap_valve a),
     wv_timing = sw_valve_timing (cf_switches cfg')\<rparr>"
  using stored_after_tick [OF assms(1,2), of cfg ops, folded assms(4)]
  by (simp add: boot_valve stored_env_cong [OF assms(3)])

lemma reboot_restores_valve_witness:
  "wv_user_state (ap_valve (app_with_nvs slow_env sample_config (ap_nvs (foldl (app_apply slow_env)
      (app_with_nvs slow_env sample_config (Some [NVS_VALVE_STATE \<mapsto> [1]])) [ATick])))) =
   wv_user_state (ap_valve (foldl (app_apply slow_env)
      (app_with_nvs slow_env sample_config (Some [NVS_VALVE_STATE \<mapsto> [1]])) [ATick]))"
  using reboot_restores_valve [of slow_env "\<lambda>_. True" "[NVS_VALVE_STATE \<mapsto> [1]]" slow_env _ sample_config
      "[]" sample_config, OF _ TrueI refl refl] fake_reliable_nvs
  by (simp add: sample_env_def)

text \<open>There is no recovery after a power loss in the middle of an opening. The stored position is
  still off, so the rebooted controller reports Off although the motor has partly opened the
  valve; a close command is accepted and does nothing, and no tick drives any output.\<close>

theorem reboot_mid_opening:
  assumes "reliable_nvs (env_nvs env) ok" "ok s0" "env_nvs env' = env_nvs env"
    and "a = foldl (app_apply env) (app_with_nvs env cfg (Some s0)) (ops @ [ATick])"
    and "valve_state (ap_valve a) = TurningOn"
  shows "let b = app_with_nvs env' cfg' (ap_nvs a) in
    valve_state (ap_valve b) = Off \<and>
    switch_command env' b (WaterControl False) = (b\<lparr>ap_reads := 1\<rparr>, CmdOk) \<and>
    valve_tick (ap_valve b) n = (ap_valve b, default_valve_outputs)"
proof -
  have "app_consistent a"
    unfolding assms(4) by (rule cons.run_inv_total [OF TrueI consistent_boot])
  with assms(5) have off: "\<not> wv_user_state (ap_valve a)"
    by (auto simp: app_consistent_def valve_ok_def valve_state_def split: phase.splits if_splits)
  have b: "ap_valve (app_with_nvs env' cfg' (ap_nvs a)) =
      \<lparr>wv_phase = Idle, wv_user_state = False, wv_timing = sw_valve_timing (cf_switches cfg')\<rparr>"
    using stored_after_tick [OF assms(1,2), of cfg ops, folded assms(4)] off
    by (simp add: boot_valve stored_env_cong [OF assms(3)])
  have r: "ap_reads (app_with_nvs env' cfg' (ap_nvs a)) = 0"
    by (simp add: app_with_nvs_def Let_def)
  show ?thesis
    by (simp add: Let_def b r valve_state_def switch_command_def valve_is_busy_def valve_turn_off_def
        tick_idle app_valve_same)
qed

lemma reboot_mid_opening_witness:
  "valve_state (ap_valve (app_with_nvs slow_env sample_config (ap_nvs (foldl (app_apply slow_env)
      (app_with_nvs slow_env sample_config (Some fake_nvs_new)) [ACommand (WaterControl True), ATick])))) = Off"
proof -
  let ?a = "foldl (app_apply slow_env) (app_with_nvs slow_env sample_config (Some fake_nvs_new))
      ([ACommand (WaterControl True)] @ [ATick])"
  have rel: "reliable_nvs (env_nvs slow_env) (\<lambda>_. True)"
    using fake_reliable_nvs by simp
  have boot: "ap_valve (app_with_nvs slow_env sample_config (Some fake_nvs_new)) =
      valve_with_timing default_valve_timing"
    by (simp add: boot_valve stored_valve_state_def fake_nvs_defs fake_nvs_new_def
        sample_config_def default_switches_config_def valve_with_timing_def)
  let ?b = "fst (switch_command slow_env (app_with_nvs slow_env sample_config (Some fake_nvs_new)) (WaterControl True))"
  have "ap_reads (app_with_nvs slow_env sample_config (Some fake_nvs_new)) = 0"
    by (simp add: app_with_nvs_def Let_def)
  then have b: "ap_valve ?b = \<lparr>wv_phase = PTurningOn 0, wv_user_state = False, wv_timing = default_valve_timing\<rparr>"
      "ap_reads ?b = 1"
    by (simp_all add: switch_command_def boot valve_with_timing_def valve_is_busy_def valve_turn_on_def
        slow_reads_def)
  then have t: "ap_valve (tick_timers slow_env ?b) = ap_valve ?b"
    by (simp add: tick_turning_on slow_reads_def seq_len_def elapsed_ms_def)
  obtain n where "ap_valve ?a = ap_valve ?b \<or> ap_valve ?a = valve_turn_off (ap_valve ?b) n"
    using evaluate_valve [of slow_env "tick_timers slow_env ?b" "env_mono slow_env (ap_reads ?b)"] t
    by (auto simp: app_tick_split simp del: tick_timers_frame)
  then have "valve_state (ap_valve ?a) = TurningOn"
    by (auto simp: b valve_turn_off_def valve_state_def)
  from reboot_mid_opening [OF rel TrueI refl refl this, of sample_config] show ?thesis
    by (simp add: Let_def)
qed

end
