(* ===== verification/HA_Discovery.thy ===== *)
theory HA_Discovery
  imports Text
begin

text \<open>
  Home Assistant discovery, \<open>crates/core/src/ha_discovery.rs\<close>: the payload structures, the topics
  of the device and the full list of messages. The JSON text of a payload is serde_json's: the
  encoder of the three payload structures is an argument.
\<close>

section \<open>Data\<close>

record device_context =
  dc_base_topic :: string
  dc_discovery_prefix :: string
  dc_device_id :: string
  dc_friendly_name :: string
  dc_sw_version :: string
  dc_manufacturer :: string
  dc_model :: string

record device_block =
  db_identifiers :: "string list"
  db_name :: string
  db_manufacturer :: string
  db_model :: string
  db_sw_version :: string

record sensor_payload =
  sp_name :: string
  sp_unique_id :: string
  sp_object_id :: string
  sp_state_topic :: string
  sp_unit_of_measurement :: "string option"
  sp_device_class :: "string option"
  sp_state_class :: "string option"
  sp_icon :: "string option"
  sp_suggested_display_precision :: "u8 option"
  sp_availability_topic :: string
  sp_payload_available :: string
  sp_payload_not_available :: string
  sp_device :: device_block

record switch_payload =
  wp_name :: string
  wp_unique_id :: string
  wp_object_id :: string
  wp_state_topic :: string
  wp_command_topic :: string
  wp_payload_on :: string
  wp_payload_off :: string
  wp_state_on :: string
  wp_state_off :: string
  wp_optimistic :: bool
  wp_availability_topic :: string
  wp_payload_available :: string
  wp_payload_not_available :: string
  wp_device :: device_block

record binary_sensor_payload =
  bp_name :: string
  bp_unique_id :: string
  bp_object_id :: string
  bp_state_topic :: string
  bp_payload_on :: string
  bp_payload_off :: string
  bp_device_class :: "string option"
  bp_icon :: "string option"
  bp_availability_topic :: string
  bp_payload_available :: string
  bp_payload_not_available :: string
  bp_device :: device_block

datatype ha_payload =
  PSensor sensor_payload | PSwitch switch_payload | PBinary binary_sensor_payload

text \<open>A message before encoding: the payload is still the structure.\<close>

record discovery_msg =
  dm_topic :: string
  dm_payload :: ha_payload

record sensor_desc =
  sd_key :: string
  sd_name :: string
  sd_unit :: "string option"
  sd_device_class :: "string option"
  sd_state_class :: "string option"
  sd_icon :: "string option"
  sd_precision :: "u8 option"

record switch_desc =
  wd_key :: string
  wd_name :: string

record binary_sensor_desc =
  bd_key :: string
  bd_name :: string
  bd_device_class :: "string option"
  bd_icon :: "string option"

section \<open>Topics and messages\<close>

definition device_block_of :: "device_context \<Rightarrow> device_block" where
  "device_block_of ctx = \<lparr>db_identifiers = [dc_device_id ctx], db_name = dc_friendly_name ctx,
     db_manufacturer = dc_manufacturer ctx, db_model = dc_model ctx, db_sw_version = dc_sw_version ctx\<rparr>"

definition availability_topic :: "device_context \<Rightarrow> string" where
  "availability_topic ctx = dc_base_topic ctx @ ''/status''"

definition sensor_state_topic :: "device_context \<Rightarrow> string \<Rightarrow> string" where
  "sensor_state_topic ctx key = dc_base_topic ctx @ ''/'' @ key @ ''/state''"

definition switch_state_topic :: "device_context \<Rightarrow> string \<Rightarrow> string" where
  "switch_state_topic ctx key = dc_base_topic ctx @ ''/'' @ key @ ''/state''"

definition switch_command_topic :: "device_context \<Rightarrow> string \<Rightarrow> string" where
  "switch_command_topic ctx key = dc_base_topic ctx @ ''/'' @ key @ ''/set''"

definition unique_id :: "device_context \<Rightarrow> string \<Rightarrow> string" where
  "unique_id ctx key = dc_device_id ctx @ ''_'' @ key"

definition ha_sensor :: "device_context \<Rightarrow> sensor_desc \<Rightarrow> discovery_msg" where
  "ha_sensor ctx s =
    (let uid = unique_id ctx (sd_key s) in
     \<lparr>dm_topic = dc_discovery_prefix ctx @ ''/sensor/'' @ uid @ ''/config'',
      dm_payload = PSensor
        \<lparr>sp_name = sd_name s, sp_unique_id = uid, sp_object_id = uid,
         sp_state_topic = sensor_state_topic ctx (sd_key s), sp_unit_of_measurement = sd_unit s,
         sp_device_class = sd_device_class s, sp_state_class = sd_state_class s, sp_icon = sd_icon s,
         sp_suggested_display_precision = sd_precision s,
         sp_availability_topic = availability_topic ctx, sp_payload_available = ''online'',
         sp_payload_not_available = ''offline'', sp_device = device_block_of ctx\<rparr>\<rparr>)"

definition ha_binary_sensor :: "device_context \<Rightarrow> binary_sensor_desc \<Rightarrow> discovery_msg" where
  "ha_binary_sensor ctx s =
    (let uid = unique_id ctx (bd_key s) in
     \<lparr>dm_topic = dc_discovery_prefix ctx @ ''/binary_sensor/'' @ uid @ ''/config'',
      dm_payload = PBinary
        \<lparr>bp_name = bd_name s, bp_unique_id = uid, bp_object_id = uid,
         bp_state_topic = sensor_state_topic ctx (bd_key s), bp_payload_on = ''ON'',
         bp_payload_off = ''OFF'', bp_device_class = bd_device_class s, bp_icon = bd_icon s,
         bp_availability_topic = availability_topic ctx, bp_payload_available = ''online'',
         bp_payload_not_available = ''offline'', bp_device = device_block_of ctx\<rparr>\<rparr>)"

definition ha_switch :: "device_context \<Rightarrow> switch_desc \<Rightarrow> discovery_msg" where
  "ha_switch ctx s =
    (let uid = unique_id ctx (wd_key s) in
     \<lparr>dm_topic = dc_discovery_prefix ctx @ ''/switch/'' @ uid @ ''/config'',
      dm_payload = PSwitch
        \<lparr>wp_name = wd_name s, wp_unique_id = uid, wp_object_id = uid,
         wp_state_topic = switch_state_topic ctx (wd_key s),
         wp_command_topic = switch_command_topic ctx (wd_key s), wp_payload_on = ''ON'',
         wp_payload_off = ''OFF'', wp_state_on = ''ON'', wp_state_off = ''OFF'',
         wp_optimistic = False, wp_availability_topic = availability_topic ctx,
         wp_payload_available = ''online'', wp_payload_not_available = ''offline'',
         wp_device = device_block_of ctx\<rparr>\<rparr>)"

definition sdesc :: "string \<Rightarrow> string \<Rightarrow> string option \<Rightarrow> string option \<Rightarrow> string option \<Rightarrow> string option \<Rightarrow> u8 option \<Rightarrow> sensor_desc" where
  "sdesc k n u dc sc i p = \<lparr>sd_key = k, sd_name = n, sd_unit = u, sd_device_class = dc,
     sd_state_class = sc, sd_icon = i, sd_precision = p\<rparr>"

definition all_messages :: "device_context \<Rightarrow> discovery_msg list" where
  "all_messages ctx =
    [ha_sensor ctx (sdesc ''battery'' ''Battery'' (Some ''V'') (Some ''voltage'') (Some ''measurement'') None (Some 2)),
     ha_sensor ctx (sdesc ''pressure'' ''Pressure'' (Some ''bar'') (Some ''pressure'') (Some ''measurement'') None (Some 2)),
     ha_sensor ctx (sdesc ''water_flow'' ''Water flow'' (Some ''L/h'') (Some ''water'') (Some ''measurement'') (Some ''mdi:water'') (Some 1)),
     ha_sensor ctx (sdesc ''water_total'' ''Total water'' (Some ''L'') (Some ''water'') (Some ''total_increasing'') (Some ''mdi:water'') (Some 3)),
     ha_sensor ctx (sdesc ''loop_time'' ''Loop time'' (Some ''ms'') None (Some ''measurement'') (Some ''mdi:timer-outline'') (Some 0)),
     ha_sensor ctx (sdesc ''wifi_rssi'' ''WiFi signal'' (Some ''dBm'') (Some ''signal_strength'') (Some ''measurement'') None (Some 0)),
     ha_sensor ctx (sdesc ''free_heap'' ''Free heap'' (Some ''B'') (Some ''data_size'') (Some ''measurement'') (Some ''mdi:memory'') (Some 0)),
     ha_sensor ctx (sdesc ''uptime'' ''Uptime'' (Some ''s'') (Some ''duration'') (Some ''total_increasing'') (Some ''mdi:timer-outline'') (Some 0)),
     ha_sensor ctx (sdesc ''reset_reason'' ''Reset reason'' None None None (Some ''mdi:restart-alert'') None),
     ha_switch ctx \<lparr>wd_key = ''sprinkler_1'', wd_name = ''Riego exterior''\<rparr>,
     ha_switch ctx \<lparr>wd_key = ''sprinkler_2'', wd_name = ''Riego mobil''\<rparr>,
     ha_switch ctx \<lparr>wd_key = ''water_control'', wd_name = ''Water control''\<rparr>,
     ha_binary_sensor ctx \<lparr>bd_key = ''flow_alarm'', bd_name = ''Flow alarm'',
       bd_device_class = Some ''problem'', bd_icon = Some ''mdi:water-alert''\<rparr>]"

section \<open>Facts\<close>

fun payload_state_topic :: "ha_payload \<Rightarrow> string" where
  "payload_state_topic (PSensor p) = sp_state_topic p"
| "payload_state_topic (PSwitch p) = wp_state_topic p"
| "payload_state_topic (PBinary p) = bp_state_topic p"

fun payload_unique_id :: "ha_payload \<Rightarrow> string" where
  "payload_unique_id (PSensor p) = sp_unique_id p"
| "payload_unique_id (PSwitch p) = wp_unique_id p"
| "payload_unique_id (PBinary p) = bp_unique_id p"

lemmas ha_topics = sensor_state_topic_def switch_state_topic_def switch_command_topic_def
  availability_topic_def

lemma sensor_state_topic_inj [simp]:
  "sensor_state_topic ctx j = sensor_state_topic ctx k \<longleftrightarrow> j = k"
  by (simp add: sensor_state_topic_def)

lemma switch_is_sensor_topic: "switch_state_topic ctx k = sensor_state_topic ctx k"
  by (simp add: ha_topics)

lemma all_state_topics:
  "map (payload_state_topic \<circ> dm_payload) (all_messages ctx) = map (sensor_state_topic ctx)
    [''battery'', ''pressure'', ''water_flow'', ''water_total'', ''loop_time'', ''wifi_rssi'',
     ''free_heap'', ''uptime'', ''reset_reason'', ''sprinkler_1'', ''sprinkler_2'', ''water_control'',
     ''flow_alarm'']"
  by (simp add: all_messages_def ha_sensor_def ha_switch_def ha_binary_sensor_def sdesc_def Let_def
      switch_is_sensor_topic)

text \<open>The thirteen entities never collide: for every device context the discovery topics, the
  unique ids and the state topics of the messages are pairwise different, so no retained
  configuration overwrites another.\<close>

theorem discovery_distinct:
  "distinct (map dm_topic (all_messages ctx)) \<and>
   distinct (map (payload_unique_id \<circ> dm_payload) (all_messages ctx)) \<and>
   distinct (map (payload_state_topic \<circ> dm_payload) (all_messages ctx)) \<and>
   length (all_messages ctx) = 13"
proof (intro conjI)
  show "distinct (map (payload_state_topic \<circ> dm_payload) (all_messages ctx))"
    by (simp add: all_state_topics)
qed (simp_all add: all_messages_def ha_sensor_def ha_switch_def ha_binary_sensor_def sdesc_def Let_def
    unique_id_def)

end
