(* ===== verification/Mqtt_Dispatch.thy ===== *)
theory Mqtt_Dispatch
  imports App HA_Discovery
begin

text \<open>
  MQTT integration, \<open>crates/core/src/mqtt_dispatch.rs\<close>. The MQTT client is the trait of
  \<open>traits.rs\<close>: an operation returns the calls it makes on it, in order. \<open>CSetHandler base\<close> installs
  the routing closure, which captures only the base topic and the application: delivering a
  message runs \<open>route_message\<close> on the application.
\<close>

section \<open>Operations\<close>

datatype mqtt_call =
    CPublish string bytes publish_opts
  | CSubscribe string
  | CSetHandler string

definition retained :: publish_opts where
  "retained = \<lparr>po_retained = True, po_qos = 1\<rparr>"

definition mqtt_context :: "config \<Rightarrow> string \<Rightarrow> device_context" where
  "mqtt_context cfg firmware_version =
    \<lparr>dc_base_topic = mq_base_topic (cf_mqtt cfg), dc_discovery_prefix = mq_ha_discovery_prefix (cf_mqtt cfg),
     dc_device_id = wf_hostname (cf_wifi cfg), dc_friendly_name = ''Doremorwater'',
     dc_sw_version = firmware_version, dc_manufacturer = ''homebrew'', dc_model = ''watercontroller''\<rparr>"

definition on_connect :: "(ha_payload \<Rightarrow> bytes) \<Rightarrow> ('s, 'd) app \<Rightarrow> string \<Rightarrow> mqtt_call list" where
  "on_connect enc a firmware_version =
    (let cfg = ap_config a;
         ctx = mqtt_context cfg firmware_version;
         availability = mq_base_topic (cf_mqtt cfg) @ ''/status''
     in map (\<lambda>msg. CPublish (dm_topic msg) (enc (dm_payload msg)) retained) (all_messages ctx) @
        [CPublish availability (bytes_of ''online'') retained] @
        map (\<lambda>key. CSubscribe (switch_command_topic ctx key)) [''sprinkler_1'', ''sprinkler_2'', ''water_control''] @
        [CSetHandler (mq_base_topic (cf_mqtt cfg))])"

definition parse_switch_payload :: "bytes \<Rightarrow> bool option" where
  "parse_switch_payload payload =
    (if payload \<in> set [bytes_of ''ON'', bytes_of ''on'', bytes_of ''1'', bytes_of ''true''] then Some True
     else if payload \<in> set [bytes_of ''OFF'', bytes_of ''off'', bytes_of ''0'', bytes_of ''false''] then Some False
     else None)"

definition parse_command :: "string \<Rightarrow> string \<Rightarrow> bytes \<Rightarrow> switch_command option" where
  "parse_command base_topic topic payload =
    (case strip_pre (base_topic @ ''/'') topic of
       None \<Rightarrow> None
     | Some rest \<Rightarrow> (case split_once (CHR ''/'') rest of
         None \<Rightarrow> None
       | Some (key, suffix) \<Rightarrow>
           if suffix \<noteq> ''set'' then None
           else (case parse_switch_payload payload of
               None \<Rightarrow> None
             | Some on \<Rightarrow>
                 if key = ''sprinkler_1'' then Some (Sprinkler1 on)
                 else if key = ''sprinkler_2'' then Some (Sprinkler2 on)
                 else if key = ''water_control'' then Some (WaterControl on)
                 else None)))"

text \<open>The handler installed by \<open>on_connect\<close>.\<close>

definition route_message :: "('s, 't, 'd) env \<Rightarrow> string \<Rightarrow> string \<Rightarrow> bytes \<Rightarrow> ('s, 'd) app \<Rightarrow> ('s, 'd) app" where
  "route_message env base_topic topic payload a =
    (case parse_command base_topic topic payload of
       None \<Rightarrow> a
     | Some cmd \<Rightarrow> fst (switch_command env a cmd))"

definition opt_publish :: "device_context \<Rightarrow> string \<Rightarrow> string option \<Rightarrow> mqtt_call list" where
  "opt_publish ctx key payload = (case payload of
      None \<Rightarrow> []
    | Some s \<Rightarrow> [CPublish (sensor_state_topic ctx key) (bytes_of s) retained])"

definition on_off :: "bool \<Rightarrow> bytes" where
  "on_off on = (if on then bytes_of ''ON'' else bytes_of ''OFF'')"

definition publish_state :: "('s, 'd) app \<Rightarrow> string \<Rightarrow> device_snapshot \<Rightarrow> mqtt_call list" where
  "publish_state a firmware_version snap =
    (let ctx = mqtt_context (ap_config a) firmware_version;
         se = sn_sensors snap;
         sw = (\<lambda>key on. [CPublish (switch_state_topic ctx key) (on_off on) retained])
     in opt_publish ctx ''battery'' (map_option (fmt_f32 2) (battery_v se)) @
        opt_publish ctx ''pressure'' (map_option (fmt_f32 2) (pressure_bar se)) @
        opt_publish ctx ''water_flow'' (map_option (fmt_f32 1) (flow_lph se)) @
        opt_publish ctx ''water_total'' (map_option (fmt_f32 3) (total_l se)) @
        opt_publish ctx ''wifi_rssi'' (map_option (\<lambda>w. show_int (sint w)) (wifi_rssi_dbm (sn_network snap))) @
        opt_publish ctx ''free_heap'' (map_option show_word (free_heap_bytes (sn_diagnostics snap))) @
        opt_publish ctx ''uptime'' (Some (show_word (sn_uptime_ms snap div 1000))) @
        opt_publish ctx ''reset_reason'' (reset_reason (sn_diagnostics snap)) @
        sw ''sprinkler_1'' (st_sprinkler_1 (sn_switches snap)) @
        sw ''sprinkler_2'' (st_sprinkler_2 (sn_switches snap)) @
        sw ''water_control'' (st_water_control (sn_switches snap) \<in> {WcOn, WcTransitioning}) @
        [CPublish (sensor_state_topic ctx ''flow_alarm'') (on_off (fa_active (sn_alarm snap))) retained])"

definition publish_offline :: "('s, 'd) app \<Rightarrow> mqtt_call list" where
  "publish_offline a =
     [CPublish (mq_base_topic (cf_mqtt (ap_config a)) @ ''/status'') (bytes_of ''offline'') retained]"

text \<open>The calls on the recording fake of the host build.\<close>

definition fake_call :: "('s, 't, 'd) env \<Rightarrow> ('s, 'd) app fake_mqtt \<Rightarrow> mqtt_call \<Rightarrow> ('s, 'd) app fake_mqtt" where
  "fake_call env m c = (case c of
      CPublish t p opts \<Rightarrow> fake_mqtt_publish m t p opts
    | CSubscribe t \<Rightarrow> fake_mqtt_subscribe m t
    | CSetHandler base \<Rightarrow> fake_mqtt_set_handler m (route_message env base))"

section \<open>Command routing\<close>

fun command_key :: "switch_command \<Rightarrow> string" where
  "command_key (Sprinkler1 _) = ''sprinkler_1''"
| "command_key (Sprinkler2 _) = ''sprinkler_2''"
| "command_key (WaterControl _) = ''water_control''"

fun command_on :: "switch_command \<Rightarrow> bool" where
  "command_on (Sprinkler1 on) = on"
| "command_on (Sprinkler2 on) = on"
| "command_on (WaterControl on) = on"

lemma split_once_Some: "split_once c s = Some (a, b) \<longleftrightarrow> s = a @ c # b \<and> c \<notin> set a"
proof (induction s arbitrary: a)
  case (Cons x xs)
  then show ?case by (cases a) auto
qed simp

lemma parse_switch_payload_on_off [simp]: "parse_switch_payload (on_off b) = Some b"
  by (cases b) (simp_all add: parse_switch_payload_def on_off_def)

text \<open>Command routing accepts exactly the advertised command topics. A message is a command if
  and only if its topic is \<open>base/key/set\<close> of that switch and its payload is one of the accepted
  spellings of the wanted state; every other topic and payload is ignored. In particular the topics
  that discovery announces, with the payloads it announces, are accepted for every base topic.\<close>

theorem parse_command_iff:
  "parse_command (dc_base_topic ctx) topic payload = Some cmd \<longleftrightarrow>
     topic = switch_command_topic ctx (command_key cmd) \<and>
     parse_switch_payload payload = Some (command_on cmd)"
proof
  assume p: "parse_command (dc_base_topic ctx) topic payload = Some cmd"
  then obtain rest where r: "strip_pre (dc_base_topic ctx @ ''/'') topic = Some rest"
    by (auto simp: parse_command_def split: option.splits)
  with p obtain key suffix where s: "split_once (CHR ''/'') rest = Some (key, suffix)"
    by (auto simp: parse_command_def split: option.splits)
  from p r s obtain on where o: "suffix = ''set''" "parse_switch_payload payload = Some on"
      "(if key = ''sprinkler_1'' then Some (Sprinkler1 on)
        else if key = ''sprinkler_2'' then Some (Sprinkler2 on)
        else if key = ''water_control'' then Some (WaterControl on) else None) = Some cmd"
    by (auto simp: parse_command_def split: option.splits if_splits)
  then have "key = command_key cmd" "on = command_on cmd" by (auto split: if_splits)
  with r s o show "topic = switch_command_topic ctx (command_key cmd) \<and>
      parse_switch_payload payload = Some (command_on cmd)"
    by (simp add: strip_pre_Some split_once_Some switch_command_topic_def)
next
  assume t: "topic = switch_command_topic ctx (command_key cmd) \<and>
      parse_switch_payload payload = Some (command_on cmd)"
  have "strip_pre (dc_base_topic ctx @ ''/'') topic = Some (command_key cmd @ ''/set'')"
    using t by (simp add: strip_pre_Some switch_command_topic_def)
  moreover have "split_once (CHR ''/'') (command_key cmd @ ''/set'') = Some (command_key cmd, ''set'')"
    by (cases cmd) (simp_all add: split_once_Some)
  ultimately show "parse_command (dc_base_topic ctx) topic payload = Some cmd"
    using t by (cases cmd) (simp_all add: parse_command_def)
qed

section \<open>State topics\<close>

fun call_topic :: "mqtt_call \<Rightarrow> string list" where
  "call_topic (CPublish t _ _) = [t]"
| "call_topic _ = []"

abbreviation state_topics :: "device_context \<Rightarrow> string list" where
  "state_topics ctx \<equiv> map (payload_state_topic \<circ> dm_payload) (all_messages ctx)"

lemma topics_opt_publish:
  "concat (map call_topic (opt_publish ctx k p)) = (if p = None then [] else [sensor_state_topic ctx k])"
  by (auto simp: opt_publish_def)

lemma opt_names:
  "map f (map fst (filter (Not \<circ> snd) ((k, c) # ks))) = (if c then [] else [f k]) @ map f (map fst (filter (Not \<circ> snd) ks))"
  by simp

lemma publish_state_topics:
  "concat (map call_topic (publish_state a fv snap)) =
     map (sensor_state_topic (mqtt_context (ap_config a) fv)) (map fst (filter (Not \<circ> snd)
      [(''battery'', battery_v (sn_sensors snap) = None), (''pressure'', pressure_bar (sn_sensors snap) = None),
       (''water_flow'', flow_lph (sn_sensors snap) = None), (''water_total'', total_l (sn_sensors snap) = None),
       (''wifi_rssi'', wifi_rssi_dbm (sn_network snap) = None),
       (''free_heap'', free_heap_bytes (sn_diagnostics snap) = None), (''uptime'', False),
       (''reset_reason'', reset_reason (sn_diagnostics snap) = None), (''sprinkler_1'', False),
       (''sprinkler_2'', False), (''water_control'', False), (''flow_alarm'', False)]))"
  unfolding publish_state_def Let_def map_append concat_append topics_opt_publish opt_names
  by (simp add: switch_is_sensor_topic)

lemma chosen_topics:
  assumes "inj f" "distinct (map fst ks)" "set (map fst ks) \<subseteq> set names" "x \<in> set names" "x \<notin> set (map fst ks)"
  shows "distinct (map f (map fst (filter P ks))) \<and> set (map f (map fst (filter P ks))) \<subseteq> set (map f names) \<and>
    f x \<in> set (map f names) \<and> f x \<notin> set (map f (map fst (filter P ks)))"
proof -
  obtain chosen where c: "map fst (filter P ks) = chosen" "set chosen \<subseteq> set (map fst ks)" "distinct chosen"
    using distinct_map_filter [OF assms(2), of P] by auto
  then have "distinct (map f chosen)" "f x \<notin> set (map f chosen)"
    using assms(1,5) by (auto simp: distinct_map inj_image_mem_iff intro: inj_on_subset)
  moreover have "set (map f chosen) \<subseteq> set (map f names)"
    unfolding set_map [of f] by (rule image_mono [OF subset_trans [OF c(2) assms(3)]])
  ultimately show ?thesis
    using c(1) assms(4) by simp
qed

text \<open>Publishing and discovery agree, with one exception: each state topic is published at most
  once per call and every one is a state topic that discovery announces, but the announced loop
  time sensor is never published, whatever the snapshot holds.\<close>

theorem publish_state_announced:
  "let ctx = mqtt_context (ap_config a) fv;
       published = concat (map call_topic (publish_state a fv snap))
   in distinct published \<and> set published \<subseteq> set (state_topics ctx) \<and>
      sensor_state_topic ctx ''loop_time'' \<in> set (state_topics ctx) \<and>
      sensor_state_topic ctx ''loop_time'' \<notin> set published"
  unfolding Let_def all_state_topics publish_state_topics
  by (rule chosen_topics) (simp_all add: inj_def)

end
