(* ===== verification/Log_Buffer.thy ===== *)
theory Log_Buffer
  imports Text
begin

text \<open>
  The bounded log buffer with its subscribers, \<open>crates/core/src/log_buffer.rs\<close>. A subscriber's
  channel is the bounded channel of the standard library: a queue with a capacity that stays open
  as long as its receiver exists. The global buffer is an option: \<open>None\<close> before \<open>init_global\<close>.
\<close>

section \<open>State\<close>

record log_record =
  lr_monotonic_ms :: u64
  lr_level :: u8
  lr_target :: string
  lr_message :: string

definition log_formatted :: "log_record \<Rightarrow> string" where
  "log_formatted r =
    (let lvl = (if lr_level r = 1 then ''ERROR'' else if lr_level r = 2 then ''WARN ''
                else if lr_level r = 3 then ''INFO '' else if lr_level r = 4 then ''DEBUG''
                else if lr_level r = 5 then ''TRACE'' else ''?    '')
     in ''['' @ pad_left 10 (CHR '' '') (show_word (lr_monotonic_ms r)) @ ''ms] '' @ lvl @ '' '' @
        lr_target r @ '': '' @ lr_message r)"

record channel =
  ch_capacity :: nat
  ch_queue :: "log_record list"
  ch_open :: bool

datatype send_result = SendOk | SendFull | SendDisconnected

definition try_send :: "channel \<Rightarrow> log_record \<Rightarrow> channel \<times> send_result" where
  "try_send ch r =
    (if \<not> ch_open ch then (ch, SendDisconnected)
     else if length (ch_queue ch) < ch_capacity ch then (ch\<lparr>ch_queue := ch_queue ch @ [r]\<rparr>, SendOk)
     else (ch, SendFull))"

record log_buffer =
  lb_capacity :: nat
  lb_records :: "log_record list"
  lb_next_id :: u64
  lb_subscribers :: "(u64 \<times> channel) list"

section \<open>Operations\<close>

definition log_buffer_new :: "nat \<Rightarrow> log_buffer" where
  "log_buffer_new capacity =
     \<lparr>lb_capacity = capacity, lb_records = [], lb_next_id = 0, lb_subscribers = []\<rparr>"

definition fan_out :: "(u64 \<times> channel) list \<Rightarrow> log_record \<Rightarrow> (u64 \<times> channel) list" where
  "fan_out subs r = List.map_filter (\<lambda>(i, ch). case try_send ch r of
      (ch', SendOk) \<Rightarrow> Some (i, ch')
    | (ch', SendFull) \<Rightarrow> Some (i, ch')
    | (_, SendDisconnected) \<Rightarrow> None) subs"

definition log_push :: "log_buffer \<Rightarrow> log_record \<Rightarrow> log_buffer" where
  "log_push b r =
    (let records = (if length (lb_records b) = lb_capacity b then tl (lb_records b) else lb_records b) @ [r]
     in b\<lparr>lb_records := records, lb_subscribers := fan_out (lb_subscribers b) r\<rparr>)"

definition log_snapshot :: "log_buffer \<Rightarrow> nat \<Rightarrow> log_record list" where
  "log_snapshot b n = drop (length (lb_records b) - n) (lb_records b)"

definition log_subscribe :: "log_buffer \<Rightarrow> nat \<Rightarrow> log_buffer \<times> u64" where
  "log_subscribe b channel_capacity =
    (let i = lb_next_id b in
     (b\<lparr>lb_next_id := i + 1,
        lb_subscribers := lb_subscribers b @ [(i, \<lparr>ch_capacity = channel_capacity, ch_queue = [], ch_open = True\<rparr>)]\<rparr>, i))"

definition log_unsubscribe :: "log_buffer \<Rightarrow> u64 \<Rightarrow> log_buffer" where
  "log_unsubscribe b i = b\<lparr>lb_subscribers := filter (\<lambda>(j, _). j \<noteq> i) (lb_subscribers b)\<rparr>"

text \<open>The process-wide buffer and the logger that writes to it. The level is the number of the
  \<open>log\<close> crate's level, 1 (error) to 5 (trace).\<close>

definition init_global :: "log_buffer option \<Rightarrow> nat \<Rightarrow> log_buffer option" where
  "init_global g capacity = (case g of Some b \<Rightarrow> Some b | None \<Rightarrow> Some (log_buffer_new capacity))"

definition buffering_log :: "log_buffer option \<Rightarrow> u64 \<Rightarrow> u8 \<Rightarrow> string \<Rightarrow> string \<Rightarrow> log_buffer option" where
  "buffering_log g now_ms level target_name message = (case g of
      None \<Rightarrow> None
    | Some b \<Rightarrow> Some (log_push b \<lparr>lr_monotonic_ms = now_ms, lr_level = level,
        lr_target = target_name, lr_message = message\<rparr>))"

section \<open>Properties\<close>

lemma push_records:
  "length (lb_records b) \<le> lb_capacity b \<Longrightarrow> lb_capacity b \<noteq> 0 \<Longrightarrow>
     lb_records (log_push b r) = last_n (lb_capacity b) (lb_records b @ [r])"
  by (cases "lb_records b") (auto simp: log_push_def Let_def last_n_def)

lemma push_capacity [simp]: "lb_capacity (log_push b r) = lb_capacity b"
  by (simp add: log_push_def Let_def)

lemma records_run:
  "length (lb_records b) \<le> lb_capacity b \<Longrightarrow> lb_capacity b \<noteq> 0 \<Longrightarrow>
     lb_records (foldl log_push b rs) = last_n (lb_capacity b) (lb_records b @ rs)"
proof (induction rs arbitrary: b)
  case Nil
  then show ?case by (simp add: last_n_all)
next
  case (Cons r rs)
  then show ?case
    by (simp add: push_records last_n_append_last_n)
qed

lemma records_run_unbounded:
  "lb_capacity b = 0 \<Longrightarrow> lb_records b \<noteq> [] \<Longrightarrow> lb_records (foldl log_push b rs) = lb_records b @ rs"
  by (induction rs arbitrary: b) (simp_all add: log_push_def Let_def)

lemma records_run_zero:
  "lb_capacity b = 0 \<Longrightarrow> lb_records b = [] \<Longrightarrow> lb_records (foldl log_push b rs) = rs"
  by (cases rs) (simp_all add: records_run_unbounded log_push_def Let_def)

lemma last_n_last_n: "last_n m (last_n n xs) = last_n (min m n) xs"
  by (cases "length xs \<le> n") (auto simp: last_n_def min_def)

text \<open>The snapshot is the last records, in order: after any number of pushes into a buffer of
  capacity \<open>c\<close> it shows the last \<open>min n c\<close> of them. The exception is a buffer of capacity 0,
  which never drops anything and grows without bound.\<close>

theorem log_snapshot_spec:
  "log_snapshot (foldl log_push (log_buffer_new c) rs) n =
     (if c = 0 then last_n n rs else last_n (min n c) rs)"
proof (cases "c = 0")
  case True
  then show ?thesis
    by (simp add: log_snapshot_def records_run_zero log_buffer_new_def last_n_def)
next
  case False
  then have "lb_records (foldl log_push (log_buffer_new c) rs) = last_n c rs"
    by (simp add: records_run log_buffer_new_def)
  with False show ?thesis
    using last_n_last_n [of n c rs] by (simp add: log_snapshot_def last_n_def)
qed

text \<open>Subscribers whose receiver exists.\<close>

definition all_open :: "(u64 \<times> channel) list \<Rightarrow> bool" where
  "all_open subs \<longleftrightarrow> list_all (\<lambda>(_, ch). ch_open ch \<and> length (ch_queue ch) \<le> ch_capacity ch) subs"

definition fill :: "log_record list \<Rightarrow> u64 \<times> channel \<Rightarrow> u64 \<times> channel" where
  "fill rs = (\<lambda>(i, ch). (i, ch\<lparr>ch_queue := take (ch_capacity ch) (ch_queue ch @ rs)\<rparr>))"

lemma fan_out_open: "all_open subs \<Longrightarrow> fan_out subs r = map (fill [r]) subs"
proof (induction subs)
  case Nil
  then show ?case by (simp add: fan_out_def List.map_filter_def)
next
  case (Cons s subs)
  obtain i ch where s: "s = (i, ch)" by (cases s)
  with Cons.prems have "ch_open ch" "length (ch_queue ch) \<le> ch_capacity ch" "all_open subs"
    by (simp_all add: all_open_def)
  with Cons.IH s show ?case
    by (auto simp: fan_out_def List.map_filter_def try_send_def fill_def)
qed

lemma take_take_snoc:
  "length q \<le> n \<Longrightarrow> take n (take n (q @ [r]) @ rs) = take n (q @ r # rs)"
  by (cases "length q < n") simp_all

lemma fill_fill: "all_open subs \<Longrightarrow> map (fill rs) (map (fill [r]) subs) = map (fill (r # rs)) subs"
proof (induction subs)
  case (Cons s subs)
  obtain i ch where s: "s = (i, ch)" by (cases s)
  with Cons.prems have "length (ch_queue ch) \<le> ch_capacity ch" "all_open subs"
    by (simp_all add: all_open_def)
  with Cons.IH s take_take_snoc [of "ch_queue ch" "ch_capacity ch" r rs] show ?case
    by (simp add: fill_def)
qed simp

lemma all_open_fill: "all_open subs \<Longrightarrow> all_open (map (fill rs) subs)"
  by (induction subs) (auto simp: fill_def all_open_def)

lemma push_subscribers [simp]: "lb_subscribers (log_push b r) = fan_out (lb_subscribers b) r"
  by (simp add: log_push_def Let_def)

lemma fill_Nil: "all_open subs \<Longrightarrow> map (fill []) subs = subs"
  by (induction subs) (auto simp: fill_def all_open_def)

text \<open>Lossy by design, never blocking: a subscriber that reads nothing holds, after any pushes, its
  old queue extended by the first new records up to its capacity; later records are dropped for it
  alone, every subscriber is served independently, and none is unsubscribed for being slow.\<close>

theorem slow_subscribers_keep_first:
  assumes "all_open (lb_subscribers b)"
  shows "lb_subscribers (foldl log_push b rs) = map (fill rs) (lb_subscribers b)"
  using assms
proof (induction rs arbitrary: b)
  case Nil
  then show ?case by (simp add: fill_Nil)
next
  case (Cons r rs)
  then have "all_open (lb_subscribers (log_push b r))"
    by (simp add: fan_out_open all_open_fill)
  from Cons.IH [OF this] Cons.prems show ?case
    by (simp add: fan_out_open fill_fill del: map_map)
qed

definition sample_record :: "string \<Rightarrow> log_record" where
  "sample_record m = \<lparr>lr_monotonic_ms = 0, lr_level = 3, lr_target = ''t'', lr_message = m\<rparr>"

lemma slow_subscribers_keep_first_witness:
  "map (ch_queue \<circ> snd) (lb_subscribers (foldl log_push (fst (log_subscribe (log_buffer_new 1) 2))
     [sample_record ''a'', sample_record ''b'', sample_record ''c''])) = [[sample_record ''a'', sample_record ''b'']]"
proof -
  have "all_open (lb_subscribers (fst (log_subscribe (log_buffer_new 1) 2)))"
    by (simp add: all_open_def log_subscribe_def log_buffer_new_def Let_def)
  then show ?thesis
    unfolding slow_subscribers_keep_first [OF \<open>all_open _\<close>]
    by (simp add: fill_def log_subscribe_def log_buffer_new_def Let_def)
qed

end
