(* ===== verification/Flash_Kv.thy ===== *)
theory Flash_Kv
  imports Traits
begin

text \<open>
  The flash-backed store of the no_std firmware, \<open>crates/firmware-nostd/src/nvs.rs\<close>: an ordered
  map in memory, mirrored to 8 KiB of flash as one blob. The flash driver (esp-storage) is a
  record of functions over its state \<open>'f\<close>; the locale \<open>nor_flash\<close> states what the NorFlash traits
  document. \<open>usize\<close> has 32 bits on the chip, so positions are \<open>u32\<close> and sums wrap; slicing with an
  end before the start panics. The outer \<open>None\<close> of \<open>kv_load\<close> is a panic, the inner one the
  \<open>None\<close> of the source.
\<close>

section \<open>Bytes of numbers and UTF-8\<close>

definition le_of_u32 :: "u32 \<Rightarrow> bytes" where
  "le_of_u32 w = map (\<lambda>i. of_nat (unat w div 256 ^ i)) [0, 1, 2, 3]"

definition u32_of_le :: "bytes \<Rightarrow> u32" where
  "u32_of_le bs = of_nat (foldr (\<lambda>b n. unat b + 256 * n) bs 0)"

definition is_cont :: "nat \<Rightarrow> bool" where
  "is_cont n \<longleftrightarrow> 128 \<le> n \<and> n \<le> 191"

text \<open>\<open>String::from_utf8\<close> accepts exactly the well-formed byte sequences of the Unicode standard.\<close>

fun utf8_valid :: "nat list \<Rightarrow> bool" where
  "utf8_valid [] = True"
| "utf8_valid (a # bs) =
    (if a < 128 then utf8_valid bs
     else case bs of
       [] \<Rightarrow> False
     | b # cs \<Rightarrow>
       if 194 \<le> a \<and> a \<le> 223 then is_cont b \<and> utf8_valid cs
       else (case cs of
         [] \<Rightarrow> False
       | c # ds \<Rightarrow>
         if 224 \<le> a \<and> a \<le> 239 then
           is_cont b \<and> (a = 224 \<longrightarrow> 160 \<le> b) \<and> (a = 237 \<longrightarrow> b \<le> 159) \<and> is_cont c \<and> utf8_valid ds
         else (case ds of
           [] \<Rightarrow> False
         | d # es \<Rightarrow>
           240 \<le> a \<and> a \<le> 244 \<and> is_cont b \<and> (a = 240 \<longrightarrow> 144 \<le> b) \<and> (a = 244 \<longrightarrow> b \<le> 143) \<and>
           is_cont c \<and> is_cont d \<and> utf8_valid es)))"

definition from_utf8 :: "bytes \<Rightarrow> string option" where
  "from_utf8 bs = (if utf8_valid (map unat bs) then Some (string_of bs) else None)"

section \<open>The flash driver\<close>

record 'f flash_ops =
  fl_read :: "'f \<Rightarrow> u32 \<Rightarrow> nat \<Rightarrow> bytes option"
  fl_erase :: "'f \<Rightarrow> u32 \<Rightarrow> u32 \<Rightarrow> 'f \<times> bool"
  fl_write :: "'f \<Rightarrow> u32 \<Rightarrow> bytes \<Rightarrow> 'f \<times> bool"

text \<open>After a successful erase of a region and a successful write of whole words at its start, a
  read of the region succeeds and begins with the written bytes.\<close>

locale nor_flash =
  fixes fl :: "'f flash_ops"
  assumes write_read: "fl_erase fl f a b = (f1, True) \<Longrightarrow> fl_write fl f1 a bs = (f2, True) \<Longrightarrow>
      length bs mod 4 = 0 \<Longrightarrow> length bs \<le> unat (b - a) \<Longrightarrow>
      \<exists>rest. fl_read fl f2 a (unat (b - a)) = Some (bs @ rest) \<and> length (bs @ rest) = unat (b - a)"

section \<open>The store\<close>

definition REGION_OFFSET :: u32 where
  "REGION_OFFSET = 0x9000"

definition REGION_LEN :: u32 where
  "REGION_LEN = 8 * 1024"

definition MAGIC :: bytes where
  "MAGIC = [87, 67, 75, 86]"

definition VERSION :: u32 where
  "VERSION = 1"

definition pad4 :: "u32 \<Rightarrow> u32" where
  "pad4 n = and (n + 3) (not 3)"

type_synonym kv_cache = "(string \<times> bytes) list"

record 'f flash_kv =
  kv_flash :: 'f
  kv_map :: kv_cache

definition slice :: "bytes \<Rightarrow> u32 \<Rightarrow> u32 \<Rightarrow> bytes option" where
  "slice buf a b = (if a \<le> b \<and> unat b \<le> length buf then Some (take (unat b - unat a) (drop (unat a) buf)) else None)"

primrec load_entries :: "nat \<Rightarrow> bytes \<Rightarrow> u32 \<Rightarrow> kv_cache \<Rightarrow> kv_cache option option" where
  "load_entries 0 buf pos m = Some (Some m)"
| "load_entries (Suc n) buf pos m =
    (if unat (pos + 8) > length buf then Some None
     else case (slice buf pos (pos + 4), slice buf (pos + 4) (pos + 8)) of
       (Some kb, Some vb) \<Rightarrow>
         (let klen = u32_of_le kb; vlen = u32_of_le vb; pos = pos + 8; kend = pos + klen in
          if unat kend > length buf then Some None
          else case slice buf pos kend of
            None \<Rightarrow> None
          | Some k \<Rightarrow> (case from_utf8 k of
              None \<Rightarrow> Some None
            | Some key \<Rightarrow>
                (let pos = pad4 kend; vend = pos + vlen in
                 if unat vend > length buf then Some None
                 else case slice buf pos vend of
                   None \<Rightarrow> None
                 | Some val \<Rightarrow> load_entries n buf (pad4 vend) (bm_insert key val m))))
     | _ \<Rightarrow> None)"

definition kv_parse :: "bytes \<Rightarrow> kv_cache option option" where
  "kv_parse buf =
    (if take 4 buf \<noteq> MAGIC then Some None
     else if u32_of_le (take 4 (drop 4 buf)) \<noteq> VERSION then Some None
     else load_entries (unat (u32_of_le (take 4 (drop 8 buf)))) buf 12 [])"

definition kv_load :: "'f flash_ops \<Rightarrow> 'f \<Rightarrow> kv_cache option option" where
  "kv_load fl f = (case fl_read fl f REGION_OFFSET (unat REGION_LEN) of
      None \<Rightarrow> Some None
    | Some buf \<Rightarrow> kv_parse buf)"

definition kv_new :: "'f flash_ops \<Rightarrow> 'f \<Rightarrow> 'f flash_kv option" where
  "kv_new fl f = (case kv_load fl f of
      None \<Rightarrow> None
    | Some m \<Rightarrow> Some \<lparr>kv_flash = f, kv_map = (case m of Some c \<Rightarrow> c | None \<Rightarrow> [])\<rparr>)"

definition resize4 :: "bytes \<Rightarrow> bytes" where
  "resize4 buf = buf @ replicate (unat (pad4 (of_nat (length buf))) - length buf) 0"

definition put_entry :: "bytes \<Rightarrow> string \<times> bytes \<Rightarrow> bytes" where
  "put_entry buf = (\<lambda>(k, v).
    (let buf = buf @ le_of_u32 (of_nat (length k));
         buf = buf @ le_of_u32 (of_nat (length v));
         buf = resize4 (buf @ bytes_of k)
     in resize4 (buf @ v)))"

definition kv_serialize :: "kv_cache \<Rightarrow> bytes" where
  "kv_serialize cache = foldl put_entry (MAGIC @ le_of_u32 VERSION @ le_of_u32 (of_nat (length cache))) cache"

definition kv_flush :: "'f flash_ops \<Rightarrow> 'f \<Rightarrow> kv_cache \<Rightarrow> 'f \<times> (nvs_error + unit)" where
  "kv_flush fl f cache =
    (let buf = kv_serialize cache in
     if REGION_LEN < of_nat (length buf) then (f, Inl Full)
     else let (f, erased) = fl_erase fl f REGION_OFFSET (REGION_OFFSET + REGION_LEN) in
       if \<not> erased then (f, Inl (Io ''erase''))
       else let (f, written) = fl_write fl f REGION_OFFSET buf in
         if \<not> written then (f, Inl (Io ''write'')) else (f, Inr ()))"

definition kv_get :: "'f flash_kv \<Rightarrow> string \<Rightarrow> bytes option" where
  "kv_get s key = map_of (kv_map s) key"

definition kv_set :: "'f flash_ops \<Rightarrow> 'f flash_kv \<Rightarrow> string \<Rightarrow> bytes \<Rightarrow> 'f flash_kv \<times> (nvs_error + unit)" where
  "kv_set fl s key val =
    (let cache = bm_insert key val (kv_map s); (f, r) = kv_flush fl (kv_flash s) cache
     in (\<lparr>kv_flash = f, kv_map = cache\<rparr>, r))"

definition kv_remove :: "'f flash_ops \<Rightarrow> 'f flash_kv \<Rightarrow> string \<Rightarrow> 'f flash_kv \<times> (nvs_error + unit)" where
  "kv_remove fl s key =
    (let cache = bm_remove key (kv_map s); (f, r) = kv_flush fl (kv_flash s) cache
     in (\<lparr>kv_flash = f, kv_map = cache\<rparr>, r))"

definition flash_kv_ops :: "'f flash_ops \<Rightarrow> 'f flash_kv nvs_ops" where
  "flash_kv_ops fl = \<lparr>nvs_get = kv_get, nvs_set = kv_set fl, nvs_remove = kv_remove fl\<rparr>"

section \<open>The store keeps the contract\<close>

lemma kv_set_map: "kv_map (fst (kv_set fl s k v)) = bm_insert k v (kv_map s)"
  by (simp add: kv_set_def Let_def case_prod_beta)

lemma kv_remove_map: "kv_map (fst (kv_remove fl s k)) = bm_remove k (kv_map s)"
  by (simp add: kv_remove_def Let_def case_prod_beta)

interpretation flash: nvs_store "flash_kv_ops fl" "\<lambda>s. bm_ok (kv_map s)" for fl :: "'f flash_ops"
proof unfold_locales
  fix s :: "'f flash_kv" and k v
  assume ok: "bm_ok (kv_map s)"
  show "bm_ok (kv_map (fst (nvs_set (flash_kv_ops fl) s k v)))"
    using ok by (simp add: flash_kv_ops_def kv_set_map)
  show "bm_ok (kv_map (fst (nvs_remove (flash_kv_ops fl) s k)))"
    using ok by (simp add: flash_kv_ops_def kv_remove_map)
  fix s'
  show "nvs_get (flash_kv_ops fl) s' = (nvs_get (flash_kv_ops fl) s)(k \<mapsto> v)"
    if "nvs_set (flash_kv_ops fl) s k v = (s', Inr ())"
    using that kv_set_map [of fl s k v] by (simp add: flash_kv_ops_def kv_get_def fun_eq_iff)
  show "nvs_get (flash_kv_ops fl) s' = (nvs_get (flash_kv_ops fl) s)(k := None)"
    if "nvs_remove (flash_kv_ops fl) s k = (s', Inr ())"
    using that ok kv_remove_map [of fl s k] map_of_bm_remove [OF ok, of k]
    by (simp add: flash_kv_ops_def kv_get_def fun_eq_iff)
qed

section \<open>Arithmetic of the layout\<close>

lemma length_le_of_u32 [simp]: "length (le_of_u32 w) = 4"
  by (simp add: le_of_u32_def)

lemma u32_le_roundtrip [simp]: "u32_of_le (le_of_u32 w) = w"
proof -
  let ?n = "unat w"
  define a b c where "a = ?n div 256" "b = a div 256" "c = b div 256"
  have n: "?n < 4294967296" by (rule unat_u32_bound)
  then have c: "c < 256" by (simp add: a_b_c_def)
  have d: "?n div 65536 = b" "?n div 16777216 = c"
    by (simp_all add: a_b_c_def div_mult2_eq [symmetric])
  have u0: "unat (ucast w :: u8) = ?n mod 256"
    by (simp add: unsigned_ucast_eq take_bit_eq_mod)
  have "foldr (\<lambda>b n. unat b + 256 * n) (le_of_u32 w) 0 =
      ?n mod 256 + 256 * (a mod 256 + 256 * (b mod 256 + 256 * (c mod 256)))"
    by (simp add: le_of_u32_def unat_of_nat d u0 a_b_c_def(1) [symmetric])
  also have "\<dots> = ?n"
  proof -
    have "c mod 256 = c" using c by simp
    moreover have "b mod 256 + 256 * c = b" "a mod 256 + 256 * b = a" "?n mod 256 + 256 * a = ?n"
      by (simp_all add: a_b_c_def)
    ultimately show ?thesis by simp
  qed
  finally show ?thesis by (simp add: u32_of_le_def)
qed

definition npad :: "nat \<Rightarrow> nat" where
  "npad n = (n + 3) div 4 * 4"

lemma npad_props: "n \<le> npad n" "npad n < n + 4" "npad n mod 4 = 0"
  by (simp_all add: npad_def)

lemma npad_mult [simp]: "n mod 4 = 0 \<Longrightarrow> npad n = n"
  unfolding npad_def by presburger

lemma npad_add: "p mod 4 = 0 \<Longrightarrow> npad (p + n) = p + npad n"
  unfolding npad_def by presburger

lemma and_not_mask_eq: "and x (not (mask m)) = push_bit m (drop_bit m x)" for x :: u32
  by (rule bit_eqI) (auto simp: bit_simps)

lemma and_not_3: "and x (not 3) = x - take_bit 2 x" for x :: u32
proof -
  have "(3 :: u32) = mask 2" by (simp add: mask_eq_exp_minus_1)
  then have "and x (not 3) = push_bit 2 (drop_bit 2 x)"
    by (simp only: and_not_mask_eq)
  also have "\<dots> = x - take_bit 2 x"
    using bits_ident [of 2 x] by (simp add: algebra_simps)
  finally show ?thesis .
qed

lemma unat_pad4:
  assumes "unat n + 3 < 4294967296"
  shows "unat (pad4 n) = npad (unat n)"
proof -
  let ?x = "n + 3"
  have x: "unat ?x = unat n + 3"
    using assms by (simp add: unat_word_ariths)
  have t: "unat (take_bit 2 ?x) = unat ?x mod 4"
    by (simp only: unsigned_take_bit_eq) (simp add: take_bit_eq_mod)
  have "unat (pad4 n) = unat ?x - unat (take_bit 2 ?x)"
    unfolding pad4_def and_not_3 by (rule unat_sub) (simp add: word_le_nat_alt t)
  also have "\<dots> = npad (unat n)"
    unfolding t x npad_def by (simp add: minus_mod_eq_div_mult)
  finally show ?thesis .
qed

lemma unat_of_nat_u32 [simp]: "n < 4294967296 \<Longrightarrow> unat (of_nat n :: u32) = n"
  by (simp add: unat_of_nat)

lemma pad4_of_nat: "n + 3 < 4294967296 \<Longrightarrow> pad4 (of_nat n) = of_nat (npad n)"
  using unat_pad4 [of "of_nat n"] npad_props(2) [of n] by (simp add: word_unat_eq_iff)

lemma slice_of_nat:
  "a \<le> b \<Longrightarrow> b \<le> length buf \<Longrightarrow> length buf < 4294967296 \<Longrightarrow>
     slice buf (of_nat a) (of_nat b) = Some (take (b - a) (drop a buf))"
  by (simp add: slice_def word_le_nat_alt)

section \<open>The blob as a list of entries\<close>

definition entry :: "string \<times> bytes \<Rightarrow> bytes" where
  "entry = (\<lambda>(k, v). le_of_u32 (of_nat (length k)) @ le_of_u32 (of_nat (length v)) @
     bytes_of k @ replicate (npad (length k) - length k) 0 @ v @ replicate (npad (length v) - length v) 0)"

definition header :: "kv_cache \<Rightarrow> bytes" where
  "header cache = MAGIC @ le_of_u32 VERSION @ le_of_u32 (of_nat (length cache))"

lemma length_entry: "length (entry (k, v)) = 8 + npad (length k) + npad (length v)"
  using npad_props(1) [of "length k"] npad_props(1) [of "length v"] by (simp add: entry_def)

lemma entry_mod4: "length (entry kv) mod 4 = 0"
  using npad_props(3) [of "length (fst kv)"] npad_props(3) [of "length (snd kv)"]
  by (cases kv) (simp add: length_entry mod_add_eq [symmetric])

lemma entries_mod4: "length (concat (map entry cs)) mod 4 = 0"
proof (induction cs)
  case (Cons c cs)
  with entry_mod4 [of c] show ?case by (simp add: mod_add_eq [symmetric])
qed simp

lemma resize4_eq: "length buf + 3 < 4294967296 \<Longrightarrow> resize4 buf = buf @ replicate (npad (length buf) - length buf) 0"
  using npad_props(2) [of "length buf"] by (simp add: resize4_def pad4_of_nat)

text \<open>The blob has to fit the 32-bit address space; the region is far smaller.\<close>

definition blob_len :: "kv_cache \<Rightarrow> nat" where
  "blob_len cache = 12 + length (concat (map entry cache))"

lemma put_entry_eq:
  assumes "length buf mod 4 = 0" "length buf + length (entry kv) + 3 < 4294967296"
  shows "put_entry buf kv = buf @ entry kv"
proof -
  obtain k v where kv: "kv = (k, v)" by (cases kv)
  let ?b = "buf @ le_of_u32 (of_nat (length k)) @ le_of_u32 (of_nat (length v)) @ bytes_of k"
  have b: "length ?b = length buf + 8 + length k" by simp
  have m: "(length buf + 8) mod 4 = 0" using assms(1) by presburger
  have pb: "npad (length ?b) = length buf + 8 + npad (length k)"
    unfolding b by (rule npad_add [OF m])
  have r1: "resize4 ?b = ?b @ replicate (npad (length k) - length k) 0"
  proof -
    have "length ?b + 3 < 4294967296"
      using assms(2) npad_props(1) [of "length k"] by (simp add: kv length_entry)
    from resize4_eq [OF this] pb b show ?thesis by simp
  qed
  let ?c = "(?b @ replicate (npad (length k) - length k) 0) @ v"
  have c: "length ?c = length buf + 8 + npad (length k) + length v"
    using npad_props(1) [of "length k"] by simp
  have m': "(length buf + 8 + npad (length k)) mod 4 = 0"
    using m npad_props(3) [of "length k"] by presburger
  have pc: "npad (length ?c) = length buf + 8 + npad (length k) + npad (length v)"
    unfolding c by (rule npad_add [OF m'])
  have "resize4 ?c = ?c @ replicate (npad (length v) - length v) 0"
  proof -
    have "length ?c + 3 < 4294967296"
      using assms(2) npad_props(1) [of "length v"] c by (simp add: kv length_entry)
    from resize4_eq [OF this] pc c show ?thesis by simp
  qed
  with r1 show ?thesis
    by (simp add: put_entry_def kv entry_def Let_def)
qed

lemma foldl_put_entry:
  "length buf mod 4 = 0 \<Longrightarrow> length buf + length (concat (map entry cs)) + 3 < 4294967296 \<Longrightarrow>
     foldl put_entry buf cs = buf @ concat (map entry cs)"
proof (induction cs arbitrary: buf)
  case (Cons c cs)
  have "put_entry buf c = buf @ entry c"
    using Cons.prems by (intro put_entry_eq) simp_all
  moreover have "length (buf @ entry c) mod 4 = 0"
    using Cons.prems(1) entry_mod4 [of c] by (simp add: mod_add_eq [symmetric])
  ultimately show ?case
    using Cons.IH [of "buf @ entry c"] Cons.prems(2) by simp
qed simp

lemma length_header [simp]: "length (header cache) = 12"
  by (simp add: header_def MAGIC_def)

lemma kv_serialize_eq:
  "blob_len cache + 3 < 4294967296 \<Longrightarrow> kv_serialize cache = header cache @ concat (map entry cache)"
  using foldl_put_entry [of "header cache" cache]
  by (simp add: kv_serialize_def header_def [symmetric] blob_len_def)

lemma length_kv_serialize: "blob_len cache + 3 < 4294967296 \<Longrightarrow> length (kv_serialize cache) = blob_len cache"
  by (simp add: kv_serialize_eq blob_len_def)

definition keys_valid :: "kv_cache \<Rightarrow> bool" where
  "keys_valid cache \<longleftrightarrow> list_all (\<lambda>(k, _). utf8_valid (map unat (bytes_of k))) cache"

lemma take_drop_mid: "take n (drop p (pre @ xs @ ys)) = xs" if "length pre = p" "length xs = n"
  using that by simp

text \<open>Reading one entry at an aligned position.\<close>

lemma load_entry:
  assumes buf: "buf = pre @ entry (k, v) @ post" and al: "length pre mod 4 = 0"
    and small: "length buf + 8 < 4294967296" and u: "utf8_valid (map unat (bytes_of k))"
  shows "load_entries (Suc n) buf (of_nat (length pre)) m =
    load_entries n buf (of_nat (length pre + length (entry (k, v)))) (bm_insert k v m)"
proof -
  let ?p = "length pre" and ?k = "length k" and ?v = "length v"
  let ?kpad = "replicate (npad ?k - ?k) (0 :: u8)" and ?vpad = "replicate (npad ?v - ?v) (0 :: u8)"
  have bl: "length buf = ?p + 8 + npad ?k + npad ?v + length post"
    using buf by (simp add: length_entry)
  have kle: "?k \<le> npad ?k" "?v \<le> npad ?v" by (rule npad_props)+
  have b: "buf = pre @ le_of_u32 (of_nat ?k) @ le_of_u32 (of_nat ?v) @ bytes_of k @ ?kpad @ v @ ?vpad @ post"
    by (simp add: buf entry_def)
  have s1: "slice buf (of_nat ?p) (of_nat (?p + 4)) = Some (le_of_u32 (of_nat ?k))"
    using slice_of_nat [of ?p "?p + 4" buf] bl small b by simp
  have s2: "slice buf (of_nat (?p + 4)) (of_nat (?p + 8)) = Some (le_of_u32 (of_nat ?v))"
  proof -
    have "take 4 (drop (?p + 4) ((pre @ le_of_u32 (of_nat ?k)) @ le_of_u32 (of_nat ?v) @
        (bytes_of k @ ?kpad @ v @ ?vpad @ post))) = le_of_u32 (of_nat ?v)"
      by (rule take_drop_mid) simp_all
    then show ?thesis
      using slice_of_nat [of "?p + 4" "?p + 8" buf] bl small b by simp
  qed
  have s3: "slice buf (of_nat (?p + 8)) (of_nat (?p + 8 + ?k)) = Some (bytes_of k)"
  proof -
    have "take ?k (drop (?p + 8) ((pre @ le_of_u32 (of_nat ?k) @ le_of_u32 (of_nat ?v)) @ bytes_of k @
        (?kpad @ v @ ?vpad @ post))) = bytes_of k"
      by (rule take_drop_mid) simp_all
    then show ?thesis
      using slice_of_nat [of "?p + 8" "?p + 8 + ?k" buf] bl small b kle by simp
  qed
  have pk: "pad4 (of_nat (?p + 8 + ?k)) = of_nat (?p + 8 + npad ?k)"
  proof -
    have "(?p + 8) mod 4 = 0" using al by presburger
    from npad_add [OF this] show ?thesis
      using pad4_of_nat [of "?p + 8 + ?k"] bl small kle by simp
  qed
  have s4: "slice buf (of_nat (?p + 8 + npad ?k)) (of_nat (?p + 8 + npad ?k + ?v)) = Some v"
  proof -
    have "take ?v (drop (?p + 8 + npad ?k) ((pre @ le_of_u32 (of_nat ?k) @ le_of_u32 (of_nat ?v) @ bytes_of k @ ?kpad) @
        v @ (?vpad @ post))) = v"
      using kle by (intro take_drop_mid) simp_all
    then show ?thesis
      using slice_of_nat [of "?p + 8 + npad ?k" "?p + 8 + npad ?k + ?v" buf] bl small b kle by simp
  qed
  have pv: "pad4 (of_nat (?p + 8 + npad ?k + ?v)) = of_nat (?p + 8 + npad ?k + npad ?v)"
  proof -
    have "(?p + 8 + npad ?k) mod 4 = 0" using al npad_props(3) [of ?k] by presburger
    from npad_add [OF this] show ?thesis
      using pad4_of_nat [of "?p + 8 + npad ?k + ?v"] bl small kle by simp
  qed
  have w: "of_nat ?p + 8 = (of_nat (?p + 8) :: u32)" "of_nat ?p + 4 = (of_nat (?p + 4) :: u32)"
    "of_nat (?p + 8) + of_nat ?k = (of_nat (?p + 8 + ?k) :: u32)"
    "of_nat (?p + 8 + npad ?k) + of_nat ?v = (of_nat (?p + 8 + npad ?k + ?v) :: u32)"
    by simp_all
  have fin: "?p + length (entry (k, v)) = ?p + 8 + npad ?k + npad ?v"
    by (simp add: length_entry)
  have c1: "\<not> unat (of_nat (?p + 8) :: u32) > length buf"
    "\<not> unat (of_nat (?p + 8 + ?k) :: u32) > length buf"
    "\<not> unat (of_nat (?p + 8 + npad ?k + ?v) :: u32) > length buf"
    using bl small kle by (simp_all del: of_nat_add of_nat_numeral)
  show ?thesis
    unfolding load_entries.simps(2) w(1,2) s1 s2 Let_def prod.case option.case u32_le_roundtrip w(3) s3 fin
    using c1 u by (simp add: from_utf8_def pk s4 pv w(4) del: of_nat_add of_nat_numeral)
qed

lemma load_all:
  assumes "buf = pre @ concat (map entry cs) @ post" "length pre mod 4 = 0"
    and "length buf + 8 < 4294967296" "keys_valid cs"
  shows "load_entries (length cs) buf (of_nat (length pre)) m = Some (Some (foldl (\<lambda>m (k, v). bm_insert k v m) m cs))"
  using assms
proof (induction cs arbitrary: pre m)
  case (Cons c cs)
  obtain k v where c: "c = (k, v)" by (cases c)
  have "load_entries (Suc (length cs)) buf (of_nat (length pre)) m =
      load_entries (length cs) buf (of_nat (length (pre @ entry c))) (bm_insert k v m)"
    using Cons.prems c load_entry [of buf pre k v "concat (map entry cs) @ post" "length cs" m]
    by (simp add: keys_valid_def)
  also have "\<dots> = Some (Some (foldl (\<lambda>m (k, v). bm_insert k v m) (bm_insert k v m) cs))"
    using Cons.prems entry_mod4 [of c]
    by (intro Cons.IH) (simp_all add: keys_valid_def mod_add_eq [symmetric])
  finally show ?case by (simp add: c)
qed simp

section \<open>Properties\<close>

lemma bm_insert_last: "list_all (\<lambda>x. fst x < k) m \<Longrightarrow> bm_insert k v m = m @ [(k, v)]"
  by (induction m) auto

lemma foldl_bm_insert:
  "sorted_wrt (<) (map fst (m @ cs)) \<Longrightarrow> foldl (\<lambda>m (k, v). bm_insert k v m) m cs = m @ cs"
proof (induction cs arbitrary: m)
  case (Cons c cs)
  obtain k v where c: "c = (k, v)" by (cases c)
  with Cons.prems have "bm_insert k v m = m @ [(k, v)]"
    by (intro bm_insert_last) (auto simp: sorted_wrt_append list_all_iff)
  with Cons c show ?case by simp
qed simp

lemma kv_parse_serialize:
  assumes "bm_ok cache" "keys_valid cache" "buf = kv_serialize cache @ rest"
    and "blob_len cache + 3 < 4294967296" "length buf + 8 < 4294967296"
  shows "kv_parse buf = Some (Some cache)"
proof -
  have b: "buf = header cache @ concat (map entry cache) @ rest"
    using assms(3) by (simp add: kv_serialize_eq [OF assms(4)])
  have n: "length cache < 4294967296"
  proof -
    have "length cache \<le> length (concat (map entry cache))"
    proof (induction cache)
      case (Cons c cs)
      have "8 \<le> length (entry c)" by (cases c) (simp add: length_entry)
      with Cons show ?case by simp
    qed simp
    then show ?thesis using assms(4) by (simp add: blob_len_def)
  qed
  have "load_entries (length cache) buf (of_nat (length (header cache))) [] =
      Some (Some (foldl (\<lambda>m (k, v). bm_insert k v m) [] cache))"
    by (rule load_all [OF b _ assms(5,2)]) simp
  moreover have "foldl (\<lambda>m (k, v). bm_insert k v m) [] cache = cache"
    using foldl_bm_insert [of "[]" cache] assms(1) by (simp add: bm_ok_def)
  moreover have "take 4 buf = MAGIC" "take 4 (drop 4 buf) = le_of_u32 VERSION"
    "take 4 (drop 8 buf) = le_of_u32 (of_nat (length cache))"
    by (simp_all add: b header_def MAGIC_def)
  ultimately show ?thesis
    using n by (simp add: kv_parse_def)
qed

lemma flush_ok_parts:
  assumes "kv_flush fl f cache = (f', Inr ())" "blob_len cache + 3 < 4294967296"
  obtains f1 where "fl_erase fl f REGION_OFFSET (REGION_OFFSET + REGION_LEN) = (f1, True)"
    "fl_write fl f1 REGION_OFFSET (kv_serialize cache) = (f', True)" "blob_len cache \<le> 8192"
proof -
  have len: "\<not> REGION_LEN < of_nat (length (kv_serialize cache))"
    using assms(1) by (auto simp: kv_flush_def Let_def split: if_splits)
  then have "blob_len cache \<le> 8192"
    using assms(2) by (simp add: length_kv_serialize REGION_LEN_def word_less_nat_alt)
  moreover obtain f1 e where e: "fl_erase fl f REGION_OFFSET (REGION_OFFSET + REGION_LEN) = (f1, e)"
    by (cases "fl_erase fl f REGION_OFFSET (REGION_OFFSET + REGION_LEN)")
  moreover obtain f2 w where w: "fl_write fl f1 REGION_OFFSET (kv_serialize cache) = (f2, w)"
    by (cases "fl_write fl f1 REGION_OFFSET (kv_serialize cache)")
  ultimately show ?thesis
    using that assms(1) len by (auto simp: kv_flush_def Let_def split: if_splits)
qed

lemma serialize_mod4: "blob_len cache + 3 < 4294967296 \<Longrightarrow> length (kv_serialize cache) mod 4 = 0"
  using entries_mod4 [of cache] by (simp add: length_kv_serialize blob_len_def mod_add_eq [symmetric])

lemma flush_load:
  assumes "nor_flash fl" "kv_flush fl f cache = (f', Inr ())" "bm_ok cache" "keys_valid cache"
    and "blob_len cache + 3 < 4294967296"
  shows "kv_load fl f' = Some (Some cache)"
proof -
  obtain f1 where f1: "fl_erase fl f REGION_OFFSET (REGION_OFFSET + REGION_LEN) = (f1, True)"
    "fl_write fl f1 REGION_OFFSET (kv_serialize cache) = (f', True)" "blob_len cache \<le> 8192"
    using assms(2,5) by (rule flush_ok_parts)
  have "\<exists>rest. fl_read fl f' REGION_OFFSET (unat (REGION_OFFSET + REGION_LEN - REGION_OFFSET)) =
      Some (kv_serialize cache @ rest) \<and>
      length (kv_serialize cache @ rest) = unat (REGION_OFFSET + REGION_LEN - REGION_OFFSET)"
    using assms(5) f1(3) serialize_mod4 [OF assms(5)]
    by (intro nor_flash.write_read [OF assms(1) f1(1,2)])
       (simp_all add: length_kv_serialize REGION_LEN_def)
  then obtain rest where r: "fl_read fl f' REGION_OFFSET (unat REGION_LEN) = Some (kv_serialize cache @ rest)"
    "length (kv_serialize cache @ rest) = unat REGION_LEN"
    by auto
  have "kv_parse (kv_serialize cache @ rest) = Some (Some cache)"
    by (rule kv_parse_serialize [OF assms(3,4) refl assms(5)]) (use r(2) in \<open>simp add: REGION_LEN_def\<close>)
  with r(1) show ?thesis by (simp add: kv_load_def)
qed

text \<open>C17. What was stored survives a power cycle, bit for bit: after a set that reported success,
  constructing the store again from the flash gives exactly the same store, every key included
  (on a driver that keeps the NorFlash contract, with keys that are UTF-8 and a blob below 4 GiB).\<close>

theorem flash_kv_reboot:
  assumes "nor_flash fl" "bm_ok (kv_map s)" "keys_valid (bm_insert k v (kv_map s))"
    and "blob_len (bm_insert k v (kv_map s)) + 3 < 4294967296"
    and "kv_set fl s k v = (s', Inr ())"
  shows "kv_new fl (kv_flash s') = Some s'"
proof -
  obtain f r where f: "kv_flush fl (kv_flash s) (bm_insert k v (kv_map s)) = (f, r)"
    by (cases "kv_flush fl (kv_flash s) (bm_insert k v (kv_map s))")
  with assms(5) have s': "s' = \<lparr>kv_flash = f, kv_map = bm_insert k v (kv_map s)\<rparr>" "r = Inr ()"
    by (simp_all add: kv_set_def Let_def)
  have "kv_load fl f = Some (Some (bm_insert k v (kv_map s)))"
    using assms f s' by (intro flush_load [OF assms(1), of "kv_flash s"]) simp_all
  with s' show ?thesis by (simp add: kv_new_def)
qed

text \<open>A flash that is its content: a model of the driver contract.\<close>

definition ram_flash :: "bytes flash_ops" where
  "ram_flash = \<lparr>fl_read = (\<lambda>f a n. if length f = n then Some f else None),
     fl_erase = (\<lambda>f a b. (replicate (unat (b - a)) 255, True)),
     fl_write = (\<lambda>f a bs. (bs @ drop (length bs) f, True))\<rparr>"

interpretation ram: nor_flash ram_flash
  by unfold_locales (auto simp: ram_flash_def)

lemma ram_nor_flash: "nor_flash ram_flash"
  by (rule ram.nor_flash_axioms)

lemma flash_kv_reboot_witness:
  "\<exists>s'. kv_set ram_flash \<lparr>kv_flash = [], kv_map = []\<rparr> ''a'' [7] = (s', Inr ()) \<and>
     kv_new ram_flash (kv_flash s') = Some s'"
proof -
  have small: "blob_len [(''a'', [7])] = 28"
    by (simp add: blob_len_def length_entry npad_def)
  then have len: "length (kv_serialize [(''a'', [7])]) = 28"
    by (simp add: length_kv_serialize)
  have ok: "bm_ok [(''a'', [7 :: u8])]" "keys_valid [(''a'', [7])]"
    by (simp_all add: bm_ok_def keys_valid_def bytes_of_def)
  obtain s' where s': "kv_set ram_flash \<lparr>kv_flash = [], kv_map = []\<rparr> ''a'' [7] = (s', Inr ())"
    by (simp add: kv_set_def kv_flush_def Let_def ram_flash_def len REGION_LEN_def word_less_nat_alt)
  have "kv_new ram_flash (kv_flash s') = Some s'"
    by (rule flash_kv_reboot [OF ram_nor_flash _ _ _ s']) (use ok small in simp_all)
  with s' show ?thesis by blast
qed

lemma blob_len_insert:
  "map_of m k = None \<Longrightarrow> blob_len (bm_insert k v m) = blob_len m + length (entry (k, v))"
  by (induction m) (auto simp: blob_len_def split: if_splits)

text \<open>C20. A set that fails because the region is full poisons the store: the oversized value stays in
  memory, where \<open>get\<close> returns it, the flash keeps the old content, and from then on every attempt
  to store a further key fails as full too, however small it is.\<close>

theorem flash_kv_full_poisons:
  assumes "kv_set fl s k v = (s', Inl Full)" "map_of (kv_map s') j = None"
    and "blob_len (bm_insert j w (kv_map s')) + 3 < 4294967296"
  shows "kv_get s' k = Some v \<and> kv_flash s' = kv_flash s \<and> snd (kv_set fl s' j w) = Inl Full"
proof -
  let ?c = "bm_insert k v (kv_map s)"
  have m: "kv_map s' = ?c"
    using kv_set_map [of fl s k v] assms(1) by simp
  have le: "blob_len (bm_insert j w ?c) = blob_len ?c + length (entry (j, w))"
    using assms(2) m by (intro blob_len_insert) simp
  have full: "REGION_LEN < of_nat (length (kv_serialize ?c))"
    and fl: "kv_flash s' = kv_flash s"
    using assms(1) by (auto simp: kv_set_def kv_flush_def Let_def case_prod_beta split: if_splits)
  then have "8192 < blob_len ?c"
    using assms(3) m le by (simp add: length_kv_serialize REGION_LEN_def word_less_nat_alt)
  then have "8192 < blob_len (bm_insert j w ?c)" using le by simp
  then have "REGION_LEN < of_nat (length (kv_serialize (bm_insert j w ?c)))"
    using assms(3) m by (simp add: length_kv_serialize REGION_LEN_def word_less_nat_alt)
  with m fl show ?thesis
    by (simp add: kv_get_def kv_set_def kv_flush_def Let_def)
qed

lemma flash_kv_full_poisons_witness:
  "let s = fst (kv_set ram_flash \<lparr>kv_flash = [], kv_map = []\<rparr> ''a'' (replicate 8192 7))
   in kv_get s ''a'' = Some (replicate 8192 7) \<and> kv_flash s = [] \<and> snd (kv_set ram_flash s ''b'' [1]) = Inl Full"
proof -
  have small: "blob_len [(''a'', replicate 8192 7)] = 8216"
    by (simp add: blob_len_def length_entry npad_def)
  then have len: "length (kv_serialize [(''a'', replicate 8192 7)]) = 8216"
    by (simp add: length_kv_serialize)
  let ?s = "fst (kv_set ram_flash \<lparr>kv_flash = [], kv_map = []\<rparr> ''a'' (replicate 8192 7))"
  have set1: "kv_set ram_flash \<lparr>kv_flash = [], kv_map = []\<rparr> ''a'' (replicate 8192 7) = (?s, Inl Full)"
    and map: "kv_map ?s = [(''a'', replicate 8192 7)]"
    by (simp_all add: kv_set_def kv_flush_def Let_def len REGION_LEN_def word_less_nat_alt)
  have "blob_len (bm_insert ''b'' [1] (kv_map ?s)) + 3 < 4294967296" "map_of (kv_map ?s) ''b'' = None"
    by (simp_all add: map blob_len_def length_entry npad_def)
  from flash_kv_full_poisons [OF set1 this(2,1)] show ?thesis by (simp add: Let_def)
qed

text \<open>A corrupted length makes the boot panic instead of counting as an empty store: with a
  valid header, at least one entry announced and a key length close to \<open>2 ^ 32\<close>, the end of the
  key wraps round below its start and the slice fails, whatever follows.\<close>

theorem flash_kv_corrupt_length_panics:
  assumes "c \<noteq> 0" "4294967276 \<le> unat klen"
    and "buf = MAGIC @ le_of_u32 VERSION @ le_of_u32 c @ le_of_u32 klen @ le_of_u32 vlen @ rest"
    and "length buf + 8 < 4294967296"
  shows "kv_parse buf = None"
proof -
  obtain n where n: "unat c = Suc n"
    using assms(1) by (metis not0_implies_Suc unat_eq_zero)
  have len: "length buf = 20 + length rest" using assms(3) by (simp add: MAGIC_def)
  have t: "take 4 buf = MAGIC" "take 4 (drop 4 buf) = le_of_u32 VERSION"
    "take 4 (drop 8 buf) = le_of_u32 c"
    by (simp_all add: assms(3) MAGIC_def)
  have s1: "slice buf 12 16 = Some (le_of_u32 klen)" "slice buf 16 20 = Some (le_of_u32 vlen)"
    using len by (simp_all add: slice_def word_le_nat_alt assms(3) MAGIC_def)
  have k: "unat (20 + klen) = unat klen - 4294967276"
  proof -
    have "(20 + unat klen) mod 4294967296 = (20 + unat klen - 4294967296) mod 4294967296"
      using assms(2) by (intro le_mod_geq) simp
    also have "\<dots> = unat klen - 4294967276"
      using unat_u32_bound [of klen] by simp
    finally show ?thesis by (simp add: unat_word_ariths)
  qed
  then have "unat (20 + klen) < 20" using unat_u32_bound [of klen] by simp
  then have "slice buf 20 (20 + klen) = None" "\<not> unat (20 + klen) > length buf"
    using len by (simp_all add: slice_def word_le_nat_alt)
  then show ?thesis
    using t s1 n len by (simp add: kv_parse_def Let_def)
qed

lemma flash_kv_corrupt_length_panics_witness:
  "kv_parse (MAGIC @ le_of_u32 VERSION @ le_of_u32 1 @ le_of_u32 0xFFFFFFF0 @ le_of_u32 0 @ replicate 8172 0) = None"
  by (rule flash_kv_corrupt_length_panics [OF _ _ refl]) (simp_all add: MAGIC_def)

end
