(* ===== verification/Captive_Net.thy ===== *)
theory Captive_Net
  imports Text "HOL-Library.Monad_Syntax"
begin

text \<open>
  The network services of the setup mode: the DHCP and DNS servers of the no_std firmware,
  \<open>crates/firmware-nostd/src/ap.rs\<close>, and the DNS responder of the ESP-IDF firmware,
  \<open>crates/firmware/src/captive_dns.rs\<close>. A datagram is a byte list. Every indexed read, slice and
  copy of the source is an operation into \<open>option\<close> whose \<open>None\<close> is the panic of an index out of
  range; the answers of the functions are values inside it.
\<close>

section \<open>Indexed access\<close>

definition byte_at :: "bytes \<Rightarrow> nat \<Rightarrow> u8 option" where
  "byte_at bs i = (if i < length bs then Some (bs ! i) else None)"

definition sub_bytes :: "bytes \<Rightarrow> nat \<Rightarrow> nat \<Rightarrow> bytes option" where
  "sub_bytes bs a b = (if a \<le> b \<and> b \<le> length bs then Some (take (b - a) (drop a bs)) else None)"

text \<open>\<open>out[i] = x\<close> for one byte, and the body of the slice writes.\<close>

definition put_bytes :: "bytes \<Rightarrow> nat \<Rightarrow> bytes \<Rightarrow> bytes option" where
  "put_bytes out i data =
     (if i + length data \<le> length out then Some (take i out @ data @ drop (i + length data) out) else None)"

text \<open>\<open>out[a..b].copy_from_slice(data)\<close>: the range has to be one of \<open>out\<close>, and as long as the data.\<close>

definition copy_slice :: "bytes \<Rightarrow> nat \<Rightarrow> nat \<Rightarrow> bytes \<Rightarrow> bytes option" where
  "copy_slice out a b data = (if a \<le> b \<and> length data = b - a then put_bytes out a data else None)"

definition be16 :: "u8 \<Rightarrow> u8 \<Rightarrow> u16" where
  "be16 a b = of_nat (256 * unat a + unat b)"

definition be_of_u32 :: "u32 \<Rightarrow> bytes" where
  "be_of_u32 w = map (\<lambda>i. of_nat (unat w div 256 ^ i)) [3, 2, 1, 0]"

section \<open>DHCP\<close>

definition AP_IP :: bytes where "AP_IP = [192, 168, 4, 1]"
definition CLIENT_IP :: bytes where "CLIENT_IP = [192, 168, 4, 2]"
definition LEASE_SECS :: u32 where "LEASE_SECS = 2 * 60 * 60"
definition DHCP_MAGIC :: bytes where "DHCP_MAGIC = [0x63, 0x82, 0x53, 0x63]"

definition put_opt :: "bytes \<Rightarrow> nat \<Rightarrow> u8 \<Rightarrow> bytes \<Rightarrow> (bytes \<times> nat) option" where
  "put_opt out i code data = do {
     out \<leftarrow> put_bytes out i [code];
     out \<leftarrow> put_bytes out (i + 1) [of_nat (length data)];
     out \<leftarrow> copy_slice out (i + 2) (i + 2 + length data) data;
     Some (out, i + 2 + length data)
   }"

text \<open>The option walk. The outer option is the panic, the inner one the message type found.\<close>

function dhcp_scan :: "bytes \<Rightarrow> nat \<Rightarrow> u8 option option" where
  "dhcp_scan req i =
    (if i + 1 < length req then do {
       code \<leftarrow> byte_at req i;
       if code = 255 then Some None
       else if code = 0 then dhcp_scan req (i + 1)
       else do {
         l \<leftarrow> byte_at req (i + 1);
         let len = unat l;
         if code = 53 \<and> 1 \<le> len \<and> i + 2 < length req then do {
           t \<leftarrow> byte_at req (i + 2);
           Some (Some t)
         } else dhcp_scan req (i + 2 + len)
       }
     } else Some None)"
  by pat_completeness auto
termination
  by (relation "measure (\<lambda>(req, i). length req - i)") auto

declare dhcp_scan.simps [simp del]

definition dhcp_msg_type :: "bytes \<Rightarrow> u8 option option" where
  "dhcp_msg_type req =
    (if length req < 240 then Some None
     else do {
       magic \<leftarrow> sub_bytes req 236 240;
       if magic \<noteq> DHCP_MAGIC then Some None else dhcp_scan req 240
     })"

definition build_dhcp_reply :: "bytes \<Rightarrow> u8 \<Rightarrow> (bytes \<times> nat) option" where
  "build_dhcp_reply req msg_type = do {
     let out = replicate 300 0;
     out \<leftarrow> put_bytes out 0 [2];
     out \<leftarrow> put_bytes out 1 [1];
     out \<leftarrow> put_bytes out 2 [6];
     xid \<leftarrow> sub_bytes req 4 8;
     out \<leftarrow> copy_slice out 4 8 xid;
     flags \<leftarrow> sub_bytes req 10 12;
     out \<leftarrow> copy_slice out 10 12 flags;
     out \<leftarrow> copy_slice out 16 20 CLIENT_IP;
     out \<leftarrow> copy_slice out 20 24 AP_IP;
     chaddr \<leftarrow> sub_bytes req 28 44;
     out \<leftarrow> copy_slice out 28 44 chaddr;
     out \<leftarrow> copy_slice out 236 240 DHCP_MAGIC;
     (out, i) \<leftarrow> put_opt out 240 53 [msg_type];
     (out, i) \<leftarrow> put_opt out i 54 AP_IP;
     (out, i) \<leftarrow> put_opt out i 51 (be_of_u32 LEASE_SECS);
     (out, i) \<leftarrow> put_opt out i 1 [255, 255, 255, 0];
     (out, i) \<leftarrow> put_opt out i 3 AP_IP;
     (out, i) \<leftarrow> put_opt out i 6 AP_IP;
     out \<leftarrow> put_bytes out i [255];
     Some (out, i + 1)
   }"

text \<open>One datagram through the server loop: the inner option is the reply it sends, if any.\<close>

definition dhcp_serve :: "bytes \<Rightarrow> bytes option option" where
  "dhcp_serve req =
    (if length req < 240 then Some None
     else do {
       op \<leftarrow> byte_at req 0;
       if op \<noteq> 1 then Some None
       else do {
         msg_type \<leftarrow> dhcp_msg_type req;
         case msg_type of
           Some t \<Rightarrow>
             if t = 1 \<or> t = 3 then do {
               (reply, len) \<leftarrow> build_dhcp_reply req (if t = 1 then 2 else 5);
               r \<leftarrow> sub_bytes reply 0 len;
               Some (Some r)
             } else Some None
         | None \<Rightarrow> Some None
       }
     })"

section \<open>DNS, no_std firmware\<close>

function label_walk :: "bytes \<Rightarrow> nat \<Rightarrow> nat option" where
  "label_walk q i =
    (if i < length q then do {
       b \<leftarrow> byte_at q i;
       if b \<noteq> 0 then label_walk q (i + 1 + unat b) else Some i
     } else Some i)"
  by pat_completeness auto
termination
  by (relation "measure (\<lambda>(q, i). length q - i)") auto

declare label_walk.simps [simp del]

text \<open>The reply is written into the caller's buffer; the result is the buffer and its used length.\<close>

definition build_dns_reply :: "bytes \<Rightarrow> bytes \<Rightarrow> (bytes \<times> nat) option option" where
  "build_dns_reply q out =
    (if length q < 12 then Some None
     else do {
       q2 \<leftarrow> byte_at q 2;
       if and q2 0x80 \<noteq> 0 then Some None
       else do {
         q4 \<leftarrow> byte_at q 4;
         q5 \<leftarrow> byte_at q 5;
         if be16 q4 q5 \<noteq> 1 then Some None
         else do {
           i \<leftarrow> label_walk q 12;
           let q_end = i + 5;
           if q_end > length q \<or> q_end + 16 > length out then Some None
           else do {
             t1 \<leftarrow> byte_at q (i + 1);
             t2 \<leftarrow> byte_at q (i + 2);
             let answer = (be16 t1 t2 = 1);
             q0 \<leftarrow> byte_at q 0;
             out \<leftarrow> put_bytes out 0 [q0];
             q1 \<leftarrow> byte_at q 1;
             out \<leftarrow> put_bytes out 1 [q1];
             out \<leftarrow> put_bytes out 2 [0x81];
             out \<leftarrow> put_bytes out 3 [0x80];
             out \<leftarrow> put_bytes out 4 [0];
             out \<leftarrow> put_bytes out 5 [1];
             out \<leftarrow> put_bytes out 6 [0];
             out \<leftarrow> put_bytes out 7 [if answer then 1 else 0];
             out \<leftarrow> copy_slice out 8 12 (replicate 4 0);
             question \<leftarrow> sub_bytes q 12 q_end;
             out \<leftarrow> copy_slice out 12 q_end question;
             let k = q_end;
             if answer then do {
               out \<leftarrow> copy_slice out k (k + 2) [0xC0, 0x0C];
               out \<leftarrow> copy_slice out (k + 2) (k + 4) [0, 1];
               out \<leftarrow> copy_slice out (k + 4) (k + 6) [0, 1];
               out \<leftarrow> copy_slice out (k + 6) (k + 10) (be_of_u32 60);
               out \<leftarrow> copy_slice out (k + 10) (k + 12) [0, 4];
               out \<leftarrow> copy_slice out (k + 12) (k + 16) AP_IP;
               Some (Some (out, k + 16))
             } else Some (Some (out, k))
           }
         }
       }
     })"

text \<open>One query through the server loop, whose reply buffer lives as long as the task.\<close>

definition dns_serve :: "bytes \<Rightarrow> bytes \<Rightarrow> (bytes \<times> bytes option) option" where
  "dns_serve resp q = do {
     built \<leftarrow> build_dns_reply q resp;
     case built of
       None \<Rightarrow> Some (resp, None)
     | Some (resp, len) \<Rightarrow> do {
         r \<leftarrow> sub_bytes resp 0 len;
         Some (resp, Some r)
       }
   }"

section \<open>DNS, ESP-IDF firmware\<close>

text \<open>The label loop with its early returns: an inner \<open>None\<close> gives up, \<open>Some i\<close> is the position behind the
  name.\<close>

function label_walk_strict :: "bytes \<Rightarrow> nat \<Rightarrow> nat option option" where
  "label_walk_strict req i =
    (if i < length req then do {
       l \<leftarrow> byte_at req i;
       let len = unat l;
       if len = 0 then Some (Some (i + 1))
       else if and len 0xC0 \<noteq> 0 then Some None
       else if i + (len + 1) \<ge> length req then Some None
       else label_walk_strict req (i + (len + 1))
     } else Some (Some i))"
  by pat_completeness auto
termination
  by (relation "measure (\<lambda>(q, i). length q - i)") auto

declare label_walk_strict.simps [simp del]

definition build_a_response :: "bytes \<Rightarrow> bytes \<Rightarrow> bytes option option" where
  "build_a_response req ip =
    (if length req < 12 then Some None
     else do {
       r4 \<leftarrow> byte_at req 4;
       r5 \<leftarrow> byte_at req 5;
       if be16 r4 r5 \<noteq> 1 then Some None
       else do {
         walked \<leftarrow> label_walk_strict req 12;
         case walked of
           None \<Rightarrow> Some None
         | Some i \<Rightarrow>
           if i + 4 > length req then Some None
           else do {
             t1 \<leftarrow> byte_at req i;
             t2 \<leftarrow> byte_at req (i + 1);
             c1 \<leftarrow> byte_at req (i + 2);
             c2 \<leftarrow> byte_at req (i + 3);
             if be16 t1 t2 \<noteq> 1 \<or> be16 c1 c2 \<noteq> 1 then Some None
             else do {
               rid \<leftarrow> sub_bytes req 0 2;
               question \<leftarrow> sub_bytes req 12 (i + 4);
               Some (Some (rid @ [0x81, 0x80] @ [0, 1] @ [0, 1] @ [0, 0] @ [0, 0] @ question @
                 [0xC0, 0x0C] @ [0, 1] @ [0, 1] @ [0, 0, 0, 0x3C] @ [0, 4] @ ip))
             }
           }
       }
     })"

text \<open>One datagram through the responder thread: nothing is answered while no redirect is set.\<close>

definition captive_serve :: "bytes option \<Rightarrow> bytes \<Rightarrow> bytes option option" where
  "captive_serve redirect req = (case redirect of None \<Rightarrow> Some None | Some ip \<Rightarrow> build_a_response req ip)"

section \<open>The tasks around the handlers\<close>

text \<open>The receive loops: an input is a receive error (\<open>None\<close>) or what was received; \<open>st\<close> is what the
  loop keeps. The result is what is sent, \<open>None\<close> a panic. Without the port the task ends at once.\<close>

fun serve_loop :: "('b \<Rightarrow> 'i \<Rightarrow> ('b \<times> bytes option) option) \<Rightarrow> 'b \<Rightarrow> 'i option list \<Rightarrow> bytes list option" where
  "serve_loop serve st [] = Some []"
| "serve_loop serve st (None # inputs) = serve_loop serve st inputs"
| "serve_loop serve st (Some x # inputs) = do {
     (st, reply) \<leftarrow> serve st x;
     sent \<leftarrow> serve_loop serve st inputs;
     Some (case reply of None \<Rightarrow> sent | Some r \<Rightarrow> r # sent)
   }"

text \<open>A handler that keeps nothing.\<close>

definition stateless :: "('i \<Rightarrow> bytes option option) \<Rightarrow> unit \<Rightarrow> 'i \<Rightarrow> (unit \<times> bytes option) option" where
  "stateless serve st x = map_option (Pair ()) (serve x)"

definition dhcp_server_task :: "bool \<Rightarrow> bytes option list \<Rightarrow> bytes list option" where
  "dhcp_server_task bound inputs = (if bound then serve_loop (stateless dhcp_serve) () inputs else Some [])"

definition dns_server_task :: "bool \<Rightarrow> bytes option list \<Rightarrow> bytes list option" where
  "dns_server_task bound inputs = (if bound then serve_loop dns_serve (replicate 512 0) inputs else Some [])"

definition captive_dns_task :: "bool \<Rightarrow> (bytes option \<times> bytes) option list \<Rightarrow> bytes list option" where
  "captive_dns_task bound inputs =
    (if bound then serve_loop (stateless (\<lambda>(redirect, req). captive_serve redirect req)) () inputs else Some [])"

section \<open>Lemmas\<close>

lemma byte_at_ok [simp]: "i < length bs \<Longrightarrow> byte_at bs i = Some (bs ! i)"
  by (simp add: byte_at_def)

lemma sub_bytes_ok [simp]: "a \<le> b \<Longrightarrow> b \<le> length bs \<Longrightarrow> sub_bytes bs a b = Some (take (b - a) (drop a bs))"
  by (simp add: sub_bytes_def)

lemma copy_slice_ok [simp]:
  "a \<le> b \<Longrightarrow> length d = b - a \<Longrightarrow> copy_slice out a b d = put_bytes out a d"
  by (simp add: copy_slice_def)

text \<open>A well-formed query for an address, as the tests of the source build it.\<close>

definition qname :: "bytes list \<Rightarrow> bytes" where
  "qname labels = concat (map (\<lambda>l. of_nat (length l) # l) labels) @ [0]"

definition a_query :: "u8 \<Rightarrow> u8 \<Rightarrow> bytes list \<Rightarrow> bytes" where
  "a_query id1 id2 labels =
     [id1, id2, 1, 0, 0, 1, 0, 0, 0, 0, 0, 0] @ qname labels @ [0, 1, 0, 1]"

definition label_ok :: "bytes \<Rightarrow> bool" where
  "label_ok l \<longleftrightarrow> l \<noteq> [] \<and> length l \<le> 63"

lemma unat_label [simp]: "label_ok l \<Longrightarrow> unat (of_nat (length l) :: u8) = length l"
  by (simp add: label_ok_def unat_of_nat)

lemma label_nonzero: "label_ok l \<Longrightarrow> (of_nat (length l) :: u8) \<noteq> 0"
  using unat_label [of l] by (metis label_ok_def length_0_conv unat_0)

lemma walk_labels:
  "list_all label_ok labels \<Longrightarrow> q = pre @ qname labels @ post \<Longrightarrow>
     label_walk q (length pre) = Some (length pre + length (qname labels) - 1)"
proof (induction labels arbitrary: pre)
  case Nil
  then show ?case by (subst label_walk.simps) (simp add: qname_def)
next
  case (Cons l ls)
  let ?n = "(of_nat (length l) :: u8)"
  have q: "q = (pre @ ?n # l) @ qname ls @ post"
    using Cons.prems by (simp add: qname_def)
  have "label_walk q (length pre) = label_walk q (length (pre @ ?n # l))"
    using Cons.prems label_nonzero [of l]
    by (subst label_walk.simps) (simp add: q nth_append)
  also have "\<dots> = Some (length (pre @ ?n # l) + length (qname ls) - 1)"
    using Cons.prems q by (intro Cons.IH) simp_all
  finally show ?case by (simp add: qname_def)
qed

lemma take_push_disjoint: "and (take_bit k n) (push_bit k m) = 0" for n m :: nat
  by (rule bit_eqI) (auto simp: bit_simps)

lemma small_label: "n \<le> 63 \<Longrightarrow> and n 192 = 0" for n :: nat
proof -
  assume "n \<le> 63"
  then have "n = take_bit 6 n" unfolding take_bit_eq_mod by simp
  moreover have "push_bit 6 3 = (192 :: nat)" by (simp add: push_bit_eq_mult)
  ultimately show ?thesis using take_push_disjoint [of 6 n 3] by simp
qed

lemma walk_labels_strict:
  "list_all label_ok labels \<Longrightarrow> q = pre @ qname labels @ post \<Longrightarrow>
     label_walk_strict q (length pre) = Some (Some (length pre + length (qname labels)))"
proof (induction labels arbitrary: pre)
  case Nil
  then show ?case by (subst label_walk_strict.simps) (simp add: qname_def Let_def)
next
  case (Cons l ls)
  let ?n = "(of_nat (length l) :: u8)"
  have q: "q = (pre @ ?n # l) @ qname ls @ post"
    using Cons.prems by (simp add: qname_def)
  have l: "label_ok l" "length l \<noteq> 0" "and (length l) 192 = 0"
    using Cons.prems small_label [of "length l"] by (auto simp: label_ok_def)
  have "qname ls \<noteq> []" by (simp add: qname_def)
  then have "label_walk_strict q (length pre) = label_walk_strict q (length (pre @ ?n # l))"
    using l by (subst label_walk_strict.simps) (simp add: q nth_append Let_def)
  also have "\<dots> = Some (Some (length (pre @ ?n # l) + length (qname ls)))"
    using Cons.prems q by (intro Cons.IH) simp_all
  finally show ?case by (simp add: qname_def)
qed

lemma length_qname_pos: "0 < length (qname labels)"
  by (simp add: qname_def)

section \<open>Properties\<close>

text \<open>The answer both responders have to give.\<close>

definition a_answer :: "u8 \<Rightarrow> u8 \<Rightarrow> bytes list \<Rightarrow> bytes \<Rightarrow> bytes" where
  "a_answer id1 id2 labels ip =
     [id1, id2, 0x81, 0x80, 0, 1, 0, 1, 0, 0, 0, 0] @ qname labels @ [0, 1, 0, 1] @
     [0xC0, 0x0C, 0, 1, 0, 1, 0, 0, 0, 60, 0, 4] @ ip"

lemma be16_simps [simp]: "be16 0 1 = 1"
  by (simp add: be16_def)

lemma be_60: "be_of_u32 60 = [0, 0, 0, 60]"
  by (simp add: be_of_u32_def)

lemma a_query_parts:
  fixes id1 id2 labels
  defines "q \<equiv> a_query id1 id2 labels" and "n \<equiv> length (qname labels)"
  shows "length q = 16 + n"
    "byte_at q 0 = Some id1" "byte_at q (Suc 0) = Some id2" "byte_at q 2 = Some 1"
    "byte_at q 4 = Some 0" "byte_at q 5 = Some 1"
    "byte_at q (12 + n) = Some 0" "byte_at q (13 + n) = Some 1"
    "byte_at q (14 + n) = Some 0" "byte_at q (15 + n) = Some 1"
    "sub_bytes q 0 2 = Some [id1, id2]"
    "sub_bytes q 12 (16 + n) = Some (qname labels @ [0, 1, 0, 1])"
  by (simp_all add: q_def n_def a_query_def byte_at_def sub_bytes_def nth_append nth_Cons')

lemma a_query_walks:
  assumes "list_all label_ok labels"
  shows "label_walk (a_query id1 id2 labels) 12 = Some (11 + length (qname labels))"
    and "label_walk_strict (a_query id1 id2 labels) 12 = Some (Some (12 + length (qname labels)))"
proof -
  let ?h = "[id1, id2, 1, 0, 0, 1, 0, 0, 0, 0, 0, 0 :: u8]"
  have q: "a_query id1 id2 labels = ?h @ qname labels @ [0, 1, 0, 1]"
    by (simp add: a_query_def)
  have h: "length ?h = 12" by simp
  have "label_walk (a_query id1 id2 labels) 12 = Some (12 + length (qname labels) - 1)"
    using walk_labels [OF assms q] unfolding h .
  then show "label_walk (a_query id1 id2 labels) 12 = Some (11 + length (qname labels))" by simp
  show "label_walk_strict (a_query id1 id2 labels) 12 = Some (Some (12 + length (qname labels)))"
    using walk_labels_strict [OF assms q] unfolding h .
qed

lemma esp_answers:
  assumes "list_all label_ok labels"
  shows "build_a_response (a_query id1 id2 labels) ip = Some (Some (a_answer id1 id2 labels ip))"
  by (simp add: build_a_response_def a_query_parts a_query_walks assms a_answer_def add_ac
      del: byte_at_ok sub_bytes_ok)
    (simp add: a_query_parts [unfolded add.commute [of _ "length _"]] add_ac)

text \<open>A buffer that is filled from its start: \<open>filled out pre\<close> is \<open>out\<close> with \<open>pre\<close> written over its
  beginning. A write right behind \<open>pre\<close> extends it.\<close>

definition filled :: "bytes \<Rightarrow> bytes \<Rightarrow> bytes" where
  "filled out pre = pre @ drop (length pre) out"

lemma filled_start: "out = filled out []"
  by (simp add: filled_def)

lemma put_filled:
  "i = length pre \<Longrightarrow> length pre + length d \<le> length out \<Longrightarrow>
     put_bytes (filled out pre) i d = Some (filled out (pre @ d))"
  by (simp add: put_bytes_def filled_def add.commute)

lemma length_filled: "length pre \<le> length out \<Longrightarrow> length (filled out pre) = length out"
  by (simp add: filled_def)

lemma sub_filled:
  "length pre = n \<Longrightarrow> n \<le> length out \<Longrightarrow> sub_bytes (filled out pre) 0 n = Some pre"
  by (simp add: sub_bytes_def filled_def)

lemma length_be_of_u32 [simp]: "length (be_of_u32 w) = 4"
  by (simp add: be_of_u32_def)

lemma length_addresses [simp]: "length AP_IP = 4" "length CLIENT_IP = 4" "length DHCP_MAGIC = 4"
  by (simp_all add: AP_IP_def CLIENT_IP_def DHCP_MAGIC_def)

text \<open>What the no_std responder writes: header, echoed question and, for an address query, the record.\<close>

definition dns_reply_bytes :: "bytes \<Rightarrow> nat \<Rightarrow> bool \<Rightarrow> bytes" where
  "dns_reply_bytes q q_end answer =
     [q ! 0, q ! 1, 0x81, 0x80, 0, 1, 0, if answer then 1 else 0, 0, 0, 0, 0] @ take (q_end - 12) (drop 12 q) @
     (if answer then [0xC0, 0x0C, 0, 1, 0, 1] @ be_of_u32 60 @ [0, 4] @ AP_IP else [])"

lemma length_dns_reply:
  "12 \<le> e \<Longrightarrow> e \<le> length q \<Longrightarrow> length (dns_reply_bytes q e answer) = e + (if answer then 16 else 0)"
  by (cases answer) (simp_all add: dns_reply_bytes_def)

text \<open>The guards of the code, as one condition. Under them the reply is written and fits; otherwise
  there is none.\<close>

definition dns_accepts :: "bytes \<Rightarrow> nat \<Rightarrow> nat option" where
  "dns_accepts q out_len =
    (if 12 \<le> length q \<and> and (q ! 2) 0x80 = 0 \<and> be16 (q ! 4) (q ! 5) = 1
     then (case label_walk q 12 of
        None \<Rightarrow> None
      | Some i \<Rightarrow> if i + 5 \<le> length q \<and> i + 21 \<le> out_len then Some i else None)
     else None)"

lemma walk_bound: "\<exists>j. label_walk q i = Some j \<and> i \<le> j"
proof (induction q i rule: label_walk.induct)
  case (1 q i)
  show ?case
  proof (cases "i < length q \<and> q ! i \<noteq> 0")
    case True
    then obtain j where "label_walk q (i + 1 + unat (q ! i)) = Some j" "i + 1 + unat (q ! i) \<le> j"
      using "1.IH" [of "q ! i"] by auto
    with True show ?thesis by (subst label_walk.simps) auto
  qed (subst label_walk.simps, auto)
qed

lemma dns_written:
  assumes "dns_accepts q (length out) = Some i"
  defines "answer \<equiv> be16 (q ! (i + 1)) (q ! (i + 2)) = 1"
  shows "build_dns_reply q out =
    Some (Some (filled out (dns_reply_bytes q (i + 5) answer), i + 5 + (if answer then 16 else 0)))"
proof -
  have g: "12 \<le> length q" "and (q ! 2) 0x80 = 0" "be16 (q ! 4) (q ! 5) = 1" "label_walk q 12 = Some i"
    "i + 5 \<le> length q" "i + 21 \<le> length out" "12 \<le> i"
    using assms(1) walk_bound [of q 12] by (auto simp: dns_accepts_def split: if_splits option.splits)
  have "q \<noteq> []" using g(1) by auto
  with g have "build_dns_reply q (filled out []) =
    Some (Some (filled out (dns_reply_bytes q (i + 5) answer), i + 5 + (if answer then 16 else 0)))"
    unfolding build_dns_reply_def
    by (simp add: length_filled put_filled Let_def answer_def dns_reply_bytes_def numeral_nat)
  then show ?thesis by (simp flip: filled_start)
qed

lemma dns_refused: "dns_accepts q (length out) = None \<Longrightarrow> build_dns_reply q out = Some None"
  using walk_bound [of q 12]
  by (cases "q = []") (auto simp: build_dns_reply_def dns_accepts_def Let_def split: if_splits)

lemma nostd_answers:
  assumes "list_all label_ok labels" "length (qname labels) + 32 \<le> length out"
  shows "dns_serve out (a_query id1 id2 labels) =
    Some (filled out (a_answer id1 id2 labels AP_IP), Some (a_answer id1 id2 labels AP_IP))"
proof -
  let ?q = "a_query id1 id2 labels"
  let ?n = "length (qname labels)"
  have at: "?q ! 0 = id1" "?q ! 1 = id2" "?q ! 2 = 1" "?q ! 4 = 0" "?q ! 5 = 1"
    "?q ! (12 + ?n) = 0" "?q ! (13 + ?n) = 1"
    by (simp_all add: a_query_def nth_append nth_Cons')
  have "dns_accepts ?q (length out) = Some (11 + ?n)"
    using assms a_query_parts(1) [of id1 id2 labels] at by (simp add: dns_accepts_def a_query_walks)
  moreover have "dns_reply_bytes ?q (16 + ?n) True = a_answer id1 id2 labels AP_IP"
    using at by (simp add: dns_reply_bytes_def a_answer_def be_60) (simp add: a_query_def)
  moreover have "length (a_answer id1 id2 labels AP_IP) = ?n + 32"
    by (simp add: a_answer_def)
  ultimately show ?thesis
    using assms(2) at dns_written [of ?q out "11 + ?n"]
    by (simp add: dns_serve_def sub_filled numeral_nat)
qed

text \<open>Every well-formed address query is answered, and the two firmwares give the same answer:
  for any name (labels of 1 to 63 bytes) that fits the reply buffer, both responders return the
  query's id and question with one address record that points at the configured address.\<close>

theorem captive_dns_answers:
  assumes "list_all label_ok labels" "length (qname labels) + 32 \<le> 512" "length out = 512"
  shows "captive_serve (Some AP_IP) (a_query id1 id2 labels) =
      Some (Some (a_answer id1 id2 labels AP_IP)) \<and>
    map_option snd (dns_serve out (a_query id1 id2 labels)) =
      captive_serve (Some AP_IP) (a_query id1 id2 labels)"
  using assms by (simp add: captive_serve_def esp_answers nostd_answers)

lemma captive_dns_answers_witness:
  "map_option snd (dns_serve (replicate 512 0) (a_query 18 52 [[99, 97], [116]])) =
     captive_serve (Some AP_IP) (a_query 18 52 [[99, 97], [116]])"
  by (rule captive_dns_answers [THEN conjunct2]) (simp_all add: label_ok_def qname_def)

lemma strict_walk_bound: "\<exists>r. label_walk_strict req i = Some r \<and> (\<forall>j. r = Some j \<longrightarrow> i \<le> j)"
proof (induction req i rule: label_walk_strict.induct)
  case (1 req i)
  let ?l = "unat (req ! i)"
  show ?case
  proof (cases "i < length req \<and> ?l \<noteq> 0 \<and> and ?l 192 = 0 \<and> i + (?l + 1) < length req")
    case True
    then obtain r where "label_walk_strict req (i + (?l + 1)) = Some r" "\<forall>j. r = Some j \<longrightarrow> i + (?l + 1) \<le> j"
      using "1.IH" [of "req ! i" ?l] by auto
    with True show ?thesis by (subst label_walk_strict.simps) (auto simp: Let_def)
  qed (subst label_walk_strict.simps, auto simp: Let_def)
qed

lemma build_a_response_total: "build_a_response req ip \<noteq> None"
proof (cases "length req < 12")
  case False
  obtain r where "label_walk_strict req 12 = Some r" "\<forall>j. r = Some j \<longrightarrow> 12 \<le> j"
    using strict_walk_bound by blast
  with False show ?thesis
    by (cases r) (simp_all add: build_a_response_def)
qed (simp add: build_a_response_def)

lemma dns_cases:
  obtains "build_dns_reply q out = Some None" "dns_serve out q = Some (out, None)"
    "dns_accepts q (length out) = None"
  | i answer where "dns_accepts q (length out) = Some i"
    "dns_serve out q = Some (filled out (dns_reply_bytes q (i + 5) answer), Some (dns_reply_bytes q (i + 5) answer))"
    "answer = (be16 (q ! (i + 1)) (q ! (i + 2)) = 1)"
    "length (filled out (dns_reply_bytes q (i + 5) answer)) = length out"
proof (cases "dns_accepts q (length out)")
  case None
  then show ?thesis
    using that(1) dns_refused [of q out] by (simp add: dns_serve_def)
next
  case (Some i)
  let ?a = "be16 (q ! (i + 1)) (q ! (i + 2)) = 1"
  have g: "12 \<le> i + 5" "i + 5 \<le> length q" "i + 21 \<le> length out"
    using Some walk_bound [of q 12] by (auto simp: dns_accepts_def split: if_splits option.splits)
  then have l: "length (dns_reply_bytes q (i + 5) ?a) = i + 5 + (if ?a then 16 else 0)"
    by (intro length_dns_reply)
  show ?thesis
    by (rule that(2) [OF Some _ refl])
      (use dns_written [OF Some] g l sub_filled [OF l, of out] in
        \<open>auto simp: dns_serve_def length_filled split: if_splits\<close>)
qed

section \<open>The DHCP reply\<close>

text \<open>A write that is in range, as a total function: it keeps the length and everything outside the
  written slice. The reply is then a term of nested writes that the simplifier reads.\<close>

definition written :: "bytes \<Rightarrow> nat \<Rightarrow> bytes \<Rightarrow> bytes" where
  "written out i d = map (\<lambda>k. if i \<le> k \<and> k < i + length d then d ! (k - i) else out ! k) [0..<length out]"

lemma length_written: "length (written out i d) = length out"
  by (simp add: written_def)

lemma put_bytes_written: "i + length d \<le> length out \<Longrightarrow> put_bytes out i d = Some (written out i d)"
  by (auto simp: put_bytes_def written_def nth_append intro!: nth_equalityI)

lemma nth_written_other:
  "k < length out \<Longrightarrow> k < i \<or> i + length d \<le> k \<Longrightarrow> written out i d ! k = out ! k"
  by (auto simp: written_def)

lemma nth_written_same:
  "k < length out \<Longrightarrow> i \<le> k \<Longrightarrow> k < i + length d \<Longrightarrow> written out i d ! k = d ! (k - i)"
  by (auto simp: written_def)

lemma slice_written_other:
  "j + n \<le> i \<or> i + length d \<le> j \<Longrightarrow> take n (drop j (written out i d)) = take n (drop j out)"
  by (auto simp: written_def intro!: nth_equalityI)

lemma slice_written_same:
  "i + length d \<le> length out \<Longrightarrow> length d = n \<Longrightarrow> take n (drop i (written out i d)) = d"
  by (auto simp: written_def intro!: nth_equalityI)

lemmas written_simps =
  put_bytes_written length_written nth_written_other nth_written_same slice_written_other slice_written_same

lemma put_opt_written:
  "i + 2 + length d \<le> length out \<Longrightarrow>
     put_opt out i c d =
       Some (written (written (written out i [c]) (i + 1) [of_nat (length d)]) (i + 2) d, i + 2 + length d)"
  by (simp add: put_opt_def written_simps)

lemma build_dhcp_reply_ok:
  assumes "240 \<le> length req"
  obtains out where "build_dhcp_reply req t = Some (out, 274)" "length out = 300"
    "take 4 (drop 4 out) = take 4 (drop 4 req)" "take 16 (drop 28 out) = take 16 (drop 28 req)"
    "take 4 (drop 16 out) = CLIENT_IP" "take 4 (drop 236 out) = DHCP_MAGIC"
    "out ! 0 = 2" "out ! 240 = 53" "out ! 241 = 1" "out ! 242 = t"
proof -
  let ?r = "build_dhcp_reply req t"
  have "?r \<noteq> None \<and> snd (the ?r) = 274 \<and> length (fst (the ?r)) = 300"
    using assms by (simp add: build_dhcp_reply_def put_opt_written written_simps Let_def)
  show ?thesis
    by (rule that [of "fst (the ?r)"])
      (use assms in \<open>simp_all add: build_dhcp_reply_def put_opt_written written_simps Let_def\<close>)
qed

lemma dhcp_scan_total: "dhcp_scan req i \<noteq> None"
proof (induction req i rule: dhcp_scan.induct)
  case (1 req i)
  then show ?case
    by (subst dhcp_scan.simps) (auto simp: Let_def)
qed

lemma dhcp_msg_type_total: "dhcp_msg_type req \<noteq> None"
  using dhcp_scan_total [of req 240] by (simp add: dhcp_msg_type_def)

lemma dhcp_msg_type_reply:
  assumes "length out = 300" "take 4 (drop 236 out) = DHCP_MAGIC"
    "out ! 240 = 53" "out ! 241 = 1" "out ! 242 = t"
  shows "dhcp_msg_type (take 274 out) = Some (Some t)"
proof -
  have "dhcp_scan (take 274 out) 240 = Some (Some t)"
    using assms by (subst dhcp_scan.simps) (simp add: Let_def)
  moreover have "take 4 (drop 236 (take 274 out)) = DHCP_MAGIC"
    using assms(2) by (simp add: drop_take)
  ultimately show ?thesis using assms(1) by (simp add: dhcp_msg_type_def)
qed

definition dhcp_reply_to :: "bytes \<Rightarrow> u8 \<Rightarrow> bytes \<Rightarrow> bool" where
  "dhcp_reply_to req t r \<longleftrightarrow> length r = 274 \<and> r ! 0 = 2 \<and> dhcp_msg_type r = Some (Some t) \<and>
     take 4 (drop 4 r) = take 4 (drop 4 req) \<and> take 16 (drop 28 r) = take 16 (drop 28 req) \<and>
     take 4 (drop 16 r) = CLIENT_IP"

lemma dhcp_reply_ok:
  assumes "240 \<le> length req"
  shows "\<exists>out. build_dhcp_reply req t = Some (out, 274) \<and> length out = 300 \<and> dhcp_reply_to req t (take 274 out)"
proof -
  obtain out where o: "build_dhcp_reply req t = Some (out, 274)" "length out = 300"
    "take 4 (drop 4 out) = take 4 (drop 4 req)" "take 16 (drop 28 out) = take 16 (drop 28 req)"
    "take 4 (drop 16 out) = CLIENT_IP" "take 4 (drop 236 out) = DHCP_MAGIC"
    "out ! 0 = 2" "out ! 240 = 53" "out ! 241 = 1" "out ! 242 = t"
    by (rule build_dhcp_reply_ok [OF assms])
  have "dhcp_reply_to req t (take 274 out)"
    using o dhcp_msg_type_reply [OF o(2,6,8,9,10)] by (simp add: dhcp_reply_to_def drop_take)
  with o(1,2) show ?thesis by blast
qed

lemma dhcp_serve_spec:
  "if 240 \<le> length req \<and> req ! 0 = 1 \<and> dhcp_msg_type req \<in> {Some (Some 1), Some (Some 3)}
   then \<exists>r. dhcp_serve req = Some (Some r) \<and>
     dhcp_reply_to req (if dhcp_msg_type req = Some (Some 1) then 2 else 5) r
   else dhcp_serve req = Some None"
proof (cases "240 \<le> length req \<and> req ! 0 = 1 \<and> dhcp_msg_type req \<in> {Some (Some 1), Some (Some 3)}")
  case True
  then obtain t :: u8 where t: "dhcp_msg_type req = Some (Some t)" "t = 1 \<or> t = 3" by auto
  have ne: "req \<noteq> []" using True by auto
  let ?t = "if dhcp_msg_type req = Some (Some 1) then 2 else 5 :: u8"
  obtain out where o: "build_dhcp_reply req ?t = Some (out, 274)" "length out = 300"
    "dhcp_reply_to req ?t (take 274 out)"
    using dhcp_reply_ok True by blast
  have "dhcp_serve req = Some (Some (take 274 out))"
    using True t o ne by (auto simp: dhcp_serve_def)
  with o(3) True show ?thesis by auto
next
  case False
  obtain m where "dhcp_msg_type req = Some m" using dhcp_msg_type_total by blast
  with False have "dhcp_serve req = Some None"
    by (cases "req = []") (auto simp: dhcp_serve_def split: option.split)
  with False show ?thesis by (simp only: if_False simp_thms)
qed

lemma serve_loop_total:
  assumes "\<And>st x. I st \<Longrightarrow> \<exists>st'. serve st x = Some (st', reply x) \<and> I st'" "I st"
  shows "serve_loop serve st inputs = Some (List.map_filter (\<lambda>i. Option.bind i reply) inputs)"
  using assms(2)
proof (induction inputs arbitrary: st)
  case (Cons i inputs)
  show ?case
  proof (cases i)
    case None
    with Cons show ?thesis by (simp add: map_filter_simps)
  next
    case (Some x)
    obtain st' where "serve st x = Some (st', reply x)" "I st'" using assms(1) Cons.prems by blast
    with Cons.IH Some show ?thesis by (auto simp: map_filter_simps split: option.split)
  qed
qed (simp add: map_filter_simps)

lemma handlers_total: "dhcp_serve req \<noteq> None" "dns_serve out req \<noteq> None" "captive_serve redirect req \<noteq> None"
proof -
  show "dns_serve out req \<noteq> None" by (rule dns_cases [of req out]) simp_all
qed (use dhcp_serve_spec [of req] build_a_response_total in \<open>auto simp: captive_serve_def split: if_splits option.split\<close>)

text \<open>C26. No datagram crashes the setup network: on every byte string, and with a reply buffer of any
  length and content, both DNS responders and the DHCP server return, with every indexed read, write
  and slice in range. The DHCP server answers exactly the boot requests that carry a discover or a
  request, and the answer (274 bytes of the 300 byte buffer) is an offer or an acknowledgement with
  the client's transaction id and hardware address.\<close>

theorem captive_net_total:
  "captive_serve redirect req \<noteq> None \<and> dns_serve out req \<noteq> None \<and>
   (if 240 \<le> length req \<and> req ! 0 = 1 \<and> dhcp_msg_type req \<in> {Some (Some 1), Some (Some 3)}
    then \<exists>r. dhcp_serve req = Some (Some r) \<and>
      dhcp_reply_to req (if dhcp_msg_type req = Some (Some 1) then 2 else 5) r
    else dhcp_serve req = Some None)"
  using handlers_total dhcp_serve_spec by blast

text \<open>So the tasks survive every sequence of datagrams and receive errors, and what they send for one
  datagram does not depend on the others, the shared reply buffer included; the responder of the
  ESP-IDF firmware sends nothing while no redirect is set.\<close>

lemma dns_serve_any_buffer:
  assumes "length out = length out'"
  shows "\<exists>b. dns_serve out q = Some (b, snd (the (dns_serve out' q))) \<and> length b = length out'"
  using assms by (rule_tac dns_cases [of q out]; rule_tac dns_cases [of q out']) auto

theorem captive_tasks_total:
  "dhcp_server_task True inputs = Some (List.map_filter (\<lambda>i. Option.bind i (\<lambda>q. the (dhcp_serve q))) inputs)"
  "dns_server_task True inputs =
     Some (List.map_filter (\<lambda>i. Option.bind i (\<lambda>q. snd (the (dns_serve (replicate 512 0) q)))) inputs)"
  "captive_dns_task bound asked \<noteq> None"
  "captive_dns_task bound (map (map_option (Pair None)) inputs) = Some []"
proof -
  show "dhcp_server_task True inputs = Some (List.map_filter (\<lambda>i. Option.bind i (\<lambda>q. the (dhcp_serve q))) inputs)"
    using handlers_total(1) by (auto simp: dhcp_server_task_def stateless_def intro!: serve_loop_total [where I = "\<lambda>_. True"])
  show "dns_server_task True inputs =
      Some (List.map_filter (\<lambda>i. Option.bind i (\<lambda>q. snd (the (dns_serve (replicate 512 0) q)))) inputs)"
    using dns_serve_any_buffer [of _ "replicate 512 0"]
    by (simp add: dns_server_task_def serve_loop_total [where I = "\<lambda>b. length b = 512"])
  let ?serve = "\<lambda>(redirect, req). captive_serve redirect req"
  have "\<exists>st'. stateless ?serve st x = Some (st', the (?serve x)) \<and> True" for st x
    using handlers_total(3) by (cases x) (auto simp: stateless_def)
  then have t: "captive_dns_task True xs = Some (List.map_filter (\<lambda>i. Option.bind i (\<lambda>x. the (?serve x))) xs)" for xs
    unfolding captive_dns_task_def by (simp add: serve_loop_total [where I = "\<lambda>_. True"])
  show "captive_dns_task bound asked \<noteq> None"
    using t by (cases bound) (simp_all add: captive_dns_task_def)
  have "List.map_filter (\<lambda>i. Option.bind i (\<lambda>x. the (?serve x))) (map (map_option (Pair None)) inputs) = []"
  proof (induction inputs)
    case (Cons i inputs)
    then show ?case by (cases i) (simp_all add: map_filter_simps captive_serve_def)
  qed (simp add: map_filter_simps)
  with t show "captive_dns_task bound (map (map_option (Pair None)) inputs) = Some []"
    by (cases bound) (simp_all add: captive_dns_task_def)
qed

end
