(* ===== verification/Http_Server.thy ===== *)
theory Http_Server
  imports App
begin

text \<open>
  The HTTP API of the ESP-IDF firmware, \<open>crates/firmware/src/http_server.rs\<close>: one definition per
  registered handler and the table that connects routes and handlers. The senders of the log
  WebSocket are in theory \<open>Log_Streams\<close>.

  \<^item> A request is what the handlers read of it: the path the server matched, the raw URI, the
    \<open>Authorization\<close> header, the successive results of \<open>read\<close> (an empty read or the end of the list is
    the end of the body), and whether the response can be written.
  \<^item> A body is the value handed to \<open>serde_json::to_vec\<close>; \<open>Dropped\<close> is a handler that ends with an
    I/O error, where the client sees a closed connection, \<open>NoHandler\<close> a request that no handler is
    registered for: ESP-IDF's server answers it by itself (404, or 405 on a path it knows).
  \<^item> \<open>http_env\<close> holds what is not part of the repository: the JSON decoders, the WiFi object, and the
    OTA partition of ESP-IDF.
  \<^item> The store of the handlers is the one the application was built over (\<open>main\<close> passes the same
    object to both), so it is the field \<open>ap_nvs\<close>.
\<close>

section \<open>Requests, replies, state\<close>

record time_section =
  ti_timezone :: string
  ti_sntp_servers :: "string list"

record auth_section =
  au_admin_token :: string

datatype read_result = Rd bytes | RdErr string

datatype http_method = GET | PUT | POST

record http_request =
  rq_path :: string
  rq_uri :: string
  rq_authorization :: "string option"
  rq_reads :: "read_result list"
  rq_writable :: bool

datatype section_view =
    WifiSec wifi_config
  | MqttSec mqtt_config
  | SwitchesSec switches_config
  | SensorsSec sensors_config
  | ScheduleSec schedule
  | HttpsSec https_config
  | WireguardSec wireguard_config
  | TimeSec time_section
  | AuthSec auth_section
  | FlowAlarmSec flow_alarm_config
  | WebhooksSec "webhook_config list"

datatype body =
    NoBody
  | IndexHtml
  | StatusBody device_snapshot
  | ConfigBody config
  | DiagBody
  | ErrorBody api_error
  | OutcomeBody command_outcome
  | ScanBody wifi_scan_response
  | HistoryBody "alarm_event list"
  | SectionBody section_view
  | OtaBody nat

type_synonym headers = "(string \<times> string) list"

datatype reply = Reply nat headers body | Dropped | NoHandler

record 'w wifi_ops =
  wi_connect :: "'w \<Rightarrow> wifi_creds list \<Rightarrow> 'w"
  wi_reconnect :: "'w \<Rightarrow> 'w"
  wi_scan :: "'w \<Rightarrow> 'w \<times> (string + wifi_scan_result list)"

record 'o ota_ops =
  ot_new :: "'o \<Rightarrow> 'o \<times> (string + unit)"
  ot_initiate :: "'o \<Rightarrow> 'o \<times> (string + unit)"
  ot_write :: "'o \<Rightarrow> bytes \<Rightarrow> 'o \<times> (string + unit)"
  ot_abort :: "'o \<Rightarrow> 'o"
  ot_complete :: "'o \<Rightarrow> 'o \<times> (string + unit)"

record ('s, 't, 'd, 'w, 'o, 'j) http_env =
  he_env :: "('s, 't, 'd) env"
  he_codec :: "'j config_codec"
  he_show :: "'j \<Rightarrow> string"
  he_wifi :: "'w wifi_ops"
  he_ota :: "'o ota_ops"
  he_switch :: "bytes \<Rightarrow> 'j + switch_command"
  he_test :: "bytes \<Rightarrow> 'j + (event_kind \<times> vars)"
  he_dec_wifi :: "bytes \<Rightarrow> 'j + wifi_config"
  he_dec_mqtt :: "bytes \<Rightarrow> 'j + mqtt_config"
  he_dec_switches :: "bytes \<Rightarrow> 'j + switches_config"
  he_dec_sensors :: "bytes \<Rightarrow> 'j + sensors_config"
  he_dec_schedule :: "bytes \<Rightarrow> 'j + schedule"
  he_dec_https :: "bytes \<Rightarrow> 'j + https_config"
  he_dec_wireguard :: "bytes \<Rightarrow> 'j + wireguard_config"
  he_dec_time :: "bytes \<Rightarrow> 'j + time_section"
  he_dec_auth :: "bytes \<Rightarrow> 'j + auth_section"
  he_dec_flow_alarm :: "bytes \<Rightarrow> 'j + flow_alarm_config"
  he_dec_webhooks :: "bytes \<Rightarrow> 'j + webhook_config list"

record ('s, 'd, 'w, 'o) server =
  sv_app :: "('s, 'd) app"
  sv_wifi :: 'w
  sv_ota :: 'o
  sv_reboot :: bool

section \<open>Helpers of the handlers\<close>

definition MAX_BODY :: nat where "MAX_BODY = 32 * 1024"

definition JSON_CT :: headers where "JSON_CT = [(''Content-Type'', ''application/json'')]"
definition HTML_CT :: headers where "HTML_CT = [(''Content-Type'', ''text/html; charset=utf-8'')]"

definition CAPTIVE_PROBE_PATHS :: "string list" where
  "CAPTIVE_PROBE_PATHS = [''/generate_204'', ''/gen_204'', ''/hotspot-detect.html'',
     ''/library/test/success.html'', ''/connecttest.txt'', ''/ncsi.txt'', ''/redirect'', ''/success.txt'']"

definition require_auth :: "http_request \<Rightarrow> ('s, 'd) app \<Rightarrow> bool" where
  "require_auth req a =
    (let cfg = ap_config a in
     if cf_admin_token cfg = [] then True
     else let header = (case rq_authorization req of Some h \<Rightarrow> h | None \<Rightarrow> [])
       in strip_pre ''Bearer '' header = Some (cf_admin_token cfg))"

definition send :: "http_request \<Rightarrow> nat \<Rightarrow> headers \<Rightarrow> body \<Rightarrow> reply" where
  "send req status h b = (if rq_writable req then Reply status h b else Dropped)"

definition send_error :: "http_request \<Rightarrow> nat \<Rightarrow> string \<Rightarrow> reply" where
  "send_error req status msg = send req status JSON_CT (ErrorBody (api_error_new msg))"

definition write_unauthorized :: "http_request \<Rightarrow> reply" where
  "write_unauthorized req =
     send_error req 401 ''missing or invalid Authorization: Bearer <admin_token>''"

text \<open>The read loop: \<open>ReadFailed\<close> is the error of the connection, \<open>Overflow\<close> carries what had been
  read when the limit was passed.\<close>

datatype read_outcome = ReadFailed | Overflow bytes | Complete bytes

fun read_body :: "read_result list \<Rightarrow> bytes \<Rightarrow> read_outcome" where
  "read_body [] buf = Complete buf"
| "read_body (RdErr e # rest) buf = ReadFailed"
| "read_body (Rd chunk # rest) buf =
    (if chunk = [] then Complete buf
     else if MAX_BODY < length (buf @ chunk) then Overflow (buf @ chunk)
     else read_body rest (buf @ chunk))"

definition server_save ::
    "('s, 't, 'd, 'w, 'o, 'j) http_env \<Rightarrow> config \<Rightarrow> ('s, 'd, 'w, 'o) server \<Rightarrow>
     ('s, 'd, 'w, 'o) server \<times> ('j config_error + unit)" where
  "server_save he cfg sv = (case ap_nvs (sv_app sv) of
      None \<Rightarrow> (sv, Inl (ENvs NotFound))
    | Some s \<Rightarrow> (let (s', r) = config_save (env_nvs (he_env he)) (he_codec he) cfg s
        in (sv\<lparr>sv_app := (sv_app sv)\<lparr>ap_nvs := Some s'\<rparr>\<rparr>, r)))"

text \<open>The common end of the writing handlers: save, then swap the configuration in.\<close>

definition save_and_replace ::
    "('s, 't, 'd, 'w, 'o, 'j) http_env \<Rightarrow> http_request \<Rightarrow> config \<Rightarrow> ('s, 'd, 'w, 'o) server \<Rightarrow>
     ('s, 'd, 'w, 'o) server \<times> reply" where
  "save_and_replace he req cfg sv = (case server_save he cfg sv of
      (sv, Inl e) \<Rightarrow> (sv, send_error req 500 (''nvs save: '' @ config_error_display (he_show he) e))
    | (sv, Inr u) \<Rightarrow>
        (sv\<lparr>sv_app := replace_config (he_env he) (sv_app sv) cfg\<rparr>, send req 204 [] NoBody))"

section \<open>The whole configuration\<close>

definition get_config :: "http_request \<Rightarrow> ('s, 'd, 'w, 'o) server \<Rightarrow> reply" where
  "get_config req sv =
    (let want_all = contains_str ''all'' (rq_uri req) in
     if want_all then
       (if \<not> require_auth req (sv_app sv) then write_unauthorized req
        else send req 200 JSON_CT (ConfigBody (ap_config (sv_app sv))))
     else send req 200 JSON_CT (ConfigBody (redact_secrets_for_api (ap_config (sv_app sv)))))"

definition put_config ::
    "('s, 't, 'd, 'w, 'o, 'j) http_env \<Rightarrow> http_request \<Rightarrow> ('s, 'd, 'w, 'o) server \<Rightarrow>
     ('s, 'd, 'w, 'o) server \<times> reply" where
  "put_config he req sv =
    (if \<not> require_auth req (sv_app sv) then (sv, write_unauthorized req)
     else case read_body (rq_reads req) [] of
       ReadFailed \<Rightarrow> (sv, Dropped)
     | Overflow buf \<Rightarrow> (sv, send_error req 413 ''body too large'')
     | Complete buf \<Rightarrow>
        (case cc_dec (he_codec he) buf of
           Inr u \<Rightarrow> save_and_replace he req (merge_preserving_secrets (ap_config (sv_app sv)) u) sv
         | Inl e \<Rightarrow> (sv, send_error req 400 (''invalid json: '' @ he_show he e))))"

section \<open>Sections\<close>

text \<open>\<open>register_section\<close>: \<open>getter\<close> picks the section of the redacted configuration, \<open>apply_section\<close>
  merges an incoming one. It runs before the save, so the effect on the WiFi object, which only the
  \<open>wifi\<close> section has, is part of it.\<close>

definition section_get :: "(config \<Rightarrow> section_view) \<Rightarrow> http_request \<Rightarrow> ('s, 'd, 'w, 'o) server \<Rightarrow> reply" where
  "section_get getter req sv =
     send req 200 JSON_CT (SectionBody (getter (redact_secrets_for_api (ap_config (sv_app sv)))))"

definition section_put ::
    "('s, 't, 'd, 'w, 'o, 'j) http_env \<Rightarrow> (bytes \<Rightarrow> 'j + 'x) \<Rightarrow> (config \<Rightarrow> 'x \<Rightarrow> 'w \<Rightarrow> config \<times> 'w) \<Rightarrow>
     http_request \<Rightarrow> ('s, 'd, 'w, 'o) server \<Rightarrow> ('s, 'd, 'w, 'o) server \<times> reply" where
  "section_put he dec apply_section req sv =
    (if \<not> require_auth req (sv_app sv) then (sv, write_unauthorized req)
     else case read_body (rq_reads req) [] of
       ReadFailed \<Rightarrow> (sv, Dropped)
     | Overflow buf \<Rightarrow> (sv, send_error req 413 ''body too large'')
     | Complete buf \<Rightarrow>
        (case dec buf of
           Inl e \<Rightarrow> (sv, send_error req 400 (''invalid json: '' @ he_show he e))
         | Inr section_value \<Rightarrow>
             (let (cfg, w) = apply_section (ap_config (sv_app sv)) section_value (sv_wifi sv)
              in save_and_replace he req cfg (sv\<lparr>sv_wifi := w\<rparr>))))"

definition plain_section :: "(config \<Rightarrow> 'x \<Rightarrow> config) \<Rightarrow> config \<Rightarrow> 'x \<Rightarrow> 'w \<Rightarrow> config \<times> 'w" where
  "plain_section f cfg new w = (f cfg new, w)"

definition apply_wifi :: "'w wifi_ops \<Rightarrow> config \<Rightarrow> wifi_config \<Rightarrow> 'w \<Rightarrow> config \<times> 'w" where
  "apply_wifi ops cfg new w =
    (let new = new\<lparr>wf_networks := map (restore_network (wf_networks (cf_wifi cfg))) (wf_networks new)\<rparr>;
         cfg = cfg\<lparr>cf_wifi := new\<rparr>
     in (cfg, wi_connect ops w (wf_networks (cf_wifi cfg))))"

definition apply_mqtt :: "config \<Rightarrow> mqtt_config \<Rightarrow> config" where
  "apply_mqtt cfg new = cfg\<lparr>cf_mqtt := new\<lparr>
     mq_password := keep_if_empty (mq_password new) (mq_password (cf_mqtt cfg)),
     mq_client_key_pem := keep_if_empty (mq_client_key_pem new) (mq_client_key_pem (cf_mqtt cfg))\<rparr>\<rparr>"

definition apply_switches :: "config \<Rightarrow> switches_config \<Rightarrow> config" where
  "apply_switches cfg new = cfg\<lparr>cf_switches := new\<rparr>"

definition apply_sensors :: "config \<Rightarrow> sensors_config \<Rightarrow> config" where
  "apply_sensors cfg new = cfg\<lparr>cf_sensors := new\<rparr>"

definition apply_schedule :: "config \<Rightarrow> schedule \<Rightarrow> config" where
  "apply_schedule cfg new = cfg\<lparr>cf_schedule := new\<rparr>"

definition apply_https :: "config \<Rightarrow> https_config \<Rightarrow> config" where
  "apply_https cfg new =
     cfg\<lparr>cf_https := new\<lparr>hs_key_pem := keep_if_empty (hs_key_pem new) (hs_key_pem (cf_https cfg))\<rparr>\<rparr>"

definition apply_wireguard :: "config \<Rightarrow> wireguard_config \<Rightarrow> config" where
  "apply_wireguard cfg new = cfg\<lparr>cf_wireguard := new\<lparr>
     wg_private_key := keep_if_empty (wg_private_key new) (wg_private_key (cf_wireguard cfg)),
     wg_peer_preshared_key :=
       keep_if_empty (wg_peer_preshared_key new) (wg_peer_preshared_key (cf_wireguard cfg))\<rparr>\<rparr>"

definition apply_time :: "config \<Rightarrow> time_section \<Rightarrow> config" where
  "apply_time cfg new = cfg\<lparr>cf_timezone := ti_timezone new, cf_sntp_servers := ti_sntp_servers new\<rparr>"

definition apply_auth :: "config \<Rightarrow> auth_section \<Rightarrow> config" where
  "apply_auth cfg new =
     (if au_admin_token new \<noteq> [] then cfg\<lparr>cf_admin_token := au_admin_token new\<rparr> else cfg)"

definition apply_flow_alarm :: "config \<Rightarrow> flow_alarm_config \<Rightarrow> config" where
  "apply_flow_alarm cfg new = cfg\<lparr>cf_flow_alarm := new\<rparr>"

definition apply_webhooks :: "config \<Rightarrow> webhook_config list \<Rightarrow> config" where
  "apply_webhooks cfg new = cfg\<lparr>cf_webhooks := take WEBHOOKS_MAX new\<rparr>"

section \<open>Commands\<close>

text \<open>The command handlers break out of the read loop at the limit and decode what they have.\<close>

definition body_so_far :: "read_outcome \<Rightarrow> bytes option" where
  "body_so_far r = (case r of ReadFailed \<Rightarrow> None | Overflow buf \<Rightarrow> Some buf | Complete buf \<Rightarrow> Some buf)"

definition post_switch ::
    "('s, 't, 'd, 'w, 'o, 'j) http_env \<Rightarrow> http_request \<Rightarrow> ('s, 'd, 'w, 'o) server \<Rightarrow>
     ('s, 'd, 'w, 'o) server \<times> reply" where
  "post_switch he req sv =
    (if \<not> require_auth req (sv_app sv) then (sv, write_unauthorized req)
     else case body_so_far (read_body (rq_reads req) []) of
       None \<Rightarrow> (sv, Dropped)
     | Some buf \<Rightarrow>
        (case he_switch he buf of
           Inr cmd \<Rightarrow>
             (let (a, outcome) = switch_command (he_env he) (sv_app sv) cmd;
                  status = (case outcome of CmdOk \<Rightarrow> 200 | CmdBusy _ \<Rightarrow> 409)
              in (sv\<lparr>sv_app := a\<rparr>, send req status JSON_CT (OutcomeBody outcome)))
         | Inl e \<Rightarrow> (sv, send_error req 400 (''invalid json: '' @ he_show he e))))"

fun ota_loop ::
    "'o ota_ops \<Rightarrow> read_result list \<Rightarrow> 'o \<Rightarrow> nat \<Rightarrow> 'o \<times> (string + nat)" where
  "ota_loop ops [] ota n = (ota, Inr n)"
| "ota_loop ops (RdErr e # rest) ota n =
     (ot_abort ops ota, Inl (''ota recv @ '' @ show_nat n @ '': '' @ e))"
| "ota_loop ops (Rd chunk # rest) ota n =
    (if chunk = [] then (ota, Inr n)
     else case ot_write ops ota chunk of
       (ota, Inl e) \<Rightarrow> (ot_abort ops ota, Inl (''ota write @ '' @ show_nat n @ '': '' @ e))
     | (ota, Inr u) \<Rightarrow> ota_loop ops rest ota (n + length chunk))"

definition post_ota ::
    "('s, 't, 'd, 'w, 'o, 'j) http_env \<Rightarrow> http_request \<Rightarrow> ('s, 'd, 'w, 'o) server \<Rightarrow>
     ('s, 'd, 'w, 'o) server \<times> reply" where
  "post_ota he req sv =
    (if \<not> require_auth req (sv_app sv) then (sv, write_unauthorized req)
     else let ops = he_ota he in
       case ot_new ops (sv_ota sv) of
         (ota, Inl e) \<Rightarrow> (sv\<lparr>sv_ota := ota\<rparr>, send_error req 500 (''ota init: '' @ e))
       | (ota, Inr u) \<Rightarrow>
       (case ot_initiate ops ota of
         (ota, Inl e) \<Rightarrow> (sv\<lparr>sv_ota := ota\<rparr>, send_error req 500 (''ota initiate: '' @ e))
       | (ota, Inr u) \<Rightarrow>
       (case ota_loop ops (rq_reads req) ota 0 of
         (ota, Inl msg) \<Rightarrow> (sv\<lparr>sv_ota := ota\<rparr>, send_error req 500 msg)
       | (ota, Inr n) \<Rightarrow>
         if n = 0 then (sv\<lparr>sv_ota := ot_abort ops ota\<rparr>, send_error req 400 ''empty image'')
         else (case ot_complete ops ota of
           (ota, Inl e) \<Rightarrow> (sv\<lparr>sv_ota := ota\<rparr>, send_error req 500 (''ota complete: '' @ e))
         | (ota, Inr u) \<Rightarrow>
           (let r = send req 202 JSON_CT (OtaBody n)
            in (sv\<lparr>sv_ota := ota, sv_reboot := sv_reboot sv \<or> r \<noteq> Dropped\<rparr>, r))))))"

definition get_wifi_scan ::
    "('s, 't, 'd, 'w, 'o, 'j) http_env \<Rightarrow> http_request \<Rightarrow> ('s, 'd, 'w, 'o) server \<Rightarrow>
     ('s, 'd, 'w, 'o) server \<times> reply" where
  "get_wifi_scan he req sv = (case wi_scan (he_wifi he) (sv_wifi sv) of
      (w, Inr l) \<Rightarrow> (sv\<lparr>sv_wifi := w\<rparr>, send req 200 JSON_CT (ScanBody \<lparr>ws_networks = l\<rparr>))
    | (w, Inl msg) \<Rightarrow> (sv\<lparr>sv_wifi := w\<rparr>, send_error req 503 msg))"

definition post_wifi_reconnect ::
    "('s, 't, 'd, 'w, 'o, 'j) http_env \<Rightarrow> http_request \<Rightarrow> ('s, 'd, 'w, 'o) server \<Rightarrow>
     ('s, 'd, 'w, 'o) server \<times> reply" where
  "post_wifi_reconnect he req sv =
    (if \<not> require_auth req (sv_app sv) then (sv, write_unauthorized req)
     else (sv\<lparr>sv_wifi := wi_reconnect (he_wifi he) (sv_wifi sv)\<rparr>, send req 204 [] NoBody))"

definition post_alarm_clear ::
    "('s, 't, 'd, 'w, 'o, 'j) http_env \<Rightarrow> http_request \<Rightarrow> ('s, 'd, 'w, 'o) server \<Rightarrow>
     ('s, 'd, 'w, 'o) server \<times> reply" where
  "post_alarm_clear he req sv =
    (if \<not> require_auth req (sv_app sv) then (sv, write_unauthorized req)
     else (sv\<lparr>sv_app := clear_flow_alarm (he_env he) (sv_app sv)\<rparr>, send req 204 [] NoBody))"

definition post_webhooks_test ::
    "('s, 't, 'd, 'w, 'o, 'j) http_env \<Rightarrow> http_request \<Rightarrow> ('s, 'd, 'w, 'o) server \<Rightarrow>
     ('s, 'd, 'w, 'o) server \<times> reply" where
  "post_webhooks_test he req sv =
    (if \<not> require_auth req (sv_app sv) then (sv, write_unauthorized req)
     else case body_so_far (read_body (rq_reads req) []) of
       None \<Rightarrow> (sv, Dropped)
     | Some buf \<Rightarrow>
        (case he_test he buf of
           Inr (kind, vs) \<Rightarrow>
             (sv\<lparr>sv_app := emit_event (he_env he) (sv_app sv) ((event_new kind)\<lparr>we_vars := vs\<rparr>)\<rparr>,
              send req 202 [] NoBody)
         | Inl e \<Rightarrow> (sv, send_error req 400 (''invalid: '' @ he_show he e))))"

definition post_factory_reset ::
    "('s, 't, 'd, 'w, 'o, 'j) http_env \<Rightarrow> http_request \<Rightarrow> ('s, 'd, 'w, 'o) server \<Rightarrow>
     ('s, 'd, 'w, 'o) server \<times> reply" where
  "post_factory_reset he req sv =
    (if \<not> require_auth req (sv_app sv) then (sv, write_unauthorized req)
     else case ap_nvs (sv_app sv) of
       None \<Rightarrow> (sv, send_error req 500 (''erase failed: '' @ config_error_display (he_show he) (ENvs NotFound)))
     | Some s \<Rightarrow>
        (case config_factory_reset (env_nvs (he_env he)) s of
           (s', Inl e) \<Rightarrow> (sv\<lparr>sv_app := (sv_app sv)\<lparr>ap_nvs := Some s'\<rparr>\<rparr>,
             send_error req 500 (''erase failed: '' @ config_error_display (he_show he) e))
         | (s', Inr u) \<Rightarrow>
             (let r = send req 202 [] NoBody
              in (sv\<lparr>sv_app := (sv_app sv)\<lparr>ap_nvs := Some s'\<rparr>, sv_reboot := sv_reboot sv \<or> r \<noteq> Dropped\<rparr>, r))))"

section \<open>The route table\<close>

definition get_route ::
    "('s, 't, 'd, 'w, 'o, 'j) http_env \<Rightarrow> http_request \<Rightarrow> ('s, 'd, 'w, 'o) server \<Rightarrow>
     ('s, 'd, 'w, 'o) server \<times> reply" where
  "get_route he req sv =
    (let p = rq_path req in
     if p = WIFI_SCAN then get_wifi_scan he req sv
     else (sv,
       if p = ''/'' then send req 200 HTML_CT IndexHtml
       else if p = STATUS then send req 200 JSON_CT (StatusBody (app_snapshot (sv_app sv)))
       else if p = CONFIG then get_config req sv
       else if p = ''/api/diag'' then send req 200 JSON_CT DiagBody
       else if p = ''/api/config/wifi'' then section_get (\<lambda>c. WifiSec (cf_wifi c)) req sv
       else if p = ''/api/config/mqtt'' then section_get (\<lambda>c. MqttSec (cf_mqtt c)) req sv
       else if p = ''/api/config/switches'' then section_get (\<lambda>c. SwitchesSec (cf_switches c)) req sv
       else if p = ''/api/config/sensors'' then section_get (\<lambda>c. SensorsSec (cf_sensors c)) req sv
       else if p = ''/api/config/schedule'' then section_get (\<lambda>c. ScheduleSec (cf_schedule c)) req sv
       else if p = ''/api/config/https'' then section_get (\<lambda>c. HttpsSec (cf_https c)) req sv
       else if p = ''/api/config/wireguard'' then section_get (\<lambda>c. WireguardSec (cf_wireguard c)) req sv
       else if p = ''/api/config/time'' then section_get
         (\<lambda>c. TimeSec \<lparr>ti_timezone = cf_timezone c, ti_sntp_servers = cf_sntp_servers c\<rparr>) req sv
       else if p = ''/api/config/auth'' then section_get (\<lambda>c. AuthSec \<lparr>au_admin_token = []\<rparr>) req sv
       else if p = ''/api/config/flow_alarm'' then section_get (\<lambda>c. FlowAlarmSec (cf_flow_alarm c)) req sv
       else if p = ''/api/config/webhooks'' then section_get (\<lambda>c. WebhooksSec (cf_webhooks c)) req sv
       else if p = ALARM_HISTORY then send req 200 JSON_CT (HistoryBody (alarm_history (sv_app sv)))
       else if p \<in> set CAPTIVE_PROBE_PATHS then send req 302 [(''Location'', ''/'')] NoBody
       else NoHandler))"

definition put_route ::
    "('s, 't, 'd, 'w, 'o, 'j) http_env \<Rightarrow> http_request \<Rightarrow> ('s, 'd, 'w, 'o) server \<Rightarrow>
     ('s, 'd, 'w, 'o) server \<times> reply" where
  "put_route he req sv =
    (let p = rq_path req in
     if p = CONFIG then put_config he req sv
     else if p = ''/api/config/wifi'' then section_put he (he_dec_wifi he) (apply_wifi (he_wifi he)) req sv
     else if p = ''/api/config/mqtt'' then section_put he (he_dec_mqtt he) (plain_section apply_mqtt) req sv
     else if p = ''/api/config/switches'' then section_put he (he_dec_switches he) (plain_section apply_switches) req sv
     else if p = ''/api/config/sensors'' then section_put he (he_dec_sensors he) (plain_section apply_sensors) req sv
     else if p = ''/api/config/schedule'' then section_put he (he_dec_schedule he) (plain_section apply_schedule) req sv
     else if p = ''/api/config/https'' then section_put he (he_dec_https he) (plain_section apply_https) req sv
     else if p = ''/api/config/wireguard'' then section_put he (he_dec_wireguard he) (plain_section apply_wireguard) req sv
     else if p = ''/api/config/time'' then section_put he (he_dec_time he) (plain_section apply_time) req sv
     else if p = ''/api/config/auth'' then section_put he (he_dec_auth he) (plain_section apply_auth) req sv
     else if p = ''/api/config/flow_alarm'' then section_put he (he_dec_flow_alarm he) (plain_section apply_flow_alarm) req sv
     else if p = ''/api/config/webhooks'' then section_put he (he_dec_webhooks he) (plain_section apply_webhooks) req sv
     else (sv, NoHandler))"

definition post_route ::
    "('s, 't, 'd, 'w, 'o, 'j) http_env \<Rightarrow> http_request \<Rightarrow> ('s, 'd, 'w, 'o) server \<Rightarrow>
     ('s, 'd, 'w, 'o) server \<times> reply" where
  "post_route he req sv =
    (let p = rq_path req in
     if p = SWITCH then post_switch he req sv
     else if p = OTA_UPLOAD then post_ota he req sv
     else if p = ''/api/wifi/reconnect'' then post_wifi_reconnect he req sv
     else if p = ALARM_CLEAR then post_alarm_clear he req sv
     else if p = WEBHOOKS_TEST then post_webhooks_test he req sv
     else if p = FACTORY_RESET then post_factory_reset he req sv
     else (sv, NoHandler))"

fun http_handle ::
    "('s, 't, 'd, 'w, 'o, 'j) http_env \<Rightarrow> http_method \<Rightarrow> http_request \<Rightarrow> ('s, 'd, 'w, 'o) server \<Rightarrow>
     ('s, 'd, 'w, 'o) server \<times> reply" where
  "http_handle he GET req sv = get_route he req sv"
| "http_handle he PUT req sv = put_route he req sv"
| "http_handle he POST req sv = post_route he req sv"

section \<open>Lemmas\<close>

lemma if_both: "P a \<Longrightarrow> P b \<Longrightarrow> P (if c then a else b)"
  by simp

lemma get_route_state:
  "fst (get_route he req sv) = (if rq_path req = WIFI_SCAN then fst (get_wifi_scan he req sv) else sv)"
  unfolding get_route_def Let_def if_distrib [of fst] fst_conv ..

lemma wifi_scan_app:
  "sv_app (fst (get_wifi_scan he req sv)) = sv_app sv"
  "sv_ota (fst (get_wifi_scan he req sv)) = sv_ota sv"
  "sv_reboot (fst (get_wifi_scan he req sv)) = sv_reboot sv"
  by (simp_all add: get_wifi_scan_def split: prod.split sum.split)

lemma get_route_app [simp]: "sv_app (fst (get_route he req sv)) = sv_app sv"
  "sv_ota (fst (get_route he req sv)) = sv_ota sv" "sv_reboot (fst (get_route he req sv)) = sv_reboot sv"
  by (simp_all add: get_route_state wifi_scan_app)

lemma unauthorized_handlers:
  assumes "\<not> require_auth req (sv_app sv)"
  shows "put_config he req sv = (sv, write_unauthorized req)"
    "section_put he dec ap req sv = (sv, write_unauthorized req)"
    "post_switch he req sv = (sv, write_unauthorized req)"
    "post_ota he req sv = (sv, write_unauthorized req)"
    "post_wifi_reconnect he req sv = (sv, write_unauthorized req)"
    "post_alarm_clear he req sv = (sv, write_unauthorized req)"
    "post_webhooks_test he req sv = (sv, write_unauthorized req)"
    "post_factory_reset he req sv = (sv, write_unauthorized req)"
  using assms
  by (simp_all add: put_config_def section_put_def post_switch_def post_ota_def post_wifi_reconnect_def
      post_alarm_clear_def post_webhooks_test_def post_factory_reset_def)

lemma unauthorized_routes:
  assumes "\<not> require_auth req (sv_app sv)" "P (sv, write_unauthorized req)" "P (sv, NoHandler)"
  shows "P (put_route he req sv)" "P (post_route he req sv)"
  unfolding put_route_def post_route_def Let_def unauthorized_handlers [OF assms(1)]
  by (rule if_both [where P = P] assms(2,3))+

lemma require_auth_iff:
  "require_auth req a \<longleftrightarrow> cf_admin_token (ap_config a) = [] \<or>
     rq_authorization req = Some (''Bearer '' @ cf_admin_token (ap_config a))"
  by (auto simp: require_auth_def Let_def strip_pre_Some split: option.split)

section \<open>Access\<close>

text \<open>The routes that write, as the source registers them.\<close>

fun writing_routes :: "http_method \<Rightarrow> string list" where
  "writing_routes GET = []"
| "writing_routes PUT = [''/api/config'', ''/api/config/wifi'', ''/api/config/mqtt'', ''/api/config/switches'',
     ''/api/config/sensors'', ''/api/config/schedule'', ''/api/config/https'', ''/api/config/wireguard'',
     ''/api/config/time'', ''/api/config/auth'', ''/api/config/flow_alarm'', ''/api/config/webhooks'']"
| "writing_routes POST = [''/api/switch'', ''/api/ota'', ''/api/wifi/reconnect'', ''/api/alarm/clear'',
     ''/api/webhooks/test'', ''/api/factory_reset'']"

lemma if_eq: "(c \<Longrightarrow> a = x) \<Longrightarrow> (\<not> c \<Longrightarrow> b = x) \<Longrightarrow> (if c then a else b) = x"
  by simp

lemma unauthorized_writes:
  assumes "\<not> require_auth req (sv_app sv)"
  shows "put_route he req sv =
      (sv, if rq_path req \<in> set (writing_routes PUT) then write_unauthorized req else NoHandler)"
    and "post_route he req sv =
      (sv, if rq_path req \<in> set (writing_routes POST) then write_unauthorized req else NoHandler)"
  unfolding put_route_def post_route_def Let_def unauthorized_handlers [OF assms]
    writing_routes.simps CONFIG_def SWITCH_def OTA_UPLOAD_def ALARM_CLEAR_def WEBHOOKS_TEST_def FACTORY_RESET_def
  by ((rule if_eq, simp)+, simp)+

text \<open>C14. Without the admin token nothing can be changed over HTTP. When a token is configured, a
  request of any method and path that does not carry exactly \<open>Bearer <token>\<close> leaves the
  application (configuration, valve, sprinklers, alarm, store), the OTA partition and the reboot
  flag as they were; the WiFi object is touched only by the scan. Every registered writing route
  answers it with status 401 (if the response can be written at all), and on every other path no
  handler for a PUT or POST runs.\<close>

theorem http_needs_token:
  assumes "cf_admin_token (ap_config (sv_app sv)) \<noteq> []"
    and "rq_authorization req \<noteq> Some (''Bearer '' @ cf_admin_token (ap_config (sv_app sv)))"
    and "http_handle he meth req sv = (sv', r)"
  shows "sv_app sv' = sv_app sv \<and> sv_ota sv' = sv_ota sv \<and> sv_reboot sv' = sv_reboot sv \<and>
    (sv' = sv \<or> meth = GET \<and> rq_path req = WIFI_SCAN) \<and>
    (rq_path req \<in> set (writing_routes meth) \<longrightarrow>
       r = (if rq_writable req then Reply 401 [(''Content-Type'', ''application/json'')] (ErrorBody
         \<lparr>ae_message = ''missing or invalid Authorization: Bearer <admin_token>''\<rparr>) else Dropped)) \<and>
    (meth \<noteq> GET \<and> rq_path req \<notin> set (writing_routes meth) \<longrightarrow> r = NoHandler)"
proof -
  have na: "\<not> require_auth req (sv_app sv)"
    using assms(1,2) by (simp add: require_auth_iff)
  have u: "write_unauthorized req = (if rq_writable req then Reply 401 [(''Content-Type'', ''application/json'')] (ErrorBody
         \<lparr>ae_message = ''missing or invalid Authorization: Bearer <admin_token>''\<rparr>) else Dropped)"
    by (simp add: write_unauthorized_def send_error_def send_def JSON_CT_def api_error_new_def)
  show ?thesis
  proof (cases meth)
    case GET
    with assms(3) have "sv' = fst (get_route he req sv)" by simp
    then show ?thesis using get_route_state [of he req sv] GET by (simp add: wifi_scan_app)
  next
    case PUT
    with assms(3) unauthorized_writes(1) [OF na, of he] show ?thesis
      unfolding u by (auto simp del: writing_routes.simps)
  next
    case POST
    with assms(3) unauthorized_writes(2) [OF na, of he] show ?thesis
      unfolding u by (auto simp del: writing_routes.simps)
  qed
qed

text \<open>A closed server for concrete instances: the fake store, decoders that accept one value each,
  a WiFi object that logs the lists it gets, a partition that logs what is written.\<close>

definition sample_wifi :: "wifi_creds list list wifi_ops" where
  "sample_wifi = \<lparr>wi_connect = (\<lambda>w l. w @ [l]), wi_reconnect = (\<lambda>w. w), wi_scan = (\<lambda>w. (w, Inr []))\<rparr>"

definition sample_ota :: "bytes ota_ops" where
  "sample_ota = \<lparr>ot_new = (\<lambda>o'. (o', Inr ())), ot_initiate = (\<lambda>o'. ([], Inr ())),
     ot_write = (\<lambda>o' b. (o' @ b, Inr ())), ot_abort = (\<lambda>o'. []), ot_complete = (\<lambda>o'. (o', Inr ()))\<rparr>"

definition sample_http_env ::
    "'s nvs_ops \<Rightarrow> config \<Rightarrow> ('s, int, webhook_event list, wifi_creds list list, bytes, unit) http_env" where
  "sample_http_env ops c =
     \<lparr>he_env = \<lparr>env_mono = (\<lambda>_. 0), env_wall = (\<lambda>_. 0), env_rfc3339 = (\<lambda>_. []), env_timestamp = id,
        env_enc_history = (\<lambda>_. None), env_dec_history = (\<lambda>_. None), env_nvs = ops,
        env_dispatch = (\<lambda>l ev. l @ [ev]), env_noop = []\<rparr>,
      he_codec = constant_codec c, he_show = (\<lambda>_. []), he_wifi = sample_wifi, he_ota = sample_ota,
      he_switch = (\<lambda>_. Inr (WaterControl True)), he_test = (\<lambda>_. Inl ()),
      he_dec_wifi = (\<lambda>_. Inr (cf_wifi c)), he_dec_mqtt = (\<lambda>_. Inr (cf_mqtt c)),
      he_dec_switches = (\<lambda>_. Inr (cf_switches c)), he_dec_sensors = (\<lambda>_. Inr (cf_sensors c)),
      he_dec_schedule = (\<lambda>_. Inr (cf_schedule c)), he_dec_https = (\<lambda>_. Inr (cf_https c)),
      he_dec_wireguard = (\<lambda>_. Inr (cf_wireguard c)), he_dec_time = (\<lambda>_. Inl ()),
      he_dec_auth = (\<lambda>_. Inr \<lparr>au_admin_token = cf_admin_token c\<rparr>),
      he_dec_flow_alarm = (\<lambda>_. Inr (cf_flow_alarm c)), he_dec_webhooks = (\<lambda>_. Inr (cf_webhooks c))\<rparr>"

definition sample_server ::
    "'s nvs_ops \<Rightarrow> 's \<Rightarrow> config \<Rightarrow> ('s, webhook_event list, wifi_creds list list, bytes) server" where
  "sample_server ops s c =
     \<lparr>sv_app = app_with_nvs (he_env (sample_http_env ops c)) c (Some s), sv_wifi = [], sv_ota = [], sv_reboot = False\<rparr>"

lemma sample_server_sel [simp]:
  "ap_config (sv_app (sample_server ops s c)) = c" "ap_nvs (sv_app (sample_server ops s c)) = Some s"
  "sv_wifi (sample_server ops s c) = []" "sv_ota (sample_server ops s c) = []"
  by (simp_all add: sample_server_def app_with_nvs_def Let_def)

definition sample_request :: "string \<Rightarrow> string option \<Rightarrow> bytes \<Rightarrow> http_request" where
  "sample_request p auth b =
     \<lparr>rq_path = p, rq_uri = p, rq_authorization = auth, rq_reads = [Rd b], rq_writable = True\<rparr>"

lemma sample_request_sel:
  "rq_path (sample_request p auth b) = p" "rq_reads (sample_request p auth b) = [Rd b]"
  "rq_authorization (sample_request p auth b) = auth" "rq_writable (sample_request p auth b)"
  by (simp_all add: sample_request_def)

lemma http_needs_token_witness:
  "let x = http_handle (sample_http_env fake_nvs_ops sample_config) POST
     (sample_request FACTORY_RESET (Some ''Bearer guess'') []) (sample_server fake_nvs_ops fake_nvs_new sample_config)
   in sv_app (fst x) = sv_app (sample_server fake_nvs_ops fake_nvs_new sample_config) \<and>
     (\<exists>b. snd x = Reply 401 [(''Content-Type'', ''application/json'')] b)"
  using http_needs_token [of "sample_server fake_nvs_ops fake_nvs_new sample_config"
      "sample_request FACTORY_RESET (Some ''Bearer guess'') []" "sample_http_env fake_nvs_ops sample_config" POST,
      OF _ _ prod.collapse [symmetric]]
  by (simp add: Let_def sample_request_sel FACTORY_RESET_def del: http_handle.simps)
    (simp add: sample_config_def)

section \<open>Writing the configuration\<close>

text \<open>What a writing handler comes to: it stops with an error and changes nothing, or it ends in
  \<open>save_and_replace\<close>.\<close>

definition put_shape ::
    "('s, 't, 'd, 'w, 'o, 'j) http_env \<Rightarrow> http_request \<Rightarrow> ('s, 'd, 'w, 'o) server \<Rightarrow>
     ('s, 'd, 'w, 'o) server \<times> reply \<Rightarrow> bool" where
  "put_shape he req sv x \<longleftrightarrow>
     (fst x = sv \<and> (\<forall>h b. snd x \<noteq> Reply 204 h b)) \<or> (\<exists>cfg w. x = save_and_replace he req cfg (sv\<lparr>sv_wifi := w\<rparr>))"

lemma send_error_not_204 [simp]: "st \<noteq> 204 \<Longrightarrow> send_error req st msg \<noteq> Reply 204 h b"
  by (simp add: send_error_def send_def)

lemma write_unauthorized_not_204 [simp]: "write_unauthorized req \<noteq> Reply 204 h b"
  by (simp add: write_unauthorized_def)

lemma section_put_shape: "put_shape he req sv (section_put he dec ap req sv)"
proof (cases "\<exists>buf v. require_auth req (sv_app sv) \<and> read_body (rq_reads req) [] = Complete buf \<and> dec buf = Inr v")
  case True
  then obtain buf v where *: "require_auth req (sv_app sv)" "read_body (rq_reads req) [] = Complete buf"
    "dec buf = Inr v" by blast
  obtain cfg w where "ap (ap_config (sv_app sv)) v (sv_wifi sv) = (cfg, w)" by fastforce
  with * have "section_put he dec ap req sv = save_and_replace he req cfg (sv\<lparr>sv_wifi := w\<rparr>)"
    by (simp add: section_put_def)
  then show ?thesis unfolding put_shape_def by blast
next
  case False
  then have "fst (section_put he dec ap req sv) = sv \<and> (\<forall>h b. snd (section_put he dec ap req sv) \<noteq> Reply 204 h b)"
    by (cases "read_body (rq_reads req) []"; cases "require_auth req (sv_app sv)")
      (auto simp: section_put_def split: sum.split)
  then show ?thesis by (simp add: put_shape_def)
qed

lemma wifi_update_same: "sv\<lparr>sv_wifi := sv_wifi sv\<rparr> = sv"
  by simp

lemma put_config_shape: "put_shape he req sv (put_config he req sv)"
proof (cases "\<exists>buf u. require_auth req (sv_app sv) \<and> read_body (rq_reads req) [] = Complete buf \<and>
    cc_dec (he_codec he) buf = Inr u")
  case True
  then obtain buf u where *: "require_auth req (sv_app sv)" "read_body (rq_reads req) [] = Complete buf"
    "cc_dec (he_codec he) buf = Inr u" by blast
  let ?c = "merge_preserving_secrets (ap_config (sv_app sv)) u"
  from * have "put_config he req sv = save_and_replace he req ?c (sv\<lparr>sv_wifi := sv_wifi sv\<rparr>)"
    by (simp add: put_config_def)
  then show ?thesis unfolding put_shape_def by blast
next
  case False
  then have "fst (put_config he req sv) = sv \<and> (\<forall>h b. snd (put_config he req sv) \<noteq> Reply 204 h b)"
    by (cases "read_body (rq_reads req) []"; cases "require_auth req (sv_app sv)")
      (auto simp: put_config_def split: sum.split)
  then show ?thesis by (simp add: put_shape_def)
qed

lemma put_route_shape: "put_shape he req sv (put_route he req sv)"
proof -
  have none: "put_shape he req sv (sv, NoHandler)"
    by (simp add: put_shape_def)
  show ?thesis
    unfolding put_route_def Let_def
    by (rule if_both [where P = "put_shape he req sv"] put_config_shape section_put_shape none)+
qed

lemma save_and_replace_cases:
  assumes "nvs_store (env_nvs (he_env he)) ok" "ap_nvs (sv_app sv) = Some s" "ok s"
    and "save_and_replace he req cfg sv = (sv', r)"
  shows "\<exists>s'. ok s' \<and>
    (config_save (env_nvs (he_env he)) (he_codec he) cfg s = (s', Inr ()) \<and> r = send req 204 [] NoBody \<and>
       sv_app sv' = replace_config (he_env he) ((sv_app sv)\<lparr>ap_nvs := Some s'\<rparr>) cfg \<or>
     sv_app sv' = (sv_app sv)\<lparr>ap_nvs := Some s'\<rparr> \<and> (\<forall>h b. r \<noteq> Reply 204 h b))"
proof -
  obtain s' x where x: "config_save (env_nvs (he_env he)) (he_codec he) cfg s = (s', x)" by fastforce
  have "ok s'"
    using nvs_store.save_keeps_ok [OF assms(1,3), of "he_codec he" cfg] x by simp
  moreover have "config_save (env_nvs (he_env he)) (he_codec he) cfg s = (s', Inr ()) \<and> r = send req 204 [] NoBody \<and>
       sv_app sv' = replace_config (he_env he) ((sv_app sv)\<lparr>ap_nvs := Some s'\<rparr>) cfg \<or>
     sv_app sv' = (sv_app sv)\<lparr>ap_nvs := Some s'\<rparr> \<and> (\<forall>h b. r \<noteq> Reply 204 h b)"
    using assms(2,4) x by (cases x) (auto simp: save_and_replace_def server_save_def)
  ultimately show ?thesis by blast
qed

text \<open>C15. A configuration write is durable when it is acknowledged, and void when it is not. For every
  PUT route: either the answer is 204, the store now holds exactly the configuration the application
  runs with (the next boot loads it) and no other key has changed; or the answer is not 204 and the
  application is unchanged apart from what a failed save did to the store.\<close>

theorem http_put_durable:
  assumes "nvs_store (env_nvs (he_env he)) ok" "ap_nvs (sv_app sv) = Some s" "ok s"
    and "http_handle he PUT req sv = (sv', r)"
    and "\<And>bs. cc_enc (he_codec he) (ap_config (sv_app sv')) = Inr bs \<Longrightarrow>
           cc_dec (he_codec he) bs = Inr (ap_config (sv_app sv'))"
  shows "\<exists>s'. ap_nvs (sv_app sv') = Some s' \<and> ok s' \<and>
    (r = send req 204 [] NoBody \<and>
       config_load (env_nvs (he_env he)) (he_codec he) dflt s' = Inr (ap_config (sv_app sv')) \<and>
       (nvs_get (env_nvs (he_env he)) s')(NVS_KEY := None) = (nvs_get (env_nvs (he_env he)) s)(NVS_KEY := None) \<or>
     (\<forall>h b. r \<noteq> Reply 204 h b) \<and> sv_app sv' = (sv_app sv)\<lparr>ap_nvs := Some s'\<rparr>)"
proof -
  let ?ops = "env_nvs (he_env he)"
  have "put_shape he req sv (sv', r)"
    using put_route_shape [of he req sv] assms(4) by simp
  then consider "sv' = sv" "\<forall>h b. r \<noteq> Reply 204 h b"
    | cfg w where "save_and_replace he req cfg (sv\<lparr>sv_wifi := w\<rparr>) = (sv', r)"
    by (auto simp: put_shape_def)
  then show ?thesis
  proof cases
    case 1
    then show ?thesis using assms(2,3) by auto
  next
    case (2 cfg w)
    from save_and_replace_cases [OF assms(1) _ assms(3) this] assms(2)
    obtain s' where s': "ok s'"
      "config_save ?ops (he_codec he) cfg s = (s', Inr ()) \<and> r = send req 204 [] NoBody \<and>
         sv_app sv' = replace_config (he_env he) ((sv_app sv)\<lparr>ap_nvs := Some s'\<rparr>) cfg \<or>
       sv_app sv' = (sv_app sv)\<lparr>ap_nvs := Some s'\<rparr> \<and> (\<forall>h b. r \<noteq> Reply 204 h b)"
      by auto
    from s'(2) show ?thesis
    proof
      assume *: "config_save ?ops (he_codec he) cfg s = (s', Inr ()) \<and> r = send req 204 [] NoBody \<and>
         sv_app sv' = replace_config (he_env he) ((sv_app sv)\<lparr>ap_nvs := Some s'\<rparr>) cfg"
      then have c: "ap_config (sv_app sv') = cfg" "ap_nvs (sv_app sv') = Some s'"
        by (simp_all add: replace_config_def)
      from * have save: "config_save ?ops (he_codec he) cfg s = (s', Inr ())" by blast
      have "config_load ?ops (he_codec he) dflt s' = Inr cfg"
        using assms(5) c(1) by (intro nvs_store.save_load [OF assms(1,3) save]) simp
      moreover have "(nvs_get ?ops s')(NVS_KEY := None) = (nvs_get ?ops s)(NVS_KEY := None)"
        using nvs_store.save_other [OF assms(1,3) save] by auto
      ultimately show ?thesis using * c s'(1) by auto
    qed (use s'(1) in auto)
  qed
qed

lemma merge_sample [simp]: "merge_preserving_secrets sample_config sample_config = sample_config"
  by (simp add: merge_preserving_secrets_def)

lemma sample_auth [simp]:
  "require_auth (sample_request p (Some ''Bearer secret'') b) (sv_app (sample_server ops s sample_config))"
  by (simp add: require_auth_iff sample_request_def) (simp add: sample_config_def)

lemma sample_put_config:
  "ap_config (sv_app (fst (http_handle (sample_http_env fake_nvs_ops sample_config) PUT
       (sample_request CONFIG (Some ''Bearer secret'') [])
       (sample_server fake_nvs_ops fake_nvs_new sample_config)))) = sample_config"
proof -
  let ?sv = "sample_server fake_nvs_ops fake_nvs_new sample_config"
  let ?he = "sample_http_env fake_nvs_ops sample_config"
  let ?rq = "sample_request CONFIG (Some ''Bearer secret'') []"
  have p: "rq_path ?rq = CONFIG" "rq_reads ?rq = [Rd []]" by (simp_all add: sample_request_def)
  have d: "cc_dec (he_codec ?he) [] = Inr sample_config"
    by (simp add: sample_http_env_def constant_codec_def)
  have "http_handle ?he PUT ?rq ?sv = save_and_replace ?he ?rq sample_config ?sv"
    by (simp add: put_route_def put_config_def p d)
  then show ?thesis
    by (simp add: save_and_replace_def server_save_def replace_config_def split: prod.split sum.split)
qed

lemma sample_http_env_sel [simp]:
  "env_nvs (he_env (sample_http_env ops c)) = ops" "he_codec (sample_http_env ops c) = constant_codec c"
  "he_wifi (sample_http_env ops c) = sample_wifi" "he_ota (sample_http_env ops c) = sample_ota"
  "he_dec_wifi (sample_http_env ops c) = (\<lambda>_. Inr (cf_wifi c))"
  by (simp_all add: sample_http_env_def)

lemma http_put_durable_witness:
  "\<exists>s'. ap_nvs (sv_app (fst (http_handle (sample_http_env fake_nvs_ops sample_config) PUT
       (sample_request CONFIG (Some ''Bearer secret'') [])
       (sample_server fake_nvs_ops fake_nvs_new sample_config)))) = Some s'"
proof -
  let ?x = "http_handle (sample_http_env fake_nvs_ops sample_config) PUT
       (sample_request CONFIG (Some ''Bearer secret'') [])
       (sample_server fake_nvs_ops fake_nvs_new sample_config)"
  note w = http_put_durable [of "sample_http_env fake_nvs_ops sample_config" "\<lambda>_. True"
      "sample_server fake_nvs_ops fake_nvs_new sample_config" fake_nvs_new _ "fst ?x" "snd ?x" sample_config]
  show ?thesis
    by (rule exE [OF w], simp_all add: sample_put_config fake_nvs_store constant_codec_def del: http_handle.simps)
      (elim conjE, rule exI)
qed

definition no_secrets :: secrets where
  "no_secrets = \<lparr>sec_wifi = \<lambda>_. [], sec_mqtt_password = [], sec_mqtt_key = [], sec_https_key = [],
     sec_wg_private = [], sec_wg_psk = [], sec_admin = []\<rparr>"

lemma redacted: "redact_secrets_for_api (put_secrets x c) = put_secrets no_secrets c"
  "redact_secrets_for_api c = put_secrets no_secrets c"
  by (simp_all add: redact_secrets_for_api_def put_secrets_def no_secrets_def)

lemma get_shows:
  assumes "\<not> require_auth req (sv_app sv)" "snd (get_route he req sv) = Reply st hs (ConfigBody c)"
  shows "c = redact_secrets_for_api (ap_config (sv_app sv))"
proof -
  have "rq_path req \<noteq> WIFI_SCAN"
    using assms(2) by (auto simp: get_route_def get_wifi_scan_def send_def send_error_def split: prod.splits sum.splits if_splits)
  with assms show ?thesis
    by (auto simp: get_route_def Let_def get_config_def section_get_def send_def write_unauthorized_def send_error_def
        split: if_splits)
qed

text \<open>C16. The secrets of \<open>put_secrets\<close>, which are the passwords of the WiFi networks, the MQTT password and
  client key, the HTTPS key, the private and the preshared key of WireGuard and the admin token,
  cannot be read without the token. Put any others in their place: to a request that carries neither
  token, of any method and path, the answer is the same, the full download included, which is
  refused; and a configuration it is shown is the one in force with exactly these fields emptied. The
  password of the setup access point and the headers of the webhooks are not among them, and are
  shown.\<close>

theorem http_secrets_confidential:
  assumes "cf_admin_token (ap_config (sv_app sv)) \<noteq> []" "sec_admin x \<noteq> []"
    and "rq_authorization req \<noteq> Some (''Bearer '' @ cf_admin_token (ap_config (sv_app sv)))"
    and "rq_authorization req \<noteq> Some (''Bearer '' @ sec_admin x)"
  shows "snd (http_handle he meth req (sv\<lparr>sv_app := (sv_app sv)\<lparr>ap_config := put_secrets x (ap_config (sv_app sv))\<rparr>\<rparr>)) =
      snd (http_handle he meth req sv) \<and>
    (\<forall>st hs c. snd (http_handle he meth req sv) = Reply st hs (ConfigBody c) \<longrightarrow>
       c = put_secrets no_secrets (ap_config (sv_app sv)))"
proof -
  let ?c = "put_secrets x (ap_config (sv_app sv))"
  let ?sv = "sv\<lparr>sv_app := (sv_app sv)\<lparr>ap_config := ?c\<rparr>\<rparr>"
  have t: "cf_admin_token ?c = sec_admin x" by (simp add: put_secrets_def)
  have na: "\<not> require_auth req (sv_app sv)" "\<not> require_auth req (sv_app ?sv)"
    using assms t by (simp_all add: require_auth_iff)
  have red: "redact_secrets_for_api ?c = redact_secrets_for_api (ap_config (sv_app sv))"
    by (rule trans [OF redacted(1) redacted(2) [symmetric]])
  have sec: "section_get getter req ?sv = section_get getter req sv" for getter
    by (simp add: section_get_def red)
  have cfg: "get_config req ?sv = get_config req sv"
    using na by (simp add: get_config_def red)
  have scan: "snd (get_wifi_scan he req ?sv) = snd (get_wifi_scan he req sv)"
    by (simp add: get_wifi_scan_def split: prod.split sum.split)
  have rest: "app_snapshot (sv_app ?sv) = app_snapshot (sv_app sv)" "alarm_history (sv_app ?sv) = alarm_history (sv_app sv)"
    by (simp_all add: app_snapshot_def alarm_history_def)
  show ?thesis
  proof (cases meth)
    case GET
    have "snd (get_route he req ?sv) = snd (get_route he req sv)"
      unfolding get_route_def Let_def if_distrib [of snd] snd_conv sec cfg scan rest ..
    with GET get_shows [OF na(1)] show ?thesis by (auto simp: redacted(2))
  next
    case PUT
    then show ?thesis
      using unauthorized_writes(1) [OF na(1), of he] unauthorized_writes(1) [OF na(2), of he]
      by (simp add: write_unauthorized_def send_error_def send_def del: writing_routes.simps)
  next
    case POST
    then show ?thesis
      using unauthorized_writes(2) [OF na(1), of he] unauthorized_writes(2) [OF na(2), of he]
      by (simp add: write_unauthorized_def send_error_def send_def del: writing_routes.simps)
  qed
qed

lemma http_secrets_confidential_witness:
  "snd (http_handle (sample_http_env fake_nvs_ops sample_config) GET (sample_request ''/api/config?all'' None [])
      ((sample_server fake_nvs_ops fake_nvs_new sample_config)\<lparr>sv_app :=
         (sv_app (sample_server fake_nvs_ops fake_nvs_new sample_config))\<lparr>ap_config :=
            put_secrets (no_secrets\<lparr>sec_admin := ''other''\<rparr>) sample_config\<rparr>\<rparr>)) =
   snd (http_handle (sample_http_env fake_nvs_ops sample_config) GET (sample_request ''/api/config?all'' None [])
      (sample_server fake_nvs_ops fake_nvs_new sample_config))"
  using http_secrets_confidential [of "sample_server fake_nvs_ops fake_nvs_new sample_config"
      "no_secrets\<lparr>sec_admin := ''other''\<rparr>" "sample_request ''/api/config?all'' None []"
      "sample_http_env fake_nvs_ops sample_config" GET]
  by (simp add: sample_request_sel del: http_handle.simps) (simp add: sample_config_def)

section \<open>Side effects before the save\<close>

text \<open>A store that refuses every write.\<close>

definition full_nvs_ops :: "fake_nvs nvs_ops" where
  "full_nvs_ops = fake_nvs_ops\<lparr>nvs_set := (\<lambda>s k v. (s, Inl Full))\<rparr>"

text \<open>The \<open>wifi\<close> section is applied before it is saved. When the save fails the client is told 500
  and the configuration stays as it was, but the WiFi object has already been given the new list of
  networks: the device may leave the network it is configured for.\<close>

theorem wifi_put_connects_before_save:
  assumes "require_auth req (sv_app sv)" "rq_path req = ''/api/config/wifi''"
    and "read_body (rq_reads req) [] = Complete buf" "he_dec_wifi he buf = Inr new"
    and "ap_nvs (sv_app sv) = Some s"
    and "config_save (env_nvs (he_env he)) (he_codec he)
      (fst (apply_wifi (he_wifi he) (ap_config (sv_app sv)) new (sv_wifi sv))) s = (s', Inl e)"
    and "http_handle he PUT req sv = (sv', r)"
  shows "r = send_error req 500 (''nvs save: '' @ config_error_display (he_show he) e) \<and>
    ap_config (sv_app sv') = ap_config (sv_app sv) \<and>
    sv_wifi sv' = wi_connect (he_wifi he) (sv_wifi sv)
      (map (restore_network (wf_networks (cf_wifi (ap_config (sv_app sv))))) (wf_networks new))"
proof -
  obtain cfg w where cw: "apply_wifi (he_wifi he) (ap_config (sv_app sv)) new (sv_wifi sv) = (cfg, w)"
    by fastforce
  have w: "w = wi_connect (he_wifi he) (sv_wifi sv)
      (map (restore_network (wf_networks (cf_wifi (ap_config (sv_app sv))))) (wf_networks new))"
    using cw by (auto simp: apply_wifi_def Let_def)
  have "put_route he req sv = section_put he (he_dec_wifi he) (apply_wifi (he_wifi he)) req sv"
    using assms(2) by (simp add: put_route_def CONFIG_def)
  then have "(sv', r) = section_put he (he_dec_wifi he) (apply_wifi (he_wifi he)) req sv"
    using assms(7) by simp
  also have "\<dots> = save_and_replace he req cfg (sv\<lparr>sv_wifi := w\<rparr>)"
    using assms(1,3,4) cw by (simp add: section_put_def)
  also have "\<dots> = (sv\<lparr>sv_wifi := w, sv_app := (sv_app sv)\<lparr>ap_nvs := Some s'\<rparr>\<rparr>,
      send_error req 500 (''nvs save: '' @ config_error_display (he_show he) e))"
    using assms(5,6) cw by (simp add: save_and_replace_def server_save_def)
  finally show ?thesis using w by simp
qed

lemma wifi_put_connects_before_save_witness:
  "sv_wifi (fst (http_handle (sample_http_env full_nvs_ops sample_config) PUT
      (sample_request ''/api/config/wifi'' (Some ''Bearer secret'') [])
      (sample_server full_nvs_ops fake_nvs_new sample_config))) =
    [map (restore_network (wf_networks (cf_wifi sample_config))) (wf_networks (cf_wifi sample_config))]"
proof -
  let ?sv = "sample_server full_nvs_ops fake_nvs_new sample_config"
  let ?he = "sample_http_env full_nvs_ops sample_config"
  let ?rq = "sample_request ''/api/config/wifi'' (Some ''Bearer secret'') []"
  have "config_save full_nvs_ops (constant_codec sample_config) cfg fake_nvs_new = (fake_nvs_new, Inl (ENvs Full))" for cfg
    by (simp add: config_save_def constant_codec_def full_nvs_ops_def)
  then show ?thesis
    using wifi_put_connects_before_save [of ?rq ?sv "[]" ?he "cf_wifi sample_config" fake_nvs_new fake_nvs_new
        "ENvs Full" "fst (http_handle ?he PUT ?rq ?sv)" "snd (http_handle ?he PUT ?rq ?sv)"]
    by (simp add: sample_wifi_def del: http_handle.simps) (simp add: sample_request_def del: http_handle.simps)
qed

section \<open>Firmware upload\<close>

text \<open>What the upload loop is meant to do: the chunks of the body up to its end, written in order.\<close>

fun body_chunks :: "read_result list \<Rightarrow> bytes list option" where
  "body_chunks [] = Some []"
| "body_chunks (RdErr e # rest) = None"
| "body_chunks (Rd c # rest) = (if c = [] then Some [] else map_option ((#) c) (body_chunks rest))"

fun write_all :: "'o ota_ops \<Rightarrow> 'o \<Rightarrow> bytes list \<Rightarrow> 'o option" where
  "write_all ops ota [] = Some ota"
| "write_all ops ota (c # cs) = (case ot_write ops ota c of
      (ota, Inr u) \<Rightarrow> write_all ops ota cs | (ota, Inl e) \<Rightarrow> None)"

lemma ota_loop_writes:
  "ota_loop ops rs ota n = (ota', Inr m) \<Longrightarrow>
     \<exists>cs. body_chunks rs = Some cs \<and> write_all ops ota cs = Some ota' \<and> m = n + length (concat cs)"
proof (induction ops rs ota n rule: ota_loop.induct)
  case (3 ops chunk rest ota n)
  show ?case
  proof (cases "chunk = []")
    case False
    obtain o' x where w: "ot_write ops ota chunk = (o', x)" by fastforce
    with 3 False obtain u where u: "x = Inr u" by (cases x) auto
    with 3 False w obtain cs where
      "body_chunks rest = Some cs" "write_all ops o' cs = Some ota'" "m = n + length chunk + length (concat cs)"
      by fastforce
    with False w u show ?thesis by auto
  qed (use 3 in auto)
qed auto

text \<open>C25. An upload reboots the device only into a complete image. If an upload raises the reboot flag,
  the request was authorized, its body was read to the end, is not empty, and every chunk of it was
  written to the fresh partition in order and without error before the partition was completed.\<close>

theorem ota_reboot_complete_image:
  assumes "http_handle he POST req sv = (sv', r)" "rq_path req = OTA_UPLOAD"
    and "sv_reboot sv'" "\<not> sv_reboot sv"
  shows "require_auth req (sv_app sv) \<and>
    (\<exists>ota1 ota2 cs ota3. ot_new (he_ota he) (sv_ota sv) = (ota1, Inr ()) \<and>
       ot_initiate (he_ota he) ota1 = (ota2, Inr ()) \<and> body_chunks (rq_reads req) = Some cs \<and>
       concat cs \<noteq> [] \<and> write_all (he_ota he) ota2 cs = Some ota3 \<and>
       ot_complete (he_ota he) ota3 = (sv_ota sv', Inr ()) \<and>
       r = Reply 202 JSON_CT (OtaBody (length (concat cs))))"
proof -
  let ?ops = "he_ota he"
  have "post_route he req sv = post_ota he req sv"
    using assms(2) by (simp add: post_route_def OTA_UPLOAD_def SWITCH_def)
  then have h: "post_ota he req sv = (sv', r)" using assms(1) by simp
  have auth: "require_auth req (sv_app sv)"
    using h assms(3,4) by (auto simp: post_ota_def split: if_splits)
  obtain o1 x1 where 1: "ot_new ?ops (sv_ota sv) = (o1, x1)" by fastforce
  obtain o2 x2 where 2: "ot_initiate ?ops o1 = (o2, x2)" by fastforce
  obtain o3 x3 where 3: "ota_loop ?ops (rq_reads req) o2 0 = (o3, x3)" by fastforce
  obtain o4 x4 where 4: "ot_complete ?ops o3 = (o4, x4)" by fastforce
  note run = h [unfolded post_ota_def Let_def]
  have x1: "x1 = Inr ()" using run auth assms(3,4) 1 by (cases x1) auto
  moreover have x2: "x2 = Inr ()" using run auth assms(3,4) 1 2 x1 by (cases x2) auto
  moreover obtain n where n: "x3 = Inr n" "n \<noteq> 0"
    using run auth assms(3,4) 1 2 3 x1 x2 by (cases x3) (auto split: if_splits)
  moreover have x4: "x4 = Inr ()" using run auth assms(3,4) 1 2 3 4 x1 x2 n by (cases x4) auto
  moreover have "sv_ota sv' = o4" "r = Reply 202 JSON_CT (OtaBody n)"
    using run auth assms(3,4) 1 2 3 4 x1 x2 x4 n by (auto simp: send_def split: if_splits)
  moreover obtain cs where "body_chunks (rq_reads req) = Some cs" "write_all ?ops o2 cs = Some o3"
    "n = length (concat cs)"
    using ota_loop_writes 3 n(1) by fastforce
  ultimately show ?thesis using auth 1 2 4 by fastforce
qed

lemma ota_reboot_complete_image_witness:
  "body_chunks [Rd [1, 2 :: u8]] \<noteq> None \<and> sv_ota (fst (http_handle (sample_http_env fake_nvs_ops sample_config) POST
      (sample_request OTA_UPLOAD (Some ''Bearer secret'') [1, 2])
      (sample_server fake_nvs_ops fake_nvs_new sample_config))) = [1, 2]"
proof -
  let ?x = "http_handle (sample_http_env fake_nvs_ops sample_config) POST
      (sample_request OTA_UPLOAD (Some ''Bearer secret'') [1, 2])
      (sample_server fake_nvs_ops fake_nvs_new sample_config)"
  have run: "?x = post_ota (sample_http_env fake_nvs_ops sample_config)
      (sample_request OTA_UPLOAD (Some ''Bearer secret'') [1, 2])
      (sample_server fake_nvs_ops fake_nvs_new sample_config)"
    by (simp add: post_route_def OTA_UPLOAD_def SWITCH_def sample_request_def Let_def)
  have "sv_reboot (fst ?x)" "\<not> sv_reboot (sample_server fake_nvs_ops fake_nvs_new sample_config)"
    unfolding run by (simp_all add: post_ota_def Let_def sample_ota_def sample_http_env_def)
      (simp_all add: sample_request_def sample_server_def send_def)
  then have "\<exists>ota1 ota2 cs ota3. ot_new sample_ota [] = (ota1, Inr ()) \<and>
       ot_initiate sample_ota ota1 = (ota2, Inr ()) \<and> body_chunks [Rd [1, 2]] = Some cs \<and>
       concat cs \<noteq> [] \<and> write_all sample_ota ota2 cs = Some ota3 \<and>
       ot_complete sample_ota ota3 = (sv_ota (fst ?x), Inr ())"
    using ota_reboot_complete_image [of "sample_http_env fake_nvs_ops sample_config"
      "sample_request OTA_UPLOAD (Some ''Bearer secret'') [1, 2]"
      "sample_server fake_nvs_ops fake_nvs_new sample_config" "fst ?x" "snd ?x"]
    by (auto simp: sample_request_sel simp del: http_handle.simps)
  then show ?thesis by (auto simp: sample_ota_def simp del: http_handle.simps)
qed

end
