(* ===== verification/Web_Api.thy ===== *)
theory Web_Api
  imports App
begin

text \<open>
  The JSON API of the no_std firmware, \<open>crates/firmware-nostd/src/webapi.rs\<close>: the dispatch on the
  captured path segment, the streamed views, and the merge of a section into the configuration on
  the level of JSON values. Every answer of a handler is a JSON text.

  \<^item> \<open>json\<close> is \<open>serde_json::Value\<close>; objects are ordered maps, numbers are kept as their text.
  \<^item> \<open>web_env\<close> holds what is not part of the repository: the JSON codec in both directions, the
    display of its errors, the heap counters of the allocator.
  \<^item> \<open>AppState\<close> shares one store between the application and the handlers (\<open>main\<close> clones the same
    \<open>Arc\<close>), so the store of the handlers is \<open>ap_nvs\<close>; \<open>request_reboot\<close> raises a flag.
\<close>

section \<open>JSON values and the merge\<close>

datatype json =
    JNull
  | JBool bool
  | JNum string
  | JStr string
  | JArr "json list"
  | JObj "(string \<times> json) list"

function merge_json :: "json \<Rightarrow> json \<Rightarrow> json"
  and merge_fields :: "(string \<times> json) list \<Rightarrow> (string \<times> json) list \<Rightarrow> (string \<times> json) list" where
  "merge_json target overlay = (case (target, overlay) of
      (JObj t, JObj fs) \<Rightarrow> JObj (merge_fields t fs)
    | _ \<Rightarrow> overlay)"
| "merge_fields t [] = t"
| "merge_fields t ((k, v) # rest) =
    (if v = JStr [] then merge_fields t rest
     else case map_of t k of
       Some tv \<Rightarrow> merge_fields (bm_insert k (merge_json tv v) t) rest
     | None \<Rightarrow> merge_fields (bm_insert k v t) rest)"
  by pat_completeness auto
termination
  by (relation "measure (\<lambda>x. case x of Inl (t, v) \<Rightarrow> size v | Inr (t, fs) \<Rightarrow> size_list (size_prod (\<lambda>_. 0) size) fs)")
     auto

declare merge_json.simps [simp del]

section \<open>Sections and views\<close>

datatype section_name =
    SWifi | SMqtt | SHttps | SSwitches | SSensors | SFlowAlarm | STimezone | SSntpServers
  | SSchedule | SWireguard | SAdminToken | SWebhooks

definition section_parse :: "string \<Rightarrow> section_name option" where
  "section_parse name = map_of
     [(''wifi'', SWifi), (''mqtt'', SMqtt), (''https'', SHttps), (''switches'', SSwitches),
      (''sensors'', SSensors), (''flow_alarm'', SFlowAlarm), (''timezone'', STimezone),
      (''sntp_servers'', SSntpServers), (''schedule'', SSchedule), (''wireguard'', SWireguard),
      (''admin_token'', SAdminToken), (''webhooks'', SWebhooks)] name"

datatype json_view =
    FullConfig config
  | RedactedConfig config
  | SectionView config section_name

datatype api_resp = Json string | NoContent | JsonStream json_view

record section_values =
  sv_of_wifi :: "wifi_config \<Rightarrow> json"
  sv_of_mqtt :: "mqtt_config \<Rightarrow> json"
  sv_of_https :: "https_config \<Rightarrow> json"
  sv_of_switches :: "switches_config \<Rightarrow> json"
  sv_of_sensors :: "sensors_config \<Rightarrow> json"
  sv_of_flow_alarm :: "flow_alarm_config \<Rightarrow> json"
  sv_of_schedule :: "schedule \<Rightarrow> json"
  sv_of_wireguard :: "wireguard_config \<Rightarrow> json"
  sv_of_webhooks :: "webhook_config list \<Rightarrow> json"

record ('s, 't, 'd, 'j) web_env =
  we_env :: "('s, 't, 'd) env"
  we_codec :: "'j config_codec"
  we_show :: "'j \<Rightarrow> string"
  we_debug :: "'j config_error \<Rightarrow> string"
  we_heap_free :: nat
  we_heap_used :: nat
  we_uptime_s :: u64
  we_snapshot_json :: "device_snapshot \<Rightarrow> string"
  we_outcome_json :: "command_outcome \<Rightarrow> string"
  we_switch :: "bytes \<Rightarrow> 'j + Device_State.switch_command"
  we_test :: "bytes \<Rightarrow> 'j + (event_kind \<times> vars)"
  we_value :: "bytes \<Rightarrow> 'j + json"
  we_to_value :: "config \<Rightarrow> json option"
  we_from_value :: "json \<Rightarrow> 'j + config"
  we_sections :: section_values

record ('s, 'd) app_state =
  as_app :: "('s, 'd) app"
  as_reboot :: bool

text \<open>\<open>Serialize for JsonView\<close>: which part of the configuration a view writes.\<close>

definition view_json :: "('s, 't, 'd, 'j) web_env \<Rightarrow> json_view \<Rightarrow> json option" where
  "view_json we view = (let sec = we_sections we in
    case view of
      FullConfig c \<Rightarrow> we_to_value we c
    | RedactedConfig c \<Rightarrow> we_to_value we c
    | SectionView c s \<Rightarrow> Some (case s of
        SWifi \<Rightarrow> sv_of_wifi sec (cf_wifi c)
      | SMqtt \<Rightarrow> sv_of_mqtt sec (cf_mqtt c)
      | SHttps \<Rightarrow> sv_of_https sec (cf_https c)
      | SSwitches \<Rightarrow> sv_of_switches sec (cf_switches c)
      | SSensors \<Rightarrow> sv_of_sensors sec (cf_sensors c)
      | SFlowAlarm \<Rightarrow> sv_of_flow_alarm sec (cf_flow_alarm c)
      | STimezone \<Rightarrow> JStr (cf_timezone c)
      | SSntpServers \<Rightarrow> JArr (map JStr (cf_sntp_servers c))
      | SSchedule \<Rightarrow> sv_of_schedule sec (cf_schedule c)
      | SWireguard \<Rightarrow> sv_of_wireguard sec (cf_wireguard c)
      | SAdminToken \<Rightarrow> JStr (cf_admin_token c)
      | SWebhooks \<Rightarrow> sv_of_webhooks sec (cf_webhooks c)))"

section \<open>Handlers\<close>

text \<open>The raw strings of the source, with \<open>quoted\<close> for their double quotes.\<close>

definition json_error :: "string \<Rightarrow> string" where
  "json_error msg = ''{'' @ quoted ''error'' @ '':'' @ quoted msg @ ''}''"

definition json_ok :: string where
  "json_ok = ''{'' @ quoted ''result'' @ '':'' @ quoted ''ok'' @ ''}''"

definition NOT_FOUND :: string where
  "NOT_FOUND = json_error ''unknown endpoint''"

definition diag_json :: "('s, 't, 'd, 'j) web_env \<Rightarrow> device_snapshot \<Rightarrow> string" where
  "diag_json we snap =
    (let min_free = (case min_free_heap_bytes (sn_diagnostics snap) of Some n \<Rightarrow> n | None \<Rightarrow> 0);
         reset = (case reset_reason (sn_diagnostics snap) of Some r \<Rightarrow> r | None \<Rightarrow> ''unknown'');
         free = we_heap_free we;
         used = we_heap_used we
     in ''{'' @ quoted ''uptime_s'' @ '':'' @ show_word (we_uptime_s we) @ '','' @ quoted ''heap'' @ '':{'' @
        quoted ''total_free_bytes'' @ '':'' @ show_nat free @ '','' @
        quoted ''total_used_bytes'' @ '':'' @ show_nat used @ '','' @
        quoted ''total_allocated_bytes'' @ '':'' @ show_nat used @ '','' @
        quoted ''capacity_bytes'' @ '':'' @ show_nat (free + used) @ '','' @
        quoted ''min_ever_free_bytes'' @ '':'' @ show_word min_free @ ''},'' @
        quoted ''reset_reason'' @ '':'' @ quoted reset @ '','' @ quoted ''fw'' @ '':'' @ quoted ''wc-nostd'' @ ''}'')"

definition api_get :: "('s, 't, 'd, 'j) web_env \<Rightarrow> string \<Rightarrow> ('s, 'd) app_state \<Rightarrow> bool \<Rightarrow> api_resp" where
  "api_get we seg st want_all =
    (if seg = ''diag'' then Json (diag_json we (app_snapshot (as_app st)))
     else if seg = ''status'' then Json (we_snapshot_json we (app_snapshot (as_app st)))
     else if seg = ''config'' then
       (let cfg = ap_config (as_app st) in
        if want_all then JsonStream (FullConfig cfg)
        else JsonStream (RedactedConfig (redact_secrets_for_api cfg)))
     else Json NOT_FOUND)"

definition state_save ::
    "('s, 't, 'd, 'j) web_env \<Rightarrow> config \<Rightarrow> ('s, 'd) app_state \<Rightarrow> ('s, 'd) app_state \<times> ('j config_error + unit)" where
  "state_save we cfg st = (case ap_nvs (as_app st) of
      None \<Rightarrow> (st, Inl (ENvs NotFound))
    | Some s \<Rightarrow> (let (s', r) = config_save (env_nvs (we_env we)) (we_codec we) cfg s
        in (st\<lparr>as_app := (as_app st)\<lparr>ap_nvs := Some s'\<rparr>\<rparr>, r)))"

definition save_then_replace ::
    "('s, 't, 'd, 'j) web_env \<Rightarrow> config \<Rightarrow> ('s, 'd) app_state \<Rightarrow> ('s, 'd) app_state \<times> string" where
  "save_then_replace we cfg st = (case state_save we cfg st of
      (st, Inl e) \<Rightarrow> (st, json_error (''nvs save failed: '' @ we_debug we e))
    | (st, Inr u) \<Rightarrow> (st\<lparr>as_app := replace_config (we_env we) (as_app st) cfg\<rparr>, json_ok))"

definition api_put ::
    "('s, 't, 'd, 'j) web_env \<Rightarrow> string \<Rightarrow> ('s, 'd) app_state \<Rightarrow> bytes \<Rightarrow> ('s, 'd) app_state \<times> string" where
  "api_put we seg st body =
    (if seg = ''config'' then
       (case cc_dec (we_codec we) body of
          Inr incoming \<Rightarrow> save_then_replace we (restore_secrets_from incoming (ap_config (as_app st))) st
        | Inl e \<Rightarrow> (st, json_error (''bad config json: '' @ we_show we e)))
     else (st, NOT_FOUND))"

definition api_post ::
    "('s, 't, 'd, 'j) web_env \<Rightarrow> string \<Rightarrow> ('s, 'd) app_state \<Rightarrow> bytes \<Rightarrow> ('s, 'd) app_state \<times> string" where
  "api_post we seg st body =
    (if seg = ''switch'' then
       (case we_switch we body of
          Inr cmd \<Rightarrow> (let (a, outcome) = App.switch_command (we_env we) (as_app st) cmd
            in (st\<lparr>as_app := a\<rparr>, we_outcome_json we outcome))
        | Inl e \<Rightarrow> (st, json_error (''bad switch command: '' @ we_show we e)))
     else if seg = ''factory_reset'' then
       (case ap_nvs (as_app st) of
          None \<Rightarrow> (st, json_error (''erase failed: '' @ we_debug we (ENvs NotFound)))
        | Some s \<Rightarrow> (case config_factory_reset (env_nvs (we_env we)) s of
            (s', Inl e) \<Rightarrow> (st\<lparr>as_app := (as_app st)\<lparr>ap_nvs := Some s'\<rparr>\<rparr>,
              json_error (''erase failed: '' @ we_debug we e))
          | (s', Inr u) \<Rightarrow> (st\<lparr>as_app := (as_app st)\<lparr>ap_nvs := Some s'\<rparr>, as_reboot := True\<rparr>,
              ''{'' @ quoted ''result'' @ '':'' @ quoted ''ok'' @ '','' @
              quoted ''detail'' @ '':'' @ quoted ''rebooting'' @ ''}'')))
     else (st, NOT_FOUND))"

definition wifi_get :: "string \<Rightarrow> string" where
  "wifi_get action = (if action = ''scan'' then ''{'' @ quoted ''networks'' @ '':[]}'' else NOT_FOUND)"

definition wifi_post :: "string \<Rightarrow> api_resp" where
  "wifi_post action = (if action = ''reconnect'' then NoContent else Json NOT_FOUND)"

definition alarm_post ::
    "('s, 't, 'd, 'j) web_env \<Rightarrow> string \<Rightarrow> ('s, 'd) app_state \<Rightarrow> ('s, 'd) app_state \<times> api_resp" where
  "alarm_post we action st =
    (if action = ''clear'' then (st\<lparr>as_app := clear_flow_alarm (we_env we) (as_app st)\<rparr>, NoContent)
     else (st, Json NOT_FOUND))"

definition webhooks_post ::
    "('s, 't, 'd, 'j) web_env \<Rightarrow> string \<Rightarrow> ('s, 'd) app_state \<Rightarrow> bytes \<Rightarrow> ('s, 'd) app_state \<times> string" where
  "webhooks_post we action st body =
    (if action \<noteq> ''test'' then (st, NOT_FOUND)
     else case we_test we body of
       Inr (kind, vs) \<Rightarrow>
         (st\<lparr>as_app := emit_event (we_env we) (as_app st) ((event_new kind)\<lparr>we_vars := vs\<rparr>)\<rparr>, json_ok)
     | Inl e \<Rightarrow> (st, json_error (''bad json: '' @ we_show we e)))"

definition config_section_get :: "string \<Rightarrow> ('s, 'd) app_state \<Rightarrow> api_resp" where
  "config_section_get sec st = (case section_parse sec of
      Some s \<Rightarrow> JsonStream (SectionView (redact_secrets_for_api (ap_config (as_app st))) s)
    | None \<Rightarrow> Json (json_error ''unknown config section''))"

definition config_section_put ::
    "('s, 't, 'd, 'j) web_env \<Rightarrow> string \<Rightarrow> ('s, 'd) app_state \<Rightarrow> bytes \<Rightarrow> ('s, 'd) app_state \<times> string" where
  "config_section_put we sec st body = (case we_value we body of
      Inl e \<Rightarrow> (st, json_error (''bad json: '' @ we_show we e))
    | Inr incoming \<Rightarrow> (case we_to_value we (ap_config (as_app st)) of
      None \<Rightarrow> (st, json_error ''config serialize failed'')
    | Some full \<Rightarrow> (case full of
      JObj fs \<Rightarrow> (case map_of fs sec of
          None \<Rightarrow> (st, json_error ''unknown config section'')
        | Some target \<Rightarrow>
            (case we_from_value we (JObj (bm_insert sec (merge_json target incoming) fs)) of
              Inl e \<Rightarrow> (st, json_error (''invalid config: '' @ we_show we e))
            | Inr cfg \<Rightarrow> save_then_replace we (restore_secrets_from cfg (ap_config (as_app st))) st))
    | _ \<Rightarrow> (st, json_error ''unknown config section''))))"

section \<open>The merge\<close>

text \<open>What the merge is meant to be: field by field, blank strings skipped.\<close>

definition merged :: "json option \<Rightarrow> json option \<Rightarrow> json option" where
  "merged old new = (case new of
      None \<Rightarrow> old
    | Some v \<Rightarrow> if v = JStr [] then old
        else (case old of Some tv \<Rightarrow> Some (merge_json tv v) | None \<Rightarrow> Some v))"

lemma merge_fields_lookup:
  "distinct (map fst fs) \<Longrightarrow> map_of (merge_fields t fs) k = merged (map_of t k) (map_of fs k)"
proof (induction fs arbitrary: t)
  case (Cons f rest)
  obtain k' v where f: "f = (k', v)" by fastforce
  have new: "map_of rest k' = None" using Cons.prems f by (simp add: map_of_eq_None_iff)
  have IH: "map_of (merge_fields t' rest) k = merged (map_of t' k) (map_of rest k)" for t'
    using Cons by simp
  show ?case
  proof (cases "k' = k")
    case True
    show ?thesis
      using new unfolding f True by (auto simp: IH merged_def split: option.split)
  next
    case False
    then show ?thesis by (auto simp: f IH merged_def split: option.split)
  qed
qed (simp add: merged_def)

lemma merge_fields_ok: "bm_ok t \<Longrightarrow> bm_ok (merge_fields t fs)"
  by (induction fs arbitrary: t) (auto split: option.split)

text \<open>\<open>redacted t v\<close>: \<open>v\<close> is \<open>t\<close> with some string fields of its objects blanked, the arrays untouched.\<close>

inductive redacted :: "json \<Rightarrow> json \<Rightarrow> bool" where
  same: "redacted t t"
| obj: "map fst fs = map fst t \<Longrightarrow> distinct (map fst t) \<Longrightarrow>
     (\<And>k v. map_of fs k = Some v \<Longrightarrow> v = JStr [] \<or> redacted (the (map_of t k)) v) \<Longrightarrow> redacted (JObj t) (JObj fs)"

inductive_cases redacted_obj: "redacted (JObj t) v"

lemma bm_insert_same: "bm_ok m \<Longrightarrow> map_of m k = Some v \<Longrightarrow> bm_insert k v m = m"
proof (induction m)
  case (Cons e m)
  obtain k' v' where e: "e = (k', v')" by fastforce
  show ?case
  proof (cases "k = k'")
    case False
    with Cons.prems e have m: "bm_ok m" "map_of m k = Some v" by (auto simp: bm_ok_def)
    then have "k' < k"
      using Cons.prems(1) e by (auto simp: bm_ok_def dest!: map_of_SomeD)
    with m Cons.IH show ?thesis by (auto simp: e)
  qed (use Cons.prems e in auto)
qed simp

text \<open>Every object in the value is an ordered map, as the library builds them.\<close>

fun ordered :: "json \<Rightarrow> bool" where
  "ordered (JObj t) \<longleftrightarrow> bm_ok t \<and> list_all (\<lambda>(k, v). ordered v) t"
| "ordered v \<longleftrightarrow> True"

lemma merge_fields_unchanged:
  assumes "bm_ok t"
    and "\<And>k v. (k, v) \<in> set fs \<Longrightarrow> v = JStr [] \<and> map_of t k \<noteq> None \<or> (\<exists>tv. map_of t k = Some tv \<and> merge_json tv v = tv)"
  shows "merge_fields t fs = t"
  using assms(2)
proof (induction fs)
  case (Cons f rest)
  obtain k v where f: "f = (k, v)" by fastforce
  have rest: "merge_fields t rest = t" using Cons by simp
  from Cons.prems [of k v] f show ?case
    by (auto simp: rest bm_insert_same [OF assms(1)])
qed simp

lemma map_of_same_keys:
  "map fst fs = map fst t \<Longrightarrow> distinct (map fst t) \<Longrightarrow> (k, v) \<in> set fs \<Longrightarrow>
     map_of fs k = Some v \<and> (\<exists>tv. map_of t k = Some tv \<and> (k, tv) \<in> set t)"
proof -
  assume *: "map fst fs = map fst t" "distinct (map fst t)" "(k, v) \<in> set fs"
  then have "map_of fs k = Some v" by simp
  moreover from * have "k \<in> fst ` set t" by (metis image_eqI list.set_map fst_conv)
  then obtain tv where "map_of t k = Some tv" by (metis map_of_eq_None_iff option.exhaust)
  ultimately show ?thesis by (auto dest: map_of_SomeD)
qed

lemma merge_same: "ordered t \<Longrightarrow> merge_json t t = t"
proof (induction t)
  case (JObj t)
  have "merge_fields t t = t"
  proof (rule merge_fields_unchanged)
    show "bm_ok t" using JObj.prems by simp
    fix k v assume "(k, v) \<in> set t"
    moreover from this have "merge_json v v = v"
      using JObj by (auto simp: list_all_iff)
    ultimately show "v = JStr [] \<and> map_of t k \<noteq> None \<or> (\<exists>tv. map_of t k = Some tv \<and> merge_json tv v = tv)"
      using bm_ok_distinct [of t] JObj.prems by auto
  qed
  then show ?case by (simp add: merge_json.simps)
qed (simp_all add: merge_json.simps)

text \<open>Saving a section that was read redacted changes nothing: for any JSON object and any copy of
  it in which string fields of (nested) objects have been blanked, the merge of the copy into the
  original gives back the original, however deep the blanks are.\<close>

theorem merge_redacted_section:
  assumes "redacted t v" "ordered t"
  shows "merge_json t v = t"
  using assms
proof (induction rule: redacted.induct)
  case (same t)
  then show ?case by (rule merge_same)
next
  case (obj fs t)
  have "merge_fields t fs = t"
  proof (rule merge_fields_unchanged)
    show "bm_ok t" using obj.prems by simp
    fix k v assume "(k, v) \<in> set fs"
    then obtain tv where *: "map_of fs k = Some v" "map_of t k = Some tv" "(k, tv) \<in> set t"
      using map_of_same_keys [OF obj.hyps(1,2)] by blast
    then have "ordered tv" using obj.prems by (auto simp: list_all_iff)
    with obj.IH [OF *(1)] *(1,2) show "v = JStr [] \<and> map_of t k \<noteq> None \<or> (\<exists>tv. map_of t k = Some tv \<and> merge_json tv v = tv)"
      by auto
  qed
  then show ?case by (simp add: merge_json.simps)
qed

lemma merge_redacted_section_witness:
  "merge_json (JObj [(''a'', JNum ''1''), (''b'', JObj [(''key'', JStr ''s'')])])
     (JObj [(''a'', JNum ''1''), (''b'', JObj [(''key'', JStr [])])]) =
   JObj [(''a'', JNum ''1''), (''b'', JObj [(''key'', JStr ''s'')])]"
proof (rule merge_redacted_section)
  have "redacted (JObj [(''key'', JStr ''s'')]) (JObj [(''key'', JStr [])])"
    by (rule obj) (auto split: if_splits)
  then show "redacted (JObj [(''a'', JNum ''1''), (''b'', JObj [(''key'', JStr ''s'')])])
      (JObj [(''a'', JNum ''1''), (''b'', JObj [(''key'', JStr [])])])"
    by (intro obj) (auto split: if_splits intro: same)
qed (simp add: bm_ok_def)

section \<open>Writing the configuration\<close>

lemma json_error_not_ok [simp]: "json_error m \<noteq> json_ok"
  by (simp add: json_error_def json_ok_def quoted_def)

lemma NOT_FOUND_not_ok [simp]: "NOT_FOUND \<noteq> json_ok"
  by (simp add: NOT_FOUND_def)

definition write_shape ::
    "('s, 't, 'd, 'j) web_env \<Rightarrow> ('s, 'd) app_state \<Rightarrow> ('s, 'd) app_state \<times> string \<Rightarrow> bool" where
  "write_shape we st x \<longleftrightarrow> (fst x = st \<and> snd x \<noteq> json_ok) \<or>
     (\<exists>cfg. x = save_then_replace we (restore_secrets_from cfg (ap_config (as_app st))) st)"

lemma write_shapes: "write_shape we st (api_put we seg st body)" "write_shape we st (config_section_put we sec st body)"
  by (auto simp: write_shape_def api_put_def config_section_put_def split: sum.split option.split json.split)

text \<open>C21. Both writing routes, of the whole configuration and of one section, are durable when they
  answer \<open>ok\<close> and void otherwise. After an \<open>ok\<close> the store holds exactly the configuration the
  application now runs with, which carries the stored secrets wherever the client sent blanks;
  after any other answer the application is unchanged apart from what a failed save did to the
  store.\<close>

theorem nostd_writes_durable:
  assumes "nvs_store (env_nvs (we_env we)) ok" "ap_nvs (as_app st) = Some s" "ok s"
    and "api_put we seg st body = (st', r) \<or> config_section_put we seg st body = (st', r)"
    and "\<And>bs. cc_enc (we_codec we) (ap_config (as_app st')) = Inr bs \<Longrightarrow>
           cc_dec (we_codec we) bs = Inr (ap_config (as_app st'))"
  shows "\<exists>s'. ap_nvs (as_app st') = Some s' \<and> ok s' \<and>
    (if r = json_ok
     then config_load (env_nvs (we_env we)) (we_codec we) dflt s' = Inr (ap_config (as_app st')) \<and>
       (\<exists>cfg. ap_config (as_app st') = restore_secrets_from cfg (ap_config (as_app st)))
     else as_app st' = (as_app st)\<lparr>ap_nvs := Some s'\<rparr>)"
proof -
  let ?ops = "env_nvs (we_env we)"
  from assms(4) have "write_shape we st (st', r)" by (metis write_shapes)
  then consider "st' = st" "r \<noteq> json_ok"
    | cfg where "save_then_replace we (restore_secrets_from cfg (ap_config (as_app st))) st = (st', r)"
    by (auto simp: write_shape_def)
  then show ?thesis
  proof cases
    case 1
    with assms(2,3) show ?thesis by auto
  next
    case (2 cfg)
    let ?c = "restore_secrets_from cfg (ap_config (as_app st))"
    obtain s' x where x: "config_save ?ops (we_codec we) ?c s = (s', x)" by fastforce
    have ok: "ok s'" using nvs_store.save_keeps_ok [OF assms(1,3), of "we_codec we" ?c] x by simp
    show ?thesis
    proof (cases x)
      case (Inl e)
      with 2 x assms(2) have "as_app st' = (as_app st)\<lparr>ap_nvs := Some s'\<rparr>" "r \<noteq> json_ok"
        by (auto simp: save_then_replace_def state_save_def)
      with ok show ?thesis by simp
    next
      case (Inr u)
      with 2 x assms(2) have new: "ap_config (as_app st') = ?c" "ap_nvs (as_app st') = Some s'" "r = json_ok"
        by (auto simp: save_then_replace_def state_save_def replace_config_def)
      have "config_load ?ops (we_codec we) dflt s' = Inr ?c"
        using assms(5) new(1) Inr x by (intro nvs_store.save_load [OF assms(1,3)]) simp_all
      with ok new show ?thesis by auto
    qed
  qed
qed

definition sample_web_env :: "config \<Rightarrow> (fake_nvs, int, webhook_event list, unit) web_env" where
  "sample_web_env c =
     \<lparr>we_env = sample_env (\<lambda>_. 0), we_codec = constant_codec c, we_show = (\<lambda>_. []), we_debug = (\<lambda>_. []),
      we_heap_free = 0, we_heap_used = 0, we_uptime_s = 0, we_snapshot_json = (\<lambda>_. []),
      we_outcome_json = (\<lambda>_. []), we_switch = (\<lambda>_. Inl ()), we_test = (\<lambda>_. Inl ()), we_value = (\<lambda>_. Inl ()),
      we_to_value = (\<lambda>_. None), we_from_value = (\<lambda>_. Inl ()),
      we_sections = \<lparr>sv_of_wifi = (\<lambda>_. JNull), sv_of_mqtt = (\<lambda>_. JNull), sv_of_https = (\<lambda>_. JNull),
        sv_of_switches = (\<lambda>_. JNull), sv_of_sensors = (\<lambda>_. JNull), sv_of_flow_alarm = (\<lambda>_. JNull),
        sv_of_schedule = (\<lambda>_. JNull), sv_of_wireguard = (\<lambda>_. JNull), sv_of_webhooks = (\<lambda>_. JNull)\<rparr>\<rparr>"

definition sample_app_state :: "config \<Rightarrow> (fake_nvs, webhook_event list) app_state" where
  "sample_app_state c =
     \<lparr>as_app = app_with_nvs (sample_env (\<lambda>_. 0)) c (Some fake_nvs_new), as_reboot = False\<rparr>"

lemma sample_put:
  "ap_config (as_app (fst (api_put (sample_web_env sample_config) ''config'' (sample_app_state sample_config) []))) =
     sample_config"
  by (simp add: api_put_def sample_web_env_def sample_app_state_def constant_codec_def save_then_replace_def
      state_save_def app_with_nvs_def replace_config_def Let_def split: prod.split sum.split)

lemma nostd_writes_durable_witness:
  "\<exists>s'. ap_nvs (as_app (fst (api_put (sample_web_env sample_config) ''config'' (sample_app_state sample_config) []))) = Some s'"
proof -
  let ?x = "api_put (sample_web_env sample_config) ''config'' (sample_app_state sample_config) []"
  have env: "we_codec (sample_web_env sample_config) = constant_codec sample_config"
    "env_nvs (we_env (sample_web_env sample_config)) = fake_nvs_ops"
    "ap_nvs (as_app (sample_app_state sample_config)) = Some fake_nvs_new"
    by (simp_all add: sample_web_env_def sample_app_state_def app_with_nvs_def Let_def)
  note w = nostd_writes_durable [of "sample_web_env sample_config" "\<lambda>_. True"
      "sample_app_state sample_config" fake_nvs_new "''config''" "[]" "fst ?x" "snd ?x" sample_config]
  show ?thesis
    by (rule exE [OF w], simp_all add: env fake_nvs_store sample_put, simp add: constant_codec_def)
qed

end
