(* ===== verification/Wifi_Supervisor.thy ===== *)
theory Wifi_Supervisor
  imports Device_State Captive_Net
begin

text \<open>
  The WiFi supervisor of the ESP-IDF firmware, \<open>crates/firmware/src/net_wifi.rs\<close>, and the task that
  mirrors its state into the application, \<open>spawn_wifi_state_mirror\<close> of \<open>crates/firmware/src/main.rs\<close>.

  \<^item> The supervisor thread is a state machine: \<open>sup_pc\<close> is the place in \<open>run\<close> and the loops it calls,
    one \<open>sup_step\<close> goes to the next place where the thread sleeps or another thread can take one of
    the locks it has just released. The calls of the \<open>Wifi\<close> trait and the callback of the event loop
    are the other events; a run is a list of events in any order.
  \<^item> The driver is third-party: \<open>radio_ops\<close>, functions on a state \<open>'r\<close> that evolves with every call,
    so that two calls may answer differently. A failed call is \<open>False\<close> or \<open>Inl\<close>.
\<close>

section \<open>The driver\<close>

type_synonym ipv4 = bytes

datatype auth_method =
  AuthNone | AuthWEP | AuthWPA | AuthWPA2Personal | AuthWPAWPA2Personal | AuthWPA2Enterprise
  | AuthWPA3Personal | AuthWPA2WPA3Personal | AuthOther

datatype radio_config =
    ClientConf string string auth_method
  | ApConf string string auth_method

record access_point =
  ac_ssid :: string
  ac_signal :: i8
  ac_auth :: "auth_method option"
  ac_channel :: u8

record ip_info =
  ii_ip :: ipv4
  ii_gateway :: ipv4

datatype tcp_result = TcpOk | TcpRefused | TcpOther

record 'r radio_ops =
  ra_ssid_cap :: nat
  ra_password_cap :: nat
  ra_is_started :: "'r \<Rightarrow> 'r \<times> bool option"
  ra_stop :: "'r \<Rightarrow> 'r"
  ra_configure :: "'r \<Rightarrow> radio_config \<Rightarrow> 'r \<times> bool"
  ra_start :: "'r \<Rightarrow> 'r \<times> bool"
  ra_connect :: "'r \<Rightarrow> 'r \<times> bool"
  ra_is_connected :: "'r \<Rightarrow> 'r \<times> bool option"
  ra_ip_info :: "'r \<Rightarrow> 'r \<times> ip_info option"
  ra_scan :: "'r \<Rightarrow> 'r \<times> (string + access_point list)"
  ra_ap_info :: "'r \<Rightarrow> 'r \<times> i8 option"
  ra_tcp_connect :: "'r \<Rightarrow> ipv4 \<Rightarrow> 'r \<times> tcp_result"
  ra_ip_string :: "ipv4 \<Rightarrow> string"

definition ok_or_false :: "bool option \<Rightarrow> bool" where
  "ok_or_false x = (case x of Some b \<Rightarrow> b | None \<Rightarrow> False)"

section \<open>The shared state and the trait\<close>

record supervisor =
  su_state :: wifi_state
  su_networks :: "wifi_creds list"
  su_rescan :: bool
  su_scan_slot :: "nat option"
  su_scan_reply :: "(nat \<times> (string + wifi_scan_result list)) list"
  su_beacon_timeout :: bool
  su_ap_ssid :: string
  su_ap_password :: string

definition sup_new :: "string \<Rightarrow> string \<Rightarrow> wifi_creds list \<Rightarrow> supervisor" where
  "sup_new ssid password initial =
     \<lparr>su_state = Disconnected, su_networks = initial, su_rescan = True, su_scan_slot = None,
      su_scan_reply = [], su_beacon_timeout = False, su_ap_ssid = ssid, su_ap_password = password\<rparr>"

definition set_state :: "supervisor \<Rightarrow> wifi_state \<Rightarrow> supervisor" where
  "set_state s st = s\<lparr>su_state := st\<rparr>"

definition sup_connect :: "supervisor \<Rightarrow> wifi_creds list \<Rightarrow> supervisor" where
  "sup_connect s networks =
    (let cur = su_networks s;
         same = (length cur = length networks \<and> list_all (\<lambda>(a, b). a = b) (zip cur networks));
         s = (if \<not> same then s\<lparr>su_networks := networks\<rparr> else s)
     in if \<not> same then s\<lparr>su_rescan := True\<rparr> else s)"

definition sup_reconnect :: "supervisor \<Rightarrow> supervisor" where
  "sup_reconnect s = s\<lparr>su_rescan := True\<rparr>"

text \<open>\<open>scan\<close> installs a request and waits: its two halves, before the wait and after it. A request is a
  fresh channel of capacity one, here a number; the slot holds its sender, \<open>su_scan_reply\<close> what was sent.\<close>

definition sup_scan_begin :: "supervisor \<Rightarrow> nat \<Rightarrow> supervisor \<times> string option" where
  "sup_scan_begin s tx =
    (if su_scan_slot s \<noteq> None then (s, Some ''scan already in flight'')
     else (s\<lparr>su_scan_slot := Some tx\<rparr>, None))"

definition sup_scan_end :: "supervisor \<Rightarrow> nat \<Rightarrow> supervisor \<times> (string + wifi_scan_result list)" where
  "sup_scan_end s tx = (case map_of (su_scan_reply s) tx of
      Some r \<Rightarrow> (s, r)
    | None \<Rightarrow> (s\<lparr>su_scan_slot := None\<rparr>, Inl ''scan timed out''))"

section \<open>Station and access point\<close>

definition zero_ip :: ipv4 where
  "zero_ip = [0, 0, 0, 0]"

fun poll_ip :: "nat \<Rightarrow> 'r radio_ops \<Rightarrow> 'r \<Rightarrow> 'r \<times> bool" where
  "poll_ip 0 ops r = (r, False)"
| "poll_ip (Suc n) ops r = (case ra_ip_info ops r of
      (r, Some info) \<Rightarrow> if ii_ip info \<noteq> zero_ip then (r, True) else poll_ip n ops r
    | (r, None) \<Rightarrow> poll_ip n ops r)"

fun wait_for_ip :: "'r radio_ops \<Rightarrow> nat \<Rightarrow> 'r \<Rightarrow> 'r \<times> (string + unit)" where
  "wait_for_ip ops 0 r = (r, Inl ''no link'')"
| "wait_for_ip ops (Suc secs) r =
    (let (r, c) = ra_is_connected ops r in
     if ok_or_false c then
       (let (r, got) = poll_ip 10 ops r in (r, if got then Inr () else Inl ''DHCP timed out''))
     else wait_for_ip ops secs r)"

definition STA_CONNECT_TIMEOUT_S :: nat where
  "STA_CONNECT_TIMEOUT_S = 12"

definition stop_if_started :: "'r radio_ops \<Rightarrow> 'r \<Rightarrow> 'r" where
  "stop_if_started ops r = (let (r, b) = ra_is_started ops r in if ok_or_false b then ra_stop ops r else r)"

definition try_connect_sta :: "'r radio_ops \<Rightarrow> 'r \<Rightarrow> wifi_creds \<Rightarrow> 'r \<times> (string + unit)" where
  "try_connect_sta ops r creds =
    (if ra_ssid_cap ops < length (wc_ssid creds) then (r, Inl ''ssid too long'')
     else if ra_password_cap ops < length (wc_password creds) then (r, Inl ''password too long'')
     else let auth = (if wc_password creds = [] then AuthNone else AuthWPA2Personal);
              r = stop_if_started ops r;
              (r, ok1) = ra_configure ops r (ClientConf (wc_ssid creds) (wc_password creds) auth)
       in if \<not> ok1 then (r, Inl ''set_configuration'')
          else let (r, ok2) = ra_start ops r in
            if \<not> ok2 then (r, Inl ''start'')
            else let (r, ok3) = ra_connect ops r in
              if \<not> ok3 then (r, Inl ''connect'')
              else wait_for_ip ops STA_CONNECT_TIMEOUT_S r)"

definition start_ap :: "'r radio_ops \<Rightarrow> 'r \<Rightarrow> string \<Rightarrow> string \<Rightarrow> 'r \<times> bool" where
  "start_ap ops r ssid password =
    (if ra_ssid_cap ops < length ssid \<or> ra_password_cap ops < length password then (r, False)
     else let auth = (if password = [] then AuthNone else AuthWPA2Personal);
              r = stop_if_started ops r;
              (r, ok1) = ra_configure ops r (ApConf ssid password auth)
       in if \<not> ok1 then (r, False) else ra_start ops r)"

definition ip_string :: "'r radio_ops \<Rightarrow> 'r \<Rightarrow> 'r \<times> string" where
  "ip_string ops r = (case ra_ip_info ops r of
      (r, Some info) \<Rightarrow> (r, ra_ip_string ops (ii_ip info))
    | (r, None) \<Rightarrow> (r, ''0.0.0.0''))"

definition announce_connected :: "'r radio_ops \<Rightarrow> supervisor \<Rightarrow> 'r \<Rightarrow> string \<Rightarrow> supervisor \<times> 'r" where
  "announce_connected ops s r ssid =
    (let (r, ip) = ip_string ops r;
         s = s\<lparr>su_beacon_timeout := False\<rparr>
     in (set_state s (Connected ssid ip), r))"

fun try_connect_any ::
    "'r radio_ops \<Rightarrow> supervisor \<Rightarrow> 'r \<Rightarrow> wifi_creds list \<Rightarrow> supervisor \<times> 'r \<times> bool" where
  "try_connect_any ops s r [] = (s, r, False)"
| "try_connect_any ops s r (creds # rest) =
    (let s = set_state s (Connecting (wc_ssid creds)) in
     case try_connect_sta ops r creds of
       (r, Inr u) \<Rightarrow> (let (s, r) = announce_connected ops s r (wc_ssid creds) in (s, r, True))
     | (r, Inl e) \<Rightarrow> try_connect_any ops s r rest)"

definition enter_ap_mode :: "'r radio_ops \<Rightarrow> supervisor \<Rightarrow> 'r \<Rightarrow> supervisor \<times> 'r" where
  "enter_ap_mode ops s r =
    (let (r, ok) = start_ap ops r (su_ap_ssid s) (su_ap_password s) in
     (if ok then set_state s (ApMode (su_ap_ssid s) ''192.168.4.1'') else s, r))"

section \<open>Scans and probes\<close>

fun auth_label :: "auth_method option \<Rightarrow> string" where
  "auth_label None = ''unknown''"
| "auth_label (Some AuthNone) = ''open''"
| "auth_label (Some AuthWEP) = ''wep''"
| "auth_label (Some AuthWPA) = ''wpa''"
| "auth_label (Some AuthWPA2Personal) = ''wpa2''"
| "auth_label (Some AuthWPAWPA2Personal) = ''wpa2''"
| "auth_label (Some AuthWPA2Enterprise) = ''wpa2-ent''"
| "auth_label (Some AuthWPA3Personal) = ''wpa3''"
| "auth_label (Some AuthWPA2WPA3Personal) = ''wpa3''"
| "auth_label (Some AuthOther) = ''unknown''"

definition scan_result_of :: "access_point \<Rightarrow> wifi_scan_result" where
  "scan_result_of ap = \<lparr>ws_ssid = ac_ssid ap, ws_rssi_dbm = ac_signal ap, ws_auth = auth_label (ac_auth ap),
     ws_channel = ac_channel ap\<rparr>"

definition serve_scan_request :: "'r radio_ops \<Rightarrow> supervisor \<Rightarrow> 'r \<Rightarrow> supervisor \<times> 'r" where
  "serve_scan_request ops s r = (case su_scan_slot s of
      None \<Rightarrow> (s, r)
    | Some tx \<Rightarrow>
        let s = s\<lparr>su_scan_slot := None\<rparr>; (r, res) = ra_scan ops r in
        (s\<lparr>su_scan_reply := su_scan_reply s @ [(tx, case res of
            Inr aps \<Rightarrow> Inr (map scan_result_of aps)
          | Inl e \<Rightarrow> Inl (''scan failed: '' @ e))]\<rparr>, r))"

definition known_ssid_visible :: "'r radio_ops \<Rightarrow> supervisor \<Rightarrow> 'r \<Rightarrow> 'r \<times> bool" where
  "known_ssid_visible ops s r =
    (let saved = su_networks s in
     if saved = [] then (r, False)
     else case ra_scan ops r of
       (r, Inl e) \<Rightarrow> (r, False)
     | (r, Inr aps) \<Rightarrow> (r, list_ex (\<lambda>ap. list_ex (\<lambda>n. ac_ssid ap = wc_ssid n) saved) aps))"

definition gateway_reachable :: "'r radio_ops \<Rightarrow> 'r \<Rightarrow> 'r \<times> bool" where
  "gateway_reachable ops r = (case ra_ip_info ops r of
      (r, None) \<Rightarrow> (r, True)
    | (r, Some info) \<Rightarrow>
        if ii_gateway info = zero_ip then (r, True)
        else (let (r, t) = ra_tcp_connect ops r (ii_gateway info) in (r, t \<noteq> TcpOther)))"

definition probe_link :: "'r radio_ops \<Rightarrow> 'r \<Rightarrow> u32 \<Rightarrow> 'r \<times> u32 \<times> bool" where
  "probe_link ops r probe_fails =
    (let (r, info) = ra_ap_info ops r;
         assoc_ok = (info \<noteq> None);
         (r, gateway_ok) = (if assoc_ok then gateway_reachable ops r else (r, False))
     in if assoc_ok \<and> gateway_ok then (r, 0, True)
        else let n = probe_fails + 1 in (r, n, \<not> 3 \<le> n))"

text \<open>One round of the loop of \<open>run_ap_fallback\<close>, which no code calls; \<open>None\<close>: the loop is left.\<close>

definition ap_fallback_round ::
    "'r radio_ops \<Rightarrow> nat \<Rightarrow> supervisor \<Rightarrow> 'r \<Rightarrow> nat option \<times> supervisor \<times> 'r" where
  "ap_fallback_round ops waited s r =
    (if su_rescan s then (None, s, ra_stop ops r)
     else let (s, r) = serve_scan_request ops s r; waited = waited + 2 in
       if 30 \<le> waited then
         (let (r, visible) = known_ssid_visible ops s r in
          if visible then (None, s, ra_stop ops r) else (Some 0, s, r))
       else (Some waited, s, r))"

section \<open>The thread\<close>

text \<open>\<open>PTop\<close>: about to copy the list. \<open>PClear\<close>: the list is copied, the rescan flag not yet cleared.
  \<open>PTry\<close>: about to try the networks. \<open>PConn\<close>, \<open>PProbe\<close>: head of the connected loop, and behind its
  sleep. \<open>PAp\<close>: head of the loop of the permanent access point.\<close>

datatype sup_pc =
  PTop | PClear "wifi_creds list" | PTry "wifi_creds list" | PConn u32 u32 | PProbe u32 u32 | PAp

definition connected_head :: "'r radio_ops \<Rightarrow> u32 \<Rightarrow> u32 \<Rightarrow> supervisor \<Rightarrow> 'r \<Rightarrow> sup_pc \<times> supervisor \<times> 'r" where
  [simp]: "connected_head ops probe_fails tk s r =
    (let (r, c) = ra_is_connected ops r in
     if \<not> ok_or_false c then (PTop, s, r)
     else if su_beacon_timeout s then (PTop, s\<lparr>su_beacon_timeout := False\<rparr>, r)
     else let (s, r) = serve_scan_request ops s r in
       if su_rescan s then (PTop, s, r) else (PProbe probe_fails (tk + 1), s, r))"

definition connected_probe :: "'r radio_ops \<Rightarrow> u32 \<Rightarrow> u32 \<Rightarrow> supervisor \<Rightarrow> 'r \<Rightarrow> sup_pc \<times> supervisor \<times> 'r" where
  [simp]: "connected_probe ops probe_fails tk s r =
    (if tk mod 12 = 0 then
       (let (r, probe_fails, alive) = probe_link ops r probe_fails in
        if \<not> alive then (PTop, s, r) else (PConn probe_fails tk, s, r))
     else (PConn probe_fails tk, s, r))"

definition ap_permanent_round :: "'r radio_ops \<Rightarrow> supervisor \<Rightarrow> 'r \<Rightarrow> sup_pc \<times> supervisor \<times> 'r" where
  [simp]: "ap_permanent_round ops s r =
    (if su_rescan s then (PTop, s, ra_stop ops r)
     else let (s, r) = serve_scan_request ops s r in (PAp, s, r))"

fun sup_step :: "'r radio_ops \<Rightarrow> sup_pc \<times> supervisor \<times> 'r \<Rightarrow> sup_pc \<times> supervisor \<times> 'r" where
  "sup_step ops (PTop, s, r) = (PClear (su_networks s), s, r)"
| "sup_step ops (PClear networks, s, r) = (PTry networks, s\<lparr>su_rescan := False\<rparr>, r)"
| "sup_step ops (PTry networks, s, r) =
    (let (s, r, connected) = try_connect_any ops s r networks in
     if connected then (PConn 0 0, s, r)
     else if networks \<noteq> [] then (PTop, s, r)
     else let (s, r) = enter_ap_mode ops s r in (PAp, s, r))"
| "sup_step ops (PConn probe_fails tk, s, r) = connected_head ops probe_fails tk s r"
| "sup_step ops (PProbe probe_fails tk, s, r) = connected_probe ops probe_fails tk s r"
| "sup_step ops (PAp, s, r) = ap_permanent_round ops s r"

text \<open>The events: a step of the thread, the trait calls, the callback of the event loop.\<close>

datatype sup_event = EThread | EConnect "wifi_creds list" | EReconnect | EScanBegin nat | EScanEnd nat | EBeacon

fun sup_handle :: "'r radio_ops \<Rightarrow> sup_pc \<times> supervisor \<times> 'r \<Rightarrow> sup_event \<Rightarrow> sup_pc \<times> supervisor \<times> 'r" where
  "sup_handle ops x EThread = sup_step ops x"
| "sup_handle ops (pc, s, r) (EConnect l) = (pc, sup_connect s l, r)"
| "sup_handle ops (pc, s, r) EReconnect = (pc, sup_reconnect s, r)"
| "sup_handle ops (pc, s, r) (EScanBegin tx) = (pc, fst (sup_scan_begin s tx), r)"
| "sup_handle ops (pc, s, r) (EScanEnd tx) = (pc, fst (sup_scan_end s tx), r)"
| "sup_handle ops (pc, s, r) EBeacon = (pc, s\<lparr>su_beacon_timeout := True\<rparr>, r)"

section \<open>The mirror task\<close>

text \<open>\<open>ip.parse().ok()\<close>, the parser of the standard library for a dotted address: four decimal fields
  of one to three digits, no leading zero, at most 255.\<close>

definition parse_octet :: "string \<Rightarrow> u8 option" where
  "parse_octet f =
    (if f \<noteq> [] \<and> length f \<le> 3 \<and> list_all is_digit f \<and> (length f = 1 \<or> hd f \<noteq> CHR ''0'') \<and> digits_val f \<le> 255
     then Some (of_nat (digits_val f)) else None)"

definition parse_ip :: "string \<Rightarrow> ipv4 option" where
  "parse_ip t = (case map parse_octet (split_char (CHR ''.'') t) of
      [Some a, Some b, Some c, Some d] \<Rightarrow> Some [a, b, c, d]
    | _ \<Rightarrow> None)"

definition redirect_of :: "wifi_state \<Rightarrow> ipv4 option" where
  "redirect_of st = (case st of ApMode ssid ip \<Rightarrow> parse_ip ip | _ \<Rightarrow> None)"

definition mirror_wifi :: "wifi_state \<Rightarrow> device_snapshot \<Rightarrow> device_snapshot" where
  "mirror_wifi st s = s\<lparr>sn_network := (sn_network s)\<lparr>net_wifi := Some st\<rparr>\<rparr>"

section \<open>Lemmas\<close>

definition sup_run :: "'r radio_ops \<Rightarrow> sup_pc \<times> supervisor \<times> 'r \<Rightarrow> sup_event list \<Rightarrow> sup_pc \<times> supervisor \<times> 'r" where
  "sup_run ops x es = foldl (sup_handle ops) x es"

lemma serve_keeps:
  "serve_scan_request ops s r = (s', r') \<Longrightarrow>
     su_networks s' = su_networks s \<and> su_rescan s' = su_rescan s \<and> su_state s' = su_state s"
  by (auto simp: serve_scan_request_def Let_def split: option.splits prod.splits)

lemma connect_keeps: "su_state (sup_connect s l) = su_state s" "su_rescan s \<Longrightarrow> su_rescan (sup_connect s l)"
  by (simp_all add: sup_connect_def Let_def)

lemma same_list: "length xs = length ys \<and> list_all (\<lambda>(a, b). a = b) (zip xs ys) \<longleftrightarrow> xs = ys"
  by (auto simp: list_all_length list_eq_iff_nth_eq)

lemma sup_connect_eq:
  "sup_connect s l = (if su_networks s = l then s else s\<lparr>su_networks := l, su_rescan := True\<rparr>)"
  by (simp add: sup_connect_def Let_def same_list)

lemma try_any_keeps:
  "try_connect_any ops s r nets = (s', r', c) \<Longrightarrow>
     su_networks s' = su_networks s \<and> su_rescan s' = su_rescan s"
  by (induction ops s r nets rule: try_connect_any.induct)
    (auto simp: set_state_def announce_connected_def Let_def split: prod.splits sum.splits)

lemma ap_mode_keeps:
  "enter_ap_mode ops s r = (s', r') \<Longrightarrow> su_networks s' = su_networks s \<and> su_rescan s' = su_rescan s"
  by (auto simp: enter_ap_mode_def set_state_def split: prod.splits if_splits)

lemmas sup_keeps = serve_keeps try_any_keeps ap_mode_keeps

text \<open>All attempts on a list fail: the state of the driver behind them.\<close>

fun all_fail :: "'r radio_ops \<Rightarrow> 'r \<Rightarrow> wifi_creds list \<Rightarrow> 'r option" where
  "all_fail ops r [] = Some r"
| "all_fail ops r (creds # rest) = (case try_connect_sta ops r creds of
      (r, Inl e) \<Rightarrow> all_fail ops r rest
    | (r, Inr u) \<Rightarrow> None)"

lemma try_any_first:
  "try_connect_any ops s r nets = (s', r', True) \<Longrightarrow>
     \<exists>pre creds post r1 r2. nets = pre @ creds # post \<and> all_fail ops r pre = Some r1
       \<and> try_connect_sta ops r1 creds = (r2, Inr ())
       \<and> su_state s' = Connected (wc_ssid creds) (snd (ip_string ops r2))"
proof (induction nets arbitrary: s r)
  case (Cons c rest)
  show ?case
  proof (cases "try_connect_sta ops r c")
    case (Pair r2 res)
    show ?thesis
    proof (cases res)
      case (Inl e)
      with Cons.prems Pair obtain s2 where "try_connect_any ops s2 r2 rest = (s', r', True)"
        by (auto simp: Let_def)
      from Cons.IH [OF this] obtain pre creds post r1 r3 where
        "rest = pre @ creds # post" "all_fail ops r2 pre = Some r1"
        "try_connect_sta ops r1 creds = (r3, Inr ())"
        "su_state s' = Connected (wc_ssid creds) (snd (ip_string ops r3))"
        by blast
      with Pair Inl show ?thesis
        by (intro exI [of _ "c # pre"] exI [of _ creds] exI [of _ post] exI [of _ r1] exI [of _ r3]) simp
    next
      case (Inr u)
      with Cons.prems Pair show ?thesis
        by (intro exI [of _ "[]"] exI [of _ c] exI [of _ rest] exI [of _ r] exI [of _ r2])
          (auto simp: announce_connected_def set_state_def Let_def split: prod.splits)
    qed
  qed
qed simp

lemma try_any_none:
  "try_connect_any ops s r nets = (s', r', False) \<Longrightarrow> all_fail ops r nets = Some r'"
  by (induction nets arbitrary: s r)
    (auto simp: Let_def split: prod.splits sum.splits)

lemma poll_ip_true:
  "poll_ip n ops r = (r', True) \<Longrightarrow> \<exists>r1 info. snd (ra_ip_info ops r1) = Some info \<and> ii_ip info \<noteq> zero_ip"
proof (induction n arbitrary: r)
  case (Suc n)
  obtain r2 i where i: "ra_ip_info ops r = (r2, i)" by (cases "ra_ip_info ops r")
  show ?case
  proof (cases "\<exists>info. i = Some info \<and> ii_ip info \<noteq> zero_ip")
    case True
    with i show ?thesis by (intro exI [of _ r]) auto
  next
    case False
    with Suc i show ?thesis by (auto split: option.splits if_splits)
  qed
qed simp

lemma wait_for_ip_true:
  "wait_for_ip ops n r = (r', Inr u) \<Longrightarrow> \<exists>r1 info. snd (ra_ip_info ops r1) = Some info \<and> ii_ip info \<noteq> zero_ip"
  by (induction ops n r rule: wait_for_ip.induct)
    (auto simp: Let_def split: prod.splits if_splits dest: poll_ip_true)

lemma try_sta_ip:
  "try_connect_sta ops r creds = (r', Inr u) \<Longrightarrow>
     \<exists>r1 info. snd (ra_ip_info ops r1) = Some info \<and> ii_ip info \<noteq> zero_ip"
  by (auto simp: try_connect_sta_def Let_def split: prod.splits if_splits dest: wait_for_ip_true)

text \<open>The invariant of runs in which no list change and no reconnect request falls between the copy of
  the list and the clearing of the flag.\<close>

definition sup_calm :: "sup_pc \<times> supervisor \<times> 'r \<Rightarrow> sup_event \<Rightarrow> bool" where
  "sup_calm x e = (case (fst x, e) of
      (PClear l, EConnect l') \<Rightarrow> False
    | (PClear l, EReconnect) \<Rightarrow> False
    | _ \<Rightarrow> True)"

definition connected_saved :: "supervisor \<Rightarrow> bool" where
  "connected_saved s \<longleftrightarrow> (\<exists>ssid ip. su_state s = Connected ssid ip \<and>
     (ssid \<in> wc_ssid ` set (su_networks s) \<or> su_rescan s))"

definition sup_inv :: "sup_pc \<times> supervisor \<times> 'r \<Rightarrow> bool" where
  "sup_inv x = (case x of (pc, s, r) \<Rightarrow> (case pc of
      PTop \<Rightarrow> True
    | PClear nets \<Rightarrow> nets = su_networks s
    | PTry nets \<Rightarrow> nets = su_networks s \<or> su_rescan s
    | PConn f t \<Rightarrow> connected_saved s
    | PProbe f t \<Rightarrow> connected_saved s
    | PAp \<Rightarrow> su_networks s = [] \<or> su_rescan s))"

lemma connected_saved_cong:
  "su_networks s' = su_networks s \<Longrightarrow> su_rescan s' = su_rescan s \<Longrightarrow> su_state s' = su_state s \<Longrightarrow>
     connected_saved s' = connected_saved s"
  by (simp add: connected_saved_def)

lemma sup_step_inv: "sup_inv x \<Longrightarrow> sup_inv (sup_step ops x)"
proof (cases "(ops, x)" rule: sup_step.cases)
  case (3 ops' nets s r)
  assume inv: "sup_inv x"
  obtain s1 r1 c where t: "try_connect_any ops s r nets = (s1, r1, c)"
    by (cases "try_connect_any ops s r nets")
  note keep = try_any_keeps [OF t]
  show ?thesis
  proof (cases c)
    case True
    with t have "try_connect_any ops s r nets = (s1, r1, True)" by simp
    from try_any_first [OF this] obtain creds r2 where
      "creds \<in> set nets" "su_state s1 = Connected (wc_ssid creds) (snd (ip_string ops r2))"
      by (metis in_set_conv_decomp)
    with 3 t True inv keep show ?thesis
      by (auto simp: sup_inv_def connected_saved_def)
  next
    case False
    with 3 t inv keep show ?thesis
      by (auto simp: sup_inv_def dest: ap_mode_keeps split: prod.splits)
  qed
next
  case (6 ops' s r)
  assume "sup_inv x"
  with 6 show ?thesis
    by (auto simp: sup_inv_def Let_def dest!: serve_keeps split: prod.splits)
qed (auto simp: sup_inv_def Let_def dest!: serve_keeps split: prod.splits
       cong: if_cong intro: iffD2 [OF connected_saved_cong])

lemma sup_handle_inv: "sup_inv x \<Longrightarrow> sup_calm x e \<Longrightarrow> sup_inv (sup_handle ops x e)"
proof (cases e)
  case EThread
  assume "sup_inv x"
  then show ?thesis using EThread by (cases x) (simp add: sup_step_inv)
next
  case (EConnect l)
  assume "sup_inv x" "sup_calm x e"
  with EConnect show ?thesis
    by (cases x) (auto simp: sup_inv_def sup_calm_def connected_saved_def sup_connect_eq split: sup_pc.splits)
qed (cases x, force simp: sup_inv_def sup_calm_def connected_saved_def sup_reconnect_def sup_scan_begin_def
       sup_scan_end_def split: sup_pc.splits option.splits)+

interpretation sup_runs: run_machine "sup_handle ops" sup_calm sup_inv for ops
  by unfold_locales (rule sup_handle_inv)

text \<open>The dead link: the station stays associated, but no probe of the data path succeeds. A round of
  the connected loop is two steps, every twelfth round probes.\<close>

definition dead_link :: "'r radio_ops \<Rightarrow> bool" where
  "dead_link ops \<longleftrightarrow> (\<forall>r. case ra_ap_info ops r of
      (r1, None) \<Rightarrow> True
    | (r1, Some i) \<Rightarrow> \<not> snd (gateway_reachable ops r1))"

lemma dead_probe: "dead_link ops \<Longrightarrow> snd (probe_link ops r f) = (f + 1, \<not> 3 \<le> f + 1)"
  unfolding dead_link_def
  by (drule spec [of _ r]) (auto simp: probe_link_def Let_def split: prod.splits option.splits)

definition dead_inv :: "sup_pc \<Rightarrow> bool" where
  "dead_inv pc \<longleftrightarrow> (case pc of
      PConn f t \<Rightarrow> unat t < 36 \<and> unat f = unat t div 12
    | PProbe f t \<Rightarrow> 1 \<le> unat t \<and> unat t \<le> 36 \<and> unat f = (unat t - 1) div 12
    | _ \<Rightarrow> False)"

definition dead_rank :: "sup_pc \<Rightarrow> nat" where
  "dead_rank pc = (case pc of
      PConn f t \<Rightarrow> 2 * (36 - unat t)
    | PProbe f t \<Rightarrow> 2 * (36 - unat t) + 1
    | _ \<Rightarrow> 0)"

lemma div12_pred: "n mod 12 \<noteq> 0 \<Longrightarrow> (n - 1) div 12 = n div 12" for n :: nat
  by (cases n) (simp_all add: div_Suc)

lemma dead_step:
  assumes "dead_link ops" "dead_inv pc" "sup_step ops (pc, s, r) = (pc', s', r')"
  shows "pc' = PTop \<or> dead_inv pc' \<and> dead_rank pc' < dead_rank pc"
proof (cases pc)
  case (PConn f t)
  with assms(2) have t: "unat t < 36" "unat f = unat t div 12" by (simp_all add: dead_inv_def)
  then have u: "unat (t + 1) = Suc (unat t)" by (simp add: unat_word_ariths)
  from assms(3) PConn have "pc' = PTop \<or> pc' = PProbe f (t + 1)"
    by (auto simp: Let_def split: prod.splits if_splits)
  with t u PConn show ?thesis by (auto simp: dead_inv_def dead_rank_def)
next
  case (PProbe f t)
  with assms(2) have t: "1 \<le> unat t" "unat t \<le> 36" "unat f = (unat t - 1) div 12"
    by (simp_all add: dead_inv_def)
  then have u: "unat (f + 1) = Suc (unat f)" by (simp add: unat_word_ariths)
  have m: "t mod 12 = 0 \<longleftrightarrow> unat t mod 12 = 0"
    using unat_eq_0 [of "t mod 12"] by (simp add: unat_mod)
  show ?thesis
  proof (cases "unat t mod 12 = 0")
    case True
    obtain r1 f1 a where p: "probe_link ops r f = (r1, f1, a)" by (cases "probe_link ops r f")
    with dead_probe [OF assms(1), of r f] have fa: "f1 = f + 1" "a = (\<not> 3 \<le> f + 1)" by simp_all
    have "unat t = 12 \<or> unat t = 24 \<or> unat t = 36" using True t by auto
    with assms(3) True m p fa PProbe t u show ?thesis
      by (auto simp: dead_inv_def dead_rank_def word_le_nat_alt)
  next
    case False
    with assms(3) m PProbe have "pc' = PConn f t" by simp
    moreover have "(unat t - 1) div 12 = unat t div 12" using False by (rule div12_pred)
    moreover have "unat t \<noteq> 36" using False by auto
    ultimately show ?thesis using t PProbe by (auto simp: dead_inv_def dead_rank_def)
  qed
qed (use assms(2) in \<open>auto simp: dead_inv_def\<close>)

lemma other_event_pc: "e \<noteq> EThread \<Longrightarrow> fst (sup_handle ops x e) = fst x"
  by (cases e; cases x) auto

lemma dead_leaves:
  "dead_link ops \<Longrightarrow> dead_inv (fst x) \<Longrightarrow> dead_rank (fst x) \<le> count_list es EThread \<Longrightarrow> 0 < dead_rank (fst x) \<Longrightarrow>
     \<exists>k \<le> length es. fst (sup_run ops x (take k es)) = PTop"
proof (induction es arbitrary: x)
  case (Cons e es)
  let ?y = "sup_handle ops x e"
  have "\<exists>k \<le> length es. fst (sup_run ops ?y (take k es)) = PTop"
  proof (cases "e = EThread")
    case True
    obtain pc s r where x: "x = (pc, s, r)" by (cases x)
    obtain pc' s' r' where y: "sup_step ops (pc, s, r) = (pc', s', r')" by (cases "sup_step ops (pc, s, r)")
    from dead_step [OF Cons.prems(1) _ y] Cons.prems(2) x
    consider "pc' = PTop" | "dead_inv pc'" "dead_rank pc' < dead_rank pc" by auto
    then show ?thesis
    proof cases
      case 1
      with x y True show ?thesis by (intro exI [of _ 0]) (simp add: sup_run_def)
    next
      case 2
      have "0 < dead_rank pc'"
        using 2 by (auto simp: dead_inv_def dead_rank_def split: sup_pc.splits)
      with 2 x y True Cons.prems show ?thesis by (intro Cons.IH) simp_all
    qed
  next
    case False
    with Cons.prems show ?thesis by (intro Cons.IH) (simp_all add: other_event_pc)
  qed
  then obtain k where "k \<le> length es" "fst (sup_run ops ?y (take k es)) = PTop" by blast
  then show ?case by (intro exI [of _ "Suc k"]) (simp add: sup_run_def)
qed simp

text \<open>A radio without stations in range and a station table that knows no network.\<close>

definition sample_radio :: "unit radio_ops" where
  "sample_radio = \<lparr>ra_ssid_cap = 32, ra_password_cap = 64, ra_is_started = \<lambda>r. (r, Some True), ra_stop = \<lambda>r. r,
     ra_configure = \<lambda>r c. (r, True), ra_start = \<lambda>r. (r, True), ra_connect = \<lambda>r. (r, True),
     ra_is_connected = \<lambda>r. (r, Some True), ra_ip_info = \<lambda>r. (r, Some \<lparr>ii_ip = [10, 0, 0, 7], ii_gateway = [10, 0, 0, 1]\<rparr>),
     ra_scan = \<lambda>r. (r, Inr []), ra_ap_info = \<lambda>r. (r, None), ra_tcp_connect = \<lambda>r a. (r, TcpOther),
     ra_ip_string = \<lambda>a. ''10.0.0.7''\<rparr>"

definition sample_network :: wifi_creds where
  "sample_network = \<lparr>wc_ssid = ''home'', wc_password = ''secret12''\<rparr>"

definition sample_connected :: supervisor where
  "sample_connected = (sup_new ''ap'' [] [sample_network])
     \<lparr>su_rescan := False, su_state := Connected ''home'' ''10.0.0.7''\<rparr>"

lemma sample_connects:
  "sup_run sample_radio (PTop, sup_new ''ap'' [] [sample_network], ()) [EThread, EThread, EThread] =
     (PConn 0 0, sample_connected, ())"
proof -
  have "try_connect_sta sample_radio () sample_network = ((), Inr ())" by code_simp
  then show ?thesis
    by (simp add: sup_run_def sup_new_def sample_connected_def sample_network_def set_state_def
        announce_connected_def ip_string_def) (simp add: sample_radio_def)
qed

lemma count_replicate: "count_list (replicate n x) x = n"
  by (induction n) simp_all

section \<open>Properties\<close>

text \<open>C29. A link that is associated but carries no data is given up after three probes: within 36 rounds
  of the connected loop (72 steps of the thread, 180 seconds of its sleeps) the supervisor is back at
  the top of \<open>run\<close>, whatever the other threads do in between.\<close>

theorem dead_link_given_up:
  assumes "dead_link ops" "72 \<le> count_list es EThread"
  shows "\<exists>k \<le> length es. fst (sup_run ops (PConn 0 0, s, r) (take k es)) = PTop"
  using assms by (intro dead_leaves) (simp_all add: dead_inv_def dead_rank_def)

lemma dead_link_given_up_witness:
  "\<exists>k \<le> length (replicate 72 EThread). fst (sup_run sample_radio
     (PConn 0 0, sup_new ''ap'' [] [sample_network], ()) (take k (replicate 72 EThread))) = PTop"
  by (rule dead_link_given_up) (simp_all add: dead_link_def sample_radio_def count_replicate)

text \<open>C30. As long as no list change and no reconnect request falls between the copy of the list and the
  clearing of the flag, the permanent access point is up only without saved networks or with a
  rescan pending, and the connected loop runs on a saved network or with a rescan pending.\<close>

theorem supervisor_serves_list:
  assumes "ok_run (sup_handle ops) sup_calm (PTop, sup_new ssid password initial, r) es"
    and "sup_run ops (PTop, sup_new ssid password initial, r) es = (pc, s, r')"
  shows "(pc = PAp \<longrightarrow> su_networks s = [] \<or> su_rescan s) \<and>
    ((\<exists>f t. pc = PConn f t) \<longrightarrow> (\<exists>name ip. su_state s = Connected name ip \<and>
       (name \<in> wc_ssid ` set (su_networks s) \<or> su_rescan s)))"
proof -
  have "sup_inv (PTop, sup_new ssid password initial, r)" by (simp add: sup_inv_def)
  from sup_runs.run_inv [OF this assms(1)] assms(2) have "sup_inv (pc, s, r')"
    by (simp add: sup_run_def)
  then show ?thesis by (auto simp: sup_inv_def connected_saved_def)
qed

lemma supervisor_serves_list_witness:
  "\<exists>name ip. su_state sample_connected = Connected name ip \<and>
     (name \<in> wc_ssid ` set (su_networks sample_connected) \<or> su_rescan sample_connected)"
proof -
  have "ok_run (sup_handle sample_radio) sup_calm (PTop, sup_new ''ap'' [] [sample_network], ()) [EThread, EThread, EThread]"
    by (simp add: sup_calm_def)
  from supervisor_serves_list [OF this, of "PConn 0 0" sample_connected "()"] show ?thesis
    by (simp only: sample_connects) blast
qed

definition lost_quiet :: "wifi_creds list \<Rightarrow> sup_event \<Rightarrow> bool" where
  "lost_quiet l e = (case e of EConnect l' \<Rightarrow> l' = l | EReconnect \<Rightarrow> False | _ \<Rightarrow> True)"

lemma lost_update_stays:
  "list_all (lost_quiet l) es \<Longrightarrow> su_networks s = l \<Longrightarrow> \<not> su_rescan s \<Longrightarrow>
     \<exists>s' r'. sup_run ops (PAp, s, r) es = (PAp, s', r') \<and> su_networks s' = l \<and> \<not> su_rescan s'"
proof (induction es arbitrary: s r)
  case (Cons e es)
  obtain s1 r1 where h: "sup_handle ops (PAp, s, r) e = (PAp, s1, r1)" "su_networks s1 = l" "\<not> su_rescan s1"
  proof (cases e)
    case EThread
    obtain s2 r2 where q: "serve_scan_request ops s r = (s2, r2)" by (cases "serve_scan_request ops s r")
    have "sup_handle ops (PAp, s, r) e = (PAp, s2, r2)" using Cons.prems EThread q by simp
    then show ?thesis using serve_keeps [OF q] Cons.prems by (intro that [of s2 r2]) simp_all
  qed (use Cons.prems in \<open>auto intro!: that simp: lost_quiet_def sup_connect_eq sup_scan_begin_def
         sup_scan_end_def split: option.splits\<close>)
  with Cons.IH [of s1 r1] Cons.prems show ?case by (simp add: sup_run_def)
qed (simp add: sup_run_def)

text \<open>The lost update: started without networks, a list set by the API between the copy of the empty
  list and the clearing of the flag is stored, but the access point is entered and stays up, on every
  continuation without a reconnect request or another list.\<close>

theorem supervisor_lost_update:
  assumes "l \<noteq> []" "list_all (lost_quiet l) es"
  shows "\<exists>s r'. sup_run ops (PTop, sup_new ssid password [], r) ([EThread, EConnect l, EThread, EThread] @ es)
           = (PAp, s, r') \<and> su_networks s = l \<and> \<not> su_rescan s"
proof -
  let ?s = "(sup_new ssid password [])\<lparr>su_networks := l, su_rescan := False\<rparr>"
  obtain s1 r1 where a: "enter_ap_mode ops ?s r = (s1, r1)" by (cases "enter_ap_mode ops ?s r")
  have "sup_run ops (PTop, sup_new ssid password [], r) [EThread, EConnect l, EThread, EThread] = (PAp, s1, r1)"
    using assms(1) a by (simp add: sup_run_def sup_new_def sup_connect_eq)
  with lost_update_stays [OF assms(2), of s1 ops r1] ap_mode_keeps [OF a] show ?thesis
    by (simp add: sup_run_def)
qed

lemma supervisor_lost_update_witness:
  "\<exists>s r'. sup_run sample_radio (PTop, sup_new ''ap'' [] [], ())
       ([EThread, EConnect [sample_network], EThread, EThread] @ [EThread, EBeacon]) = (PAp, s, r') \<and>
     su_networks s = [sample_network] \<and> \<not> su_rescan s"
  by (rule supervisor_lost_update) (simp_all add: lost_quiet_def)

text \<open>The networks are tried in the order of the list: the supervisor reports the first whose attempt
  succeeds, only after an address other than 0.0.0.0 was read, and gives up only if every attempt fails.\<close>

theorem connects_first_working:
  "case try_connect_any ops s r nets of
     (s', r', True) \<Rightarrow> \<exists>pre creds post r1 r2. nets = pre @ creds # post \<and> all_fail ops r pre = Some r1
       \<and> try_connect_sta ops r1 creds = (r2, Inr ()) \<and> su_state s' = Connected (wc_ssid creds) (snd (ip_string ops r2))
       \<and> (\<exists>r3 info. snd (ra_ip_info ops r3) = Some info \<and> ii_ip info \<noteq> zero_ip)
   | (s', r', False) \<Rightarrow> all_fail ops r nets = Some r'"
proof (cases "try_connect_any ops s r nets")
  case (fields s' r' c)
  show ?thesis
  proof (cases c)
    case True
    with fields have "try_connect_any ops s r nets = (s', r', True)" by simp
    from try_any_first [OF this] fields True show ?thesis
      by simp (metis try_sta_ip)
  next
    case False
    with fields show ?thesis by (simp add: try_any_none)
  qed
qed

text \<open>Names are hijacked only in setup mode: the DNS responder behind the mirror task answers nothing
  unless the supervisor reports the access point, and once the supervisor has brought the access point
  up, every answer carries its address.\<close>

theorem redirect_only_in_setup:
  "(captive_serve (redirect_of st) q = Some None \<or> (\<exists>ssid ip. st = ApMode ssid ip)) \<and>
   (snd (start_ap ops r (su_ap_ssid s) (su_ap_password s)) \<longrightarrow>
      captive_serve (redirect_of (su_state (fst (enter_ap_mode ops s r)))) q = build_a_response q AP_IP)"
proof -
  have "parse_ip ''192.168.4.1'' = Some AP_IP" by code_simp
  then show ?thesis
    by (auto simp: captive_serve_def redirect_of_def enter_ap_mode_def set_state_def
        split: wifi_state.splits prod.splits)
qed

lemma redirect_only_in_setup_witness:
  "(captive_serve (redirect_of Disconnected) [] = Some None \<or> (\<exists>ssid ip. Disconnected = ApMode ssid ip)) \<and>
   (snd (start_ap sample_radio () (su_ap_ssid (sup_new ''ap'' [] [])) (su_ap_password (sup_new ''ap'' [] []))) \<longrightarrow>
      captive_serve (redirect_of (su_state (fst (enter_ap_mode sample_radio (sup_new ''ap'' [] []) ())))) [] =
        build_a_response [] AP_IP)"
  by (rule redirect_only_in_setup)

end
