(* ===== verification/Nostd_Main.thy ===== *)
theory Nostd_Main
  imports App Flash_Kv
begin

text \<open>
  The tasks of the no_std firmware, \<open>crates/firmware-nostd/src/main.rs\<close>, with the scan watcher of the
  setup mode (\<open>ap.rs\<close>) and the scan request of the HTTP handler (\<open>wifiscan.rs\<close>).

  \<^item> The boot mode is a byte in the store: \<open>read_boot_mode\<close>, \<open>write_boot_mode\<close> and the choice at boot.
  \<^item> \<open>connection_task\<close> is \<open>connection_round\<close>, one pass of its loop; what the radio answers is the
    record \<open>controller\<close>, what happens while connected is a list of \<open>session_event\<close>.
  \<^item> \<open>request_reboot\<close> sets a flag that another task polls; it is the field \<open>ct_reboot\<close> or a result.
\<close>

section \<open>Boot mode\<close>

datatype boot_mode = BootSta | BootAp

definition BOOT_MODE_KEY :: string where
  "BOOT_MODE_KEY = ''wc.bootmode''"

definition read_boot_mode :: "'s nvs_ops \<Rightarrow> 's \<Rightarrow> boot_mode" where
  "read_boot_mode ops nvs = (case nvs_get ops nvs BOOT_MODE_KEY of
      Some (b # rest) \<Rightarrow> if b = 1 then BootAp else BootSta
    | _ \<Rightarrow> BootSta)"

definition write_boot_mode :: "'s nvs_ops \<Rightarrow> 's \<Rightarrow> boot_mode \<Rightarrow> 's" where
  "write_boot_mode ops nvs mode =
    (if read_boot_mode ops nvs = mode then nvs
     else let byte = (case mode of BootSta \<Rightarrow> 0 | BootAp \<Rightarrow> 1) in
       fst (nvs_set ops nvs BOOT_MODE_KEY [byte]))"

definition boot_ap :: "'s nvs_ops \<Rightarrow> 's \<Rightarrow> config \<Rightarrow> bool" where
  "boot_ap ops nvs cfg \<longleftrightarrow> wf_networks (cf_wifi cfg) = [] \<or> read_boot_mode ops nvs = BootAp"

record soft_ap =
  sa_ssid :: string
  sa_password :: "string option"

definition build_ap_config :: "wifi_config \<Rightarrow> soft_ap" where
  "build_ap_config wifi =
    (let ap = \<lparr>sa_ssid = wf_ap_ssid wifi, sa_password = None\<rparr> in
     if wf_ap_password wifi = [] then ap else ap\<lparr>sa_password := Some (wf_ap_password wifi)\<rparr>)"

text \<open>The start of \<open>main\<close>: the application over the stored configuration.\<close>

definition nostd_boot ::
    "('s, 't, 'd) env \<Rightarrow> 'j config_codec \<Rightarrow> config \<Rightarrow> 'd \<Rightarrow> 's \<Rightarrow> ('s, 'd) app" where
  "nostd_boot env codec dflt dispatcher nvs =
    (let cfg = (case config_load (env_nvs env) codec dflt nvs of Inr cfg \<Rightarrow> cfg | Inl e \<Rightarrow> dflt)
     in set_webhook_dispatcher (app_with_nvs env cfg (Some nvs)) dispatcher)"

section \<open>Clock\<close>

definition BASE_EPOCH_S :: "64 word" where
  "BASE_EPOCH_S = 1778803200"

definition embassy_now_secs :: "64 word \<Rightarrow> u64 \<Rightarrow> 64 word" where
  "embassy_now_secs at_boot uptime = (if at_boot \<noteq> 0 then at_boot else BASE_EPOCH_S) + uptime"

section \<open>Scan entries\<close>

datatype radio_auth =
  RaNone | RaWep | RaWpa | RaWpa2Personal | RaWpaWpa2Personal | RaWpa2Enterprise | RaOther

record radio_ap =
  rp_ssid :: string
  rp_signal :: i8
  rp_auth :: "radio_auth option"
  rp_channel :: u8

fun radio_auth_name :: "radio_auth option \<Rightarrow> string" where
  "radio_auth_name None = ''open''"
| "radio_auth_name (Some RaNone) = ''open''"
| "radio_auth_name (Some RaWep) = ''wep''"
| "radio_auth_name (Some RaWpa) = ''wpa''"
| "radio_auth_name (Some RaWpa2Personal) = ''wpa2''"
| "radio_auth_name (Some RaWpaWpa2Personal) = ''wpa2''"
| "radio_auth_name (Some RaWpa2Enterprise) = ''wpa2''"
| "radio_auth_name (Some RaOther) = ''wpa3''"

definition ap_to_result :: "radio_ap \<Rightarrow> wifi_scan_result" where
  "ap_to_result ap = \<lparr>ws_ssid = rp_ssid ap, ws_rssi_dbm = rp_signal ap,
     ws_auth = radio_auth_name (rp_auth ap), ws_channel = rp_channel ap\<rparr>"

section \<open>The connection task\<close>

record 'r controller =
  cr_set_config :: "'r \<Rightarrow> wifi_creds \<Rightarrow> 'r \<times> bool"
  cr_connect :: "'r \<Rightarrow> 'r \<times> bool"

record 's conn =
  ct_idx :: nat
  ct_fails :: u32
  ct_nvs :: 's
  ct_reboot :: bool
  ct_ssid :: string
  ct_rssi :: u32
  ct_scan_result :: "wifi_scan_result list option"

definition conn_new :: "'s \<Rightarrow> 's conn" where
  "conn_new nvs = \<lparr>ct_idx = 0, ct_fails = 0, ct_nvs = nvs, ct_reboot = False, ct_ssid = [], ct_rssi = 0,
     ct_scan_result = None\<rparr>"

text \<open>What the connected loop waits for: the link goes down, the 30 second timer with the answer of
  \<open>rssi\<close>, or a scan request with the answer of the scan.\<close>

datatype session_event =
  SeDisconnect | SeTimer "u32 option" | SeScan "radio_ap list option"

fun session :: "session_event list \<Rightarrow> 's conn \<Rightarrow> 's conn" where
  "session [] c = c"
| "session (SeDisconnect # es) c = c\<lparr>ct_rssi := 0\<rparr>"
| "session (SeTimer r # es) c = session es (case r of Some v \<Rightarrow> c\<lparr>ct_rssi := v\<rparr> | None \<Rightarrow> c)"
| "session (SeScan aps # es) c = session es (c\<lparr>ct_scan_result := Some (case aps of
      Some l \<Rightarrow> map ap_to_result l
    | None \<Rightarrow> [])\<rparr>)"

text \<open>\<open>push_str\<close> into the cleared \<open>heapless::String<33>\<close> does nothing when the name does not fit.\<close>

definition connected_name :: "string \<Rightarrow> string" where
  "connected_name ssid = (if length ssid \<le> 33 then ssid else [])"

text \<open>One pass of the loop. The number is the sleep at its end, in seconds.\<close>

definition connection_round ::
    "'s nvs_ops \<Rightarrow> 'r controller \<Rightarrow> wifi_creds list \<Rightarrow> session_event list \<Rightarrow> 's conn \<times> 'r \<Rightarrow> ('s conn \<times> 'r) \<times> nat" where
  "connection_round ops ctl networks es x = (case x of (c, r) \<Rightarrow>
     if networks = [] then ((c, r), 15)
     else if of_nat (length networks) * 3 \<le> ct_fails c then
       ((c\<lparr>ct_nvs := write_boot_mode ops (ct_nvs c) BootAp, ct_reboot := True\<rparr>, r), 10)
     else let c = c\<lparr>ct_idx := ct_idx c mod length networks\<rparr>;
              net = networks ! ct_idx c;
              (r, set_ok) = cr_set_config ctl r net
       in if \<not> set_ok then ((c\<lparr>ct_idx := ct_idx c + 1, ct_fails := ct_fails c + 1\<rparr>, r), 3)
          else let (r, ok) = cr_connect ctl r in
            if ok then
              (let c = c\<lparr>ct_fails := 0\<rparr>;
                   c = c\<lparr>ct_nvs := write_boot_mode ops (ct_nvs c) BootSta\<rparr>;
                   c = c\<lparr>ct_ssid := connected_name (wc_ssid net)\<rparr>
               in ((session es c, r), 5))
            else ((c\<lparr>ct_idx := ct_idx c + 1, ct_fails := ct_fails c + 1\<rparr>, r), 5))"

section \<open>Setup mode and scan requests\<close>

text \<open>One round of \<open>scan_task\<close>: \<open>scan\<close> is the answer of the radio; the result tells whether the task
  has asked for the reboot, which also ends it.\<close>

definition scan_round :: "'s nvs_ops \<Rightarrow> config \<Rightarrow> radio_ap list option \<Rightarrow> 's \<Rightarrow> 's \<times> bool" where
  "scan_round ops cfg scan nvs =
    (let known = map wc_ssid (wf_networks (cf_wifi cfg)) in
     if known = [] then (nvs, False)
     else case scan of
       None \<Rightarrow> (nvs, False)
     | Some found \<Rightarrow>
         if list_ex (\<lambda>ap. list_ex (\<lambda>s. s = rp_ssid ap) known) found
         then (write_boot_mode ops nvs BootSta, True) else (nvs, False))"

text \<open>\<open>request_scan\<close>: \<open>answer\<close> is what a connection task signals within twelve seconds, if it does.\<close>

definition request_scan :: "(wifi_scan_response \<Rightarrow> string option) \<Rightarrow> wifi_scan_result list option \<Rightarrow> string" where
  "request_scan enc answer =
    (let networks = (case answer of Some v \<Rightarrow> v | None \<Rightarrow> []) in
     case enc \<lparr>ws_networks = networks\<rparr> of Some s \<Rightarrow> s | None \<Rightarrow> [])"

section \<open>The heartbeat\<close>

record beat_input =
  be_free :: nat
  be_conn_ssid :: string
  be_address :: "string option"
  be_rssi :: u32
  be_mqtt_up :: bool

record beat =
  bt_secs :: u64
  bt_min_free :: nat

definition beat_new :: beat where
  "beat_new = \<lparr>bt_secs = 0, bt_min_free = 2 ^ 32 - 1\<rparr>"

definition heartbeat_round ::
    "string \<Rightarrow> string \<Rightarrow> beat_input \<Rightarrow> beat \<times> device_snapshot \<Rightarrow> beat \<times> device_snapshot" where
  "heartbeat_round ssid reason i x = (case x of (b, s) \<Rightarrow>
     let min_free = min (bt_min_free b) (be_free i);
         conn_ssid = (if be_conn_ssid i = [] then ssid else be_conn_ssid i);
         wifi = (case be_address i of
            Some ip \<Rightarrow> Some (Connected conn_ssid ip)
          | None \<Rightarrow> Some Disconnected);
         rssi = (if be_rssi i = 0 then None else Some (ucast (be_rssi i) :: i8))
     in (\<lparr>bt_secs = bt_secs b + 10, bt_min_free = min_free\<rparr>,
         s\<lparr>sn_uptime_ms := bt_secs b * 1000, sn_firmware_version := ''wc-nostd'',
           sn_diagnostics := \<lparr>free_heap_bytes = Some (of_nat (be_free i)),
             min_free_heap_bytes = Some (of_nat min_free), reset_reason = Some reason\<rparr>,
           sn_network := \<lparr>net_wifi = wifi, mqtt_connected = be_mqtt_up i, wifi_rssi_dbm = rssi\<rparr>\<rparr>))"

section \<open>Lemmas\<close>

lemma write_same: "read_boot_mode ops nvs = mode \<Longrightarrow> write_boot_mode ops nvs mode = nvs"
  by (simp add: write_boot_mode_def)

context reliable_nvs
begin

lemma boot_mode_written: "ok nvs \<Longrightarrow> read_boot_mode ops (write_boot_mode ops nvs mode) = mode"
  by (cases mode) (auto simp: write_boot_mode_def read_boot_mode_def set_get_reliable split: if_splits)

lemma boot_mode_ok: "ok nvs \<Longrightarrow> ok (write_boot_mode ops nvs mode)"
  by (simp add: write_boot_mode_def set_ok Let_def)

end


text \<open>A radio with which no attempt succeeds, and what one attempt does to it.\<close>

definition radio_fails :: "'r controller \<Rightarrow> bool" where
  "radio_fails ctl \<longleftrightarrow> (\<forall>r net. snd (cr_set_config ctl r net) \<longrightarrow>
     \<not> snd (cr_connect ctl (fst (cr_set_config ctl r net))))"

definition attempt :: "'r controller \<Rightarrow> 'r \<Rightarrow> wifi_creds \<Rightarrow> 'r" where
  "attempt ctl r net = (let (r, set_ok) = cr_set_config ctl r net in
     if set_ok then fst (cr_connect ctl r) else r)"

definition conn_loop :: "'s nvs_ops \<Rightarrow> 'r controller \<Rightarrow> wifi_creds list \<Rightarrow> nat \<Rightarrow> 's conn \<times> 'r \<Rightarrow> 's conn \<times> 'r" where
  "conn_loop ops ctl networks n = (\<lambda>x. fst (connection_round ops ctl networks [] x)) ^^ n"

lemma conn_loop_Suc:
  "conn_loop ops ctl networks (Suc n) x = fst (connection_round ops ctl networks [] (conn_loop ops ctl networks n x))"
  by (simp add: conn_loop_def)

lemma failing_round:
  assumes "radio_fails ctl" "networks \<noteq> []" "\<not> of_nat (length networks) * 3 \<le> ct_fails c"
  shows "fst (connection_round ops ctl networks es (c, r)) =
    (c\<lparr>ct_idx := ct_idx c mod length networks + 1, ct_fails := ct_fails c + 1\<rparr>,
     attempt ctl r (networks ! (ct_idx c mod length networks)))"
proof -
  let ?net = "networks ! (ct_idx c mod length networks)"
  have "snd (cr_set_config ctl r ?net) \<longrightarrow> \<not> snd (cr_connect ctl (fst (cr_set_config ctl r ?net)))"
    using assms(1) by (simp add: radio_fails_def)
  with assms(2, 3) show ?thesis
    by (auto simp: connection_round_def attempt_def Let_def split: prod.splits)
qed

lemma failing_rounds:
  assumes "radio_fails ctl" "networks \<noteq> []" "length networks * 3 < 2 ^ 32" "k \<le> length networks * 3"
  shows "conn_loop ops ctl networks k (conn_new nvs, r) =
    ((conn_new nvs)\<lparr>ct_idx := (if k = 0 then 0 else (k - 1) mod length networks + 1), ct_fails := of_nat k\<rparr>,
     foldl (attempt ctl) r (map (\<lambda>i. networks ! (i mod length networks)) [0..<k]))"
  using assms(4)
proof (induction k)
  case 0
  then show ?case by (simp add: conn_loop_def conn_new_def)
next
  case (Suc k)
  have small: "k < 2 ^ 32" "length networks * 3 < 2 ^ LENGTH(32)" using Suc.prems assms(3) by simp_all
  have "unat (of_nat (length networks * 3) :: u32) = length networks * 3"
    using small by (simp add: unat_of_nat del: of_nat_mult)
  moreover have "unat (of_nat k :: u32) = k" using small by (simp add: unat_of_nat)
  ultimately have "\<not> (of_nat (length networks) * 3 :: u32) \<le> of_nat k"
    using Suc.prems by (simp add: word_le_nat_alt)
  moreover have "(if k = 0 then 0 else (k - 1) mod length networks + 1) mod length networks = k mod length networks"
    using assms(2) by (cases k) (simp_all add: mod_Suc_eq)
  ultimately show ?case
    using Suc assms(1, 2) by (simp add: conn_loop_Suc failing_round conn_new_def add.commute)
qed

lemma passes_over: "map (\<lambda>i. xs ! (i mod length xs)) [0..<m * length xs] = concat (replicate m xs)"
proof (induction m)
  case (Suc m)
  have "[0..<Suc m * length xs] = [0..<m * length xs] @ map (\<lambda>i. m * length xs + i) [0..<length xs]"
    using upt_add_eq_append [of 0 "m * length xs" "length xs"] by (simp add: map_add_upt add.commute)
  moreover have "map (\<lambda>i. xs ! ((m * length xs + i) mod length xs)) [0..<length xs] = xs"
    by (rule nth_equalityI) simp_all
  moreover have "concat (replicate (Suc m) xs) = concat (replicate m xs) @ xs"
    using arg_cong [OF replicate_append_same [of m xs], of concat] by simp
  ultimately show ?case using Suc by (simp add: comp_def del: replicate.simps)
qed simp

lemma all_passes:
  assumes "radio_fails ctl" "networks \<noteq> []" "length networks * 3 < 2 ^ 32"
  shows "conn_loop ops ctl networks (3 * length networks) (conn_new nvs, r) =
    ((conn_new nvs)\<lparr>ct_idx := length networks, ct_fails := of_nat (3 * length networks)\<rparr>,
     foldl (attempt ctl) r (concat (replicate 3 networks)))"
proof -
  let ?n = "length networks"
  have "(?n * 3 - 1) mod ?n = ?n - 1"
  proof -
    from assms(2) have "?n * 3 - 1 = (?n - 1) + ?n * 2" by (cases ?n) simp_all
    then show ?thesis using assms(2) by (simp only: mod_mult_self2) simp
  qed
  moreover have "?n \<noteq> 0" using assms(2) by simp
  ultimately show ?thesis
    using failing_rounds [OF assms, of "?n * 3" ops nvs r] passes_over [of networks 3]
    by (simp add: mult.commute)
qed

lemma fallback_round:
  assumes "radio_fails ctl" "networks \<noteq> []" "length networks * 3 < 2 ^ 32"
  shows "fst (conn_loop ops ctl networks (3 * length networks + 1) (conn_new nvs, r)) =
    (conn_new nvs)\<lparr>ct_idx := length networks, ct_fails := of_nat (3 * length networks),
      ct_nvs := write_boot_mode ops nvs BootAp, ct_reboot := True\<rparr>"
  using all_passes [OF assms, of ops nvs r] assms(2)
  by (simp add: conn_loop_Suc connection_round_def conn_new_def Let_def mult.commute)

text \<open>A radio that never connects, for the concrete instances.\<close>

definition dead_radio :: "string list controller" where
  "dead_radio = \<lparr>cr_set_config = \<lambda>r net. (r @ [wc_ssid net], True), cr_connect = \<lambda>r. (r, False)\<rparr>"

lemma dead_radio_fails: "radio_fails dead_radio"
  by (simp add: radio_fails_def dead_radio_def)

definition home_network :: wifi_creds where
  "home_network = \<lparr>wc_ssid = ''home'', wc_password = ''pw''\<rparr>"

definition home_config :: config where
  "home_config = sample_config\<lparr>cf_wifi := \<lparr>wf_networks = [home_network], wf_hostname = ''wc'',
     wf_ap_ssid = ''setup'', wf_ap_password = []\<rparr>\<rparr>"

section \<open>Properties\<close>




text \<open>The setup portal does not stay up while a saved network is visible but cannot be joined (a wrong
  password): the station falls back to the setup mode, the watcher of the setup mode reboots into
  station mode at its first scan, and the station falls back again.\<close>

theorem setup_mode_ping_pong:
  assumes "reliable_nvs ops ok" "ok nvs" "radio_fails ctl" "length (wf_networks (cf_wifi cfg)) * 3 < 2 ^ 32"
    and "ap \<in> set found" "net \<in> set (wf_networks (cf_wifi cfg))" "rp_ssid ap = wc_ssid net"
  shows "let networks = wf_networks (cf_wifi cfg);
             station = fst (conn_loop ops ctl networks (3 * length networks + 1) (conn_new nvs, r));
             setup = scan_round ops cfg (Some found) (ct_nvs station)
    in ct_reboot station \<and> boot_ap ops (ct_nvs station) cfg \<and> snd setup \<and> \<not> boot_ap ops (fst setup) cfg \<and> ok (fst setup)"
proof -
  let ?nets = "wf_networks (cf_wifi cfg)"
  have ne: "?nets \<noteq> []" using assms(6) by auto
  have vis: "list_ex (\<lambda>ap. list_ex (\<lambda>s. s = rp_ssid ap) (map wc_ssid ?nets)) found"
    using assms(5-7) by (auto simp: list_ex_iff intro!: bexI [of _ ap])
  have ok1: "ok (write_boot_mode ops nvs BootAp)" by (rule reliable_nvs.boot_mode_ok [OF assms(1, 2)])
  show ?thesis
    using fallback_round [OF assms(3) ne assms(4), of ops nvs r] ne vis
      reliable_nvs.boot_mode_written [OF assms(1, 2), of BootAp]
      reliable_nvs.boot_mode_written [OF assms(1) ok1, of BootSta] reliable_nvs.boot_mode_ok [OF assms(1) ok1, of BootSta]
    by (simp add: boot_ap_def scan_round_def Let_def conn_new_def)
qed

lemma setup_mode_ping_pong_witness:
  "let networks = wf_networks (cf_wifi home_config);
       station = fst (conn_loop fake_nvs_ops dead_radio networks (3 * length networks + 1) (conn_new Map.empty, []));
       setup = scan_round fake_nvs_ops home_config
         (Some [\<lparr>rp_ssid = ''home'', rp_signal = - 60, rp_auth = None, rp_channel = 6\<rparr>]) (ct_nvs station)
   in ct_reboot station \<and> boot_ap fake_nvs_ops (ct_nvs station) home_config \<and> snd setup \<and>
     \<not> boot_ap fake_nvs_ops (fst setup) home_config \<and> True"
  by (rule setup_mode_ping_pong [OF fake_reliable_nvs TrueI dead_radio_fails, where net = home_network
        and ap = "\<lparr>rp_ssid = ''home'', rp_signal = - 60, rp_auth = None, rp_channel = 6\<rparr>"])
    (simp_all add: home_config_def home_network_def)

lemma session_keeps: "ct_nvs (session es c) = ct_nvs c" "ct_fails (session es c) = ct_fails c"
    "ct_reboot (session es c) = ct_reboot c" "ct_ssid (session es c) = ct_ssid c"
  by (induction es c rule: session.induct) (simp_all split: option.splits)

text \<open>A successful attempt forgets the failures, names the joined network and makes station mode the
  mode of the next boot, whatever happens in the session that follows.\<close>

theorem success_resets:
  assumes "reliable_nvs ops ok" "ok (ct_nvs c)" "networks \<noteq> []" "\<not> of_nat (length networks) * 3 \<le> ct_fails c"
    and "net = networks ! (ct_idx c mod length networks)"
    and "cr_set_config ctl r net = (r1, True)" "cr_connect ctl r1 = (r2, True)"
  shows "\<exists>c'. connection_round ops ctl networks es (c, r) = ((c', r2), 5) \<and> ct_fails c' = 0 \<and>
    ct_ssid c' = connected_name (wc_ssid net) \<and> read_boot_mode ops (ct_nvs c') = BootSta \<and> ct_reboot c' = ct_reboot c"
  using assms(3-7) reliable_nvs.boot_mode_written [OF assms(1, 2), of BootSta]
  by (simp add: connection_round_def Let_def session_keeps)

definition live_radio :: "unit controller" where
  "live_radio = \<lparr>cr_set_config = \<lambda>r net. (r, True), cr_connect = \<lambda>r. (r, True)\<rparr>"

lemma success_resets_witness:
  "\<exists>c'. connection_round fake_nvs_ops live_radio [home_network] [SeTimer (Some 5), SeDisconnect]
      (conn_new [BOOT_MODE_KEY \<mapsto> [1]], ()) = ((c', ()), 5) \<and> ct_fails c' = 0 \<and>
    ct_ssid c' = connected_name (wc_ssid home_network) \<and> read_boot_mode fake_nvs_ops (ct_nvs c') = BootSta \<and>
    ct_reboot c' = ct_reboot (conn_new [BOOT_MODE_KEY \<mapsto> [1 :: u8]])"
  by (rule success_resets [OF fake_reliable_nvs TrueI]) (simp_all add: conn_new_def live_radio_def)

text \<open>The heartbeat cannot report the setup mode: with an address it always reports a connection, to the
  network of the build when none was joined.\<close>

lemma heartbeat_no_setup_mode:
  "net_wifi (sn_network (snd (heartbeat_round ssid reason i (b, s)))) \<noteq> Some (ApMode n ip)"
  by (simp add: heartbeat_round_def Let_def split: option.split)

lemma heartbeat_in_setup_mode:
  "be_conn_ssid i = [] \<Longrightarrow> be_address i = Some ''192.168.4.1'' \<Longrightarrow>
     net_wifi (sn_network (snd (heartbeat_round ssid reason i (b, s)))) = Some (Connected ssid ''192.168.4.1'')"
  by (simp add: heartbeat_round_def Let_def)

end
