(* ===== verification/Sensors.thy ===== *)
theory Sensors
  imports App
begin

text \<open>
  The sensor tasks: \<open>crates/firmware-nostd/src/sensors.rs\<close>, \<open>spawn_sensor_task\<close> of
  \<open>crates/firmware/src/main.rs\<close>, and the adapters of the ESP-IDF firmware that feed the
  application (\<open>hw_pcnt.rs\<close>, \<open>hw_adc.rs\<close>, \<open>hw_clock.rs\<close>). The hardware is what it
  answers: the raw counter, the readings of the converter. \<open>None\<close> is a panic.
  \<open>sum_f32\<close> starts from \<open>0.0\<close>; the neutral element of the standard library has had either sign.
\<close>

section \<open>Shared arithmetic\<close>

definition f32_of_word :: "'a::len word \<Rightarrow> f32" where
  "f32_of_word w = f32_of_int (int (unat w))"

definition sum_f32 :: "f32 list \<Rightarrow> f32" where
  "sum_f32 xs = foldl f32_add f32_zero xs"

definition mean_f32 :: "f32 list \<Rightarrow> f32" where
  "mean_f32 xs = f32_div (sum_f32 xs) (f32_of_int (int (length xs)))"

definition pressure_chain :: "sensors_config \<Rightarrow> f32 \<Rightarrow> f32 option" where
  "pressure_chain sc raw = (case cal_apply (sc_pressure_stage1 sc) raw of
      None \<Rightarrow> None
    | Some stage1 \<Rightarrow> cal_apply (sc_pressure_stage2 sc) stage1)"

section \<open>The no_std task\<close>

datatype adc_result = AdcOk u16 | AdcWouldBlock | AdcOther

text \<open>The polling loop of \<open>read_battery\<close> and \<open>read_pressure\<close> over the successive answers; \<open>None\<close> when it
  is still waiting at their end.\<close>

fun read_oneshot :: "adc_result list \<Rightarrow> u16 option" where
  "read_oneshot [] = None"
| "read_oneshot (AdcOk v # rs) = Some v"
| "read_oneshot (AdcWouldBlock # rs) = read_oneshot rs"
| "read_oneshot (AdcOther # rs) = Some 0"

record sensor_state =
  ss_last_raw :: i16
  ss_pulse_total :: u64
  ss_bat_window :: "f32 list"
  ss_bat_len :: nat
  ss_bat_pos :: nat
  ss_secs :: u64
  ss_pulses_at_last_flow :: u64

record sensor_input =
  si_counter :: i16
  si_battery :: u16
  si_pressure :: u16

definition sensor_start :: "i16 \<Rightarrow> sensor_state" where
  "sensor_start raw = \<lparr>ss_last_raw = raw, ss_pulse_total = 0, ss_bat_window = replicate 15 f32_zero,
     ss_bat_len = 0, ss_bat_pos = 0, ss_secs = 0, ss_pulses_at_last_flow = 0\<rparr>"

definition count_pulses :: "i16 \<Rightarrow> sensor_state \<Rightarrow> sensor_state" where
  "count_pulses raw st =
    (let delta = raw - ss_last_raw st;
         st = st\<lparr>ss_last_raw := raw\<rparr>
     in if 0 < sint delta then st\<lparr>ss_pulse_total := ss_pulse_total st + of_nat (unat delta)\<rparr> else st)"

definition ring_push :: "f32 \<Rightarrow> sensor_state \<Rightarrow> sensor_state option" where
  "ring_push v st =
    (if \<not> ss_bat_pos st < length (ss_bat_window st) then None
     else let window = (ss_bat_window st)[ss_bat_pos st := v];
              pos = (ss_bat_pos st + 1) mod length window;
              len = (if ss_bat_len st < length window then ss_bat_len st + 1 else ss_bat_len st)
       in Some (st\<lparr>ss_bat_window := window, ss_bat_pos := pos, ss_bat_len := len\<rparr>))"

definition ring_window :: "sensor_state \<Rightarrow> f32 list option" where
  "ring_window st = (if ss_bat_len st \<le> length (ss_bat_window st)
     then Some (take (ss_bat_len st) (ss_bat_window st)) else None)"

definition sample_battery ::
    "sensors_config \<Rightarrow> u16 \<Rightarrow> sensor_state \<times> sensors \<Rightarrow> (sensor_state \<times> sensors) option" where
  "sample_battery sc raw x = (case x of (st, s) \<Rightarrow> (case cal_apply (sc_battery sc) (f32_of_word raw) of
      None \<Rightarrow> None
    | Some v \<Rightarrow> (case ring_push v st of
        None \<Rightarrow> None
      | Some st \<Rightarrow> (case ring_window st of
          None \<Rightarrow> None
        | Some w \<Rightarrow> Some (st, s\<lparr>battery_v := Some (f32_div (sum_f32 w) (f32_of_int (int (ss_bat_len st))))\<rparr>)))))"

definition sample_pressure ::
    "sensors_config \<Rightarrow> u16 \<Rightarrow> sensor_state \<times> sensors \<Rightarrow> (sensor_state \<times> sensors) option" where
  "sample_pressure sc raw x = (case x of (st, s) \<Rightarrow> (case pressure_chain sc (f32_of_word raw) of
      None \<Rightarrow> None
    | Some bar \<Rightarrow> Some (st, s\<lparr>pressure_bar := Some bar\<rparr>)))"

definition sample_flow :: "sensors_config \<Rightarrow> sensor_state \<times> sensors \<Rightarrow> sensor_state \<times> sensors" where
  "sample_flow sc x = (case x of (st, s) \<Rightarrow>
     let delta_pulses = f32_of_word (sat_sub (ss_pulse_total st) (ss_pulses_at_last_flow st));
         pps = f32_div delta_pulses (f32_of_int 60);
         lph = f32_mul pps (sc_flow_lph_per_pps sc);
         total = f32_mul (f32_of_word (ss_pulse_total st)) (sc_flow_l_per_pulse sc)
     in (st\<lparr>ss_pulses_at_last_flow := ss_pulse_total st\<rparr>, s\<lparr>flow_lph := Some lph, total_l := Some total\<rparr>))"

text \<open>One pass of the loop behind its one second sleep, and its three timed parts.\<close>

definition battery_turn ::
    "sensors_config \<Rightarrow> sensor_input \<Rightarrow> sensor_state \<times> sensors \<Rightarrow> (sensor_state \<times> sensors) option" where
  "battery_turn sc i x = (if ss_secs (fst x) = 10 \<or> ss_secs (fst x) mod 600 = 0
     then sample_battery sc (si_battery i) x else Some x)"

definition pressure_turn ::
    "sensors_config \<Rightarrow> sensor_input \<Rightarrow> sensor_state \<times> sensors \<Rightarrow> (sensor_state \<times> sensors) option" where
  "pressure_turn sc i x = (if ss_secs (fst x) mod 60 = 0 then sample_pressure sc (si_pressure i) x else Some x)"

definition flow_turn :: "sensors_config \<Rightarrow> sensor_state \<times> sensors \<Rightarrow> sensor_state \<times> sensors" where
  "flow_turn sc x = (if ss_secs (fst x) mod 60 = 0 then sample_flow sc x else x)"

definition sensor_round ::
    "sensors_config \<Rightarrow> sensor_input \<Rightarrow> sensor_state \<times> sensors \<Rightarrow> (sensor_state \<times> sensors) option" where
  "sensor_round sc i x =
    (let st = (fst x)\<lparr>ss_secs := ss_secs (fst x) + 1\<rparr>;
         st = count_pulses (si_counter i) st
     in case battery_turn sc i (st, snd x) of
       None \<Rightarrow> None
     | Some x \<Rightarrow> (case pressure_turn sc i x of
         None \<Rightarrow> None
       | Some x \<Rightarrow> Some (flow_turn sc x)))"

section \<open>The ESP-IDF task\<close>

record esp_sensor_state =
  es_bat_window :: "f32 list"
  es_last_battery_ms :: u64
  es_last_pressure_ms :: u64
  es_last_flow_ms :: u64
  es_last_pulse_count :: u64

record esp_sensor_input =
  ei_now_ms :: u64
  ei_battery :: u16
  ei_pressure :: u16
  ei_pulses :: u64

definition esp_sensor_start :: "u64 \<Rightarrow> esp_sensor_state" where
  "esp_sensor_start pulses = \<lparr>es_bat_window = [], es_last_battery_ms = 0, es_last_pressure_ms = 0,
     es_last_flow_ms = 0, es_last_pulse_count = pulses\<rparr>"

definition due_ms :: "u64 \<Rightarrow> u64 \<Rightarrow> u64 \<Rightarrow> bool" where
  "due_ms now_ms last_ms period \<longleftrightarrow> period \<le> sat_sub now_ms last_ms \<or> last_ms = 0"

definition window_push :: "f32 list \<Rightarrow> f32 \<Rightarrow> f32 list" where
  "window_push bat_window v =
    (let window = bat_window @ [v] in if 15 < length window then tl window else window)"

definition esp_battery ::
    "sensors_config \<Rightarrow> esp_sensor_input \<Rightarrow> esp_sensor_state \<times> sensors \<Rightarrow> (esp_sensor_state \<times> sensors) option" where
  "esp_battery sc i x = (case x of (st, s) \<Rightarrow>
     if due_ms (ei_now_ms i) (es_last_battery_ms st) (10 * 60 * 1000) then
       (case cal_apply (sc_battery sc) (f32_of_word (ei_battery i)) of
          None \<Rightarrow> None
        | Some v \<Rightarrow>
            let window = window_push (es_bat_window st) v
            in Some (st\<lparr>es_bat_window := window, es_last_battery_ms := ei_now_ms i\<rparr>,
                 s\<lparr>battery_v := Some (mean_f32 window)\<rparr>))
     else Some (st, s))"

definition esp_pressure ::
    "sensors_config \<Rightarrow> esp_sensor_input \<Rightarrow> esp_sensor_state \<times> sensors \<Rightarrow> (esp_sensor_state \<times> sensors) option" where
  "esp_pressure sc i x = (case x of (st, s) \<Rightarrow>
     if due_ms (ei_now_ms i) (es_last_pressure_ms st) (60 * 1000) then
       (case pressure_chain sc (f32_of_word (ei_pressure i)) of
          None \<Rightarrow> None
        | Some bar \<Rightarrow> Some (st\<lparr>es_last_pressure_ms := ei_now_ms i\<rparr>, s\<lparr>pressure_bar := Some bar\<rparr>))
     else Some (st, s))"

definition esp_flow ::
    "sensors_config \<Rightarrow> esp_sensor_input \<Rightarrow> esp_sensor_state \<times> sensors \<Rightarrow> esp_sensor_state \<times> sensors" where
  "esp_flow sc i x = (case x of (st, s) \<Rightarrow>
     if due_ms (ei_now_ms i) (es_last_flow_ms st) (60 * 1000) then
       (let pulses_now = ei_pulses i;
            delta = f32_of_word (sat_sub pulses_now (es_last_pulse_count st));
            elapsed_s = f32_div (f32_of_word (max (sat_sub (ei_now_ms i) (es_last_flow_ms st)) 1)) (f32_of_int 1000);
            pps = f32_div delta elapsed_s;
            lph = f32_mul pps (sc_flow_lph_per_pps sc);
            total = f32_mul (f32_of_word pulses_now) (sc_flow_l_per_pulse sc)
        in (st\<lparr>es_last_pulse_count := pulses_now, es_last_flow_ms := ei_now_ms i\<rparr>,
            s\<lparr>flow_lph := Some lph, total_l := Some total\<rparr>))
     else (st, s))"

definition esp_sensor_round ::
    "sensors_config \<Rightarrow> esp_sensor_input \<Rightarrow> esp_sensor_state \<times> sensors \<Rightarrow> (esp_sensor_state \<times> sensors) option" where
  "esp_sensor_round sc i x = (case esp_battery sc i x of
      None \<Rightarrow> None
    | Some x \<Rightarrow> (case esp_pressure sc i x of
        None \<Rightarrow> None
      | Some x \<Rightarrow> Some (esp_flow sc i x)))"

section \<open>Adapters\<close>

text \<open>\<open>EspPulseCounter\<close>: the counter of the driver is signed, 16 bit; \<open>None\<close> is a driver error.\<close>

record pulse_counter =
  pc_last_raw :: i16
  pc_total :: "64 word"

definition pulse_counter_new :: pulse_counter where
  "pulse_counter_new = \<lparr>pc_last_raw = 0, pc_total = 0\<rparr>"

definition i64_sat_add :: "64 word \<Rightarrow> int \<Rightarrow> 64 word" where
  "i64_sat_add t d = word_of_int (max (- (2 ^ 63)) (min (2 ^ 63 - 1) (sint t + d)))"

definition pulse_count :: "i16 option \<Rightarrow> pulse_counter \<Rightarrow> pulse_counter \<times> u64" where
  "pulse_count reading p =
    (let raw = (case reading of Some r \<Rightarrow> r | None \<Rightarrow> 0);
         delta = (if sint (pc_last_raw p) \<le> sint raw then sint raw - sint (pc_last_raw p)
                  else (2 ^ 15 - 1) - sint (pc_last_raw p) + sint raw + 1);
         p = (if 0 < delta then p\<lparr>pc_total := i64_sat_add (pc_total p) delta\<rparr> else p);
         p = p\<lparr>pc_last_raw := raw\<rparr>
     in (p, word_of_int (max (sint (pc_total p)) 0)))"

definition placeholder_count :: u64 where
  "placeholder_count = 0"

definition esp_adc_read :: "u16 option \<Rightarrow> u16" where
  "esp_adc_read r = (case r of Some v \<Rightarrow> v | None \<Rightarrow> 0)"

definition placeholder_adc_read :: "u16 \<Rightarrow> u16" where
  "placeholder_adc_read v = v"

text \<open>The clock: seconds since the epoch, if the system time is not before it; microseconds since boot.\<close>

definition esp_now_secs :: "u64 option \<Rightarrow> (64 word \<Rightarrow> bool) \<Rightarrow> 64 word" where
  "esp_now_secs since_epoch valid =
    (let secs = (case since_epoch of Some d \<Rightarrow> d | None \<Rightarrow> 0) in if valid secs then secs else 0)"

definition esp_monotonic_ms :: "64 word \<Rightarrow> u64" where
  "esp_monotonic_ms us = us div 1000"

section \<open>Lemmas\<close>

lemma cal_apply_total: "2 \<le> length (cal_points c) \<Longrightarrow> \<exists>v. cal_apply c raw = Some v"
  by (auto simp: cal_apply_def Let_def split: list.splits option.splits)

lemma cal_apply_short: "length (cal_points c) < 2 \<Longrightarrow> cal_apply c raw = None"
  by (auto simp: cal_apply_def split: list.splits)

text \<open>The counter register shows the number of pulses modulo its width; between two polls less than
  half of its range passes.\<close>

lemma register_delta:
  assumes "m \<le> n" "n - m < 2 ^ 15"
  shows "unat (of_nat n - of_nat m :: i16) = n - m" "sint (of_nat n - of_nat m :: i16) = int (n - m)"
proof -
  have d: "(of_nat n - of_nat m :: i16) = of_nat (n - m)" using assms(1) by (simp add: of_nat_diff)
  then show u: "unat (of_nat n - of_nat m :: i16) = n - m" using assms(2) by (simp add: unat_of_nat)
  have "sint (of_nat (n - m) :: i16) = int (n - m)"
    using assms(2) by (simp add: signed_of_nat signed_take_bit_int_eq_self del: of_nat_diff)
  with d show "sint (of_nat n - of_nat m :: i16) = int (n - m)" by simp
qed

definition poll_register :: "sensor_state \<Rightarrow> nat \<Rightarrow> sensor_state" where
  "poll_register st n = count_pulses (of_nat n) st"

fun slow_enough :: "nat \<Rightarrow> nat list \<Rightarrow> bool" where
  "slow_enough m [] = True"
| "slow_enough m (n # ns) = (m \<le> n \<and> n - m < 2 ^ 15 \<and> slow_enough n ns)"

lemma count_pulses_exact:
  assumes "m \<le> n" "n - m < 2 ^ 15" "ss_last_raw st = of_nat m"
  shows "count_pulses (of_nat n) st = st\<lparr>ss_last_raw := of_nat n, ss_pulse_total := ss_pulse_total st + of_nat (n - m)\<rparr>"
  using register_delta [OF assms(1,2)] assms(3) by (auto simp: count_pulses_def Let_def)

lemma last_ge: "slow_enough m ns \<Longrightarrow> m \<le> last (m # ns)"
  by (induction m ns rule: slow_enough.induct) (auto split: if_splits)

lemma pulses_run:
  "slow_enough m ns \<Longrightarrow> ss_last_raw st = of_nat m \<Longrightarrow>
     ss_pulse_total (foldl poll_register st ns) = ss_pulse_total st + of_nat (last (m # ns) - m)"
proof (induction m ns arbitrary: st rule: slow_enough.induct)
  case (2 m n ns)
  have le: "n \<le> last (n # ns)" using 2(2) last_ge by simp
  have "(of_nat (n - m) :: u64) + of_nat (last (n # ns) - n) = of_nat (last (n # ns) - m)"
    using 2(2) le by (simp flip: of_nat_add)
  moreover have e: "poll_register st n =
      st\<lparr>ss_last_raw := of_nat n, ss_pulse_total := ss_pulse_total st + of_nat (n - m)\<rparr>"
    using 2(2,3) unfolding poll_register_def by (intro count_pulses_exact) simp_all
  moreover have "ss_pulse_total (foldl poll_register (poll_register st n) ns) =
      ss_pulse_total (poll_register st n) + of_nat (last (n # ns) - n)"
    by (rule 2(1)) (use 2(2) e in simp_all)
  moreover have "last (m # n # ns) = last (n # ns)" by simp
  ultimately show ?case by (simp only: foldl_Cons) (simp del: last.simps of_nat_diff add: add.assoc)
qed simp

text \<open>The shape of the battery window: the index stays in range.\<close>

definition sensor_ok :: "sensor_state \<Rightarrow> bool" where
  "sensor_ok st \<longleftrightarrow> length (ss_bat_window st) = 15 \<and> ss_bat_pos st < 15 \<and> ss_bat_len st \<le> 15"

definition calibrated :: "sensors_config \<Rightarrow> bool" where
  "calibrated sc \<longleftrightarrow> 2 \<le> length (cal_points (sc_battery sc)) \<and> 2 \<le> length (cal_points (sc_pressure_stage1 sc)) \<and>
     2 \<le> length (cal_points (sc_pressure_stage2 sc))"

lemma count_pulses_frame:
  "sensor_ok (count_pulses raw st) = sensor_ok st" "ss_secs (count_pulses raw st) = ss_secs st"
  by (simp_all add: count_pulses_def sensor_ok_def Let_def)

lemma battery_round:
  assumes "sensor_ok st" "cal_apply (sc_battery sc) (f32_of_word raw) = Some v"
  shows "\<exists>st' s'. sample_battery sc raw (st, s) = Some (st', s') \<and> sensor_ok st' \<and> ss_secs st' = ss_secs st"
  using assms by (auto simp: sample_battery_def ring_push_def ring_window_def sensor_ok_def Let_def)

lemma pressure_round:
  assumes "calibrated sc"
  shows "\<exists>s'. sample_pressure sc raw (st, s) = Some (st, s')"
proof -
  obtain v where v: "cal_apply (sc_pressure_stage1 sc) (f32_of_word raw) = Some v"
    using assms cal_apply_total calibrated_def by blast
  obtain w where "cal_apply (sc_pressure_stage2 sc) v = Some w"
    using assms cal_apply_total calibrated_def by blast
  with v show ?thesis by (simp add: sample_pressure_def pressure_chain_def)
qed

lemma flow_frame: "sample_flow sc (st, s) = (st', s') \<Longrightarrow> sensor_ok st' = sensor_ok st \<and> ss_secs st' = ss_secs st"
  by (auto simp: sample_flow_def sensor_ok_def Let_def)

lemma battery_turn_ok:
  assumes "sensor_ok (fst x)" "calibrated sc"
  shows "\<exists>x'. battery_turn sc i x = Some x' \<and> sensor_ok (fst x') \<and> ss_secs (fst x') = ss_secs (fst x)"
proof -
  obtain v where "cal_apply (sc_battery sc) (f32_of_word (si_battery i)) = Some v"
    using assms(2) cal_apply_total calibrated_def by blast
  from battery_round [OF assms(1) this, of "snd x"] show ?thesis
    using assms(1) by (cases x) (auto simp: battery_turn_def)
qed

lemma pressure_turn_ok:
  "calibrated sc \<Longrightarrow> \<exists>s'. pressure_turn sc i x = Some (fst x, s')"
  using pressure_round [of sc "si_pressure i" "fst x" "snd x"] by (cases x) (simp add: pressure_turn_def)

lemma sensor_round_ok:
  assumes "sensor_ok (fst x)" "calibrated sc"
  shows "\<exists>x'. sensor_round sc i x = Some x' \<and> sensor_ok (fst x') \<and> ss_secs (fst x') = ss_secs (fst x) + 1"
proof -
  define c where "c = count_pulses (si_counter i) ((fst x)\<lparr>ss_secs := ss_secs (fst x) + 1\<rparr>)"
  have ok: "sensor_ok (fst (c, snd x))" "ss_secs c = ss_secs (fst x) + 1"
    using assms(1) by (simp_all add: c_def count_pulses_frame) (simp add: sensor_ok_def)
  obtain x1 where 1: "battery_turn sc i (c, snd x) = Some x1" "sensor_ok (fst x1)" "ss_secs (fst x1) = ss_secs c"
    using battery_turn_ok [OF ok(1) assms(2), of i] by auto
  obtain s2 where 2: "pressure_turn sc i x1 = Some (fst x1, s2)"
    using pressure_turn_ok [OF assms(2)] by blast
  obtain st3 s3 where 3: "sample_flow sc (fst x1, s2) = (st3, s3)" by (cases "sample_flow sc (fst x1, s2)")
  have r: "sensor_round sc i x = Some (flow_turn sc (fst x1, s2))"
    using 1 2 by (simp add: sensor_round_def flip: c_def)
  show ?thesis
    using flow_frame [OF 3] 3 1(2,3) ok(2) unfolding r by (simp add: flow_turn_def)
qed

text \<open>A run: one input per second, until a panic.\<close>

fun sensor_run ::
    "sensors_config \<Rightarrow> sensor_input list \<Rightarrow> sensor_state \<times> sensors \<Rightarrow> (sensor_state \<times> sensors) option" where
  "sensor_run sc [] x = Some x"
| "sensor_run sc (i # is) x = (case sensor_round sc i x of None \<Rightarrow> None | Some x \<Rightarrow> sensor_run sc is x)"

lemma sensor_run_ok:
  "sensor_ok (fst x) \<Longrightarrow> calibrated sc \<Longrightarrow> \<exists>x'. sensor_run sc is x = Some x' \<and> sensor_ok (fst x')"
proof (induction "is" arbitrary: x)
  case (Cons i "is")
  from sensor_round_ok [OF Cons.prems, of i] Cons show ?case by auto
qed simp

lemma sensor_start_ok: "sensor_ok (sensor_start raw)"
  by (simp add: sensor_ok_def sensor_start_def)

text \<open>With a calibration of fewer than two points the run ends within the first minute.\<close>

lemma round_secs: "sensor_round sc i x = Some x' \<Longrightarrow> ss_secs (fst x') = ss_secs (fst x) + 1"
  by (auto simp: sensor_round_def battery_turn_def pressure_turn_def flow_turn_def sample_battery_def
      ring_push_def sample_pressure_def sample_flow_def count_pulses_frame Let_def split: option.splits if_splits prod.splits)

lemma round_needs:
  assumes "sensor_round sc i x = Some x'"
  shows "ss_secs (fst x) + 1 = 10 \<Longrightarrow> 2 \<le> length (cal_points (sc_battery sc))"
    and "ss_secs (fst x) + 1 = 60 \<Longrightarrow> 2 \<le> length (cal_points (sc_pressure_stage1 sc)) \<and>
      2 \<le> length (cal_points (sc_pressure_stage2 sc))"
proof -
  define c where "c = count_pulses (si_counter i) ((fst x)\<lparr>ss_secs := ss_secs (fst x) + 1\<rparr>)"
  have secs: "ss_secs c = ss_secs (fst x) + 1" by (simp add: c_def count_pulses_frame)
  from assms obtain x1 where b: "battery_turn sc i (c, snd x) = Some x1" and p: "pressure_turn sc i x1 \<noteq> None"
    by (auto simp: sensor_round_def c_def split: option.splits)
  show "2 \<le> length (cal_points (sc_battery sc))" if "ss_secs (fst x) + 1 = 10"
  proof (rule ccontr)
    assume "\<not> ?thesis"
    then have "cal_apply (sc_battery sc) (f32_of_word (si_battery i)) = None" by (simp add: cal_apply_short)
    with b secs that show False by (simp add: battery_turn_def sample_battery_def)
  qed
  have s1: "ss_secs (fst x1) = ss_secs c"
    using b by (auto simp: battery_turn_def sample_battery_def ring_push_def Let_def split: if_splits option.splits)
  show "2 \<le> length (cal_points (sc_pressure_stage1 sc)) \<and> 2 \<le> length (cal_points (sc_pressure_stage2 sc))"
    if "ss_secs (fst x) + 1 = 60"
  proof (rule ccontr)
    assume "\<not> ?thesis"
    then have "pressure_chain sc raw = None" for raw
      by (auto simp: pressure_chain_def cal_apply_short not_le split: option.split)
    with p s1 secs that show False by (simp add: pressure_turn_def sample_pressure_def split: prod.splits)
  qed
qed

lemma sensor_run_prefix:
  "sensor_run sc is x \<noteq> None \<Longrightarrow> j < length is \<Longrightarrow>
     \<exists>y y'. sensor_round sc (is ! j) y = Some y' \<and> ss_secs (fst y) = ss_secs (fst x) + of_nat j"
proof (induction "is" arbitrary: x j)
  case (Cons i "is")
  from Cons.prems(1) obtain x1 where x1: "sensor_round sc i x = Some x1" "sensor_run sc is x1 \<noteq> None"
    by (auto split: option.splits)
  show ?case
  proof (cases j)
    case 0
    with x1 show ?thesis by (intro exI [of _ x] exI [of _ x1]) simp
  next
    case (Suc k)
    from Cons.IH [OF x1(2), of k] Cons.prems(2) Suc obtain y y' where
      "sensor_round sc (is ! k) y = Some y'" "ss_secs (fst y) = ss_secs (fst x1) + of_nat k" by auto
    with round_secs [OF x1(1)] Suc show ?thesis by (intro exI [of _ y] exI [of _ y']) simp
  qed
qed simp

text \<open>The ring buffer of the one task and the deque of the other.\<close>

definition ring_holds :: "f32 list \<Rightarrow> sensor_state \<Rightarrow> bool" where
  "ring_holds vs st \<longleftrightarrow> length (ss_bat_window st) = 15 \<and>
     (ss_bat_len st < 15 \<and> ss_bat_pos st = ss_bat_len st \<and> take (ss_bat_len st) (ss_bat_window st) = vs \<or>
      ss_bat_len st = 15 \<and> ss_bat_pos st < 15 \<and>
      drop (ss_bat_pos st) (ss_bat_window st) @ take (ss_bat_pos st) (ss_bat_window st) = vs)"

lemma window_push_full: "length w = 15 \<Longrightarrow> window_push w v = tl w @ [v]"
  by (cases w) (simp_all add: window_push_def)

lemma window_push_short: "length w < 15 \<Longrightarrow> window_push w v = w @ [v]"
  by (simp add: window_push_def)

lemma ring_push_holds:
  assumes "ring_holds vs st"
  shows "\<exists>st'. ring_push v st = Some st' \<and> ring_holds (window_push vs v) st'"
proof -
  let ?w = "ss_bat_window st" and ?p = "ss_bat_pos st"
  have w: "length ?w = 15" using assms by (simp add: ring_holds_def)
  have p: "?p < 15" using assms by (auto simp: ring_holds_def)
  have upd: "?w[?p := v] = take ?p ?w @ v # drop (Suc ?p) ?w"
    using w p by (simp add: upd_conv_take_nth_drop)
  have lt: "length (take ?p ?w) = ?p" using w p by simp
  show ?thesis
  proof (cases "ss_bat_len st < 15")
    case True
    then have h: "?p = ss_bat_len st" "take ?p ?w = vs" using assms by (auto simp: ring_holds_def)
    have len: "length vs = ?p" using h lt by simp
    have "take (Suc ?p) (?w[?p := v]) = vs @ [v]" using upd h lt by simp
    moreover have "?p = 14 \<Longrightarrow> drop 0 (?w[?p := v]) = vs @ [v]" using upd h w by simp
    ultimately show ?thesis
      using True w h len p
      by (cases "?p = 14") (auto simp: ring_push_def ring_holds_def window_push_short Let_def)
  next
    case False
    then have h: "ss_bat_len st = 15" "drop ?p ?w @ take ?p ?w = vs" using assms by (auto simp: ring_holds_def)
    have vs: "length vs = 15" using h(2) w p by auto
    have "tl vs = drop (Suc ?p) ?w @ take ?p ?w"
      using h(2) w p by (metis drop_Suc length_drop tl_append2 tl_drop zero_less_diff length_greater_0_conv)
    then have t: "window_push vs v = drop (Suc ?p) ?w @ take ?p ?w @ [v]"
      using vs by (simp add: window_push_full)
    have d: "drop (Suc ?p) (?w[?p := v]) = drop (Suc ?p) ?w" "take (Suc ?p) (?w[?p := v]) = take ?p ?w @ [v]"
      using upd lt by simp_all
    show ?thesis
    proof (cases "?p = 14")
      case True
      then have "?w[?p := v] = window_push vs v" using t upd w by simp
      moreover have "length (window_push vs v) = 15" using vs by (simp add: window_push_full)
      ultimately show ?thesis using True w h p by (simp add: ring_push_def ring_holds_def Let_def)
    next
      case False
      then have "(?p + 1) mod 15 = Suc ?p" using p by simp
      then show ?thesis
        using False w h p t d by (simp add: ring_push_def ring_holds_def Let_def)
    qed
  qed
qed

lemma ring_window_mset: "ring_holds vs st \<Longrightarrow> \<exists>w. ring_window st = Some w \<and> mset w = mset vs"
  by (auto simp: ring_holds_def ring_window_def) (metis add.commute append_take_drop_id mset_append)

fun ring_run :: "f32 list \<Rightarrow> sensor_state \<Rightarrow> sensor_state option" where
  "ring_run [] st = Some st"
| "ring_run (v # vs) st = (case ring_push v st of None \<Rightarrow> None | Some st \<Rightarrow> ring_run vs st)"

lemma ring_run_holds:
  "ring_holds us st \<Longrightarrow> \<exists>st'. ring_run vs st = Some st' \<and> ring_holds (foldl window_push us vs) st'"
proof (induction vs arbitrary: us st)
  case (Cons v vs)
  from ring_push_holds [OF Cons.prems, of v] Cons.IH show ?case by auto
qed simp

lemma window_push_last_n: "foldl window_push (last_n 15 us) vs = last_n 15 (us @ vs)"
proof (induction vs arbitrary: us)
  case (Cons v vs)
  have "window_push (last_n 15 us) v = last_n 15 (us @ [v])"
  proof (cases "length us < 15")
    case True
    then show ?thesis by (simp add: window_push_short last_n_all)
  next
    case False
    then have "window_push (last_n 15 us) v = tl (last_n 15 us) @ [v]" by (intro window_push_full) simp
    moreover have "Suc (length us - 15) = length us - 14" using False by arith
    then have "tl (last_n 15 us) = last_n 14 us"
      by (simp add: last_n_def tl_drop flip: drop_Suc)
    ultimately show ?thesis using last_n_snoc [of 14 us v] by simp
  qed
  then show ?case using Cons.IH [of "us @ [v]"] by simp
qed simp

section \<open>Properties\<close>

text \<open>C32. The pulse total of the no_std firmware is exact: when fewer than 2 ^ 15 pulses fall between two
  polls of the 16 bit register, the 64 bit total is the number of pulses since the start, however
  often the register has wrapped.\<close>

theorem pulse_total_exact:
  assumes "slow_enough n0 ns"
  shows "ss_pulse_total (foldl poll_register (sensor_start (of_nat n0)) ns) = of_nat (last (n0 # ns) - n0)"
  using pulses_run [OF assms, of "sensor_start (of_nat n0)"] by (simp add: sensor_start_def)

lemma pulse_total_exact_witness:
  "ss_pulse_total (foldl poll_register (sensor_start (of_nat 65000)) [65500, 65600, 98000]) = 33000"
proof -
  have "slow_enough 65000 [65500, 65600, 98000]" by simp
  from pulse_total_exact [OF this] show ?thesis by simp
qed

text \<open>C33. A run of the sensor task of the no_std firmware of a minute or more is free of panics exactly when
  all three calibrations have at least two points: then, over any inputs, it neither leaves the battery
  window nor indexes a calibration out of range; with a shorter calibration every such run panics.\<close>

theorem sensor_task_total_iff:
  assumes "60 \<le> length is"
  shows "sensor_run sc is (sensor_start raw, s) \<noteq> None \<longleftrightarrow> calibrated sc"
proof
  assume run: "sensor_run sc is (sensor_start raw, s) \<noteq> None"
  have start: "ss_secs (sensor_start raw) = 0" by (simp add: sensor_start_def)
  obtain y y' where "sensor_round sc (is ! 9) y = Some y'" "ss_secs (fst y) = 9"
    using sensor_run_prefix [OF run, of 9] assms start by auto
  note b = round_needs(1) [OF this(1)] this(2)
  obtain z z' where "sensor_round sc (is ! 59) z = Some z'" "ss_secs (fst z) = 59"
    using sensor_run_prefix [OF run, of 59] assms start by auto
  note p = round_needs(2) [OF this(1)] this(2)
  show "calibrated sc" using b p by (simp add: calibrated_def)
next
  assume "calibrated sc"
  with sensor_run_ok [of "(sensor_start raw, s)" sc "is"] sensor_start_ok show
    "sensor_run sc is (sensor_start raw, s) \<noteq> None" by auto
qed

lemma sensor_task_total_iff_witness:
  "let readings = replicate 60 \<lparr>si_counter = 0, si_battery = 1130, si_pressure = 0\<rparr>; sc = cf_sensors sample_config
   in sensor_run sc readings (sensor_start 0, default_sensors) \<noteq> None \<and>
     sensor_run (sc\<lparr>sc_battery := \<lparr>cal_points = []\<rparr>\<rparr>) readings (sensor_start 0, default_sensors) = None"
proof -
  have run: "sensor_run sc (replicate 60 i) (sensor_start 0, default_sensors) \<noteq> None \<longleftrightarrow> calibrated sc" for sc i
    by (rule sensor_task_total_iff) simp
  have "calibrated (cf_sensors sample_config)" "\<not> calibrated ((cf_sensors sample_config)\<lparr>sc_battery := \<lparr>cal_points = []\<rparr>\<rparr>)"
    by (simp_all add: calibrated_def sample_config_def sample_calibration_def)
  then show ?thesis unfolding Let_def using run by blast
qed

text \<open>A failed read of the ESP-IDF pulse counter adds 2 ^ 15 phantom pulses: the error counts as a
  reading of zero, which looks like a wrap of the register, and the next good reading, with no pulse
  in between, is counted again.\<close>

theorem failed_read_phantom_pulses:
  assumes "0 < sint (pc_last_raw p)" "0 \<le> sint (pc_total p)" "sint (pc_total p) < 2 ^ 62"
  shows "sint (pc_total (fst (pulse_count (Some (pc_last_raw p)) (fst (pulse_count None p))))) =
    sint (pc_total p) + 2 ^ 15"
proof -
  let ?r = "sint (pc_last_raw p)" and ?t = "sint (pc_total p)"
  have r: "?r < 2 ^ 15" using sint_lt [of "pc_last_raw p"] by simp
  have w: "sint (word_of_int i :: 64 word) = i" if "0 \<le> i" "i < 2 ^ 63" for i
    using that by (simp add: signed_of_int signed_take_bit_int_eq_self)
  define q where "q = fst (pulse_count None p)"
  have "pc_total q = word_of_int (?t + (2 ^ 15 - ?r))" "pc_last_raw q = 0"
    using assms r by (simp_all add: q_def pulse_count_def i64_sat_add_def Let_def)
  moreover have "sint (word_of_int (?t + (2 ^ 15 - ?r)) :: 64 word) = ?t + (2 ^ 15 - ?r)"
    by (rule w) (use assms r in simp_all)
  ultimately have q: "sint (pc_total q) = ?t + (2 ^ 15 - ?r)" "pc_last_raw q = 0" by simp_all
  have "pc_total (fst (pulse_count (Some (pc_last_raw p)) q)) = word_of_int (?t + 2 ^ 15)"
    using assms r q by (simp add: pulse_count_def i64_sat_add_def Let_def del: of_int_add)
  moreover have "sint (word_of_int (?t + 2 ^ 15) :: 64 word) = ?t + 2 ^ 15"
    by (rule w) (use assms in simp_all)
  ultimately show ?thesis unfolding q_def by simp
qed

lemma failed_read_phantom_pulses_witness:
  "sint (pc_total (fst (pulse_count (Some 5) (fst (pulse_count None \<lparr>pc_last_raw = 5, pc_total = 5\<rparr>))))) =
    sint (5 :: 64 word) + 2 ^ 15"
  using failed_read_phantom_pulses [of "\<lparr>pc_last_raw = 5, pc_total = 5\<rparr>"] by simp

text \<open>Both firmwares average the same readings: after any number of battery samples the ring buffer of
  the no_std task holds, in some order, the last fifteen, which are the deque of the ESP-IDF task.\<close>

theorem battery_windows_agree:
  "\<exists>st w. ring_run vs (sensor_start raw) = Some st \<and> ring_window st = Some w \<and>
     mset w = mset (foldl window_push [] vs) \<and> foldl window_push [] vs = last_n 15 vs"
proof -
  have "ring_holds [] (sensor_start raw)" by (simp add: ring_holds_def sensor_start_def)
  from ring_run_holds [OF this, of vs] obtain st where
    st: "ring_run vs (sensor_start raw) = Some st" "ring_holds (foldl window_push [] vs) st" by blast
  have "foldl window_push [] vs = last_n 15 vs"
    using window_push_last_n [of "[]" vs] by (simp add: last_n_def)
  with st ring_window_mset [OF st(2)] show ?thesis by blast
qed

end
