(* ===== verification/Pin_Task.thy ===== *)
theory Pin_Task
  imports App
begin

text \<open>
  The tick tasks of the two firmwares, which write the outputs of every tick to the pins:
  \<open>tick_task\<close> of \<open>crates/firmware-nostd/src/main.rs\<close>, the tick thread of
  \<open>crates/firmware/src/main.rs\<close> and its pin adapter \<open>hw_gpio.rs\<close>. The pins are written one after
  the other, so between two writes the pins show neither the old nor the new outputs. The runs are
  those of a pin driver that accepts every write.
\<close>

section \<open>Pins\<close>

datatype pin = PinSprinkler1 | PinSprinkler2 | PinValveOpen | PinValveClose | PinDrain

type_synonym levels = "pin \<Rightarrow> bool"

definition all_low :: levels where
  "all_low = (\<lambda>_. False)"

definition level :: "bool \<Rightarrow> bool" where
  "level on = (if on then True else False)"

text \<open>\<open>EspGpioOut\<close>: \<open>accepts\<close> tells whether the driver takes the change; an error is ignored.\<close>

definition esp_gpio_new :: "bool \<Rightarrow> bool option" where
  "esp_gpio_new accepts = (if accepts then Some False else None)"

definition esp_gpio_set :: "bool \<Rightarrow> bool \<Rightarrow> bool \<Rightarrow> bool" where
  "esp_gpio_set accepts old high = (if high then (if accepts then True else old) else (if accepts then False else old))"

section \<open>The two tasks\<close>

definition nostd_tick_task :: "('s, 't, 'd) env \<Rightarrow> ('s, 'd) app \<Rightarrow> ('s, 'd) app \<times> (pin \<times> bool) list" where
  "nostd_tick_task env a =
    (let (a, out) = app_tick env a in
     (a, [(PinSprinkler1, level (to_sprinkler_1 out)), (PinSprinkler2, level (to_sprinkler_2 out)),
          (PinValveOpen, level (open_motor (to_valve out))), (PinValveClose, level (close_motor (to_valve out))),
          (PinDrain, level (drain (to_valve out)))]))"

definition esp_tick_task :: "('s, 't, 'd) env \<Rightarrow> ('s, 'd) app \<Rightarrow> ('s, 'd) app \<times> (pin \<times> bool) list" where
  "esp_tick_task env a =
    (let (a, outputs) = app_tick env a in
     (a, [(PinValveOpen, open_motor (to_valve outputs)), (PinValveClose, close_motor (to_valve outputs)),
          (PinDrain, drain (to_valve outputs)), (PinSprinkler1, to_sprinkler_1 outputs),
          (PinSprinkler2, to_sprinkler_2 outputs)]))"

section \<open>Runs at the pins\<close>

text \<open>Every level the pins take while the writes are carried out.\<close>

fun write_trace :: "levels \<Rightarrow> (pin \<times> bool) list \<Rightarrow> levels list" where
  "write_trace l [] = []"
| "write_trace l ((p, b) # ws) = l(p := b) # write_trace (l(p := b)) ws"

text \<open>A run of the device: ticks by the given task, everything else of the application in between.\<close>

fun pin_trace ::
    "(('s, 't, 'd) env \<Rightarrow> ('s, 'd) app \<Rightarrow> ('s, 'd) app \<times> (pin \<times> bool) list) \<Rightarrow> ('s, 't, 'd) env \<Rightarrow>
     ('s, 'd) app \<Rightarrow> levels \<Rightarrow> app_op list \<Rightarrow> levels list" where
  "pin_trace task env a l [] = []"
| "pin_trace task env a l (e # es) =
    (if e = ATick then
       (let (a, ws) = task env a; tr = write_trace l ws
        in tr @ pin_trace task env a (last (l # tr)) es)
     else pin_trace task env (app_apply env a e) l es)"

definition windings_apart :: "levels \<Rightarrow> bool" where
  "windings_apart l \<longleftrightarrow> \<not> (l PinValveOpen \<and> l PinValveClose)"

section \<open>Lemmas\<close>

lemma level_id [simp]: "level b = b"
  by (simp add: level_def)

lemma busy_command: "valve_is_busy (ap_valve a) \<Longrightarrow> ap_valve (fst (switch_command env a c)) = ap_valve a"
  by (auto simp: switch_command_def Let_def split: switch_command.split)

lemma busy_evaluate: "valve_is_busy (ap_valve a) \<Longrightarrow> ap_valve (evaluate_flow_alarm env a now) = ap_valve a"
  by (auto simp: evaluate_flow_alarm_def busy_command Let_def)

lemma busy_apply:
  "valve_is_busy (ap_valve a) \<Longrightarrow> e \<noteq> ATick \<Longrightarrow> wv_phase (ap_valve (app_apply env a e)) = wv_phase (ap_valve a)"
  by (cases e) (auto simp: busy_command valve_set_timing_def)

lemma tick_valve:
  assumes "valve_is_busy (fst (valve_tick (ap_valve a) (env_mono env (ap_reads a))))"
  shows "ap_valve (fst (app_tick env a)) = fst (valve_tick (ap_valve a) (env_mono env (ap_reads a)))"
  using assms by (simp add: app_tick_split busy_evaluate)

text \<open>The link between the pins and the phase of the valve.\<close>

definition pins_follow :: "levels \<Rightarrow> water_valve \<Rightarrow> bool" where
  "pins_follow l v \<longleftrightarrow> (l PinValveOpen \<longrightarrow> (\<exists>s. wv_phase v = PTurningOn s)) \<and>
     (l PinValveClose \<longrightarrow> (\<exists>s. wv_phase v = PTurningOff s))"

lemma pins_follow_apart: "pins_follow l v \<Longrightarrow> windings_apart l"
  by (auto simp: pins_follow_def windings_apart_def)

lemma pins_follow_apply:
  "pins_follow l (ap_valve a) \<Longrightarrow> e \<noteq> ATick \<Longrightarrow> pins_follow l (ap_valve (app_apply env a e))"
  using busy_apply [of a e env] by (auto simp: pins_follow_def valve_is_busy_def)

lemma tick_keeps_motor_phase:
  "open_motor (snd (valve_tick v n)) \<Longrightarrow> \<exists>s. wv_phase (fst (valve_tick v n)) = PTurningOn s"
  "close_motor (snd (valve_tick v n)) \<Longrightarrow> \<exists>s. wv_phase (fst (valve_tick v n)) = PTurningOff s"
  by (auto simp: valve_tick_def Let_def split: valve_splits)

lemma no_crossing:
  "pins_follow l v \<Longrightarrow> l PinValveClose \<Longrightarrow> \<not> open_motor (snd (valve_tick v n))"
  "pins_follow l v \<Longrightarrow> l PinValveOpen \<Longrightarrow> \<not> close_motor (snd (valve_tick v n))"
  using valve_tick_openD [of v n] valve_tick_closeD [of v n] by (auto simp: pins_follow_def)

definition tick_writes :: "(('s, 't, 'd) env \<Rightarrow> ('s, 'd) app \<Rightarrow> ('s, 'd) app \<times> (pin \<times> bool) list) \<Rightarrow> bool" where
  "tick_writes task \<longleftrightarrow> task = nostd_tick_task \<or> task = esp_tick_task"

lemma tick_round:
  assumes "tick_writes task" "pins_follow l (ap_valve a)" "task env a = (a', ws)"
  shows "list_all windings_apart (write_trace l ws) \<and> pins_follow (last (l # write_trace l ws)) (ap_valve a')"
proof -
  let ?o = "snd (valve_tick (ap_valve a) (env_mono env (ap_reads a)))"
    and ?v = "fst (valve_tick (ap_valve a) (env_mono env (ap_reads a)))"
  have a': "a' = fst (app_tick env a)" and out: "to_valve (snd (app_tick env a)) = ?o"
    using assms(1,3) by (auto simp: tick_writes_def nostd_tick_task_def esp_tick_task_def app_tick_outputs
        split: prod.splits)
  have one: "\<not> (open_motor ?o \<and> close_motor ?o)"
    using valve_tick_at_most_one [of "ap_valve a"] by (simp add: at_most_one_def)
  have "ap_valve a' = ?v" if "open_motor ?o \<or> close_motor ?o"
    using that tick_keeps_motor_phase [of "ap_valve a" "env_mono env (ap_reads a)"]
    unfolding a' by (intro tick_valve) (auto simp: valve_is_busy_def)
  then have f: "open_motor ?o \<Longrightarrow> \<exists>s. wv_phase (ap_valve a') = PTurningOn s"
    "close_motor ?o \<Longrightarrow> \<exists>s. wv_phase (ap_valve a') = PTurningOff s"
    using tick_keeps_motor_phase [of "ap_valve a" "env_mono env (ap_reads a)"] by auto
  have x: "l PinValveClose \<Longrightarrow> \<not> open_motor ?o" by (rule no_crossing(1) [OF assms(2)])
  have l: "\<not> (l PinValveOpen \<and> l PinValveClose)"
    using pins_follow_apart [OF assms(2)] by (simp add: windings_apart_def)
  obtain s1 s2 where "ws = [(PinSprinkler1, s1), (PinSprinkler2, s2), (PinValveOpen, open_motor ?o),
        (PinValveClose, close_motor ?o), (PinDrain, drain ?o)] \<or>
      ws = [(PinValveOpen, open_motor ?o), (PinValveClose, close_motor ?o), (PinDrain, drain ?o),
        (PinSprinkler1, s1), (PinSprinkler2, s2)]"
    using assms(1,3) out by (auto simp: tick_writes_def nostd_tick_task_def esp_tick_task_def split: prod.splits)
  then show ?thesis
    using one x l f by (elim disjE) (auto simp: windings_apart_def pins_follow_def)
qed

lemma pin_run:
  "tick_writes task \<Longrightarrow> pins_follow l (ap_valve a) \<Longrightarrow> list_all windings_apart (pin_trace task env a l es)"
proof (induction es arbitrary: a l)
  case (Cons e es)
  show ?case
  proof (cases "e = ATick")
    case True
    obtain a' ws where t: "task env a = (a', ws)" by (cases "task env a")
    from tick_round [OF Cons.prems(1,2) t] Cons.IH [OF Cons.prems(1), of "last (l # write_trace l ws)" a'] True t
    show ?thesis by (simp add: Let_def del: last.simps)
  next
    case False
    with Cons pins_follow_apply [OF Cons.prems(2) False, of env] show ?thesis by simp
  qed
qed simp

section \<open>Properties\<close>

text \<open>At the pins: on either firmware, from boot with all pins low and over every sequence of ticks,
  commands, schedule firings, alarms and configuration changes at any times, the open and the close
  winding of the valve are never both driven, not even between two writes of the same tick.\<close>

theorem windings_never_both_driven:
  "list_all windings_apart (pin_trace nostd_tick_task env (app_with_nvs env cfg nvs) all_low es) \<and>
   list_all windings_apart (pin_trace esp_tick_task env (app_with_nvs env cfg nvs) all_low es)"
  by (intro conjI pin_run) (simp_all add: tick_writes_def pins_follow_def all_low_def)

end
