(* ===== verification/Firmware_Main.thy ===== *)
theory Firmware_Main
  imports Mqtt_Dispatch Schedule Http_Server
begin

text \<open>
  The tasks of the ESP-IDF firmware, \<open>crates/firmware/src/main.rs\<close>: the configuration at boot, the
  health loop with its rollback guard, the MQTT supervisor with its back-off, and the schedule task,
  which the no_std firmware repeats (\<open>crates/firmware-nostd/src/schedule.rs\<close>). \<open>EspMqtt\<close> of
  \<open>mqtt_client.rs\<close> and the store adapter \<open>hw_nvs.rs\<close> are here as well. A loop is its body, one pass
  after its sleep; what the body reads from outside is a record of inputs.
\<close>

section \<open>The store adapter\<close>

text \<open>The blob partition of ESP-IDF; an error is its text.\<close>

record 'p blob_ops =
  bl_len :: "'p \<Rightarrow> string \<Rightarrow> string + nat option"
  bl_get :: "'p \<Rightarrow> string \<Rightarrow> nat \<Rightarrow> string + bytes option"
  bl_set :: "'p \<Rightarrow> string \<Rightarrow> bytes \<Rightarrow> 'p \<times> (string + unit)"
  bl_remove :: "'p \<Rightarrow> string \<Rightarrow> 'p \<times> (string + bool)"

text \<open>\<open>get_blob\<close> fills the buffer it is given; \<open>bl_get\<close> gets the length of that buffer and answers what it
  then holds.\<close>

definition esp_nvs_get :: "'p blob_ops \<Rightarrow> 'p \<Rightarrow> string \<Rightarrow> bytes option" where
  "esp_nvs_get bl p key = (case bl_len bl p key of
      Inr (Some len) \<Rightarrow> (case bl_get bl p key len of
        Inl e \<Rightarrow> None
      | Inr None \<Rightarrow> Some (replicate len 0)
      | Inr (Some buf) \<Rightarrow> Some buf)
    | _ \<Rightarrow> None)"

definition esp_nvs_set :: "'p blob_ops \<Rightarrow> 'p \<Rightarrow> string \<Rightarrow> bytes \<Rightarrow> 'p \<times> (nvs_error + unit)" where
  "esp_nvs_set bl p key val = (let (p, r) = bl_set bl p key val in
     (p, map_sum (\<lambda>e. Io (''set_blob: '' @ e)) id r))"

definition esp_nvs_remove :: "'p blob_ops \<Rightarrow> 'p \<Rightarrow> string \<Rightarrow> 'p \<times> (nvs_error + unit)" where
  "esp_nvs_remove bl p key = (let (p, r) = bl_remove bl p key in
     (p, map_sum (\<lambda>e. Io (''remove: '' @ e)) (\<lambda>_. ()) r))"

definition esp_nvs_ops :: "'p blob_ops \<Rightarrow> 'p nvs_ops" where
  "esp_nvs_ops bl = \<lparr>nvs_get = esp_nvs_get bl, nvs_set = esp_nvs_set bl, nvs_remove = esp_nvs_remove bl\<rparr>"

section \<open>Boot\<close>

definition esp_load_config :: "'s nvs_ops \<Rightarrow> 'j config_codec \<Rightarrow> config \<Rightarrow> 's \<Rightarrow> 's \<times> config" where
  "esp_load_config ops codec dflt s = (case config_load ops codec dflt s of
      Inr c \<Rightarrow> (s, c)
    | Inl e \<Rightarrow> (let defaults = dflt in (fst (config_save ops codec defaults s), defaults)))"

text \<open>\<open>generate_self_signed\<close> answers certificate and key in PEM.\<close>

definition ensure_cert ::
    "'s nvs_ops \<Rightarrow> 'j config_codec \<Rightarrow> (string \<Rightarrow> string + string \<times> string) \<Rightarrow> 's \<times> config \<Rightarrow> 's \<times> config" where
  "ensure_cert ops codec generate x = (case x of (s, config) \<Rightarrow>
     if hs_cert_pem (cf_https config) = [] \<and> hs_key_pem (cf_https config) = [] then
       (let cn = (if wf_hostname (cf_wifi config) = [] then ''doremorwater''
                  else wf_hostname (cf_wifi config) @ ''.local'')
        in case generate cn of
          Inr (cert, key) \<Rightarrow>
            (let config = config\<lparr>cf_https := (cf_https config)\<lparr>hs_cert_pem := cert, hs_key_pem := key\<rparr>\<rparr>
             in (fst (config_save ops codec config s), config))
        | Inl e \<Rightarrow> (s, config))
     else (s, config))"

definition esp_boot ::
    "('s, 't, 'd) env \<Rightarrow> 'j config_codec \<Rightarrow> config \<Rightarrow> (string \<Rightarrow> string + string \<times> string) \<Rightarrow> 'd \<Rightarrow> 's \<Rightarrow>
     ('s, 'd) app" where
  "esp_boot env codec dflt generate dispatcher s =
    (let (s, config) = ensure_cert (env_nvs env) codec generate (esp_load_config (env_nvs env) codec dflt s)
     in set_webhook_dispatcher (app_with_nvs env config (Some s)) dispatcher)"

section \<open>The health loop\<close>

datatype reset_cause =
  RstPowerOn | RstExt | RstSw | RstPanic | RstIntWdt | RstTaskWdt | RstWdt | RstDeepSleep | RstBrownout
  | RstSdio | RstOther

fun reset_reason_label :: "reset_cause \<Rightarrow> string" where
  "reset_reason_label RstPowerOn = ''power-on''"
| "reset_reason_label RstExt = ''external reset''"
| "reset_reason_label RstSw = ''software restart''"
| "reset_reason_label RstPanic = ''panic / exception''"
| "reset_reason_label RstIntWdt = ''interrupt watchdog''"
| "reset_reason_label RstTaskWdt = ''task watchdog''"
| "reset_reason_label RstWdt = ''other watchdog''"
| "reset_reason_label RstDeepSleep = ''wake from deep sleep''"
| "reset_reason_label RstBrownout = ''brownout''"
| "reset_reason_label RstSdio = ''sdio reset''"
| "reset_reason_label RstOther = ''unknown''"

definition HEALTHY_UPTIME_MS :: u64 where "HEALTHY_UPTIME_MS = 60000"
definition HEAP_FLOOR_BYTES :: u32 where "HEAP_FLOOR_BYTES = 20 * 1024"

definition is_panic :: "reset_cause \<Rightarrow> bool" where
  "is_panic r \<longleftrightarrow> r \<in> set [RstPanic, RstIntWdt, RstTaskWdt, RstWdt, RstBrownout]"

record health_in =
  hi_uptime_ms :: u64
  hi_free_heap :: u32
  hi_min_free_heap :: u32
  hi_wifi_ok :: bool

record ('s, 'd) health =
  hl_app :: "('s, 'd) app"
  hl_marked_valid :: bool
  hl_boot_emitted :: bool

definition boot_event :: "reset_cause \<Rightarrow> string \<Rightarrow> webhook_event" where
  "boot_event cause version = event_with (event_with (event_new (if is_panic cause then PanicBoot else Boot))
     ''reset_reason'' (reset_reason_label cause)) ''firmware_version'' version"

definition health_snapshot :: "reset_cause \<Rightarrow> string \<Rightarrow> health_in \<Rightarrow> device_snapshot \<Rightarrow> device_snapshot" where
  "health_snapshot cause version i s = s\<lparr>sn_uptime_ms := hi_uptime_ms i,
     sn_firmware_version := (if sn_firmware_version s = [] then version else sn_firmware_version s),
     sn_diagnostics := (sn_diagnostics s)\<lparr>free_heap_bytes := Some (hi_free_heap i),
       min_free_heap_bytes := Some (hi_min_free_heap i),
       reset_reason := (if reset_reason (sn_diagnostics s) = None then Some (reset_reason_label cause)
         else reset_reason (sn_diagnostics s))\<rparr>\<rparr>"

text \<open>The result tells whether this pass has confirmed the running image to the boot loader.\<close>

definition health_round ::
    "('s, 't, 'd) env \<Rightarrow> reset_cause \<Rightarrow> string \<Rightarrow> health_in \<Rightarrow> ('s, 'd) health \<Rightarrow> ('s, 'd) health \<times> bool" where
  "health_round env cause version i h =
    (let h = (if \<not> hl_boot_emitted h \<and> hi_wifi_ok i then
           h\<lparr>hl_app := emit_event env (hl_app h) (boot_event cause version), hl_boot_emitted := True\<rparr> else h);
         mark = (\<not> hl_marked_valid h \<and> HEALTHY_UPTIME_MS \<le> hi_uptime_ms i \<and>
           HEAP_FLOOR_BYTES \<le> hi_min_free_heap i \<and> hi_wifi_ok i);
         h = (if mark then h\<lparr>hl_marked_valid := True,
             hl_app := emit_event env (hl_app h) (event_with (event_new OtaCompleted) ''firmware_version'' version)\<rparr>
           else h)
     in (h\<lparr>hl_app := app_update_state (hl_app h) (health_snapshot cause version i)\<rparr>, mark))"

section \<open>The MQTT client\<close>

record mqtt_args =
  ma_url :: string
  ma_username :: "string option"
  ma_password :: "string option"
  ma_client_id :: string
  ma_ca_cert_pem :: string
  ma_client_cert_pem :: string
  ma_client_key_pem :: string

text \<open>The client of ESP-IDF: its construction from URL, credentials and NUL-terminated certificates, and
  its queue. The mutex around the optional client is the atomicity of an operation.\<close>

datatype qos = AtMostOnce | AtLeastOnce | ExactlyOnce

record 'c client_ops =
  cl_new :: "mqtt_args \<Rightarrow> bytes option \<Rightarrow> bytes option \<Rightarrow> bytes option \<Rightarrow> 'c option"
  cl_enqueue :: "'c \<Rightarrow> string \<Rightarrow> qos \<Rightarrow> bool \<Rightarrow> bytes \<Rightarrow> 'c"
  cl_subscribe :: "'c \<Rightarrow> string \<Rightarrow> qos \<Rightarrow> 'c"

record ('c, 'h) esp_mqtt =
  em_inner :: "'c option"
  em_handler :: "'h option"
  em_connected :: bool

definition em_new :: "('c, 'h) esp_mqtt" where
  "em_new = \<lparr>em_inner = None, em_handler = None, em_connected = False\<rparr>"

text \<open>\<open>None\<close>: the \<open>expect\<close> on a text with an inner NUL.\<close>

definition leak_cstr :: "string \<Rightarrow> bytes option" where
  "leak_cstr s =
    (let b = bytes_of s;
         b = (if b \<noteq> [] \<and> last b = 0 then b else b @ [0])
     in if 0 \<in> set (butlast b) then None else Some b)"

definition cert_arg :: "string \<Rightarrow> bytes option option" where
  "cert_arg pem = (if pem = [] then Some None else map_option Some (leak_cstr pem))"

definition em_connect :: "'c client_ops \<Rightarrow> mqtt_args \<Rightarrow> ('c, 'h) esp_mqtt \<Rightarrow> (('c, 'h) esp_mqtt \<times> bool) option" where
  "em_connect ops args m =
    (case (cert_arg (ma_ca_cert_pem args), cert_arg (ma_client_cert_pem args), cert_arg (ma_client_key_pem args)) of
       (Some ca, Some cert, Some key) \<Rightarrow>
         (let m = m\<lparr>em_inner := None, em_connected := False\<rparr>
          in case cl_new ops args ca cert key of
            None \<Rightarrow> Some (m, False)
          | Some c \<Rightarrow> Some (m\<lparr>em_inner := Some c\<rparr>, True))
     | _ \<Rightarrow> None)"

datatype mqtt_event = EvConnected | EvDisconnected | EvReceived "string option" bytes | EvError | EvOther

definition em_on_event :: "mqtt_event \<Rightarrow> ('c, string \<Rightarrow> bytes \<Rightarrow> 'a \<Rightarrow> 'a) esp_mqtt \<Rightarrow> 'a \<Rightarrow>
    ('c, string \<Rightarrow> bytes \<Rightarrow> 'a \<Rightarrow> 'a) esp_mqtt \<times> 'a" where
  "em_on_event ev m a = (case ev of
      EvConnected \<Rightarrow> (m\<lparr>em_connected := True\<rparr>, a)
    | EvDisconnected \<Rightarrow> (m\<lparr>em_connected := False\<rparr>, a)
    | EvReceived topic payload \<Rightarrow> (m, case em_handler m of
          Some h \<Rightarrow> (case topic of Some t \<Rightarrow> h t payload a | None \<Rightarrow> a)
        | None \<Rightarrow> a)
    | _ \<Rightarrow> (m, a))"

definition qos_of :: "u8 \<Rightarrow> qos" where
  "qos_of q = (if q = 0 then AtMostOnce else if q = 2 then ExactlyOnce else AtLeastOnce)"

definition em_publish :: "'c client_ops \<Rightarrow> ('c, 'h) esp_mqtt \<Rightarrow> string \<Rightarrow> bytes \<Rightarrow> publish_opts \<Rightarrow> ('c, 'h) esp_mqtt" where
  "em_publish ops m topic payload opts = (case em_inner m of
      Some c \<Rightarrow> m\<lparr>em_inner := Some (cl_enqueue ops c topic (qos_of (po_qos opts)) (po_retained opts) payload)\<rparr>
    | None \<Rightarrow> m)"

definition em_subscribe :: "'c client_ops \<Rightarrow> ('c, 'h) esp_mqtt \<Rightarrow> string \<Rightarrow> ('c, 'h) esp_mqtt" where
  "em_subscribe ops m topic = (case em_inner m of
      Some c \<Rightarrow> m\<lparr>em_inner := Some (cl_subscribe ops c topic AtLeastOnce)\<rparr>
    | None \<Rightarrow> m)"

definition em_set_handler :: "('c, 'h) esp_mqtt \<Rightarrow> 'h \<Rightarrow> ('c, 'h) esp_mqtt" where
  "em_set_handler m h = m\<lparr>em_handler := Some h\<rparr>"

definition em_is_connected :: "('c, 'h) esp_mqtt \<Rightarrow> bool" where
  "em_is_connected m = em_connected m"

section \<open>The MQTT supervisor\<close>

definition BACKOFF_INITIAL_MS :: u64 where "BACKOFF_INITIAL_MS = 5000"
definition BACKOFF_MAX_MS :: u64 where "BACKOFF_MAX_MS = 300000"

record mqtt_in =
  mi_config :: config
  mi_sta :: bool
  mi_connected :: bool
  mi_now :: u64
  mi_largest_internal :: u32
  mi_connect_ok :: bool
  mi_accepted :: bool
  mi_still :: bool
  mi_snapshots :: "device_snapshot list"

datatype mqtt_act = MaConnect mqtt_args | MaOnConnect | MaPublish device_snapshot

record mqtt_sup =
  ms_last_attempt :: u64
  ms_backoff :: u64

definition mqtt_sup_start :: mqtt_sup where
  "mqtt_sup_start = \<lparr>ms_last_attempt = 0, ms_backoff = BACKOFF_INITIAL_MS\<rparr>"

definition longer :: "mqtt_sup \<Rightarrow> mqtt_sup" where
  "longer s = s\<lparr>ms_backoff := min (ms_backoff s * 2) BACKOFF_MAX_MS\<rparr>"

definition non_empty :: "string \<Rightarrow> string option" where
  "non_empty s = (if s = [] then None else Some s)"

definition connect_args :: "config \<Rightarrow> mqtt_args" where
  "connect_args cfg = \<lparr>ma_url = mq_broker_url (cf_mqtt cfg), ma_username = non_empty (mq_username (cf_mqtt cfg)),
     ma_password = non_empty (mq_password (cf_mqtt cfg)), ma_client_id = wf_hostname (cf_wifi cfg),
     ma_ca_cert_pem = mq_ca_cert_pem (cf_mqtt cfg), ma_client_cert_pem = mq_client_cert_pem (cf_mqtt cfg),
     ma_client_key_pem = mq_client_key_pem (cf_mqtt cfg)\<rparr>"

text \<open>The part for a client that is not connected: the flag tells whether the pass goes on.\<close>

definition mqtt_try :: "mqtt_in \<Rightarrow> mqtt_sup \<Rightarrow> mqtt_sup \<times> mqtt_act list \<times> bool" where
  "mqtt_try i s =
    (if sat_sub (mi_now i) (ms_last_attempt s) < ms_backoff s then (s, [], False)
     else if mi_largest_internal i < 12 * 1024 then (longer s, [], False)
     else let s = s\<lparr>ms_last_attempt := mi_now i\<rparr>; acts = [MaConnect (connect_args (mi_config i))] in
       if \<not> mi_connect_ok i then (longer s, acts, False)
       else if \<not> mi_accepted i then (longer s, acts, False)
       else (s, acts, True))"

definition mqtt_round :: "mqtt_in \<Rightarrow> mqtt_sup \<Rightarrow> mqtt_sup \<times> mqtt_act list" where
  "mqtt_round i s =
    (let mq = cf_mqtt (mi_config i) in
     if \<not> mq_enabled mq \<or> mq_broker_url mq = [] \<or> \<not> mi_sta i then (s, [])
     else let (s, acts, go) = (if \<not> mi_connected i then mqtt_try i s else (s, [], True)) in
       if go \<and> mi_still i then
         (s\<lparr>ms_backoff := BACKOFF_INITIAL_MS\<rparr>, acts @ [MaOnConnect] @ map MaPublish (mi_snapshots i))
       else (s, acts))"

section \<open>The schedule task\<close>

definition local_now :: "('u, 't) zone_ops \<Rightarrow> 'u \<Rightarrow> string \<Rightarrow> 't" where
  "local_now z now tz = to_local z now tz"

definition fire_rule :: "('s, 'w, 'd) env \<Rightarrow> rule \<Rightarrow> ('s, 'd) app \<Rightarrow> ('s, 'd) app" where
  "fire_rule env r a = (case rule_action r of
      ASwitch i \<Rightarrow> fst (fire_schedule_sprinkler env a i (rule_duration r))
    | AWaterControl on \<Rightarrow> fst (switch_command env a (WaterControl on)))"

definition schedule_round ::
    "('u, 't) zone_ops \<Rightarrow> 't civil_ops \<Rightarrow> ('s, 'w, 'd) env \<Rightarrow> 'u \<Rightarrow> 't \<times> ('s, 'd) app \<Rightarrow> ('t \<times> ('s, 'd) app) option" where
  "schedule_round z ops env now x = (case x of (last_local, a) \<Rightarrow>
     let cfg = ap_config a;
         now_local = local_now z now (cf_timezone cfg)
     in case evaluate_range ops (cf_schedule cfg) last_local now_local of
       None \<Rightarrow> None
     | Some hits \<Rightarrow> Some (now_local, fold (fire_rule env) hits a))"

text \<open>The no_std task starts only after the first synchronisation of the clock: the readings of the epoch
  before it are skipped.\<close>

fun nostd_schedule_start :: "('u, 't) zone_ops \<Rightarrow> config \<Rightarrow> (64 word \<times> 'u) list \<Rightarrow> ('t \<times> (64 word \<times> 'u) list) option" where
  "nostd_schedule_start z cfg [] = None"
| "nostd_schedule_start z cfg ((epoch, now) # rest) =
    (if epoch = 0 then nostd_schedule_start z cfg rest
     else Some (to_local z now (cf_timezone cfg), rest))"

text \<open>A poll of it reads the configuration anew, and nothing is awaited before the last rule has fired. The
  other tasks run before each poll: \<open>others\<close> is what they do to the application.\<close>

definition nostd_schedule_round ::
    "('u, 't) zone_ops \<Rightarrow> 't civil_ops \<Rightarrow> ('s, 'w, 'd) env \<Rightarrow> 'u \<Rightarrow> 't \<times> ('s, 'd) app \<Rightarrow> ('t \<times> ('s, 'd) app) option" where
  "nostd_schedule_round z ops env now x = (case x of (last_local, a) \<Rightarrow>
     let cfg = ap_config a;
         now_local = to_local z now (cf_timezone cfg)
     in case evaluate_range ops (cf_schedule cfg) last_local now_local of
       None \<Rightarrow> None
     | Some hits \<Rightarrow> Some (now_local, fold (\<lambda>rule a. case rule_action rule of
           ASwitch i \<Rightarrow> fst (fire_schedule_sprinkler env a i (rule_duration rule))
         | AWaterControl on \<Rightarrow> fst (switch_command env a (WaterControl on))) hits a))"

fun nostd_schedule_loop ::
    "('u, 't) zone_ops \<Rightarrow> 't civil_ops \<Rightarrow> ('s, 'w, 'd) env \<Rightarrow> 't \<times> ('s, 'd) app \<Rightarrow>
     ((('s, 'd) app \<Rightarrow> ('s, 'd) app) \<times> 'u) list \<Rightarrow> ('t \<times> ('s, 'd) app) option" where
  "nostd_schedule_loop z ops env x [] = Some x"
| "nostd_schedule_loop z ops env x ((others, now) # polls) =
    (case nostd_schedule_round z ops env now (fst x, others (snd x)) of
       None \<Rightarrow> None
     | Some x \<Rightarrow> nostd_schedule_loop z ops env x polls)"

lemma nostd_schedule_as_esp: "nostd_schedule_round z ops env now x = schedule_round z ops env now x"
  unfolding nostd_schedule_round_def schedule_round_def local_now_def fire_rule_def [abs_def] ..

section \<open>The contract of the partition\<close>

text \<open>What the documentation of the driver promises: lengths and contents agree, a successful write or
  removal changes the named blob only.\<close>

locale blob_partition =
  fixes bl :: "'p blob_ops" and content :: "'p \<Rightarrow> string \<Rightarrow> bytes option"
  assumes len_content: "bl_len bl p k = Inr (map_option length (content p k))"
    and get_content: "content p k = Some b \<Longrightarrow> bl_get bl p k (length b) = Inr (Some b)"
    and set_content: "bl_set bl p k v = (p', Inr ()) \<Longrightarrow> content p' = (content p)(k \<mapsto> v)"
    and remove_content: "bl_remove bl p k = (p', Inr r) \<Longrightarrow> content p' = (content p)(k := None)"
begin

lemma esp_get: "esp_nvs_get bl p = content p"
proof
  fix k
  show "esp_nvs_get bl p k = content p k"
    using get_content [of p k] by (cases "content p k") (simp_all add: esp_nvs_get_def len_content)
qed

lemma esp_set: "esp_nvs_set bl p k v = (p', Inr ()) \<Longrightarrow> content p' = (content p)(k \<mapsto> v)"
  using set_content [of p k v p'] by (cases "bl_set bl p k v"; cases "snd (bl_set bl p k v)") (auto simp: esp_nvs_set_def)

lemma esp_remove: "esp_nvs_remove bl p k = (p', Inr ()) \<Longrightarrow> content p' = (content p)(k := None)"
  using remove_content [of p k p']
  by (cases "bl_remove bl p k"; cases "snd (bl_remove bl p k)") (auto simp: esp_nvs_remove_def)

end

sublocale blob_partition \<subseteq> nvs_store "esp_nvs_ops bl" "\<lambda>_. True"
  by unfold_locales (auto simp: esp_nvs_ops_def esp_get dest: esp_set esp_remove)

context blob_partition
begin

lemma esp_store: "nvs_store (esp_nvs_ops bl) (\<lambda>_. True)"
  by (rule nvs_store_axioms)

end

lemma esp_store_sel [simp]: "nvs_get (esp_nvs_ops bl) = esp_nvs_get bl" "nvs_set (esp_nvs_ops bl) = esp_nvs_set bl"
  by (simp_all add: esp_nvs_ops_def)

text \<open>A partition in memory.\<close>

definition ram_partition :: "(string, bytes) map blob_ops" where
  "ram_partition = \<lparr>bl_len = \<lambda>p k. Inr (map_option length (p k)), bl_get = \<lambda>p k n. Inr (p k),
     bl_set = \<lambda>p k v. (p(k \<mapsto> v), Inr ()), bl_remove = \<lambda>p k. (p(k := None), Inr (p k \<noteq> None))\<rparr>"

interpretation ram_blobs: blob_partition ram_partition "\<lambda>p. p"
  by unfold_locales (auto simp: ram_partition_def)

lemma ram_blob_partition: "blob_partition ram_partition (\<lambda>p. p)"
  by (rule ram_blobs.blob_partition_axioms)

section \<open>Lemmas\<close>

text \<open>The health loop as a run.\<close>

fun health_marks :: "('s, 't, 'd) env \<Rightarrow> reset_cause \<Rightarrow> string \<Rightarrow> ('s, 'd) health \<Rightarrow> health_in list \<Rightarrow> bool list" where
  "health_marks env cause version h [] = []"
| "health_marks env cause version h (i # is) =
    (let (h, mark) = health_round env cause version i h in mark # health_marks env cause version h is)"

definition healthy :: "health_in \<Rightarrow> bool" where
  "healthy i \<longleftrightarrow> HEALTHY_UPTIME_MS \<le> hi_uptime_ms i \<and> HEAP_FLOOR_BYTES \<le> hi_min_free_heap i \<and> hi_wifi_ok i"

lemma health_round_flags:
  "health_round env cause version i h = (h', mark) \<Longrightarrow>
     mark = (\<not> hl_marked_valid h \<and> healthy i) \<and> hl_marked_valid h' = (hl_marked_valid h \<or> mark) \<and>
     hl_boot_emitted h' = (hl_boot_emitted h \<or> hi_wifi_ok i)"
  by (auto simp: health_round_def healthy_def Let_def split: if_splits)

lemma health_marks_spec:
  "k < length is \<Longrightarrow> health_marks env cause version h is ! k =
     (\<not> hl_marked_valid h \<and> healthy (is ! k) \<and> (\<forall>j < k. \<not> healthy (is ! j)))"
proof (induction "is" arbitrary: h k)
  case (Cons i "is")
  obtain h' mark where r: "health_round env cause version i h = (h', mark)"
    by (cases "health_round env cause version i h")
  note f = health_round_flags [OF r]
  show ?case
  proof (cases k)
    case 0
    then show ?thesis using r f by simp
  next
    case (Suc n)
    then show ?thesis
      using Cons.IH [of n h'] Cons.prems r f by (auto simp: All_less_Suc2)
  qed
qed simp

text \<open>The supervisor as a run: the times of its attempts and the state behind them.\<close>

definition attempted :: "mqtt_act list \<Rightarrow> bool" where
  "attempted acts \<longleftrightarrow> list_ex (\<lambda>a. case a of MaConnect _ \<Rightarrow> True | _ \<Rightarrow> False) acts"

fun attempts :: "mqtt_sup \<Rightarrow> mqtt_in list \<Rightarrow> u64 list" where
  "attempts s [] = []"
| "attempts s (i # is) =
    (let (s, acts) = mqtt_round i s in (if attempted acts then [mi_now i] else []) @ attempts s is)"

definition mqtt_after :: "mqtt_sup \<Rightarrow> mqtt_in list \<Rightarrow> mqtt_sup" where
  "mqtt_after s is = foldl (\<lambda>s i. fst (mqtt_round i s)) s is"

fun gaps :: "nat \<Rightarrow> u64 list \<Rightarrow> bool" where
  "gaps d (t # u # ts) = (unat t + d \<le> unat u \<and> gaps d (u # ts))"
| "gaps d _ = True"

definition backoff_ok :: "mqtt_sup \<Rightarrow> bool" where
  "backoff_ok s \<longleftrightarrow> 5000 \<le> unat (ms_backoff s) \<and> unat (ms_backoff s) \<le> 300000"

lemma unat_longer:
  assumes "unat (ms_backoff s) \<le> 300000"
  shows "unat (ms_backoff (longer s)) = min 300000 (2 * unat (ms_backoff s))"
    "ms_last_attempt (longer s) = ms_last_attempt s"
proof -
  have "unat (ms_backoff s * 2) = 2 * unat (ms_backoff s)"
    using assms by (simp add: unat_word_ariths)
  then show "unat (ms_backoff (longer s)) = min 300000 (2 * unat (ms_backoff s))"
    by (auto simp: longer_def BACKOFF_MAX_MS_def min_def word_le_nat_alt)
qed (simp add: longer_def)

lemma longer_ok: "backoff_ok s \<Longrightarrow> backoff_ok (longer s)"
  using unat_longer(1) [of s] by (auto simp: backoff_ok_def)

lemma backoff_ok_last [simp]: "backoff_ok (s\<lparr>ms_last_attempt := t\<rparr>) = backoff_ok s"
  by (simp add: backoff_ok_def)

lemma backoff_ok_reset [simp]: "backoff_ok (s\<lparr>ms_backoff := BACKOFF_INITIAL_MS\<rparr>)"
  by (simp add: backoff_ok_def BACKOFF_INITIAL_MS_def)

lemma longer_last [simp]: "ms_last_attempt (longer s) = ms_last_attempt s"
  by (simp add: longer_def)

lemma attempted_simps [simp]:
  "\<not> attempted []" "attempted (MaConnect x # acts)" "attempted (MaOnConnect # acts) = attempted acts"
  "attempted (xs @ ys) \<longleftrightarrow> attempted xs \<or> attempted ys" "\<not> attempted (map MaPublish snaps)"
  by (auto simp: attempted_def list_ex_iff)

lemma mqtt_try_cases:
  assumes "backoff_ok s" "mqtt_try i s = (s', acts, go)"
  shows "backoff_ok s' \<and> (attempted acts \<longrightarrow> unat (ms_last_attempt s) + 5000 \<le> unat (mi_now i)) \<and>
    ms_last_attempt s' = (if attempted acts then mi_now i else ms_last_attempt s)"
proof -
  have "unat (ms_last_attempt s) + 5000 \<le> unat (mi_now i)"
    if "\<not> sat_sub (mi_now i) (ms_last_attempt s) < ms_backoff s"
    using that assms(1) unfolding backoff_ok_def word_less_nat_alt unat_sat_sub by arith
  with assms show ?thesis
    by (auto simp: mqtt_try_def Let_def longer_ok split: if_splits)
qed

lemma mqtt_round_cases:
  assumes "backoff_ok s" "mqtt_round i s = (s', acts)"
  shows "backoff_ok s' \<and> (attempted acts \<longrightarrow> unat (ms_last_attempt s) + 5000 \<le> unat (mi_now i)) \<and>
    ms_last_attempt s' = (if attempted acts then mi_now i else ms_last_attempt s)"
proof -
  obtain s1 acts1 go where t: "mqtt_try i s = (s1, acts1, go)" by (cases "mqtt_try i s")
  note c = mqtt_try_cases [OF assms(1) t]
  show ?thesis
    using assms(2) c assms(1) t by (auto simp: mqtt_round_def Let_def split: if_splits)
qed

lemma attempts_spaced:
  "backoff_ok s \<Longrightarrow> gaps 5000 (ms_last_attempt s # attempts s is) \<and> backoff_ok (mqtt_after s is)"
proof (induction "is" arbitrary: s)
  case (Cons i "is")
  obtain s1 acts where r: "mqtt_round i s = (s1, acts)" by (cases "mqtt_round i s")
  from mqtt_round_cases [OF Cons.prems r] Cons.IH [of s1] r show ?case
    by (auto simp: mqtt_after_def)
qed (simp add: mqtt_after_def)

text \<open>Inputs under which every attempt fails.\<close>

definition failing :: "mqtt_in \<Rightarrow> bool" where
  "failing i \<longleftrightarrow> \<not> mi_connected i \<and> 12 * 1024 \<le> mi_largest_internal i \<and> \<not> (mi_connect_ok i \<and> mi_accepted i)"

lemma failing_mqtt_round:
  assumes "failing i" "backoff_ok s" "mqtt_round i s = (s', acts)"
  shows "unat (ms_backoff s') = (if attempted acts then min 300000 (2 * unat (ms_backoff s)) else unat (ms_backoff s))"
  using assms unat_longer(1) [of "s\<lparr>ms_last_attempt := mi_now i\<rparr>"]
  by (auto simp: mqtt_round_def mqtt_try_def failing_def backoff_ok_def Let_def split: if_splits)

lemma min_doubling: "min 300000 (2 ^ n * min 300000 (2 * b)) = min 300000 (2 ^ Suc n * b)" for b :: nat
proof (cases "300000 \<le> 2 * b")
  case True
  then have "300000 * 1 \<le> 2 * b * 2 ^ n" by (intro mult_le_mono) simp_all
  then show ?thesis using True by (simp add: mult.commute mult.left_commute)
qed (simp add: mult.assoc mult.left_commute)

lemma failing_run:
  "list_all failing is \<Longrightarrow> backoff_ok s \<Longrightarrow>
     unat (ms_backoff (mqtt_after s is)) = min 300000 (2 ^ length (attempts s is) * unat (ms_backoff s))"
proof (induction "is" arbitrary: s)
  case Nil
  then show ?case by (simp add: mqtt_after_def backoff_ok_def)
next
  case (Cons i "is")
  obtain s1 acts where r: "mqtt_round i s = (s1, acts)" by (cases "mqtt_round i s")
  have ok: "backoff_ok s1" using mqtt_round_cases [OF Cons.prems(2) r] by simp
  have step: "mqtt_after s (i # is) = mqtt_after s1 is" by (simp add: mqtt_after_def r)
  have "unat (ms_backoff (mqtt_after s1 is)) = min 300000 (2 ^ length (attempts s1 is) * unat (ms_backoff s1))"
    using Cons ok by simp
  moreover have "unat (ms_backoff s1) = (if attempted acts then min 300000 (2 * unat (ms_backoff s)) else unat (ms_backoff s))"
    using failing_mqtt_round [OF _ Cons.prems(2) r] Cons.prems(1) by simp
  ultimately show ?case
    using r min_doubling [of "length (attempts s1 is)" "unat (ms_backoff s)"] by (simp add: step)
qed

text \<open>The schedule task over its polls.\<close>

fun schedule_task_run ::
    "('u, 't) zone_ops \<Rightarrow> 't civil_ops \<Rightarrow> ('s, 'w, 'd) env \<Rightarrow> 't \<times> ('s, 'd) app \<Rightarrow> 'u list \<Rightarrow> ('t \<times> ('s, 'd) app) option" where
  "schedule_task_run z ops env x [] = Some x"
| "schedule_task_run z ops env x (now # nows) = (case schedule_round z ops env now x of
      None \<Rightarrow> None
    | Some x \<Rightarrow> schedule_task_run z ops env x nows)"

lemma nostd_schedule_alone:
  "nostd_schedule_loop z ops env x (map (Pair (\<lambda>a. a)) nows) = schedule_task_run z ops env x nows"
  by (induction nows arbitrary: x) (simp_all add: nostd_schedule_as_esp split: option.split)

lemma fire_rule_config [simp]: "ap_config (fire_rule env r a) = ap_config a"
  by (simp add: fire_rule_def split: action.split)

lemma fold_fire_config [simp]: "ap_config (fold (fire_rule env) rs a) = ap_config a"
  by (induction rs arbitrary: a) simp_all

definition locals :: "('u, 't) zone_ops \<Rightarrow> ('s, 'd) app \<Rightarrow> 'u list \<Rightarrow> 't list" where
  "locals z a nows = map (\<lambda>now. local_now z now (cf_timezone (ap_config a))) nows"

lemma schedule_task_due:
  assumes "civil_time ops ns" "minute_clock ns mk" "polls_ok ns last_t (locals z a nows)"
  shows "\<exists>t. schedule_task_run z ops env (last_t, a) nows = Some (t, fold (fire_rule env)
    (due ops mk (sched_rules (cf_schedule (ap_config a))) (ns last_t div minute_ns + 1)
       (ns (last (last_t # locals z a nows)) div minute_ns)) a)"
  using assms(3)
proof (induction nows arbitrary: last_t a)
  case Nil
  then show ?case by (simp add: locals_def due_empty)
next
  case (Cons now nows)
  let ?rules = "sched_rules (cf_schedule (ap_config a))"
  let ?b = "local_now z now (cf_timezone (ap_config a))"
  let ?bs = "locals z a nows"
  have ls: "locals z a (now # nows) = ?b # ?bs" by (simp add: locals_def)
  have p: "ns last_t \<le> ns ?b" "ns ?b div minute_ns \<le> ns last_t div minute_ns + int MAX_ITERS" "polls_ok ns ?b ?bs"
    using Cons.prems by (simp_all add: ls)
  have le: "ns last_t div minute_ns \<le> ns ?b div minute_ns" "ns ?b div minute_ns \<le> ns (last (?b # ?bs)) div minute_ns"
    using p(1) polls_ok_last [OF p(3)] by (simp_all add: minute_ns_def zdiv_mono1)
  let ?hits = "due ops mk ?rules (ns last_t div minute_ns + 1) (ns ?b div minute_ns)"
  have hits: "evaluate_range ops (cf_schedule (ap_config a)) last_t ?b = Some ?hits"
    using civil_time.evaluate_range_due [OF assms(1,2), of "cf_schedule (ap_config a)" last_t ?b] p(2) le
    by (simp add: min_def)
  have same: "locals z (fold (fire_rule env) ?hits a) nows = ?bs" by (simp add: locals_def)
  from Cons.IH [of ?b "fold (fire_rule env) ?hits a"] p(3) obtain t where
    "schedule_task_run z ops env (?b, fold (fire_rule env) ?hits a) nows = Some (t, fold (fire_rule env)
      (due ops mk ?rules (ns ?b div minute_ns + 1) (ns (last (?b # ?bs)) div minute_ns)) (fold (fire_rule env) ?hits a))"
    unfolding same by auto
  moreover have "due ops mk ?rules (ns last_t div minute_ns + 1) (ns (last (?b # ?bs)) div minute_ns) =
      ?hits @ due ops mk ?rules (ns ?b div minute_ns + 1) (ns (last (?b # ?bs)) div minute_ns)"
    using le(1) by (intro due_append le(2)) simp
  ultimately show ?case by (simp add: schedule_round_def hits ls Let_def del: last.simps) simp
qed

section \<open>Properties\<close>

text \<open>C37. The MQTT supervisor is patient: whatever the network, the broker and the clock do, two attempts to
  connect are never less than five seconds apart, the first included, and the back-off stays between
  five seconds and five minutes.\<close>

theorem mqtt_attempts_spaced:
  "gaps 5000 (0 # attempts mqtt_sup_start is) \<and>
   5000 \<le> unat (ms_backoff (mqtt_after mqtt_sup_start is)) \<and> unat (ms_backoff (mqtt_after mqtt_sup_start is)) \<le> 300000"
proof -
  have "backoff_ok mqtt_sup_start" by (simp add: backoff_ok_def mqtt_sup_start_def BACKOFF_INITIAL_MS_def)
  from attempts_spaced [OF this, of "is"] show ?thesis by (simp add: backoff_ok_def mqtt_sup_start_def)
qed

text \<open>The back-off doubles: while every attempt fails, it is five seconds times two to the number of
  attempts made, capped at five minutes; passes without an attempt do not count.\<close>

theorem mqtt_backoff_doubles:
  assumes "list_all failing is"
  shows "unat (ms_backoff (mqtt_after mqtt_sup_start is)) =
    min 300000 (2 ^ length (attempts mqtt_sup_start is) * 5000)"
proof -
  have "backoff_ok mqtt_sup_start" "unat (ms_backoff mqtt_sup_start) = 5000"
    by (simp_all add: backoff_ok_def mqtt_sup_start_def BACKOFF_INITIAL_MS_def)
  with failing_run [OF assms] show ?thesis by metis
qed

definition refused_in :: "u64 \<Rightarrow> mqtt_in" where
  "refused_in t = \<lparr>mi_config = sample_config\<lparr>cf_mqtt := default_mqtt_config\<lparr>mq_enabled := True, mq_broker_url := ''mqtt://broker''\<rparr>\<rparr>,
     mi_sta = True, mi_connected = False, mi_now = t, mi_largest_internal = 40000, mi_connect_ok = True,
     mi_accepted = False, mi_still = False, mi_snapshots = []\<rparr>"

lemma mqtt_backoff_doubles_witness:
  "unat (ms_backoff (mqtt_after mqtt_sup_start [refused_in 5000, refused_in 9000, refused_in 15000])) = 20000"
proof -
  have "list_all failing [refused_in 5000, refused_in 9000, refused_in 15000]"
    by (simp add: failing_def refused_in_def word_le_nat_alt)
  from mqtt_backoff_doubles [OF this] show ?thesis
    by (simp add: mqtt_sup_start_def mqtt_round_def mqtt_try_def refused_in_def BACKOFF_INITIAL_MS_def longer_def
        BACKOFF_MAX_MS_def sat_sub_def Let_def)
qed

text \<open>Rollback guard: the health loop confirms the running image at most once, in the first pass that
  finds at least a minute of uptime, the minimum of the heap above its floor and WiFi connected.\<close>

theorem image_confirmed_once:
  assumes "k < length is"
  shows "health_marks env cause version \<lparr>hl_app = a, hl_marked_valid = False, hl_boot_emitted = False\<rparr> is ! k \<longleftrightarrow>
    healthy (is ! k) \<and> (\<forall>j < k. \<not> healthy (is ! j))"
  using health_marks_spec [OF assms, of env cause version] by simp

lemma image_confirmed_once_witness:
  "health_marks (sample_env (\<lambda>_. 0)) RstPowerOn ''1.0''
     \<lparr>hl_app = app_new (sample_env (\<lambda>_. 0)) sample_config, hl_marked_valid = False, hl_boot_emitted = False\<rparr>
     [\<lparr>hi_uptime_ms = 50000, hi_free_heap = 90000, hi_min_free_heap = 80000, hi_wifi_ok = True\<rparr>,
      \<lparr>hi_uptime_ms = 60000, hi_free_heap = 90000, hi_min_free_heap = 80000, hi_wifi_ok = True\<rparr>] ! 1"
  by (subst image_confirmed_once) (simp_all add: healthy_def HEALTHY_UPTIME_MS_def HEAP_FLOOR_BYTES_def)

text \<open>C27. The schedule task at the application: over polls whose local times never go back and are at most
  25 h apart, the task performs exactly the firings of the rules due since its start, each matching
  minute once and in order.\<close>

theorem schedule_task_fires_due:
  assumes "civil_time ops ns" "minute_clock ns mk" "polls_ok ns last_t (locals z a nows)"
  shows "map_option snd (schedule_task_run z ops env (last_t, a) nows) = Some (fold (fire_rule env)
    (due ops mk (sched_rules (cf_schedule (ap_config a))) (ns last_t div minute_ns + 1)
       (ns (last (last_t # locals z a nows)) div minute_ns)) a)"
  using schedule_task_due [OF assms, of env] by auto

definition utc_zone :: "(int, int) zone_ops" where
  "utc_zone = \<lparr>z_parse = (\<lambda>_. Some (\<lambda>n. n)), z_timestamp = (\<lambda>n. n), z_from_timestamp = Some,
     z_at_offset = (\<lambda>k n. n), z_naive_utc = (\<lambda>n. n)\<rparr>"

definition garden_app :: "(fake_nvs, webhook_event list) app" where
  "garden_app = app_new (sample_env (\<lambda>_. 0)) sample_config"

lemma schedule_task_fires_due_witness:
  "map_option snd (schedule_task_run utc_zone naive_ops (sample_env (\<lambda>_. 0)) (naive_minute 599, garden_app)
      [naive_minute 599 + 7, naive_minute 600 + 1]) =
    Some (fold (fire_rule (sample_env (\<lambda>_. 0))) (due naive_ops naive_minute (sched_rules default_schedule)
       (naive_minute 599 div minute_ns + 1) ((naive_minute 600 + 1) div minute_ns)) garden_app)"
proof -
  have l: "locals utc_zone garden_app [naive_minute 599 + 7, naive_minute 600 + 1] = [naive_minute 599 + 7, naive_minute 600 + 1]"
    by (simp add: locals_def local_now_def to_local_def utc_zone_def)
  have "polls_ok (\<lambda>n. n) (naive_minute 599) (locals utc_zone garden_app [naive_minute 599 + 7, naive_minute 600 + 1])"
    unfolding l by (simp add: naive_minute_def minute_ns_def MAX_ITERS_def)
  from schedule_task_fires_due [OF naive_civil_time naive_minute_clock this, of "sample_env (\<lambda>_. 0)"] show ?thesis
    unfolding l by (simp add: garden_app_def app_new_def app_with_nvs_def sample_config_def Let_def)
qed

text \<open>A boot behind a successful save runs the saved configuration.\<close>

lemma boot_runs_saved:
  assumes "blob_partition bl content" "env_nvs env = esp_nvs_ops bl"
    and "config_save (esp_nvs_ops bl) codec cfg p = (p', Inr ())"
    and "\<And>bs. cc_enc codec cfg = Inr bs \<Longrightarrow> cc_dec codec bs = Inr cfg"
    and "hs_cert_pem (cf_https cfg) \<noteq> [] \<or> hs_key_pem (cf_https cfg) \<noteq> []"
  shows "ap_config (esp_boot env codec dflt generate dispatcher p') = cfg"
proof -
  have st: "nvs_store (esp_nvs_ops bl) (\<lambda>_. True)"
    using assms(1) by (rule blob_partition.esp_store)
  have "config_load (esp_nvs_ops bl) codec dflt p' = Inr cfg"
    by (rule nvs_store.save_load [OF st TrueI assms(3,4)])
  then show ?thesis
    using assms(2,5) by (auto simp: esp_boot_def esp_load_config_def ensure_cert_def app_with_nvs_def
        set_webhook_dispatcher_def Let_def)
qed

text \<open>C28. The configuration survives a reboot of the ESP-IDF firmware: on a partition that keeps its
  contract, after a save that reported success the next boot runs with exactly the saved
  configuration, if it has a certificate (otherwise the boot generates one).\<close>

theorem esp_reboot_keeps_config:
  assumes "blob_partition bl content" "env_nvs env = esp_nvs_ops bl"
    and "config_save (esp_nvs_ops bl) codec cfg p = (p', Inr ())"
    and "\<And>bs. cc_enc codec cfg = Inr bs \<Longrightarrow> cc_dec codec bs = Inr cfg"
    and "hs_cert_pem (cf_https cfg) \<noteq> [] \<or> hs_key_pem (cf_https cfg) \<noteq> []"
  shows "ap_config (esp_boot env codec dflt generate dispatcher p') = cfg"
  using assms by (rule boot_runs_saved)

definition certified_config :: config where
  "certified_config = sample_config\<lparr>cf_https := \<lparr>hs_enabled = True, hs_cert_pem = ''cert'', hs_key_pem = ''key''\<rparr>\<rparr>"

lemma esp_reboot_keeps_config_witness:
  "ap_config (esp_boot ((sample_env (\<lambda>_. 0))\<lparr>env_nvs := esp_nvs_ops ram_partition\<rparr>) (constant_codec certified_config)
     sample_config (\<lambda>_. Inl '''') [] [NVS_KEY \<mapsto> [123, 125]]) = certified_config"
proof -
  have "config_save (esp_nvs_ops ram_partition) (constant_codec certified_config) certified_config Map.empty =
      ([NVS_KEY \<mapsto> [123, 125]], Inr ())"
    by (simp add: config_save_def constant_codec_def esp_nvs_set_def ram_partition_def)
  from esp_reboot_keeps_config [OF ram_blob_partition _ this,
      of "(sample_env (\<lambda>_. 0))\<lparr>env_nvs := esp_nvs_ops ram_partition\<rparr>" sample_config "\<lambda>_. Inl ''''" "[]"]
  show ?thesis by (simp add: constant_codec_def certified_config_def)
qed

text \<open>A stored configuration that does not decode is lost at boot: the ESP-IDF firmware runs with the
  defaults and writes them over it, while with an empty store it writes nothing.\<close>

theorem boot_overwrites_undecodable:
  assumes "nvs_store ops ok" "ok s" "nvs_get ops s NVS_KEY = Some b" "cc_dec codec b = Inl e"
    and "config_save ops codec dflt s = (s', Inr ())"
    and "\<And>bs. cc_enc codec dflt = Inr bs \<Longrightarrow> cc_dec codec bs = Inr dflt"
  shows "esp_load_config ops codec dflt s = (s', dflt) \<and> config_load ops codec other s' = Inr dflt"
  using nvs_store.save_load [OF assms(1,2,5,6)] assms(3-5)
  by (simp add: esp_load_config_def) (simp add: config_load_def Let_def)

definition picky_codec :: "unit config_codec" where
  "picky_codec = \<lparr>cc_enc = (\<lambda>_. Inr [123, 125]), cc_dec = (\<lambda>b. if b = [123, 125] then Inr sample_config else Inl ())\<rparr>"

lemma boot_overwrites_undecodable_witness:
  "esp_load_config fake_nvs_ops picky_codec sample_config [NVS_KEY \<mapsto> [1]] = ([NVS_KEY \<mapsto> [123, 125]], sample_config) \<and>
   config_load fake_nvs_ops picky_codec sample_config [NVS_KEY \<mapsto> [123, 125]] = Inr sample_config"
  by (rule boot_overwrites_undecodable [OF fake_nvs_store TrueI, where b = "[1]"])
    (auto simp: fake_nvs_defs picky_codec_def config_save_def)

end
