(* ===== verification/Serial_Cli.thy ===== *)
theory Serial_Cli
  imports Http_Server Nostd_Main
begin

text \<open>
  The serial consoles: \<open>crates/firmware/src/serial_cli.rs\<close> of the ESP-IDF firmware and
  \<open>crates/firmware-nostd/src/serial.rs\<close> of the no_std firmware. A console is fed one byte at a time;
  what it prints is kept, byte for byte, in \<open>cn_out\<close> (the no_std console answers through the log,
  a list of lines). A restart ends the program: \<open>cn_reboot\<close> is set and nothing follows.
\<close>

section \<open>Text\<close>

definition NL :: string where "NL = [CHR 0x0A]"

definition DASH :: string where "DASH = [CHR 0xE2, CHR 0x80, CHR 0x94]"

definition pad_right :: "nat \<Rightarrow> string \<Rightarrow> string" where
  "pad_right n s = s @ replicate (n - length s) (CHR '' '')"

fun comma_digits :: "nat \<Rightarrow> nat \<Rightarrow> string" where
  "comma_digits n i =
    (if n = 0 then []
     else (if 0 < i \<and> i mod 3 = 0 then '','' else []) @ [digit_char (n mod 10)] @ comma_digits (n div 10) (i + 1))"

declare comma_digits.simps [simp del]

definition with_commas :: "nat \<Rightarrow> string" where
  "with_commas n = (if n = 0 then ''0'' else rev (comma_digits n 0))"

text \<open>\<open>as i32\<close> of a float: towards zero, saturating, and zero for NaN.\<close>

fun f32_to_i32 :: "f32 \<Rightarrow> int" where
  "f32_to_i32 NaN = 0"
| "f32_to_i32 (Inf s) = (if s then - (2 ^ 31) else 2 ^ 31 - 1)"
| "f32_to_i32 (Fin s q) = (let t = \<lfloor>q\<rfloor> in if s then max (- t) (- (2 ^ 31)) else min t (2 ^ 31 - 1))"

section \<open>State of the ESP-IDF console\<close>

record task_info =
  tk_name :: string
  tk_state :: string
  tk_priority :: u32
  tk_stack_free :: u32
  tk_run_time :: u32

record heap_info =
  hp_total_free :: u32
  hp_total_allocated :: u32
  hp_largest_free :: u32
  hp_min_ever :: u32

datatype log_level = LogOff | LogError | LogWarn | LogInfo | LogDebug | LogTrace

datatype idf_level = IdfNone | IdfError | IdfWarn | IdfInfo | IdfDebug | IdfVerbose

record ('s, 't, 'd, 'w, 'j) cli_env =
  ce_env :: "('s, 't, 'd) env"
  ce_codec :: "'j config_codec"
  ce_show :: "'j \<Rightarrow> string"
  ce_wifi :: "'w wifi_ops"
  ce_wifi_state :: "'w \<Rightarrow> wifi_state"
  ce_debug :: "wifi_state \<Rightarrow> string"
  ce_json_kind :: "string \<Rightarrow> event_kind option"
  ce_tasks :: "task_info list"
  ce_heap :: heap_info

record ('s, 'd, 'w) cli =
  cn_app :: "('s, 'd) app"
  cn_wifi :: 'w
  cn_level :: "log_level \<times> idf_level"
  cn_buf :: string
  cn_out :: string
  cn_reboot :: bool

definition say :: "string \<Rightarrow> ('s, 'd, 'w) cli \<Rightarrow> ('s, 'd, 'w) cli" where
  "say s c = c\<lparr>cn_out := cn_out c @ ''>> '' @ s @ NL\<rparr>"

definition say_all :: "string list \<Rightarrow> ('s, 'd, 'w) cli \<Rightarrow> ('s, 'd, 'w) cli" where
  "say_all ls c = fold say ls c"

section \<open>Printing commands\<close>

definition print_help :: "('s, 'd, 'w) cli \<Rightarrow> ('s, 'd, 'w) cli" where
  "print_help = say_all
    [''commands:'',
     ''  help                        list commands'',
     ''  state                       wifi state + IP'',
     ''  wifi list                   show saved networks'',
     ''  wifi add <ssid> [password]  add or replace a saved network'',
     ''  wifi del <ssid>             remove a saved network'',
     ''  wifi clear                  wipe networks (forces AP mode)'',
     ''  wifi connect                kick supervisor'',
     ''  wifi scan                   discover nearby APs'',
     ''  ap-info                     show AP fallback SSID'',
     ''  https <on|off>              toggle HTTPS listener on :443 (reboot to apply)'',
     ''  log <level>                 set log verbosity (off/error/warn/info/debug/trace)'',
     ''  tasks                       tabulated task list (name/state/pri/stack free)'',
     ''  mem                         heap stats (free/allocated/largest/min-ever)'',
     ''  alarm status                show flow alarm config + latched state'',
     ''  alarm clear                 reset the latched flow alarm'',
     ''  webhook list                show configured webhooks'',
     ''  webhook fire <event>        emit a webhook event (e.g. flow_alarm.fire)'',
     ''  reset                       reboot'',
     ''  factory_reset               wipe NVS config + reboot'']"

definition level_of :: "string \<Rightarrow> (log_level \<times> idf_level) option" where
  "level_of level_str =
    (let l = to_lower level_str in
     if l = ''off'' \<or> l = ''none'' then Some (LogOff, IdfNone)
     else if l = ''error'' then Some (LogError, IdfError)
     else if l = ''warn'' \<or> l = ''warning'' then Some (LogWarn, IdfWarn)
     else if l = ''info'' then Some (LogInfo, IdfInfo)
     else if l = ''debug'' then Some (LogDebug, IdfDebug)
     else if l = ''trace'' \<or> l = ''verbose'' then Some (LogTrace, IdfVerbose)
     else None)"

definition set_log_level :: "string \<Rightarrow> ('s, 'd, 'w) cli \<Rightarrow> ('s, 'd, 'w) cli" where
  "set_log_level level_str c = (case level_of level_str of
      None \<Rightarrow> say ''usage: log <off|error|warn|info|debug|trace>'' c
    | Some levels \<Rightarrow> say (''log level set to '' @ level_str) (c\<lparr>cn_level := levels\<rparr>))"

definition enumerate_lines :: "(nat \<Rightarrow> 'a \<Rightarrow> string list) \<Rightarrow> 'a list \<Rightarrow> string list" where
  "enumerate_lines f xs = concat (map (\<lambda>(i, x). f i x) (enumerate 0 xs))"

definition network_line :: "nat \<Rightarrow> wifi_creds \<Rightarrow> string" where
  "network_line i n =
    (let pw = (if wc_password n = [] then ''<open>'' else ''<set>'') in
     ''  ['' @ show_nat i @ ''] ssid='' @ wc_ssid n @ '' password='' @ pw)"

definition list_networks :: "('s, 'd, 'w) cli \<Rightarrow> ('s, 'd, 'w) cli" where
  "list_networks c =
    (let nets = wf_networks (cf_wifi (ap_config (cn_app c))) in
     if nets = [] then say ''no networks configured (device falls back to AP mode)'' c
     else say_all (enumerate_lines (\<lambda>i n. [network_line i n]) nets) c)"

fun kind_name :: "webhook_kind \<Rightarrow> string" where
  "kind_name Generic = ''generic''"
| "kind_name Slack = ''slack''"
| "kind_name Discord = ''discord''"
| "kind_name HomeAssistant = ''ha''"

definition print_webhook_list :: "('s, 'd, 'w) cli \<Rightarrow> ('s, 'd, 'w) cli" where
  "print_webhook_list c =
    (let whs = cf_webhooks (ap_config (cn_app c)) in
     if whs = [] then say ''no webhooks configured'' c
     else say_all (enumerate_lines (\<lambda>i wh.
        [''['' @ show_nat i @ ''] '' @ (if wh_enabled wh then ''on'' else ''off'') @ '' kind='' @
           kind_name (wh_kind wh) @ '' events='' @ show_nat (length (wh_events wh)),
         ''    url: '' @ wh_url wh]) whs) c)"

definition fire_webhook :: "('s, 't, 'd, 'w, 'j) cli_env \<Rightarrow> string \<Rightarrow> ('s, 'd, 'w) cli \<Rightarrow> ('s, 'd, 'w) cli" where
  "fire_webhook ce kind_str c = (case ce_json_kind ce (quoted kind_str) of
      Some kind \<Rightarrow> say (''webhook event '' @ kind_str @ '' emitted'')
        (c\<lparr>cn_app := emit_event (ce_env ce) (cn_app c) (event_new kind)\<rparr>)
    | None \<Rightarrow> say_all ([''unknown event kind: '' @ kind_str, ''known kinds:''] @
        map (\<lambda>k. ''  '' @ event_as_str k) event_all) c)"

definition print_alarm_status :: "('s, 'd, 'w) cli \<Rightarrow> ('s, 'd, 'w) cli" where
  "print_alarm_status c =
    (let al = cf_flow_alarm (ap_config (cn_app c)); snap = app_snapshot (cn_app c) in
     say_all
      [''flow alarm: '' @ (if fa_active (sn_alarm snap) then ''ACTIVE'' else ''idle''),
       ''  enabled       : '' @ (if al_enabled al then ''true'' else ''false''),
       ''  threshold     : '' @ show_int (f32_to_i32 (al_threshold_lph al)) @ '' L/h'',
       ''  duration      : '' @ show_word (al_duration_secs al) @ '' s'',
       ''  elapsed       : '' @ show_word (fa_elapsed_secs (sn_alarm snap)) @ '' s''] c)"

definition fmt_task_header :: string where
  "fmt_task_header = pad_right 16 ''NAME'' @ '' '' @ pad_right 10 ''STATE'' @ '' '' @
     pad_left 3 (CHR '' '') ''PRI'' @ '' '' @ pad_left 10 (CHR '' '') ''STACK_FREE'' @ '' '' @
     pad_left 12 (CHR '' '') ''RUNTIME''"

definition fmt_task_row :: "task_info \<Rightarrow> string" where
  "fmt_task_row t = pad_right 16 (take 16 (tk_name t)) @ '' '' @ pad_right 10 (tk_state t) @ '' '' @
     pad_left 3 (CHR '' '') (show_word (tk_priority t)) @ '' '' @
     pad_left 10 (CHR '' '') (show_word (tk_stack_free t)) @ '' '' @
     pad_left 12 (CHR '' '') (show_word (tk_run_time t))"

definition print_tasks :: "task_info list \<Rightarrow> ('s, 'd, 'w) cli \<Rightarrow> ('s, 'd, 'w) cli" where
  "print_tasks tasks = say_all ([fmt_task_header, replicate 56 (CHR ''-'')] @
     map fmt_task_row (sort_key (\<lambda>t. unat (tk_stack_free t)) tasks))"

definition print_mem :: "heap_info \<Rightarrow> ('s, 'd, 'w) cli \<Rightarrow> ('s, 'd, 'w) cli" where
  "print_mem h =
    (let cell = (\<lambda>n. pad_left 12 (CHR '' '') (with_commas (unat n)) @ '' B'') in
     say_all [''heap:'',
       ''  total free        : '' @ cell (hp_total_free h),
       ''  total allocated   : '' @ cell (hp_total_allocated h),
       ''  largest free block: '' @ cell (hp_largest_free h),
       ''  min-ever free     : '' @ cell (hp_min_ever h)])"

definition print_scan :: "wifi_scan_result list \<Rightarrow> ('s, 'd, 'w) cli \<Rightarrow> ('s, 'd, 'w) cli" where
  "print_scan found = say_all ((show_nat (length found) @ '' network(s):'') #
     map (\<lambda>n. ''  '' @ ws_ssid n @ '' rssi='' @ show_int (sint (ws_rssi_dbm n)) @ '' auth='' @ ws_auth n @
       '' ch='' @ show_word (ws_channel n)) (sort_key (\<lambda>n. - sint (ws_rssi_dbm n)) found))"

section \<open>Writing commands\<close>

definition cli_save :: "('s, 't, 'd, 'w, 'j) cli_env \<Rightarrow> config \<Rightarrow> ('s, 'd) app \<Rightarrow> ('s, 'd) app \<times> ('j config_error + unit)" where
  "cli_save ce cfg a = (case ap_nvs a of
      None \<Rightarrow> (a, Inl (ENvs NotFound))
    | Some s \<Rightarrow> (let (s', r) = config_save (env_nvs (ce_env ce)) (ce_codec ce) cfg s
        in (a\<lparr>ap_nvs := Some s'\<rparr>, r)))"

definition modify_networks ::
    "('s, 't, 'd, 'w, 'j) cli_env \<Rightarrow> (wifi_creds list \<Rightarrow> wifi_creds list \<times> string) \<Rightarrow>
     ('s, 'd, 'w) cli \<Rightarrow> ('s, 'd, 'w) cli" where
  "modify_networks ce f c =
    (let cfg = ap_config (cn_app c);
         (nets, summary) = f (wf_networks (cf_wifi cfg));
         cfg = cfg\<lparr>cf_wifi := (cf_wifi cfg)\<lparr>wf_networks := nets\<rparr>\<rparr>
     in case cli_save ce cfg (cn_app c) of
       (a, Inl e) \<Rightarrow> say (''nvs save failed: '' @ config_error_display (ce_show ce) e) (c\<lparr>cn_app := a\<rparr>)
     | (a, Inr u) \<Rightarrow> say summary
         (c\<lparr>cn_app := replace_config (ce_env ce) a cfg, cn_wifi := wi_connect (ce_wifi ce) (cn_wifi c) nets\<rparr>))"

definition add_network :: "string \<Rightarrow> string \<Rightarrow> wifi_creds list \<Rightarrow> wifi_creds list \<times> string" where
  "add_network ssid password nets =
    (filter (\<lambda>n. wc_ssid n \<noteq> ssid) nets @ [\<lparr>wc_ssid = ssid, wc_password = password\<rparr>], ''added '' @ ssid)"

definition del_network :: "string \<Rightarrow> wifi_creds list \<Rightarrow> wifi_creds list \<times> string" where
  "del_network ssid nets =
    (let kept = filter (\<lambda>n. wc_ssid n \<noteq> ssid) nets in
     (kept, (if length kept = length nets then ''no such network: '' else ''removed '') @ ssid))"

definition clear_networks :: "wifi_creds list \<Rightarrow> wifi_creds list \<times> string" where
  "clear_networks nets =
    ([], ''cleared '' @ show_nat (length nets) @ '' network(s) '' @ DASH @ '' supervisor will enter AP mode'')"

definition set_https :: "('s, 't, 'd, 'w, 'j) cli_env \<Rightarrow> bool \<Rightarrow> ('s, 'd, 'w) cli \<Rightarrow> ('s, 'd, 'w) cli" where
  "set_https ce on c =
    (let cfg = ap_config (cn_app c);
         cfg = cfg\<lparr>cf_https := (cf_https cfg)\<lparr>hs_enabled := on\<rparr>\<rparr>
     in case cli_save ce cfg (cn_app c) of
       (a, Inl e) \<Rightarrow> say (''https save failed: '' @ config_error_display (ce_show ce) e) (c\<lparr>cn_app := a\<rparr>)
     | (a, Inr u) \<Rightarrow> say (''https.enabled = '' @ (if on then ''true'' else ''false'') @ ''; reboot to apply (`reset`)'')
         (c\<lparr>cn_app := replace_config (ce_env ce) a cfg\<rparr>))"

definition cli_factory_reset :: "('s, 't, 'd, 'w, 'j) cli_env \<Rightarrow> ('s, 'd, 'w) cli \<Rightarrow> ('s, 'd, 'w) cli" where
  "cli_factory_reset ce c =
    (let c = say ''wiping NVS config + rebooting...'' c in
     case ap_nvs (cn_app c) of
       None \<Rightarrow> c
     | Some s \<Rightarrow>
        (let (s', r) = config_factory_reset (env_nvs (ce_env ce)) s; c = c\<lparr>cn_app := (cn_app c)\<lparr>ap_nvs := Some s'\<rparr>\<rparr>
         in case (r :: 'j config_error + unit) of
           Inl e \<Rightarrow> say (''factory_reset failed: '' @ config_error_display (ce_show ce) e) c
         | Inr u \<Rightarrow> c\<lparr>cn_reboot := True\<rparr>))"

section \<open>Dispatch and line editing\<close>

definition word_at :: "string list \<Rightarrow> nat \<Rightarrow> string option" where
  "word_at ws i = (if i < length ws then Some (ws ! i) else None)"

definition word_or_empty :: "string list \<Rightarrow> nat \<Rightarrow> string" where
  "word_or_empty ws i = (case word_at ws i of Some w \<Rightarrow> w | None \<Rightarrow> [])"

definition dispatch_wifi :: "('s, 't, 'd, 'w, 'j) cli_env \<Rightarrow> string list \<Rightarrow> ('s, 'd, 'w) cli \<Rightarrow> ('s, 'd, 'w) cli" where
  "dispatch_wifi ce ws c =
    (let sub = word_at ws 1; ssid = word_or_empty ws 2; password = word_or_empty ws 3 in
     if sub = Some ''list'' then list_networks c
     else if sub = Some ''add'' then
       (if ssid = [] then say ''usage: wifi add <ssid> [password]'' c
        else modify_networks ce (add_network ssid password) c)
     else if sub = Some ''del'' then
       (if ssid = [] then say ''usage: wifi del <ssid>'' c else modify_networks ce (del_network ssid) c)
     else if sub = Some ''clear'' then modify_networks ce clear_networks c
     else if sub = Some ''connect'' then
       say ''reconnect signaled'' (c\<lparr>cn_wifi := wi_reconnect (ce_wifi ce) (cn_wifi c)\<rparr>)
     else if sub = Some ''scan'' then
       (case wi_scan (ce_wifi ce) (cn_wifi c) of
          (w, Inr found) \<Rightarrow> print_scan found (c\<lparr>cn_wifi := w\<rparr>)
        | (w, Inl e) \<Rightarrow> say (''scan failed: '' @ e) (c\<lparr>cn_wifi := w\<rparr>))
     else say ''usage: wifi <list|add|del|clear|connect|scan>'' c)"

definition dispatch_rest :: "('s, 't, 'd, 'w, 'j) cli_env \<Rightarrow> string list \<Rightarrow> ('s, 'd, 'w) cli \<Rightarrow> ('s, 'd, 'w) cli" where
  "dispatch_rest ce ws c =
    (let w = hd ws; sub = word_at ws 1 in
     if w = ''log'' then
       (case sub of Some level \<Rightarrow> set_log_level level c
        | None \<Rightarrow> say ''usage: log <off|error|warn|info|debug|trace>'' c)
     else if w = ''tasks'' then print_tasks (ce_tasks ce) c
     else if w = ''mem'' then print_mem (ce_heap ce) c
     else if w = ''alarm'' then
       (if sub = Some ''status'' then print_alarm_status c
        else if sub = Some ''clear'' then
          say ''alarm cleared'' (c\<lparr>cn_app := clear_flow_alarm (ce_env ce) (cn_app c)\<rparr>)
        else say ''usage: alarm <status|clear>'' c)
     else if w = ''webhook'' then
       (if sub = Some ''list'' then print_webhook_list c
        else if sub = Some ''fire'' then
          (case word_at ws 2 of Some kind_str \<Rightarrow> fire_webhook ce kind_str c
           | None \<Rightarrow> say ''usage: webhook fire <event_kind>'' c)
        else say ''usage: webhook <list|fire <event_kind>>'' c)
     else if w = ''ap-info'' then
       (let wifi = cf_wifi (ap_config (cn_app c)) in
        say (''ap_ssid: '' @ wf_ap_ssid wifi @ '' (password set: '' @
          (if wf_ap_password wifi \<noteq> [] then ''true'' else ''false'') @ '')'') c)
     else if w = ''https'' then
       (if sub = Some ''on'' \<or> sub = Some ''off'' then set_https ce (sub = Some ''on'') c
        else say (''https.enabled = '' @ (if hs_enabled (cf_https (ap_config (cn_app c))) then ''true'' else ''false'') @
          ''  (usage: https <on|off>)'') c)
     else if w = ''reset'' then (say ''rebooting...'' c)\<lparr>cn_reboot := True\<rparr>
     else if w = ''factory_reset'' then cli_factory_reset ce c
     else say (''unknown command: '' @ w @ '' '' @ DASH @ '' type `help`'') c)"

definition cli_dispatch :: "('s, 't, 'd, 'w, 'j) cli_env \<Rightarrow> string \<Rightarrow> ('s, 'd, 'w) cli \<Rightarrow> ('s, 'd, 'w) cli" where
  "cli_dispatch ce cmd c =
    (let ws = split_whitespace cmd in
     if ws = [] then c
     else if hd ws = ''help'' then print_help c
     else if hd ws = ''state'' then say (''wifi state: '' @ ce_debug ce (ce_wifi_state ce (cn_wifi c))) c
     else if hd ws = ''wifi'' then dispatch_wifi ce ws c
     else dispatch_rest ce ws c)"

definition put :: "string \<Rightarrow> ('s, 'd, 'w) cli \<Rightarrow> ('s, 'd, 'w) cli" where
  "put s c = c\<lparr>cn_out := cn_out c @ s\<rparr>"

definition cli_byte :: "('s, 't, 'd, 'w, 'j) cli_env \<Rightarrow> ('s, 'd, 'w) cli \<Rightarrow> u8 \<Rightarrow> ('s, 'd, 'w) cli" where
  "cli_byte ce c b =
    (if cn_reboot c then c
     else if b = 13 \<or> b = 10 then
       (let c = put NL c;
            c = (if cn_buf c \<noteq> [] then (cli_dispatch ce (trim (cn_buf c)) c)\<lparr>cn_buf := []\<rparr> else c)
        in if cn_reboot c then c else put ''> '' c)
     else if b = 8 \<or> b = 127 then
       (if cn_buf c \<noteq> [] then put [CHR 0x08, CHR '' '', CHR 0x08] (c\<lparr>cn_buf := butlast (cn_buf c)\<rparr>) else c)
     else if 32 \<le> b \<and> b \<le> 126 then
       put [char_of (unat b)] (c\<lparr>cn_buf := cn_buf c @ [char_of (unat b)]\<rparr>)
     else c)"

definition cli_start :: "('s, 'd) app \<Rightarrow> 'w \<Rightarrow> ('s, 'd, 'w) cli" where
  "cli_start a w = put ''> '' (say (''serial CLI ready '' @ DASH @ '' type `help`'')
     \<lparr>cn_app = a, cn_wifi = w, cn_level = (LogInfo, IdfInfo), cn_buf = [], cn_out = [], cn_reboot = False\<rparr>)"

section \<open>The no_std console\<close>

text \<open>A byte of the line becomes the character of that code point, so the line is a list of code points
  below 256; the capacity of \<open>heapless::String<80>\<close> counts the bytes of their UTF-8 encoding.\<close>

definition utf8_char :: "char \<Rightarrow> string" where
  "utf8_char ch = (let n = of_char ch :: nat in
     if n < 128 then [ch] else [char_of (192 + n div 64), char_of (128 + n mod 64)])"

definition utf8 :: "string \<Rightarrow> string" where
  "utf8 s = concat (map utf8_char s)"

definition is_space :: "char \<Rightarrow> bool" where
  "is_space ch \<longleftrightarrow> is_ws ch \<or> ch = CHR 0x85 \<or> ch = CHR 0xA0"

definition trim_points :: "string \<Rightarrow> string" where
  "trim_points s = rev (dropWhile is_space (rev (dropWhile is_space s)))"

record ('s, 'd) serial =
  sr_app :: "('s, 'd) app"
  sr_line :: string
  sr_log :: "string list"
  sr_reboot :: bool

record ('s, 't, 'd, 'j) serial_env =
  se_env :: "('s, 't, 'd) env"
  se_debug_error :: "'j config_error \<Rightarrow> string"
  se_uptime :: u64
  se_heap_free :: nat
  se_heap_used :: nat

definition serial_say :: "string \<Rightarrow> ('s, 'd) serial \<Rightarrow> ('s, 'd) serial" where
  "serial_say s c = c\<lparr>sr_log := sr_log c @ [''serial: '' @ s]\<rparr>"

fun wifi_text :: "wifi_state option \<Rightarrow> string" where
  "wifi_text (Some (Connected ssid ip)) = ''wifi connected '' @ ssid @ '' ip='' @ ip"
| "wifi_text (Some (ApMode ssid ip)) = ''wifi AP-mode '' @ ssid @ '' ip='' @ ip"
| "wifi_text (Some (Connecting ssid)) = ''wifi connecting to '' @ ssid"
| "wifi_text (Some Disconnected) = ''wifi disconnected''"
| "wifi_text None = ''wifi disconnected''"

fun water_text :: "water_control_state \<Rightarrow> string" where
  "water_text WcOff = ''Off''"
| "water_text WcOn = ''On''"
| "water_text WcTransitioning = ''Transitioning''"

definition bool_text :: "bool \<Rightarrow> string" where
  "bool_text b = (if b then ''true'' else ''false'')"

definition serial_status :: "u64 \<Rightarrow> ('s, 'd) serial \<Rightarrow> ('s, 'd) serial" where
  "serial_status uptime c =
    (let snap = app_snapshot (sr_app c);
         c = serial_say (''uptime='' @ show_word uptime @ ''s fw='' @ sn_firmware_version snap @ '' mqtt='' @
           bool_text (mqtt_connected (sn_network snap))) c;
         c = serial_say (wifi_text (net_wifi (sn_network snap))) c
     in serial_say (''switches s1='' @ bool_text (st_sprinkler_1 (sn_switches snap)) @ '' s2='' @
           bool_text (st_sprinkler_2 (sn_switches snap)) @ '' water='' @
           water_text (st_water_control (sn_switches snap))) c)"

definition serial_config_reset :: "('s, 't, 'd, 'j) serial_env \<Rightarrow> ('s, 'd) serial \<Rightarrow> ('s, 'd) serial" where
  "serial_config_reset se c = (case ap_nvs (sr_app c) of
      None \<Rightarrow> c
    | Some s \<Rightarrow>
       (let (s', r) = config_factory_reset (env_nvs (se_env se)) s;
            c = c\<lparr>sr_app := (sr_app c)\<lparr>ap_nvs := Some s'\<rparr>\<rparr>
        in case r of
          Inr u \<Rightarrow> serial_say (''config erased '' @ DASH @ '' run '' @ [CHR 0x27] @ ''reset'' @ [CHR 0x27] @ '' to boot defaults'') c
        | Inl e \<Rightarrow> serial_say (''config reset failed: '' @ se_debug_error se e) c))"

definition serial_ap :: "('s, 't, 'd, 'j) serial_env \<Rightarrow> ('s, 'd) serial \<Rightarrow> ('s, 'd) serial" where
  "serial_ap se c =
    (let c = (case ap_nvs (sr_app c) of
        None \<Rightarrow> c
      | Some s \<Rightarrow> c\<lparr>sr_app := (sr_app c)\<lparr>ap_nvs := Some (write_boot_mode (env_nvs (se_env se)) s BootAp)\<rparr>\<rparr>)
     in (serial_say (''AP setup mode set '' @ DASH @ '' rebooting'') c)\<lparr>sr_reboot := True\<rparr>)"

definition serial_handle :: "('s, 't, 'd, 'j) serial_env \<Rightarrow> ('s, 'd) serial \<Rightarrow> ('s, 'd) serial" where
  "serial_handle se c =
    (let cmd = trim_points (sr_line c) in
     if cmd = [] then c
     else if cmd = ''help'' then serial_say (''commands '' @ DASH @
       '' help | status | diag | reset | config reset | ap | alarm clear'') c
     else if cmd = ''status'' then serial_status (se_uptime se) c
     else if cmd = ''diag'' then
       serial_say (''heap_free='' @ show_nat (se_heap_free se) @ '' heap_used='' @ show_nat (se_heap_used se)) c
     else if cmd = ''reset'' then
       (serial_say (''resetting'' @ [CHR 0xE2, CHR 0x80, CHR 0xA6]) c)\<lparr>sr_reboot := True\<rparr>
     else if cmd = ''config reset'' then serial_config_reset se c
     else if cmd = ''ap'' then serial_ap se c
     else if cmd = ''alarm clear'' then
       serial_say ''flow alarm cleared'' (c\<lparr>sr_app := clear_flow_alarm (se_env se) (sr_app c)\<rparr>)
     else serial_say (''unknown command '' @ [CHR 0x27] @ utf8 cmd @ [CHR 0x27] @ '' (try '' @ [CHR 0x27] @ ''help'' @
       [CHR 0x27] @ '')'') c)"

definition serial_byte :: "('s, 't, 'd, 'j) serial_env \<Rightarrow> ('s, 'd) serial \<Rightarrow> u8 \<Rightarrow> ('s, 'd) serial" where
  "serial_byte se c b =
    (if b = 13 \<or> b = 10 then (serial_handle se c)\<lparr>sr_line := []\<rparr>
     else if b = 8 \<or> b = 127 then c\<lparr>sr_line := butlast (sr_line c)\<rparr>
     else let line = sr_line c @ [char_of (unat b)] in
       if length (utf8 line) \<le> 80 then c\<lparr>sr_line := line\<rparr> else c\<lparr>sr_line := []\<rparr>)"

definition serial_new :: "('s, 'd) app \<Rightarrow> ('s, 'd) serial" where
  "serial_new a = \<lparr>sr_app = a, sr_line = [], sr_log = [''serial: CLI ready '' @ DASH @ '' type '' @ [CHR 0x27] @
     ''help'' @ [CHR 0x27]], sr_reboot = False\<rparr>"

section \<open>Lemmas\<close>

lemma show_nat_step: "show_nat n = (if n < 10 then [] else show_nat (n div 10)) @ [digit_char (n mod 10)]"
  by (subst show_nat.simps) simp

lemma digit_not_comma: "d < 10 \<Longrightarrow> digit_char d \<noteq> CHR '',''"
proof -
  have "\<not> is_digit (CHR '','')" by code_simp
  then show "d < 10 \<Longrightarrow> ?thesis" by (metis is_digit_digit_char)
qed

lemma comma_digits_0 [simp]: "comma_digits 0 i = []"
  by (subst comma_digits.simps) simp

lemma digits_without_commas:
  "0 < n \<Longrightarrow> rev (filter (\<lambda>c. c \<noteq> CHR '','') (comma_digits n i)) = show_nat n"
proof (induction n i rule: comma_digits.induct)
  case (1 n i)
  show ?case
  proof (cases "n < 10")
    case True
    with 1(2) show ?thesis
      by (subst comma_digits.simps, subst show_nat_step) (simp add: digit_not_comma comma_digits.simps [of 0])
  next
    case False
    with 1 show ?thesis
      by (subst comma_digits.simps, subst show_nat_step) (simp add: digit_not_comma)
  qed
qed

text \<open>Words of a command line.\<close>

definition word_ok :: "string \<Rightarrow> bool" where
  "word_ok w \<longleftrightarrow> w \<noteq> [] \<and> list_all (\<lambda>ch. \<not> is_ws ch) w"

lemma words_acc_word:
  "list_all (\<lambda>ch. \<not> is_ws ch) w \<Longrightarrow> words_acc a (w @ s) = words_acc (rev w @ a) s"
  by (induction w arbitrary: a) simp_all

lemma space_is_ws: "is_ws (CHR '' '')"
  by code_simp

lemma split_first_word: "word_ok w \<Longrightarrow> split_whitespace (w @ CHR '' '' # s) = w # split_whitespace s"
  by (simp add: split_whitespace_def words_acc_word word_ok_def space_is_ws)

lemma split_last_word: "word_ok w \<Longrightarrow> split_whitespace w = [w]"
  using words_acc_word [of w "[]" "[]"] by (simp add: split_whitespace_def word_ok_def)

lemma split_wifi_add:
  assumes "word_ok ssid" "word_ok password"
  shows "split_whitespace (''wifi add '' @ ssid @ '' '' @ password) = [''wifi'', ''add'', ssid, password]"
proof -
  have ok: "word_ok ''wifi''" "word_ok ''add''" by code_simp+
  show ?thesis
    using split_first_word [OF ok(1), of "''add '' @ ssid @ '' '' @ password"]
      split_first_word [OF ok(2), of "ssid @ '' '' @ password"] split_first_word [OF assms(1), of password]
      split_last_word [OF assms(2)] by simp
qed

lemma dispatch_wifi_add:
  assumes "word_ok ssid" "word_ok password"
  shows "cli_dispatch ce (''wifi add '' @ ssid @ '' '' @ password) c = modify_networks ce (add_network ssid password) c"
proof -
  have "ssid \<noteq> []" using assms(1) by (simp add: word_ok_def)
  then show ?thesis
    unfolding cli_dispatch_def split_wifi_add [OF assms]
    by (simp add: dispatch_wifi_def word_or_empty_def word_at_def)
qed

lemma say_frame [simp]:
  "cn_app (say t c) = cn_app c" "cn_wifi (say t c) = cn_wifi c" "cn_reboot (say t c) = cn_reboot c"
  "cn_buf (say t c) = cn_buf c"
  by (simp_all add: say_def)

definition with_networks :: "config \<Rightarrow> wifi_creds list \<Rightarrow> config" where
  "with_networks cfg nets = cfg\<lparr>cf_wifi := (cf_wifi cfg)\<lparr>wf_networks := nets\<rparr>\<rparr>"

lemma modify_networks_effect:
  assumes "ap_nvs (cn_app c) = Some s"
    and "config_save (env_nvs (ce_env ce)) (ce_codec ce) (with_networks (ap_config (cn_app c)) nets) s = (s', r)"
    and "nets = fst (f (wf_networks (cf_wifi (ap_config (cn_app c)))))"
  shows "ap_nvs (cn_app (modify_networks ce f c)) = Some s'"
    and "ap_config (cn_app (modify_networks ce f c)) =
      (case r of Inr u \<Rightarrow> with_networks (ap_config (cn_app c)) nets | Inl e \<Rightarrow> ap_config (cn_app c))"
    and "cn_wifi (modify_networks ce f c) =
      (case r of Inr u \<Rightarrow> wi_connect (ce_wifi ce) (cn_wifi c) nets | Inl e \<Rightarrow> cn_wifi c)"
  using assms
  by (auto simp: modify_networks_def cli_save_def with_networks_def replace_config_def Let_def
      split: prod.splits sum.splits)

text \<open>Where the commas are: \<open>comma_pos i\<close> is the position, counted from the right, of what is pushed
  before digit \<open>i\<close>.\<close>

definition comma_pos :: "nat \<Rightarrow> nat" where
  "comma_pos i = i + (i - 1) div 3"

lemma comma_pos_cases:
  obtains k where "i = 3 * k" "0 < k" "comma_pos i = 4 * k - 1" "comma_pos (i + 1) = 4 * k + 1"
  | k j where "i = 3 * k + j" "j < 3" "j \<noteq> 0 \<or> k = 0" "comma_pos i = 4 * k + j" "comma_pos (i + 1) = 4 * k + j + 1"
proof -
  define k j where "k = i div 3" and "j = i mod 3"
  have i: "i = 3 * k + j" and j: "j < 3" by (simp_all add: k_def j_def)
  show ?thesis
  proof (cases "j = 0 \<and> 0 < k")
    case True
    then obtain m where "k = Suc m" by (cases k) simp_all
    with True i show ?thesis by (intro that(1) [of k]) (simp_all add: comma_pos_def)
  next
    case False
    consider "j = 0" | "j = 1" | "j = 2" using j by linarith
    then show ?thesis
      using False i j by cases (intro that(2) [of k j]; simp add: comma_pos_def)+
  qed
qed

lemma comma_digits_at:
  "j < length (comma_digits n i) \<Longrightarrow> comma_digits n i ! j = CHR '','' \<longleftrightarrow> (comma_pos i + j) mod 4 = 3"
proof (induction n i arbitrary: j rule: comma_digits.induct)
  case (1 n i)
  let ?d = "digit_char (n mod 10)" and ?rest = "comma_digits (n div 10) (i + 1)"
  have n: "n \<noteq> 0" using 1(2) by (cases n) simp_all
  have d: "?d \<noteq> CHR '',''" by (simp add: digit_not_comma)
  note IH = 1(1) [OF n]
  show ?case
  proof (cases rule: comma_pos_cases [of i])
    case (1 k)
    then have e: "comma_digits n i = CHR '','' # ?d # ?rest" using n by (subst comma_digits.simps) simp
    obtain m where k: "k = Suc m" using 1 by (cases k) simp_all
    consider "j = 0" | "j = 1" | j' where "j = j' + 2" by (cases j; cases "j - 1") auto
    then show ?thesis
      using 1 e d k IH [of "j - 2"] 1(2) \<open>j < length (comma_digits n i)\<close>
      by cases (simp_all add: numeral_2_eq_2 mod_Suc add.assoc)
  next
    case (2 k l)
    then have e: "comma_digits n i = ?d # ?rest" using n by (subst comma_digits.simps) auto
    have "(4 * k + l) mod 4 \<noteq> 3" using 2(2) by simp
    with 2 e d IH [of "j - 1"] \<open>j < length (comma_digits n i)\<close> show ?thesis
      by (cases j) simp_all
  qed
qed

text \<open>Keystrokes: a printable character or the erase key.\<close>

datatype key = Typed char | Erase

fun key_byte :: "key \<Rightarrow> u8" where
  "key_byte (Typed ch) = of_nat (of_char ch)"
| "key_byte Erase = 127"

fun key_ok :: "key \<Rightarrow> bool" where
  "key_ok (Typed ch) = (32 \<le> (of_char ch :: nat) \<and> (of_char ch :: nat) \<le> 126)"
| "key_ok Erase = True"

fun edit :: "string \<Rightarrow> key \<Rightarrow> string" where
  "edit line (Typed ch) = line @ [ch]"
| "edit line Erase = butlast line"

lemma key_byte_range:
  assumes "key_ok (Typed ch)"
  shows "unat (key_byte (Typed ch)) = of_char ch" "32 \<le> key_byte (Typed ch)" "key_byte (Typed ch) \<le> 126"
    "key_byte (Typed ch) \<noteq> 13" "key_byte (Typed ch) \<noteq> 10" "key_byte (Typed ch) \<noteq> 8" "key_byte (Typed ch) \<noteq> 127"
proof -
  have "(of_char ch :: nat) < 256" by (rule nat_of_char_less_256)
  then show u: "unat (key_byte (Typed ch)) = of_char ch" by (simp add: unat_of_nat)
  show "32 \<le> key_byte (Typed ch)" "key_byte (Typed ch) \<le> 126"
    using u assms by (simp_all add: word_le_nat_alt)
  show "key_byte (Typed ch) \<noteq> 13" "key_byte (Typed ch) \<noteq> 10" "key_byte (Typed ch) \<noteq> 8" "key_byte (Typed ch) \<noteq> 127"
    using u assms by (auto simp del: key_byte.simps)
qed

lemma cli_byte_key:
  assumes "\<not> cn_reboot c" "key_ok k"
  shows "\<exists>out. cli_byte ce c (key_byte k) = c\<lparr>cn_buf := edit (cn_buf c) k, cn_out := out\<rparr>"
proof (cases k)
  case (Typed ch)
  then show ?thesis
    using assms key_byte_range [of ch]
    by (simp add: cli_byte_def put_def del: key_byte.simps) (rule exI, rule refl)
next
  case Erase
  then show ?thesis
    using assms(1) by (cases "cn_buf c = []") (simp_all add: cli_byte_def put_def, (rule exI, rule cli.equality, simp_all)+)
qed

lemma cli_keys:
  "\<not> cn_reboot c \<Longrightarrow> list_all key_ok ks \<Longrightarrow>
     \<exists>out. foldl (cli_byte ce) c (map key_byte ks) = c\<lparr>cn_buf := foldl edit (cn_buf c) ks, cn_out := out\<rparr>"
proof (induction ks arbitrary: c)
  case Nil
  show ?case by (rule exI [of _ "cn_out c"]) simp
next
  case (Cons k ks)
  obtain out where out: "cli_byte ce c (key_byte k) = c\<lparr>cn_buf := edit (cn_buf c) k, cn_out := out\<rparr>"
    using cli_byte_key [of c k ce] Cons.prems by auto
  with Cons.IH [of "c\<lparr>cn_buf := edit (cn_buf c) k, cn_out := out\<rparr>"] Cons.prems show ?case by auto
qed

lemma utf8_ascii: "list_all (\<lambda>ch. (of_char ch :: nat) < 128) s \<Longrightarrow> utf8 s = s"
  by (induction s) (simp_all add: utf8_def utf8_char_def)

definition ascii :: "string \<Rightarrow> bool" where
  "ascii s \<longleftrightarrow> list_all (\<lambda>ch. (of_char ch :: nat) < 128) s"

lemma ascii_edit: "ascii line \<Longrightarrow> key_ok k \<Longrightarrow> ascii (edit line k)"
  by (cases k) (auto simp: ascii_def list_all_iff dest: in_set_butlastD)

lemma length_edit: "length (edit line k) \<le> Suc (length line)"
  by (cases k) simp_all

lemma serial_byte_key:
  assumes "ascii (sr_line c)" "key_ok k" "length (sr_line c) < 80"
  shows "serial_byte se c (key_byte k) = c\<lparr>sr_line := edit (sr_line c) k\<rparr>"
proof (cases k)
  case (Typed ch)
  then have "utf8 (sr_line c @ [ch]) = sr_line c @ [ch]"
    using ascii_edit [OF assms(1,2)] by (intro utf8_ascii) (simp add: ascii_def)
  with Typed show ?thesis
    using assms(2,3) key_byte_range [of ch] by (simp add: serial_byte_def del: key_byte.simps)
qed (simp add: serial_byte_def)

lemma serial_keys:
  "ascii (sr_line c) \<Longrightarrow> list_all key_ok ks \<Longrightarrow> length (sr_line c) + length ks \<le> 80 \<Longrightarrow>
     foldl (serial_byte se) c (map key_byte ks) = c\<lparr>sr_line := foldl edit (sr_line c) ks\<rparr>"
proof (induction ks arbitrary: c)
  case (Cons k ks)
  have "length (edit (sr_line c) k) + length ks \<le> 80"
    using length_edit [of "sr_line c" k] Cons.prems(3) by simp
  with Cons show ?case by (simp add: serial_byte_key ascii_edit)
qed simp

text \<open>Bytes that are ordinary characters of a line.\<close>

definition plain :: "u8 \<Rightarrow> bool" where
  "plain b \<longleftrightarrow> unat b < 128 \<and> b \<noteq> 13 \<and> b \<noteq> 10 \<and> b \<noteq> 8 \<and> b \<noteq> 127"

lemma serial_byte_plain:
  assumes "ascii (sr_line c)" "plain b"
  shows "serial_byte se c b = (if length (sr_line c) < 80 then c\<lparr>sr_line := sr_line c @ [char_of (unat b)]\<rparr>
     else c\<lparr>sr_line := []\<rparr>)" "ascii (sr_line c @ [char_of (unat b)])"
proof -
  show a: "ascii (sr_line c @ [char_of (unat b)])"
    using assms by (simp add: ascii_def plain_def)
  have "utf8 (sr_line c @ [char_of (unat b)]) = sr_line c @ [char_of (unat b)]"
    using a by (intro utf8_ascii) (simp add: ascii_def)
  then show "serial_byte se c b = (if length (sr_line c) < 80 then c\<lparr>sr_line := sr_line c @ [char_of (unat b)]\<rparr>
     else c\<lparr>sr_line := []\<rparr>)"
    using assms(2) by (simp add: serial_byte_def plain_def)
qed

lemma serial_overlong:
  "ascii (sr_line c) \<Longrightarrow> list_all plain junk \<Longrightarrow> length (sr_line c) + length junk = 81 \<Longrightarrow> length (sr_line c) \<le> 80 \<Longrightarrow>
     foldl (serial_byte se) c junk = c\<lparr>sr_line := []\<rparr>"
proof (induction junk arbitrary: c)
  case (Cons b junk)
  show ?case
  proof (cases "length (sr_line c) < 80")
    case True
    with Cons show ?thesis using serial_byte_plain(1) [OF Cons.prems(1), of b se] serial_byte_plain(2) [OF Cons.prems(1), of b] by simp
  next
    case False
    with Cons.prems(3,4) have "length junk = 0" "length (sr_line c) = 80" by (simp_all only: list.size)
    then have "junk = []" by simp
    with Cons.prems show ?thesis using serial_byte_plain(1) [OF Cons.prems(1), of b se] serial_byte_plain(2) [OF Cons.prems(1), of b] by simp
  qed
qed simp

section \<open>Properties\<close>

text \<open>The thousands separators: without its commas the number is its decimal text, and counted from
  the right every fourth character, and no other, is a comma.\<close>

theorem with_commas_correct:
  "filter (\<lambda>ch. ch \<noteq> CHR '','') (with_commas n) = show_nat n \<and>
   (\<forall>j < length (with_commas n). rev (with_commas n) ! j = CHR '','' \<longleftrightarrow> j mod 4 = 3)"
proof (cases "n = 0")
  case True
  have "show_nat 0 = ''0''" by code_simp
  then show ?thesis using True by (simp add: with_commas_def)
next
  case False
  then have "filter (\<lambda>ch. ch \<noteq> CHR '','') (with_commas n) = show_nat n"
    using digits_without_commas [of n 0] by (simp add: with_commas_def rev_filter)
  moreover have "\<forall>j < length (with_commas n). rev (with_commas n) ! j = CHR '','' \<longleftrightarrow> j mod 4 = 3"
    using comma_digits_at [of _ n 0] False by (simp add: with_commas_def comma_pos_def)
  ultimately show ?thesis by simp
qed

lemma with_commas_correct_witness:
  "with_commas 1234567 = ''1,234,567'' \<and>
   (\<forall>j < length (with_commas 1234567). rev (with_commas 1234567) ! j = CHR '','' \<longleftrightarrow> j mod 4 = 3)"
proof -
  have "with_commas 1234567 = ''1,234,567''"
    by (simp add: with_commas_def comma_digits.simps digit_char_def) code_simp
  then show ?thesis using with_commas_correct [of 1234567] by simp
qed

text \<open>\<open>wifi add\<close> on the serial console: when the save succeeds, the configuration in force, the one
  the next boot loads and the list handed to the WiFi supervisor are the same, the old list without
  the name and with the new entry at its end; when it fails, neither the configuration nor the
  supervisor has changed.\<close>

theorem wifi_add_durable:
  assumes "nvs_store (env_nvs (ce_env ce)) ok" "ok s" "ap_nvs (cn_app c) = Some s"
    and "word_ok ssid" "word_ok password"
    and "cfg = with_networks (ap_config (cn_app c)) (filter (\<lambda>n. wc_ssid n \<noteq> ssid)
           (wf_networks (cf_wifi (ap_config (cn_app c)))) @ [\<lparr>wc_ssid = ssid, wc_password = password\<rparr>])"
    and "config_save (env_nvs (ce_env ce)) (ce_codec ce) cfg s = (s', r)"
    and "\<And>bs. cc_enc (ce_codec ce) cfg = Inr bs \<Longrightarrow> cc_dec (ce_codec ce) bs = Inr cfg"
  shows "let c' = cli_dispatch ce (''wifi add '' @ ssid @ '' '' @ password) c in
    ap_nvs (cn_app c') = Some s' \<and> (case r of
      Inr u \<Rightarrow> ap_config (cn_app c') = cfg \<and> config_load (env_nvs (ce_env ce)) (ce_codec ce) dflt s' = Inr cfg \<and>
        cn_wifi c' = wi_connect (ce_wifi ce) (cn_wifi c) (wf_networks (cf_wifi cfg))
    | Inl e \<Rightarrow> ap_config (cn_app c') = ap_config (cn_app c) \<and> cn_wifi c' = cn_wifi c)"
proof -
  have load: "config_load (env_nvs (ce_env ce)) (ce_codec ce) dflt s' = Inr cfg" if "r = Inr u" for u
    using nvs_store.save_load [OF assms(1,2) _ assms(8), of s' dflt] assms(7) that by simp
  have nets: "wf_networks (cf_wifi cfg) = fst (add_network ssid password (wf_networks (cf_wifi (ap_config (cn_app c)))))"
    by (simp add: assms(6) with_networks_def add_network_def)
  have cfg: "cfg = with_networks (ap_config (cn_app c)) (wf_networks (cf_wifi cfg))"
    by (simp add: assms(6) with_networks_def)
  note eff = modify_networks_effect [where f = "add_network ssid password", OF assms(3) _ nets, of ce s' r]
  show ?thesis
    using eff assms(7) cfg load unfolding dispatch_wifi_add [OF assms(4,5)] Let_def
    by (cases r) simp_all
qed

text \<open>Line editing: typing and erasing up to eighty keystrokes changes nothing but the line (and the
  echo) on either console, and both hold the same line, the one an editor would show.\<close>

theorem consoles_edit_alike:
  assumes "\<not> cn_reboot c" "cn_buf c = []" "sr_line d = []" "list_all key_ok ks" "length ks \<le> 80"
  shows "(\<exists>out. foldl (cli_byte ce) c (map key_byte ks) = c\<lparr>cn_buf := foldl edit [] ks, cn_out := out\<rparr>) \<and>
    foldl (serial_byte se) d (map key_byte ks) = d\<lparr>sr_line := foldl edit [] ks\<rparr>"
  using cli_keys [OF assms(1,4), of ce] serial_keys [of d ks se] assms by (simp add: ascii_def)

text \<open>Overflow of the line of the no_std console: eighty-one characters are forgotten and nothing else;
  what follows on the same line is a line of its own, which the next line end runs as a command.\<close>

theorem serial_overflow_forgets:
  assumes "sr_line c = []" "list_all plain junk" "length junk = 81"
  shows "foldl (serial_byte se) c (junk @ rest) = foldl (serial_byte se) c rest"
  using serial_overlong [of c junk se] assms by (cases c) (simp add: ascii_def)

lemma serial_overflow_forgets_witness:
  "foldl (serial_byte se) (serial_new a) (replicate 81 (120 :: u8) @ bytes_of ''reset'') =
     foldl (serial_byte se) (serial_new a) (bytes_of ''reset'')"
  by (rule serial_overflow_forgets) (simp_all add: serial_new_def plain_def list_all_iff)

lemma consoles_edit_alike_witness:
  "(\<exists>out. foldl (cli_byte ce) (cli_start a w) (map key_byte [Typed (CHR ''a''), Erase, Typed (CHR ''b'')]) =
      (cli_start a w)\<lparr>cn_buf := foldl edit [] [Typed (CHR ''a''), Erase, Typed (CHR ''b'')], cn_out := out\<rparr>) \<and>
    foldl (serial_byte se) (serial_new a) (map key_byte [Typed (CHR ''a''), Erase, Typed (CHR ''b'')]) =
      (serial_new a)\<lparr>sr_line := foldl edit [] [Typed (CHR ''a''), Erase, Typed (CHR ''b'')]\<rparr>"
  by (rule consoles_edit_alike) (simp_all add: cli_start_def serial_new_def put_def say_def)

definition sample_cli_env :: "config \<Rightarrow> (fake_nvs, int, webhook_event list, wifi_creds list list, unit) cli_env" where
  "sample_cli_env cfg = \<lparr>ce_env = sample_env (\<lambda>_. 0), ce_codec = constant_codec cfg, ce_show = (\<lambda>_. []),
     ce_wifi = \<lparr>wi_connect = (\<lambda>w l. w @ [l]), wi_reconnect = id, wi_scan = (\<lambda>w. (w, Inr []))\<rparr>,
     ce_wifi_state = (\<lambda>_. Disconnected), ce_debug = (\<lambda>_. ''Disconnected''), ce_json_kind = (\<lambda>_. None),
     ce_tasks = [], ce_heap = \<lparr>hp_total_free = 0, hp_total_allocated = 0, hp_largest_free = 0, hp_min_ever = 0\<rparr>\<rparr>"

definition sample_cli :: "(fake_nvs, webhook_event list, wifi_creds list list) cli" where
  "sample_cli = cli_start (app_with_nvs (sample_env (\<lambda>_. 0)) home_config (Some Map.empty)) []"

definition added_config :: config where
  "added_config = with_networks home_config [home_network, \<lparr>wc_ssid = ''guest'', wc_password = ''pw2''\<rparr>]"

lemma wifi_add_durable_witness:
  "let c' = cli_dispatch (sample_cli_env added_config) (''wifi add '' @ ''guest'' @ '' '' @ ''pw2'') sample_cli in
     ap_nvs (cn_app c') = Some [NVS_KEY \<mapsto> [123, 125]] \<and> (case Inr () :: unit config_error + unit of
      Inr u \<Rightarrow> ap_config (cn_app c') = added_config \<and>
        config_load fake_nvs_ops (constant_codec added_config) sample_config [NVS_KEY \<mapsto> [123, 125]] = Inr added_config \<and>
        cn_wifi c' = wi_connect (ce_wifi (sample_cli_env added_config)) [] (wf_networks (cf_wifi added_config))
    | Inl e \<Rightarrow> ap_config (cn_app c') = home_config \<and> cn_wifi c' = [])"
proof -
  have w: "word_ok ''guest''" "word_ok ''pw2''" by code_simp+
  have c: "ap_config (cn_app sample_cli) = home_config" "ap_nvs (cn_app sample_cli) = Some Map.empty"
    "cn_wifi sample_cli = []"
    by (simp_all add: sample_cli_def cli_start_def put_def app_with_nvs_def Let_def)
  have a: "added_config = with_networks (ap_config (cn_app sample_cli)) (filter (\<lambda>n. wc_ssid n \<noteq> ''guest'')
     (wf_networks (cf_wifi (ap_config (cn_app sample_cli)))) @ [\<lparr>wc_ssid = ''guest'', wc_password = ''pw2''\<rparr>])"
    by (simp add: c added_config_def home_config_def home_network_def)
  have e: "env_nvs (ce_env (sample_cli_env added_config)) = fake_nvs_ops"
    "ce_codec (sample_cli_env added_config) = constant_codec added_config"
    by (simp_all add: sample_cli_env_def)
  have sv: "config_save (env_nvs (ce_env (sample_cli_env added_config))) (ce_codec (sample_cli_env added_config))
      added_config Map.empty = ([NVS_KEY \<mapsto> [123, 125]], Inr ())"
    by (simp add: e config_save_def constant_codec_def fake_nvs_defs)
  show ?thesis
    using wifi_add_durable [OF _ TrueI c(2) w a sv, of sample_config]
    by (simp add: e fake_nvs_store c constant_codec_def)
qed

end
