(* ===== verification/Ota_Update.thy ===== *)
theory Ota_Update
  imports Text
begin

text \<open>
  Over-the-air update of the no_std firmware, \<open>crates/firmware-nostd/src/ota.rs\<close>, and the confirmation
  of the running slot in both firmwares (\<open>net_ota.rs\<close>). The flash with its partition table and boot
  metadata is a record of functions over its state \<open>'f\<close>, the request body a reader over \<open>'r\<close>; the locales
  \<open>body_reader\<close> and \<open>slot_flash\<close> state what their documentation promises. The upload of the ESP-IDF
  firmware is in theory \<open>Http_Server\<close>.
\<close>

section \<open>Flash, partitions and reader\<close>

datatype app_slot = SlotFactory | SlotOta nat | SlotTest

text \<open>\<open>pa_app\<close> is \<open>None\<close> for partitions that hold no application.\<close>

record partition =
  pa_app :: "app_slot option"
  pa_offset :: u32
  pa_len :: u32

datatype image_state = ImgNew | ImgValid

record 'f ota_flash =
  of_table :: "'f \<Rightarrow> string + partition list"
  of_booted :: "'f \<Rightarrow> partition list \<Rightarrow> string + partition option"
  of_write :: "'f \<Rightarrow> u32 \<Rightarrow> bytes \<Rightarrow> 'f \<times> bool"
  of_updater :: "'f \<Rightarrow> string + unit"
  of_activate_next :: "'f \<Rightarrow> 'f \<times> (string + unit)"
  of_set_state :: "'f \<Rightarrow> image_state \<Rightarrow> 'f \<times> (string + unit)"

text \<open>A read with a buffer of \<open>n\<close> bytes: \<open>None\<close> is an error, \<open>Some []\<close> the end of the body.\<close>

type_synonym 'r reader = "'r \<Rightarrow> nat \<Rightarrow> 'r \<times> bytes option"

section \<open>The receiver\<close>

definition SECTOR :: nat where "SECTOR = 4096"
definition MIN_IMAGE :: u32 where "MIN_IMAGE = 64 * 1024"

definition inactive_slot :: "'f ota_flash \<Rightarrow> 'f \<Rightarrow> string + (u32 \<times> u32)" where
  "inactive_slot ops f =
    (case of_table ops f of
       Inl e \<Rightarrow> Inl e
     | Inr pt \<Rightarrow> (case of_booted ops f pt of
         Inl e \<Rightarrow> Inl e
       | Inr None \<Rightarrow> Inl ''Invalid''
       | Inr (Some booted) \<Rightarrow> (case pa_app booted of
           None \<Rightarrow> Inl ''Invalid''
         | Some booted_sub \<Rightarrow>
             (case find (\<lambda>part. case pa_app part of
                 Some s \<Rightarrow> s \<noteq> booted_sub \<and> s \<noteq> SlotFactory | None \<Rightarrow> False) pt of
                Some part \<Rightarrow> Inr (pa_offset part, pa_len part)
              | None \<Rightarrow> Inl ''Invalid''))))"

definition activate_inactive_slot :: "'f ota_flash \<Rightarrow> 'f \<Rightarrow> 'f \<times> (string + unit)" where
  "activate_inactive_slot ops f =
    (case of_updater ops f of
       Inl e \<Rightarrow> (f, Inl e)
     | Inr _ \<Rightarrow> (case of_activate_next ops f of
         (f, Inl e) \<Rightarrow> (f, Inl e)
       | (f, Inr _) \<Rightarrow> of_set_state ops f ImgNew))"

definition confirm_running :: "'f ota_flash \<Rightarrow> 'f \<Rightarrow> 'f" where
  "confirm_running ops f =
    (case of_updater ops f of Inl e \<Rightarrow> f | Inr _ \<Rightarrow> fst (of_set_state ops f ImgValid))"

text \<open>\<open>mark_app_valid\<close> of the ESP-IDF firmware over the calls \<open>EspOta::new\<close> and
  \<open>mark_running_slot_valid\<close>.\<close>

definition mark_app_valid :: "('f \<Rightarrow> string + unit) \<Rightarrow> ('f \<Rightarrow> 'f \<times> (string + unit)) \<Rightarrow> 'f \<Rightarrow> 'f" where
  "mark_app_valid open_ota mark_running f = (case open_ota f of Inl e \<Rightarrow> f | Inr _ \<Rightarrow> fst (mark_running f))"

record ota_report =
  or_ok :: bool
  or_detail :: string

definition report_err :: "string \<Rightarrow> ota_report" where
  "report_err detail = \<lparr>or_ok = False, or_detail = detail\<rparr>"

text \<open>The inner loop: \<open>acc\<close> is the filled part of the sector buffer.\<close>

function fill_sector :: "'r reader \<Rightarrow> nat \<Rightarrow> 'r \<Rightarrow> bytes \<Rightarrow> 'r \<times> bytes option" where
  "fill_sector rd want r acc =
    (if length acc < want then
       (case rd r (want - length acc) of
          (r, None) \<Rightarrow> (r, None)
        | (r, Some []) \<Rightarrow> (r, Some acc)
        | (r, Some (b # bs)) \<Rightarrow> fill_sector rd want r (acc @ b # bs))
     else (r, Some acc))"
  by pat_completeness auto
termination by (relation "measure (\<lambda>(rd, want, r, acc). want - length acc)") auto

declare fill_sector.simps [simp del]

function write_loop ::
    "'f ota_flash \<Rightarrow> 'r reader \<Rightarrow> u32 \<Rightarrow> nat \<Rightarrow> 'f \<Rightarrow> 'r \<Rightarrow> nat \<Rightarrow> 'f \<times> 'r \<times> (string + nat)" where
  "write_loop ops rd offset tot f r written =
    (if written < tot then
       let want = min SECTOR (tot - written) in
       (case fill_sector rd want r [] of
          (r, None) \<Rightarrow> (f, r, Inl ''read error mid-stream'')
        | (r, Some []) \<Rightarrow> (f, r, Inl ''stream ended early'')
        | (r, Some (b # bs)) \<Rightarrow>
            let chunk_off = offset + of_nat written in
            (case of_write ops f chunk_off (b # bs) of
               (f, False) \<Rightarrow> (f, r, Inl ''flash write failed'')
             | (f, True) \<Rightarrow> write_loop ops rd offset tot f r (written + length (b # bs))))
     else (f, r, Inr written))"
  by pat_completeness auto
termination by (relation "measure (\<lambda>(ops, rd, offset, tot, f, r, written). tot - written)") auto

declare write_loop.simps [simp del]

text \<open>The flag of the result is the reboot request.\<close>

definition write_image ::
    "'f ota_flash \<Rightarrow> 'r reader \<Rightarrow> u32 \<Rightarrow> 'f \<Rightarrow> 'r \<Rightarrow> 'f \<times> ota_report \<times> bool" where
  "write_image ops rd tot f r =
    (if tot < MIN_IMAGE then (f, report_err ''image too small / no Content-Length'', False)
     else case inactive_slot ops f of
       Inl e \<Rightarrow> (f, report_err (''no inactive OTA slot: '' @ e), False)
     | Inr (offset, slot_len) \<Rightarrow>
         if slot_len < tot then (f, report_err ''image larger than OTA partition'', False)
         else (case write_loop ops rd offset (unat tot) f r 0 of
           (f, _, Inl msg) \<Rightarrow> (f, report_err msg, False)
         | (f, _, Inr written) \<Rightarrow>
             (case activate_inactive_slot ops f of
                (f, Inl e) \<Rightarrow> (f, report_err (''activate failed: '' @ e), False)
              | (f, Inr _) \<Rightarrow> (f, \<lparr>or_ok = True, or_detail = show_nat written @ '' bytes, rebooting''\<rparr>, True))))"

section \<open>Contracts\<close>

text \<open>A reader delivers its pending bytes in order, never more than the buffer holds.\<close>

locale body_reader =
  fixes rd :: "'r reader" and pending :: "'r \<Rightarrow> bytes"
  assumes read_chunk: "rd r n = (r', Some c) \<Longrightarrow> pending r = c @ pending r' \<and> length c \<le> n"
begin

lemma fill_pending:
  "fill_sector rd want r acc = (r', Some c) \<Longrightarrow> length acc \<le> want \<Longrightarrow>
     acc @ pending r = c @ pending r' \<and> length c \<le> want"
proof (induction "want - length acc" arbitrary: r acc rule: less_induct)
  case less
  show ?case
  proof (cases "length acc < want")
    case True
    obtain r1 res where q: "rd r (want - length acc) = (r1, res)" by (cases "rd r (want - length acc)")
    from less.prems(1) True q obtain chunk where res: "res = Some chunk"
      by (auto simp: fill_sector.simps [of rd want r] split: option.splits)
    note c = read_chunk [OF q [unfolded res]]
    show ?thesis
    proof (cases chunk)
      case Nil
      with less.prems True q res c show ?thesis by (auto simp: fill_sector.simps [of rd want r])
    next
      case (Cons b bs)
      have "fill_sector rd want r1 (acc @ b # bs) = (r', Some c)"
        using less.prems(1) True q res Cons by (simp add: fill_sector.simps [of rd want r])
      with less.hyps [of "acc @ b # bs" r1] True Cons c show ?thesis by auto
    qed
  next
    case False
    with less.prems show ?thesis by (simp add: fill_sector.simps [of rd want r])
  qed
qed

end

text \<open>What the flash driver promises: a successful write changes exactly its range, a failed one at most
  its range; the calls on the boot metadata change nothing outside the area \<open>meta\<close>, and a write outside
  that area does not change what boots next.\<close>

definition range_of :: "u32 \<Rightarrow> nat \<Rightarrow> nat set" where
  "range_of a n = {unat a ..< unat a + n}"

locale slot_flash =
  fixes ops :: "'f ota_flash" and content :: "'f \<Rightarrow> nat \<Rightarrow> u8" and boots :: "'f \<Rightarrow> 'b" and area :: "nat set"
  assumes write_ok: "of_write ops f a bs = (f', True) \<Longrightarrow> unat a + length bs \<le> 2 ^ 32 \<Longrightarrow>
      content f' = (\<lambda>i. if i \<in> range_of a (length bs) then bs ! (i - unat a) else content f i)"
    and write_frame: "of_write ops f a bs = (f', ok) \<Longrightarrow> unat a + length bs \<le> 2 ^ 32 \<Longrightarrow>
      i \<notin> range_of a (length bs) \<Longrightarrow> content f' i = content f i"
    and write_boots: "of_write ops f a bs = (f', ok) \<Longrightarrow> unat a + length bs \<le> 2 ^ 32 \<Longrightarrow>
      range_of a (length bs) \<inter> area = {} \<Longrightarrow> boots f' = boots f"
    and meta_frame: "of_activate_next ops f = (f', r) \<Longrightarrow> i \<notin> area \<Longrightarrow> content f' i = content f i"
      "of_set_state ops f st = (f', r) \<Longrightarrow> i \<notin> area \<Longrightarrow> content f' i = content f i"
begin

lemma next_frame: "i \<notin> area \<Longrightarrow> content (fst (of_activate_next ops f)) i = content f i"
  by (cases "of_activate_next ops f") (simp add: meta_frame(1))

lemma state_frame: "i \<notin> area \<Longrightarrow> content (fst (of_set_state ops f st)) i = content f i"
  by (cases "of_set_state ops f st") (simp add: meta_frame(2))

lemma activate_frame: "i \<notin> area \<Longrightarrow> content (fst (activate_inactive_slot ops f)) i = content f i"
  using next_frame [of i f] state_frame [of i "fst (of_activate_next ops f)" ImgNew]
  by (auto simp: activate_inactive_slot_def split: sum.splits prod.splits)

text \<open>The outer loop. \<open>n\<close> bytes of the body are in place when it starts.\<close>

lemma write_loop_writes:
  assumes "body_reader rd pending"
  shows "write_loop ops rd off tot f r written = (f', r', res) \<Longrightarrow> written \<le> tot \<Longrightarrow> unat off + tot \<le> 2 ^ 32 \<Longrightarrow>
     range_of off tot \<inter> area = {} \<Longrightarrow>
     boots f' = boots f \<and> (\<forall>i. i \<notin> range_of off tot \<longrightarrow> content f' i = content f i) \<and>
     (\<forall>n. res = Inr n \<longrightarrow> n = tot \<and> tot - written \<le> length (pending r) \<and>
        (\<forall>i < tot. content f' (unat off + i) =
           (if i < written then content f (unat off + i) else pending r ! (i - written))))"
proof (induction "tot - written" arbitrary: f r written rule: less_induct)
  case less
  show ?case
  proof (cases "written < tot")
    case False
    with less.prems show ?thesis by (auto simp: write_loop.simps [of ops rd off tot])
  next
    case True
    let ?want = "min SECTOR (tot - written)"
    obtain r1 c where q: "fill_sector rd ?want r [] = (r1, c)" by (cases "fill_sector rd ?want r []")
    show ?thesis
    proof (cases c)
      case None
      with less.prems q True show ?thesis by (auto simp: write_loop.simps [of ops rd off tot f])
    next
      case (Some chunk)
      from body_reader.fill_pending [OF assms q [unfolded Some]]
      have p: "pending r = chunk @ pending r1" "length chunk \<le> tot - written" by simp_all
      show ?thesis
      proof (cases chunk)
        case Nil
        with less.prems q Some True show ?thesis by (auto simp: write_loop.simps [of ops rd off tot f])
      next
        case (Cons b bs)
        let ?at = "off + of_nat written"
        obtain f1 ok where w: "of_write ops f ?at chunk = (f1, ok)" by (cases "of_write ops f ?at chunk")
        have at: "unat ?at = unat off + written"
          using less.prems(3) True by (simp add: unat_word_ariths unat_of_nat)
        have fits: "unat ?at + length chunk \<le> 2 ^ 32" using at p(2) less.prems(3) True by simp
        have sub: "range_of ?at (length chunk) \<subseteq> range_of off tot"
          using at p(2) True by (auto simp: range_of_def)
        with less.prems(4) have dis: "range_of ?at (length chunk) \<inter> area = {}" by blast
        have frame: "boots f1 = boots f" "\<And>i. i \<notin> range_of off tot \<Longrightarrow> content f1 i = content f i"
          using write_boots [OF w fits dis] write_frame [OF w fits] sub by blast+
        show ?thesis
        proof (cases ok)
          case False
          with less.prems(1) q Some Cons True w frame show ?thesis
            by (auto simp: write_loop.simps [of ops rd off tot f])
        next
          case True
          have step: "write_loop ops rd off tot f1 r1 (written + length chunk) = (f', r', res)"
            using less.prems(1) q Some Cons True \<open>written < tot\<close> w
            by (simp add: write_loop.simps [of ops rd off tot f])
          from less.hyps [OF _ step] p(2) Cons \<open>written < tot\<close> less.prems(3,4)
          have ih: "boots f' = boots f1" "\<And>i. i \<notin> range_of off tot \<Longrightarrow> content f' i = content f1 i"
            and fin: "\<And>n. res = Inr n \<Longrightarrow> n = tot \<and> tot - (written + length chunk) \<le> length (pending r1) \<and>
              (\<forall>i < tot. content f' (unat off + i) = (if i < written + length chunk then content f1 (unat off + i)
                 else pending r1 ! (i - (written + length chunk))))"
            by auto
          have c1: "content f1 = (\<lambda>i. if i \<in> range_of ?at (length chunk) then chunk ! (i - unat ?at) else content f i)"
            using write_ok [of f ?at chunk f1] w fits True by simp
          show ?thesis
          proof (intro conjI allI impI)
            show "boots f' = boots f" using ih(1) frame(1) by simp
          next
            fix i assume "i \<notin> range_of off tot"
            then show "content f' i = content f i" using ih(2) frame(2) by simp
          next
            fix n assume "res = Inr n"
            note d = fin [OF this]
            show "n = tot" "tot - written \<le> length (pending r)" using d p by auto
            fix i assume "i < tot"
            then show "content f' (unat off + i) = (if i < written then content f (unat off + i) else pending r ! (i - written))"
              using d p(1) by (auto simp: c1 at range_of_def nth_append)
          qed
        qed
      qed
    qed
  qed
qed

end

text \<open>A body that is delivered without errors, and a flash without errors.\<close>

definition reads_on :: "'r reader \<Rightarrow> ('r \<Rightarrow> bytes) \<Rightarrow> bool" where
  "reads_on rd pending \<longleftrightarrow> (\<forall>r n. 0 < n \<longrightarrow> pending r \<noteq> [] \<longrightarrow> (\<exists>c. snd (rd r n) = Some c \<and> c \<noteq> []))"

definition flash_works :: "'f ota_flash \<Rightarrow> bool" where
  "flash_works ops \<longleftrightarrow> (\<forall>f a bs. snd (of_write ops f a bs)) \<and> (\<forall>f. of_updater ops f = Inr ()) \<and>
     (\<forall>f. snd (of_activate_next ops f) = Inr ()) \<and> (\<forall>f st. snd (of_set_state ops f st) = Inr ())"

lemma fill_complete:
  assumes "body_reader rd pending" "reads_on rd pending"
  shows "length acc \<le> want \<Longrightarrow> want - length acc \<le> length (pending r) \<Longrightarrow>
     \<exists>r' c. fill_sector rd want r acc = (r', Some c) \<and> length c = want"
proof (induction "want - length acc" arbitrary: r acc rule: less_induct)
  case less
  show ?case
  proof (cases "length acc < want")
    case True
    then have "pending r \<noteq> []" using less.prems by auto
    with True assms(2) obtain r1 b bs where q: "rd r (want - length acc) = (r1, Some (b # bs))"
      unfolding reads_on_def
      by (metis list.exhaust prod.collapse zero_less_diff)
    note c = body_reader.read_chunk [OF assms(1) q]
    have "fill_sector rd want r acc = fill_sector rd want r1 (acc @ b # bs)"
      using q True by (simp add: fill_sector.simps [of rd want r])
    with less.hyps [of "acc @ b # bs" r1] less.prems c True show ?thesis by auto
  next
    case False
    with less.prems show ?thesis by (simp add: fill_sector.simps [of rd want r])
  qed
qed

lemma write_loop_complete:
  assumes "body_reader rd pending" "reads_on rd pending" "flash_works ops"
  shows "written \<le> tot \<Longrightarrow> tot - written \<le> length (pending r) \<Longrightarrow>
     \<exists>f' r'. write_loop ops rd off tot f r written = (f', r', Inr tot)"
proof (induction "tot - written" arbitrary: f r written rule: less_induct)
  case less
  show ?case
  proof (cases "written < tot")
    case True
    let ?want = "min SECTOR (tot - written)"
    from fill_complete [OF assms(1,2), of "[]" ?want r] less.prems obtain r1 c where
      q: "fill_sector rd ?want r [] = (r1, Some c)" "length c = ?want"
      by (auto simp: min_le_iff_disj)
    with True obtain b bs where c: "c = b # bs" by (cases c) (auto simp: SECTOR_def)
    obtain f1 where w: "of_write ops f (off + of_nat written) c = (f1, True)"
      using assms(3) unfolding flash_works_def by (metis prod.collapse)
    have "write_loop ops rd off tot f r written = write_loop ops rd off tot f1 r1 (written + length c)"
      using q(1) c True w by (simp add: write_loop.simps [of ops rd off tot f])
    moreover have len: "length (pending r1) = length (pending r) - length c"
      using body_reader.fill_pending [OF assms(1) q(1)] by simp
    have n: "0 < length c" by (simp add: c)
    have "length c \<le> tot - written" using q(2) by simp
    note n = n this
    have "\<exists>f' r'. write_loop ops rd off tot f1 r1 (written + length c) = (f', r', Inr tot)"
      using n True less.prems(2) len by (intro less.hyps) linarith+
    ultimately show ?thesis by simp
  next
    case False
    with less.prems show ?thesis by (simp add: write_loop.simps [of ops rd off tot])
  qed
qed

lemma activate_works:
  assumes "flash_works ops"
  shows "\<exists>f'. activate_inactive_slot ops f = (f', Inr ())"
proof -
  obtain f1 where f1: "of_activate_next ops f = (f1, Inr ())"
    using assms unfolding flash_works_def by (metis prod.collapse)
  obtain f2 where "of_set_state ops f1 ImgNew = (f2, Inr ())"
    using assms unfolding flash_works_def by (metis prod.collapse)
  with f1 assms show ?thesis by (simp add: activate_inactive_slot_def flash_works_def)
qed

lemma upload_completes:
  assumes "body_reader rd pending" "reads_on rd pending" "flash_works ops"
    and "inactive_slot ops f = Inr (off, len)" "MIN_IMAGE \<le> tot" "tot \<le> len" "unat tot \<le> length (pending r)"
  shows "snd (write_image ops rd tot f r) =
    (\<lparr>or_ok = True, or_detail = show_nat (unat tot) @ '' bytes, rebooting''\<rparr>, True)"
proof -
  from write_loop_complete [OF assms(1,2,3), of 0 "unat tot" r off f] assms(7) obtain f1 r1 where
    w: "write_loop ops rd off (unat tot) f r 0 = (f1, r1, Inr (unat tot))" by auto
  from activate_works [OF assms(3), of f1] obtain f2 where "activate_inactive_slot ops f1 = (f2, Inr ())" ..
  with w assms(4,5,6) show ?thesis by (simp add: write_image_def not_less)
qed

section \<open>Properties\<close>

text \<open>C34. An upload to the no_std firmware changes nothing but the inactive slot and the boot metadata. It
  requests a reboot exactly if it reports success, and then the slot holds exactly the image, byte for
  byte; an upload whose body ends early never requests one and never changes what boots.\<close>

theorem ota_upload_safe:
  assumes "body_reader rd pending" "slot_flash ops content boots area"
    and "inactive_slot ops f = Inr (off, len)" "unat off + unat len \<le> 2 ^ 32" "range_of off (unat len) \<inter> area = {}"
    and "write_image ops rd tot f r = (f', report, reboot)"
  shows "reboot = or_ok report \<and>
    (\<forall>i. i \<notin> range_of off (unat len) \<union> area \<longrightarrow> content f' i = content f i) \<and>
    (reboot \<longrightarrow> unat tot \<le> length (pending r) \<and> (\<forall>i < unat tot. content f' (unat off + i) = pending r ! i)) \<and>
    (length (pending r) < unat tot \<longrightarrow> \<not> reboot \<and> boots f' = boots f)"
proof (cases "tot < MIN_IMAGE \<or> len < tot")
  case True
  with assms(3,6) show ?thesis by (auto simp: write_image_def report_err_def split: if_splits)
next
  case False
  then have le: "unat tot \<le> unat len" by (simp add: word_less_nat_alt)
  obtain f1 r1 res where w: "write_loop ops rd off (unat tot) f r 0 = (f1, r1, res)"
    by (cases "write_loop ops rd off (unat tot) f r 0")
  have sub: "range_of off (unat tot) \<subseteq> range_of off (unat len)" using le by (auto simp: range_of_def)
  have "boots f1 = boots f \<and> (\<forall>i. i \<notin> range_of off (unat tot) \<longrightarrow> content f1 i = content f i) \<and>
     (\<forall>n. res = Inr n \<longrightarrow> n = unat tot \<and> unat tot \<le> length (pending r) \<and>
        (\<forall>i < unat tot. content f1 (unat off + i) = pending r ! i))"
    using slot_flash.write_loop_writes [OF assms(2,1) w] assms(4,5) le sub by auto
  then have l: "boots f1 = boots f" "\<And>i. i \<notin> range_of off (unat tot) \<Longrightarrow> content f1 i = content f i"
    "\<And>n. res = Inr n \<Longrightarrow> unat tot \<le> length (pending r) \<and> (\<forall>i < unat tot. content f1 (unat off + i) = pending r ! i)"
    by blast+
  have outside: "i \<notin> range_of off (unat len) \<Longrightarrow> content f1 i = content f i" for i
    using l(2) sub by blast
  have keep: "i \<notin> area \<Longrightarrow> content (fst (activate_inactive_slot ops f1)) i = content f1 i" for i
    using slot_flash.activate_frame [OF assms(2)] .
  have inside: "i < unat tot \<Longrightarrow> unat off + i \<notin> area" for i
  proof -
    assume "i < unat tot"
    then have "unat off + i \<in> range_of off (unat len)" using le by (simp add: range_of_def)
    with assms(5) show ?thesis by blast
  qed
  show ?thesis
  proof (cases res)
    case (Inl msg)
    with assms(3,6) False w l(1) outside show ?thesis by (auto simp: write_image_def report_err_def)
  next
    case (Inr n)
    obtain f2 ar where a: "activate_inactive_slot ops f1 = (f2, ar)" by (cases "activate_inactive_slot ops f1")
    have "f' = f2" "reboot = or_ok report"
      using assms(3,6) False w Inr a by (auto simp: write_image_def report_err_def split: sum.splits)
    with l(3) [OF Inr] outside keep inside a show ?thesis by auto
  qed
qed

text \<open>C35. Such an upload succeeds: if the body holds at least the announced number of bytes, the announced
  size is between 64 KiB and the size of the slot, and reader and flash report no error, then the receiver
  answers ok and requests the reboot.\<close>

theorem ota_upload_succeeds:
  assumes "body_reader rd pending" "reads_on rd pending" "flash_works ops"
    and "inactive_slot ops f = Inr (off, len)" "MIN_IMAGE \<le> tot" "tot \<le> len" "unat tot \<le> length (pending r)"
  shows "snd (write_image ops rd tot f r) =
    (\<lparr>or_ok = True, or_detail = show_nat (unat tot) @ '' bytes, rebooting''\<rparr>, True)"
  by (rule upload_completes [OF assms])

section \<open>A simulated flash\<close>

definition ab_slots :: "partition list" where
  "ab_slots = [\<lparr>pa_app = None, pa_offset = 0x9000, pa_len = 0x6000\<rparr>,
     \<lparr>pa_app = Some (SlotOta 0), pa_offset = 0x20000, pa_len = 0x1F0000\<rparr>,
     \<lparr>pa_app = Some (SlotOta 1), pa_offset = 0x210000, pa_len = 0x1F0000\<rparr>]"

definition ram_ota :: "((nat \<Rightarrow> u8) \<times> nat) ota_flash" where
  "ram_ota = \<lparr>of_table = (\<lambda>_. Inr ab_slots), of_booted = (\<lambda>_ pt. Inr (Some (pt ! 1))),
     of_write = (\<lambda>(mem, b) a bs. ((\<lambda>i. if i \<in> range_of a (length bs) then bs ! (i - unat a) else mem i, b), True)),
     of_updater = (\<lambda>_. Inr ()), of_activate_next = (\<lambda>(mem, b). ((mem, 1 - b), Inr ())),
     of_set_state = (\<lambda>f _. (f, Inr ()))\<rparr>"

definition list_reader :: "bytes reader" where
  "list_reader r n = (drop n r, Some (take n r))"

interpretation ram_slots: slot_flash ram_ota fst snd "{}"
  by unfold_locales (auto simp: ram_ota_def)

interpretation list_body: body_reader list_reader "\<lambda>r. r"
  by unfold_locales (auto simp: list_reader_def)

lemma ram_slot_flash: "slot_flash ram_ota fst snd {}"
  by (rule ram_slots.slot_flash_axioms)

lemma list_body_reader: "body_reader list_reader (\<lambda>r. r)"
  by (rule list_body.body_reader_axioms)

lemma ram_inactive: "inactive_slot ram_ota f = Inr (0x210000, 0x1F0000)"
  by (simp add: inactive_slot_def ram_ota_def ab_slots_def)

lemma ota_upload_succeeds_witness:
  "snd (write_image ram_ota list_reader 70000 (\<lambda>_. 255, 0) (replicate 80000 7)) =
    (\<lparr>or_ok = True, or_detail = show_nat (unat (70000 :: u32)) @ '' bytes, rebooting''\<rparr>, True)"
  by (rule ota_upload_succeeds [OF list_body_reader _ _ ram_inactive])
    (auto simp: reads_on_def list_reader_def flash_works_def ram_ota_def MIN_IMAGE_def)

lemma ota_upload_safe_witness:
  "snd (snd (write_image ram_ota list_reader 70000 (\<lambda>_. 255, 0) (replicate 80000 7))) \<and>
   fst (fst (write_image ram_ota list_reader 70000 (\<lambda>_. 255, 0) (replicate 80000 7))) (0x210000 + 69999) = 7 \<and>
   fst (fst (write_image ram_ota list_reader 70000 (\<lambda>_. 255, 0) (replicate 80000 7))) 0 = 255"
proof -
  obtain f' report reboot where
    w: "write_image ram_ota list_reader 70000 (\<lambda>_. 255, 0) (replicate 80000 7) = (f', report, reboot)"
    by (cases "write_image ram_ota list_reader 70000 (\<lambda>_. 255, 0) (replicate 80000 7)")
  have "snd (write_image ram_ota list_reader 70000 (\<lambda>_. 255, 0) (replicate 80000 7)) =
      (\<lparr>or_ok = True, or_detail = show_nat (unat (70000 :: u32)) @ '' bytes, rebooting''\<rparr>, True)"
    by (rule upload_completes [OF list_body_reader _ _ ram_inactive])
      (auto simp: reads_on_def list_reader_def flash_works_def ram_ota_def MIN_IMAGE_def)
  then have "reboot" using w by simp
  moreover from ota_upload_safe [OF list_body_reader ram_slot_flash ram_inactive _ _ w]
  have "(reboot \<longrightarrow> fst f' (0x210000 + 69999) = 7) \<and>
      (\<forall>i. i \<notin> range_of 0x210000 0x1F0000 \<longrightarrow> fst f' i = 255)"
    by (auto dest: spec [where x = "69999 :: nat"])
  ultimately have "reboot" "fst f' (0x210000 + 69999) = 7" "fst f' 0 = 255"
    by (simp_all add: range_of_def)
  then show ?thesis using w by simp
qed

end
