(* ===== verification/Webhook_Delivery.thy ===== *)
theory Webhook_Delivery
  imports App Flash_Kv "HOL-Library.Monad_Syntax" "HOL-Library.Sublist"
begin

text \<open>
  Delivery of webhook events: the bounded queue between the application and the delivery task, the
  selection of subscribers, and the HTTP requests, in the no_std firmware (\<open>firmware-nostd/webhook.rs\<close>,
  which writes the request itself), the ESP-IDF firmware (\<open>firmware/webhook_dispatch.rs\<close>) and the host
  (\<open>host/webhook_dispatch.rs\<close>), whose HTTP clients are arguments. Log lines are left out. White space is
  that of ASCII.
\<close>

section \<open>The queue\<close>

definition NOSTD_QUEUE_CAP :: nat where "NOSTD_QUEUE_CAP = 8"
definition ESP_QUEUE_CAP :: nat where "ESP_QUEUE_CAP = 16"
definition HOST_QUEUE_CAP :: nat where "HOST_QUEUE_CAP = 16"

text \<open>\<open>queue_send\<close> on a channel of bounded capacity.\<close>

definition queue_send :: "nat \<Rightarrow> 'e list \<Rightarrow> 'e \<Rightarrow> 'e list \<times> bool" where
  "queue_send cap q ev = (if length q < cap then (q @ [ev], True) else (q, False))"

definition nostd_dispatch :: "webhook_event list \<Rightarrow> webhook_event \<Rightarrow> webhook_event list" where
  "nostd_dispatch q event = fst (queue_send NOSTD_QUEUE_CAP q event)"

definition esp_dispatch :: "webhook_event list \<Rightarrow> webhook_event \<Rightarrow> webhook_event list" where
  "esp_dispatch q event = fst (queue_send ESP_QUEUE_CAP q event)"

definition host_dispatch :: "webhook_event list \<Rightarrow> webhook_event \<Rightarrow> webhook_event list" where
  "host_dispatch q event = fst (queue_send HOST_QUEUE_CAP q event)"

section \<open>Handling an event\<close>

definition subscribers :: "config \<Rightarrow> event_kind \<Rightarrow> webhook_config list" where
  "subscribers cfg kind = filter (\<lambda>w. wh_enabled w \<and> list_ex (\<lambda>e. e = kind) (wh_events w)) (cf_webhooks cfg)"

text \<open>\<open>deliver\<close> performs one request on the network \<open>'n\<close>; the outcomes are what the code logs.\<close>

type_synonym 'n delivery = "webhook_config \<Rightarrow> string \<Rightarrow> 'n \<Rightarrow> 'n \<times> (string + u16)"

fun deliver_all :: "'n delivery \<Rightarrow> webhook_event \<Rightarrow> webhook_config list \<Rightarrow> 'n \<Rightarrow> 'n \<times> (string + u16) list" where
  "deliver_all deliver ev [] n = (n, [])"
| "deliver_all deliver ev (wh # subs) n =
    (let body = render_template (wh_body_template wh) (we_vars ev);
         (n, out) = deliver wh body n;
         (n, outs) = deliver_all deliver ev subs n
     in (n, out # outs))"

definition handle_event :: "'n delivery \<Rightarrow> config \<Rightarrow> webhook_event \<Rightarrow> 'n \<Rightarrow> 'n \<times> (string + u16) list" where
  "handle_event deliver cfg event n =
    (let subs = subscribers cfg (we_kind event) in
     if subs = [] then (n, []) else deliver_all deliver event subs n)"

section \<open>The request of the no_std firmware\<close>

record url_parts =
  ur_https :: bool
  ur_host :: string
  ur_port :: u16
  ur_path :: string

definition rsplit_once :: "char \<Rightarrow> string \<Rightarrow> (string \<times> string) option" where
  "rsplit_once c s = map_option (\<lambda>(a, b). (rev b, rev a)) (split_once c (rev s))"

definition parse_url :: "string \<Rightarrow> url_parts option" where
  "parse_url url = do {
     (https, rest) \<leftarrow> (case strip_pre ''https://'' url of
         Some r \<Rightarrow> Some (True, r)
       | None \<Rightarrow> map_option (Pair False) (strip_pre ''http://'' url));
     let (authority, path) = (if CHR ''/'' \<in> set rest
       then (takeWhile (\<lambda>c. c \<noteq> CHR ''/'') rest, dropWhile (\<lambda>c. c \<noteq> CHR ''/'') rest) else (rest, ''/''));
     (host, port) \<leftarrow> (case rsplit_once (CHR '':'') authority of
         Some (h, p) \<Rightarrow> map_option (Pair h) (parse_u16 p)
       | None \<Rightarrow> Some (authority, if https then 443 else 80));
     if host = [] then None
     else Some \<lparr>ur_https = https, ur_host = host, ur_port = port, ur_path = path\<rparr>
   }"

fun ipv4_parts :: "string list \<Rightarrow> bytes \<Rightarrow> bytes option" where
  "ipv4_parts [] octets = (if length octets \<noteq> 4 then None else Some octets)"
| "ipv4_parts (part # parts) octets =
    (if length octets = 4 then None
     else case parse_u8 part of None \<Rightarrow> None | Some b \<Rightarrow> ipv4_parts parts (octets @ [b]))"

definition parse_ipv4 :: "string \<Rightarrow> bytes option" where
  "parse_ipv4 s = ipv4_parts (split_char (CHR ''.'') s) []"

definition CRLF :: string where "CRLF = [CHR 0x0D, CHR 0x0A]"

text \<open>The length is formatted into a buffer of ten bytes; what does not fit is not written.\<close>

definition content_length_text :: "string \<Rightarrow> string" where
  "content_length_text body = (let s = show_nat (length body) in if length s \<le> 10 then s else [])"

definition build_request :: "webhook_config \<Rightarrow> url_parts \<Rightarrow> string \<Rightarrow> string" where
  "build_request wh url body =
    (let meth = (if eq_ignore_case (wh_method wh) ''put'' then ''PUT'' else ''POST'');
         req = meth @ '' '' @ ur_path url @ '' HTTP/1.1'' @ CRLF @ ''Host: '' @ ur_host url @ CRLF;
         (req, has_content_type) = foldl (\<lambda>(req, has) h.
           (req @ hdr_name h @ '': '' @ hdr_value h @ CRLF, has \<or> eq_ignore_case (hdr_name h) ''content-type''))
           (req, False) (wh_headers wh);
         req = (if \<not> has_content_type then req @ ''Content-Type: application/json'' @ CRLF else req)
     in req @ ''Content-Length: '' @ content_length_text body @ CRLF @ ''Connection: close'' @ CRLF @ CRLF @ body)"

datatype net_read = NrBytes bytes | NrError | NrTimeout

text \<open>The network stack: \<open>nt_write\<close> is \<open>write_all\<close>, \<open>nt_read\<close> takes the size of the buffer and is raced
  with a timer; \<open>nt_tls\<close> is the TLS handshake for a server name.\<close>

record 'n net_ops =
  nt_dns :: "'n \<Rightarrow> string \<Rightarrow> 'n \<times> bytes list option"
  nt_connect :: "'n \<Rightarrow> bytes \<Rightarrow> u16 \<Rightarrow> 'n \<times> bool"
  nt_tls :: "'n \<Rightarrow> string \<Rightarrow> 'n \<times> bool"
  nt_write :: "'n \<Rightarrow> string \<Rightarrow> 'n \<times> bool"
  nt_flush :: "'n \<Rightarrow> 'n \<times> bool"
  nt_read :: "'n \<Rightarrow> nat \<Rightarrow> 'n \<times> net_read"
  nt_close :: "'n \<Rightarrow> 'n"

definition resolve :: "'n net_ops \<Rightarrow> string \<Rightarrow> 'n \<Rightarrow> 'n \<times> bytes option" where
  "resolve ops host n =
    (case parse_ipv4 host of
       Some ip \<Rightarrow> (n, Some ip)
     | None \<Rightarrow> (case nt_dns ops n host of
         (n, Some (ip # ips)) \<Rightarrow> (n, Some ip)
       | (n, _) \<Rightarrow> (n, None)))"

definition read_status :: "'n net_ops \<Rightarrow> 'n \<Rightarrow> 'n \<times> (string + u16)" where
  "read_status ops n =
    (let (n, r) = nt_read ops n 64 in
     (n, case r of
        NrTimeout \<Rightarrow> Inl ''timeout''
      | NrError \<Rightarrow> Inl ''read''
      | NrBytes bs \<Rightarrow> (case from_utf8 bs of
          None \<Rightarrow> Inl ''non-utf8''
        | Some line \<Rightarrow> (case split_whitespace line of
            _ # s # _ \<Rightarrow> (case parse_u16 s of Some st \<Rightarrow> Inr st | None \<Rightarrow> Inl ''no status'')
          | _ \<Rightarrow> Inl ''no status''))))"

definition deliver_https :: "'n net_ops \<Rightarrow> webhook_config \<Rightarrow> url_parts \<Rightarrow> string \<Rightarrow> 'n \<Rightarrow> 'n \<times> (string + u16)" where
  "deliver_https ops wh url body n =
    (case resolve ops (ur_host url) n of
       (n, None) \<Rightarrow> (n, Inl ''dns'')
     | (n, Some ip) \<Rightarrow> (case nt_connect ops n ip (ur_port url) of
         (n, False) \<Rightarrow> (n, Inl ''connect'')
       | (n, True) \<Rightarrow> (case nt_tls ops n (ur_host url) of
           (n, False) \<Rightarrow> (n, Inl ''tls handshake'')
         | (n, True) \<Rightarrow> (case nt_write ops n (build_request wh url body) of
             (n, False) \<Rightarrow> (n, Inl ''tls write'')
           | (n, True) \<Rightarrow> (case nt_flush ops n of
               (n, False) \<Rightarrow> (n, Inl ''tls flush'')
             | (n, True) \<Rightarrow> (let (n, status) = read_status ops n in (nt_close ops n, status)))))))"

text \<open>\<open>tls\<close> is the build feature.\<close>

definition nostd_deliver :: "'n net_ops \<Rightarrow> bool \<Rightarrow> 'n delivery" where
  "nostd_deliver ops tls wh body n =
    (case parse_url (wh_url wh) of
       None \<Rightarrow> (n, Inl ''bad url'')
     | Some url \<Rightarrow>
         if ur_https url then
           (if tls then deliver_https ops wh url body n
            else (n, Inl ''https requires the `tls` feature''))
         else (case resolve ops (ur_host url) n of
           (n, None) \<Rightarrow> (n, Inl ''dns'')
         | (n, Some ip) \<Rightarrow> (case nt_connect ops n ip (ur_port url) of
             (n, False) \<Rightarrow> (n, Inl ''connect'')
           | (n, True) \<Rightarrow> (case nt_write ops n (build_request wh url body) of
               (n, False) \<Rightarrow> (n, Inl ''write'')
             | (n, True) \<Rightarrow> (case nt_flush ops n of
                 (n, False) \<Rightarrow> (n, Inl ''flush'')
               | (n, True) \<Rightarrow> read_status ops n)))))"

section \<open>Random numbers for the handshake\<close>

text \<open>\<open>EspRng\<close> over the hardware generator, a function from its state to a new state and a word.\<close>

definition rng_next_u64 :: "('r \<Rightarrow> 'r \<times> u32) \<Rightarrow> 'r \<Rightarrow> 'r \<times> u64" where
  "rng_next_u64 rnd r = (let (r, hi) = rnd r; (r, lo) = rnd r in (r, or (push_bit 32 (ucast hi)) (ucast lo)))"

function rng_fill_bytes :: "('r \<Rightarrow> 'r \<times> u32) \<Rightarrow> nat \<Rightarrow> 'r \<Rightarrow> 'r \<times> bytes" where
  "rng_fill_bytes rnd n r =
    (if n = 0 then (r, [])
     else let (r, w) = rnd r; chunk = take (min n 4) (le_of_u32 w);
              (r, rest) = rng_fill_bytes rnd (n - 4) r
          in (r, chunk @ rest))"
  by pat_completeness auto
termination by (relation "measure (\<lambda>(_, n, _). n)") auto

declare rng_fill_bytes.simps [simp del]

section \<open>The requests of the ESP-IDF firmware and the host\<close>

definition char_upper :: "char \<Rightarrow> char" where
  "char_upper c = (let n = of_char c :: nat in if 97 \<le> n \<and> n \<le> 122 then char_of (n - 32) else c)"

definition to_upper :: "string \<Rightarrow> string" where
  "to_upper s = map char_upper s"

datatype http_method = MPut | MPost

record 'n esp_client =
  ec_new :: "bool \<Rightarrow> 'n \<Rightarrow> 'n \<times> (string + unit)"
  ec_request :: "http_method \<Rightarrow> string \<Rightarrow> (string \<times> string) list \<Rightarrow> 'n \<Rightarrow> 'n \<times> (string + unit)"
  ec_write :: "string \<Rightarrow> 'n \<Rightarrow> 'n \<times> (string + unit)"
  ec_response :: "'n \<Rightarrow> 'n \<times> (string + unit)"
  ec_status :: "'n \<Rightarrow> u16"
  ec_drain :: "nat \<Rightarrow> 'n \<Rightarrow> 'n"

definition request_headers :: "webhook_config \<Rightarrow> (string \<times> string) list" where
  "request_headers wh =
    (let (refs, has_content_type) = foldl (\<lambda>(refs, has) h.
       (refs @ [(hdr_name h, hdr_value h)], has \<or> eq_ignore_case (hdr_name h) ''content-type'')) ([], False) (wh_headers wh)
     in if \<not> has_content_type then refs @ [(''Content-Type'', ''application/json'')] else refs)"

definition esp_post :: "'n esp_client \<Rightarrow> 'n delivery" where
  "esp_post cl wh body n =
    (let is_https = starts_with (wh_url wh) ''https://'' in
     case ec_new cl is_https n of
       (n, Inl e) \<Rightarrow> (n, Inl (''conn: '' @ e))
     | (n, Inr _) \<Rightarrow>
       (let m = to_upper (wh_method wh) in
        case (if m = ''PUT'' then Some MPut else if m = ''POST'' then Some MPost else None) of
          None \<Rightarrow> (n, Inl (''unsupported method '' @ m))
        | Some meth \<Rightarrow>
          (let headers = request_headers wh @ [(''Content-Length'', show_nat (length body))] in
           case ec_request cl meth (wh_url wh) headers n of
             (n, Inl e) \<Rightarrow> (n, Inl (''initiate: '' @ e))
           | (n, Inr _) \<Rightarrow> (case ec_write cl body n of
               (n, Inl e) \<Rightarrow> (n, Inl (''write: '' @ e))
             | (n, Inr _) \<Rightarrow> (case ec_response cl n of
                 (n, Inl e) \<Rightarrow> (n, Inl (''submit: '' @ e))
               | (n, Inr _) \<Rightarrow> (let status = ec_status cl n in (ec_drain cl 256 n, Inr status)))))))"

datatype ureq_result = UrOk u16 | UrStatus u16 | UrErr string

definition host_post :: "(http_method \<Rightarrow> string \<Rightarrow> (string \<times> string) list \<Rightarrow> string \<Rightarrow> 'n \<Rightarrow> 'n \<times> ureq_result) \<Rightarrow> 'n delivery" where
  "host_post send wh body n =
    (let m = to_upper (wh_method wh) in
     case (if m = ''POST'' then Some MPost else if m = ''PUT'' then Some MPut else None) of
       None \<Rightarrow> (n, Inl (''unsupported method '' @ m))
     | Some meth \<Rightarrow> (case send meth (wh_url wh) (request_headers wh) body n of
         (n, UrOk st) \<Rightarrow> (n, Inr st)
       | (n, UrStatus code) \<Rightarrow> (n, Inr code)
       | (n, UrErr e) \<Rightarrow> (n, Inl e)))"

definition nostd_handle_event :: "'n net_ops \<Rightarrow> bool \<Rightarrow> config \<Rightarrow> webhook_event \<Rightarrow> 'n \<Rightarrow> 'n \<times> (string + u16) list" where
  "nostd_handle_event ops tls = handle_event (nostd_deliver ops tls)"

definition esp_handle_event :: "'n esp_client \<Rightarrow> config \<Rightarrow> webhook_event \<Rightarrow> 'n \<Rightarrow> 'n \<times> (string + u16) list" where
  "esp_handle_event cl = handle_event (esp_post cl)"

definition host_handle_event ::
    "(http_method \<Rightarrow> string \<Rightarrow> (string \<times> string) list \<Rightarrow> string \<Rightarrow> 'n \<Rightarrow> 'n \<times> ureq_result) \<Rightarrow> config \<Rightarrow> webhook_event \<Rightarrow>
     'n \<Rightarrow> 'n \<times> (string + u16) list" where
  "host_handle_event send = handle_event (host_post send)"

section \<open>Lemmas\<close>

text \<open>The buffer is filled, with one word for every four bytes or part of them.\<close>

lemma rng_fill_bytes_spec:
  "length (snd (rng_fill_bytes rnd n r)) = n"
  "fst (rng_fill_bytes rnd n r) = ((\<lambda>r. fst (rnd r)) ^^ ((n + 3) div 4)) r"
proof (induction rnd n r rule: rng_fill_bytes.induct)
  case (1 rnd n r)
  show "length (snd (rng_fill_bytes rnd n r)) = n"
  proof (cases "n = 0")
    case False
    with 1(1) [OF False surjective_pairing [of "rnd r", symmetric] refl] show ?thesis
      by (subst rng_fill_bytes.simps) (auto simp: case_prod_beta Let_def)
  qed (simp add: rng_fill_bytes.simps)
  show "fst (rng_fill_bytes rnd n r) = ((\<lambda>r. fst (rnd r)) ^^ ((n + 3) div 4)) r"
  proof (cases "n = 0")
    case False
    then have "(n + 3) div 4 = Suc ((n - 4 + 3) div 4)" by (cases "n < 4") (auto simp: div_le_dividend)
    with False 1(2) [OF False surjective_pairing [of "rnd r", symmetric] refl] show ?thesis
      by (subst rng_fill_bytes.simps) (auto simp: case_prod_beta Let_def funpow_Suc_right simp del: funpow.simps(2))
  qed (simp add: rng_fill_bytes.simps)
qed

text \<open>A reader of requests: the lines up to the first empty one, and what follows.\<close>

lemma split_once_str_shorter: "split_once_str p s = Some (l, r) \<Longrightarrow> p \<noteq> [] \<Longrightarrow> length r < length s"
proof (induction s arbitrary: l)
  case (Cons x xs)
  then show ?case
    by (auto split: option.splits dest: strip_pre_length)
qed simp

function read_head :: "string \<Rightarrow> (string list \<times> string) option" where
  "read_head s =
    (case split_once_str CRLF s of
       None \<Rightarrow> None
     | Some (l, rest) \<Rightarrow>
         if l = [] then Some ([], rest) else map_option (\<lambda>(ls, b). (l # ls, b)) (read_head rest))"
  by pat_completeness auto
termination
  by (relation "measure length") (auto simp: CRLF_def dest!: split_once_str_shorter)

declare read_head.simps [simp del]

definition clean :: "string \<Rightarrow> bool" where
  "clean s \<longleftrightarrow> CHR 0x0D \<notin> set s"

lemma clean_simps [simp]: "clean []" "clean (c # s) \<longleftrightarrow> c \<noteq> CHR 0x0D \<and> clean s" "clean (s @ t) \<longleftrightarrow> clean s \<and> clean t"
  by (auto simp: clean_def)

lemma split_line: "clean l \<Longrightarrow> split_once_str CRLF (l @ CRLF @ r) = Some (l, r)"
  by (induction l) (auto simp: CRLF_def)

lemma read_head_lines:
  "list_all (\<lambda>l. clean l \<and> l \<noteq> []) ls \<Longrightarrow>
     read_head (concat (map (\<lambda>l. l @ CRLF) ls) @ CRLF @ body) = Some (ls, body)"
proof (induction ls)
  case Nil
  then show ?case using split_line [of "[]" body] by (simp add: read_head.simps [of "CRLF @ body"])
next
  case (Cons l ls)
  let ?rest = "concat (map (\<lambda>l. l @ CRLF) ls) @ CRLF @ body"
  have "split_once_str CRLF (l @ CRLF @ ?rest) = Some (l, ?rest)"
    using Cons.prems by (intro split_line) simp
  then show ?case using Cons by (simp add: read_head.simps [of "l @ CRLF @ ?rest"])
qed

definition header_line :: "header_entry \<Rightarrow> string" where
  "header_line h = hdr_name h @ '': '' @ hdr_value h"

definition names_content_type :: "header_entry \<Rightarrow> bool" where
  "names_content_type h = eq_ignore_case (hdr_name h) ''content-type''"

lemma header_fold:
  "foldl (\<lambda>(req, has) h. (req @ hdr_name h @ '': '' @ hdr_value h @ CRLF, has \<or> eq_ignore_case (hdr_name h) ''content-type''))
     (req, has) hs = (req @ concat (map (\<lambda>l. l @ CRLF) (map header_line hs)), has \<or> list_ex names_content_type hs)"
  by (induction hs arbitrary: req has) (auto simp: header_line_def names_content_type_def)

lemma show_nat_clean [simp]: "clean (show_nat n)"
  using show_nat_digits [of n] by (auto simp: clean_def list_all_iff is_digit_def)

definition request_lines :: "webhook_config \<Rightarrow> url_parts \<Rightarrow> string \<Rightarrow> string list" where
  "request_lines wh url body =
    ((if eq_ignore_case (wh_method wh) ''put'' then ''PUT'' else ''POST'') @ '' '' @ ur_path url @ '' HTTP/1.1'') #
    (''Host: '' @ ur_host url) # map header_line (wh_headers wh) @
    (if list_ex names_content_type (wh_headers wh) then [] else [''Content-Type: application/json'']) @
    [''Content-Length: '' @ show_nat (length body), ''Connection: close'']"

lemma build_request_lines:
  "length body < 10 ^ 10 \<Longrightarrow>
     build_request wh url body = concat (map (\<lambda>l. l @ CRLF) (request_lines wh url body)) @ CRLF @ body"
  using length_show_nat [of "length body" 10]
  unfolding build_request_def content_length_text_def request_lines_def Let_def header_fold prod.case
  by simp

text \<open>The queue over a run: events sent, and passes of the delivery task.\<close>

datatype queue_op = QSend webhook_event | QTake

fun queue_step :: "(webhook_event list \<Rightarrow> webhook_event \<Rightarrow> webhook_event list) \<Rightarrow>
    webhook_event list \<times> webhook_event list \<Rightarrow> queue_op \<Rightarrow> webhook_event list \<times> webhook_event list" where
  "queue_step dispatch (q, d) (QSend e) = (dispatch q e, d)"
| "queue_step dispatch (q, d) QTake = (case q of [] \<Rightarrow> (q, d) | e # q \<Rightarrow> (q, d @ [e]))"

fun sent :: "queue_op list \<Rightarrow> webhook_event list" where
  "sent [] = []"
| "sent (QSend e # ops) = e # sent ops"
| "sent (QTake # ops) = sent ops"

text \<open>No event is sent while \<open>cap\<close> events wait.\<close>

fun keeps_up :: "nat \<Rightarrow> nat \<Rightarrow> queue_op list \<Rightarrow> bool" where
  "keeps_up cap k [] = True"
| "keeps_up cap k (QSend e # ops) = (k < cap \<and> keeps_up cap (k + 1) ops)"
| "keeps_up cap k (QTake # ops) = keeps_up cap (k - 1) ops"

lemma queue_run:
  "\<forall>q e. dispatch q e = fst (queue_send cap q e) \<Longrightarrow> length q \<le> cap \<Longrightarrow>
     \<exists>q' d'. foldl (queue_step dispatch) (q, d) ops = (q', d') \<and> length q' \<le> cap \<and>
       (\<exists>new. d' @ q' = d @ q @ new \<and> subseq new (sent ops) \<and> (keeps_up cap (length q) ops \<longrightarrow> new = sent ops))"
proof (induction ops arbitrary: q d)
  case (Cons x ops)
  show ?case
  proof (cases x)
    case (QSend e)
    show ?thesis
    proof (cases "length q < cap")
      case True
      with Cons.IH [of "q @ [e]" d] Cons.prems QSend show ?thesis
        by (auto simp: queue_send_def)
    next
      case False
      then have "queue_step dispatch (q, d) x = (q, d)" using Cons.prems QSend by (simp add: queue_send_def)
      with Cons.IH [OF Cons.prems, of d] False QSend show ?thesis by (auto intro: list_emb_Cons)
    qed
  next
    case QTake
    with Cons.IH [of "tl q" "d @ take 1 q"] Cons.prems show ?thesis
      by (cases q) (auto simp: QTake)
  qed
qed simp

text \<open>URLs.\<close>

lemma no_split: "c \<notin> set s \<Longrightarrow> split_once c s = None"
  by (induction s) auto

lemma split_first: "c \<notin> set a \<Longrightarrow> split_once c (a @ c # b) = Some (a, b)"
  by (induction a) auto

lemma rsplit_last: "c \<notin> set b \<Longrightarrow> rsplit_once c (a @ c # b) = Some (a, b)"
  using split_first [of c "rev b" "rev a"] by (simp add: rsplit_once_def)

lemma rsplit_none: "c \<notin> set s \<Longrightarrow> rsplit_once c s = None"
  by (simp add: rsplit_once_def no_split)

lemma digits_no_char: "\<not> is_digit c \<Longrightarrow> c \<notin> set (show_nat n)"
  using show_nat_digits [of n] by (auto simp: list_all_iff)

lemma authority_path:
  assumes "CHR ''/'' \<notin> set a" "path = [] \<or> hd path = CHR ''/''"
  shows "(if CHR ''/'' \<in> set (a @ path)
     then (takeWhile (\<lambda>c. c \<noteq> CHR ''/'') (a @ path), dropWhile (\<lambda>c. c \<noteq> CHR ''/'') (a @ path)) else (a @ path, ''/'')) =
     (a, if path = [] then ''/'' else path)"
proof (cases path)
  case (Cons c p)
  with assms have "c = CHR ''/''" "takeWhile (\<lambda>c. c \<noteq> CHR ''/'') a = a" "dropWhile (\<lambda>c. c \<noteq> CHR ''/'') a = []"
    by (auto simp: takeWhile_eq_all_conv)
  then show ?thesis using Cons assms(1) by (simp add: takeWhile_append dropWhile_append)
qed (use assms in simp)

definition parse_rest :: "bool \<Rightarrow> string \<Rightarrow> url_parts option" where
  "parse_rest https rest = do {
     let (authority, path) = (if CHR ''/'' \<in> set rest
       then (takeWhile (\<lambda>c. c \<noteq> CHR ''/'') rest, dropWhile (\<lambda>c. c \<noteq> CHR ''/'') rest) else (rest, ''/''));
     (host, port) \<leftarrow> (case rsplit_once (CHR '':'') authority of
         Some (h, p) \<Rightarrow> map_option (Pair h) (parse_u16 p)
       | None \<Rightarrow> Some (authority, if https then 443 else 80));
     if host = [] then None
     else Some \<lparr>ur_https = https, ur_host = host, ur_port = port, ur_path = path\<rparr>
   }"

lemma parse_url_rest: "parse_url ((if https then ''https://'' else ''http://'') @ rest) = parse_rest https rest"
  by (cases https) (simp_all add: parse_url_def parse_rest_def)

lemma upper_lower [simp]: "char_upper (char_lower c) = char_upper c"
  by (auto simp: char_upper_def char_lower_def Let_def)

lemma to_upper_lower: "to_upper (to_lower s) = to_upper s"
  by (simp add: to_upper_def to_lower_def)

definition sample_hook :: webhook_config where
  "sample_hook = default_webhook_config\<lparr>wh_url := ''http://relay.local:8080/in'', wh_method := ''put'',
     wh_headers := [\<lparr>hdr_name = ''X-Key'', hdr_value = ''7''\<rparr>]\<rparr>"

definition sample_url :: url_parts where
  "sample_url = \<lparr>ur_https = False, ur_host = ''relay.local'', ur_port = 8080, ur_path = ''/in''\<rparr>"

definition queue_env :: "(fake_nvs, int, webhook_event list) env" where
  "queue_env = (sample_env (\<lambda>_. 0))\<lparr>env_dispatch := nostd_dispatch\<rparr>"

section \<open>Properties\<close>

text \<open>C36. Request framing of the no_std firmware: whatever the rendered body contains, a reader that takes the
  lines up to the first empty one recovers the request line, the host, the configured headers in order,
  a content type, the exact length of the body, and then exactly the body, provided path, host and
  headers hold no carriage return.\<close>

theorem webhook_request_roundtrip:
  assumes "clean (ur_path url)" "clean (ur_host url)" "list_all (\<lambda>h. clean (header_line h)) (wh_headers wh)"
    and "length body < 10 ^ 10"
  shows "read_head (build_request wh url body) = Some (request_lines wh url body, body)"
proof -
  have "list_all (\<lambda>l. clean l \<and> l \<noteq> []) (request_lines wh url body)"
    using assms(1-3) by (auto simp: request_lines_def header_line_def list_all_iff)
  then show ?thesis
    unfolding build_request_lines [OF assms(4)] by (rule read_head_lines)
qed

lemma webhook_request_roundtrip_witness:
  "read_head (build_request sample_hook sample_url (''a'' @ CRLF @ CRLF @ ''b'')) =
    Some (request_lines sample_hook sample_url (''a'' @ CRLF @ CRLF @ ''b''), ''a'' @ CRLF @ CRLF @ ''b'')"
  by (rule webhook_request_roundtrip)
    (simp_all add: sample_hook_def sample_url_def header_line_def CRLF_def)

text \<open>The webhook queue, in the no_std firmware, the ESP-IDF firmware and the host: it never holds more
  than its capacity, events are delivered in the order they were emitted and none twice, and none is
  lost as long as no event is emitted while the queue is full.\<close>

theorem webhook_queue_fifo:
  assumes "(dispatch, cap) \<in> {(nostd_dispatch, 8), (esp_dispatch, 16), (host_dispatch, 16)}"
    and "foldl (queue_step dispatch) ([], []) ops = (q, delivered)"
  shows "length q \<le> cap \<and> subseq (delivered @ q) (sent ops) \<and> (keeps_up cap 0 ops \<longrightarrow> delivered @ q = sent ops)"
proof -
  have "\<forall>q e. dispatch q e = fst (queue_send cap q e)"
    using assms(1) by (auto simp: nostd_dispatch_def esp_dispatch_def host_dispatch_def
        NOSTD_QUEUE_CAP_def ESP_QUEUE_CAP_def HOST_QUEUE_CAP_def)
  from queue_run [OF this, of "[]" "[]" ops] assms(2) show ?thesis by auto
qed

lemma webhook_queue_fifo_witness:
  "length [event_new Boot] \<le> 8 \<and>
   [event_new ConfigChanged] @ [event_new Boot] = sent [QSend (event_new ConfigChanged), QTake, QSend (event_new Boot)]"
  using webhook_queue_fifo [of nostd_dispatch 8 "[QSend (event_new ConfigChanged), QTake, QSend (event_new Boot)]"
      "[event_new Boot]" "[event_new ConfigChanged]"]
  by (simp add: nostd_dispatch_def queue_send_def NOSTD_QUEUE_CAP_def)

text \<open>A configuration change announces itself to the subscribers of the new configuration: the event is
  queued last with the name of the section, and when the delivery task takes it before another change,
  it sends one request to every enabled webhook of the new configuration that subscribes to the kind,
  in their order, and to no other.\<close>

theorem config_change_notified:
  assumes "env_dispatch env = nostd_dispatch \<or> env_dispatch env = esp_dispatch" "length (ap_webhooks a) < 8"
    and "a' = replace_config_section env a cfg sec"
  shows "\<exists>ev. ap_webhooks a' = ap_webhooks a @ [ev] \<and> we_kind ev = ConfigChanged \<and>
     map_of (we_vars ev) ''section'' = Some sec \<and>
     handle_event deliver (ap_config a') ev n =
       deliver_all deliver ev (filter (\<lambda>w. wh_enabled w \<and> ConfigChanged \<in> set (wh_events w)) (cf_webhooks cfg)) n"
proof -
  have q: "env_dispatch env (ap_webhooks a) ev = ap_webhooks a @ [ev]" for ev
    using assms(1,2) by (auto simp: nostd_dispatch_def esp_dispatch_def queue_send_def NOSTD_QUEUE_CAP_def ESP_QUEUE_CAP_def)
  obtain b where b: "a' = emit_event env b (event_with (event_new ConfigChanged) ''section'' sec)"
      "ap_webhooks b = ap_webhooks a" "ap_config b = cfg"
    unfolding assms(3) replace_config_section_def Let_def by simp
  from emit_event_vars [of env b "event_with (event_new ConfigChanged) ''section'' sec"] obtain vs where
    v: "ap_webhooks a' = env_dispatch env (ap_webhooks b) ((event_with (event_new ConfigChanged) ''section'' sec)\<lparr>we_vars := vs\<rparr>)"
      "map_of vs = standard_vars env b (we_kind (event_with (event_new ConfigChanged) ''section'' sec)) ++
         map_of (we_vars (event_with (event_new ConfigChanged) ''section'' sec))"
    using b(1) by blast
  let ?ev = "(event_with (event_new ConfigChanged) ''section'' sec)\<lparr>we_vars := vs\<rparr>"
  have kind: "we_kind ?ev = ConfigChanged" "map_of (we_vars ?ev) ''section'' = Some sec"
    using v(2) by (simp_all add: event_with_def event_new_def map_add_def)
  have subs: "subscribers cfg ConfigChanged =
      filter (\<lambda>w. wh_enabled w \<and> ConfigChanged \<in> set (wh_events w)) (cf_webhooks cfg)"
    by (auto simp: subscribers_def list_ex_iff intro: filter_cong)
  have "handle_event deliver (ap_config a') ?ev n = deliver_all deliver ?ev
      (filter (\<lambda>w. wh_enabled w \<and> ConfigChanged \<in> set (wh_events w)) (cf_webhooks cfg)) n"
    using kind(1) assms(3) by (simp add: handle_event_def subs Let_def del: event_with_def)
  with v(1) q b(2) kind show ?thesis by auto
qed

lemma config_change_notified_witness:
  "\<exists>ev. ap_webhooks (replace_config_section queue_env (app_new queue_env sample_config) sample_config ''time'') =
       ap_webhooks (app_new queue_env sample_config) @ [ev] \<and>
     we_kind ev = ConfigChanged \<and> map_of (we_vars ev) ''section'' = Some ''time'' \<and>
     handle_event (host_post (\<lambda>_ _ _ _ n. (n + 1, UrOk 200)))
         (ap_config (replace_config_section queue_env (app_new queue_env sample_config) sample_config ''time'')) ev (0 :: nat) =
       deliver_all (host_post (\<lambda>_ _ _ _ n. (n + 1, UrOk 200))) ev
         (filter (\<lambda>w. wh_enabled w \<and> ConfigChanged \<in> set (wh_events w)) (cf_webhooks sample_config)) 0"
  by (rule config_change_notified)
    (simp_all add: queue_env_def sample_env_def app_new_def app_with_nvs_def sample_config_def Let_def)

text \<open>URLs: scheme, host, port and path of a printed URL are read back, and without a port the default of
  the scheme is taken.\<close>

theorem parse_url_roundtrip:
  assumes "host \<noteq> []" "CHR ''/'' \<notin> set host" "CHR '':'' \<notin> set host" "path = [] \<or> hd path = CHR ''/''"
  shows "parse_url ((if https then ''https://'' else ''http://'') @ host @ '':'' @ show_word port @ path) =
      Some \<lparr>ur_https = https, ur_host = host, ur_port = port, ur_path = if path = [] then ''/'' else path\<rparr> \<and>
    parse_url ((if https then ''https://'' else ''http://'') @ host @ path) =
      Some \<lparr>ur_https = https, ur_host = host, ur_port = if https then 443 else 80,
        ur_path = if path = [] then ''/'' else path\<rparr>"
proof -
  have "CHR ''/'' \<notin> set (show_word port)" "CHR '':'' \<notin> set (show_word port)"
    by (simp_all add: show_word_def digits_no_char is_digit_def)
  then have "CHR ''/'' \<notin> set (host @ '':'' @ show_word port)"
    "rsplit_once (CHR '':'') (host @ '':'' @ show_word port) = Some (host, show_word port)"
    using assms(2) rsplit_last [of "CHR '':''" "show_word port" host] by simp_all
  note p = authority_path [OF this(1) assms(4)] this(2)
  note q = authority_path [OF assms(2,4)] rsplit_none [OF assms(3)]
  have "parse_rest https ((host @ '':'' @ show_word port) @ path) =
      Some \<lparr>ur_https = https, ur_host = host, ur_port = port, ur_path = if path = [] then ''/'' else path\<rparr>"
    unfolding parse_rest_def p(1) using p(2) assms(1) by simp
  moreover have "parse_rest https (host @ path) = Some \<lparr>ur_https = https, ur_host = host,
      ur_port = if https then 443 else 80, ur_path = if path = [] then ''/'' else path\<rparr>"
    unfolding parse_rest_def q(1) using q(2) assms(1) by simp
  ultimately show ?thesis unfolding parse_url_rest by simp
qed

lemma parse_url_roundtrip_witness:
  "parse_url ((if True then ''https://'' else ''http://'') @ ''hooks.local'' @ '':'' @ show_word (8443 :: u16) @ ''/a/b'') =
      Some \<lparr>ur_https = True, ur_host = ''hooks.local'', ur_port = 8443, ur_path = if ''/a/b'' = [] then ''/'' else ''/a/b''\<rparr> \<and>
    parse_url ((if True then ''https://'' else ''http://'') @ ''hooks.local'' @ ''/a/b'') =
      Some \<lparr>ur_https = True, ur_host = ''hooks.local'', ur_port = if True then 443 else 80,
        ur_path = if ''/a/b'' = [] then ''/'' else ''/a/b''\<rparr>"
  by (rule parse_url_roundtrip [of "''hooks.local''" "''/a/b''" True 8443]) simp_all

text \<open>The firmwares disagree on other methods than PUT and POST: the ESP-IDF firmware and the host refuse
  them, the no_std firmware sends a POST.\<close>

theorem webhook_methods_disagree:
  assumes "to_upper (wh_method wh) \<notin> {''PUT'', ''POST''}"
  shows "(\<exists>e. snd (esp_post cl wh body n) = Inl e) \<and> host_post send wh body n' =
      (n', Inl (''unsupported method '' @ to_upper (wh_method wh))) \<and>
    take 5 (build_request wh url body) = ''POST ''"
proof -
  have "\<not> eq_ignore_case (wh_method wh) ''put''"
  proof
    assume "eq_ignore_case (wh_method wh) ''put''"
    then have "to_upper (to_lower (wh_method wh)) = to_upper (to_lower ''put'')" by (simp add: eq_ignore_case_def)
    moreover have "to_upper (to_lower ''put'') = ''PUT''" by code_simp
    ultimately have "to_upper (wh_method wh) = ''PUT''" unfolding to_upper_lower by metis
    with assms show False by simp
  qed
  then have "take 5 (build_request wh url body) = ''POST ''"
    unfolding build_request_def Let_def header_fold prod.case by simp
  moreover have "\<exists>e. snd (esp_post cl wh body n) = Inl e"
    using assms by (auto simp: esp_post_def Let_def split: prod.split sum.split)
  ultimately show ?thesis using assms by (simp add: host_post_def Let_def)
qed

lemma webhook_methods_disagree_witness:
  "(\<exists>e. snd (esp_post \<lparr>ec_new = \<lambda>_ n. (n, Inr ()), ec_request = \<lambda>_ _ _ n. (n, Inr ()), ec_write = \<lambda>_ n. (n, Inr ()),
        ec_response = \<lambda>n. (n, Inr ()), ec_status = \<lambda>_. 200, ec_drain = \<lambda>_ n. n\<rparr> (sample_hook\<lparr>wh_method := ''GET''\<rparr>) [] ()) = Inl e) \<and>
   host_post (\<lambda>_ _ _ _ n. (n, UrOk 200)) (sample_hook\<lparr>wh_method := ''GET''\<rparr>) [] () =
      ((), Inl (''unsupported method '' @ to_upper (wh_method (sample_hook\<lparr>wh_method := ''GET''\<rparr>)))) \<and>
   take 5 (build_request (sample_hook\<lparr>wh_method := ''GET''\<rparr>) sample_url []) = ''POST ''"
  by (rule webhook_methods_disagree) (simp, code_simp)

end
