(* ===== verification/Net_Services.thy ===== *)
theory Net_Services
  imports Captive_Net Nostd_Main
begin

text \<open>
  Two network services of the no_std firmware: the SNTP client (\<open>firmware-nostd/sntp.rs\<close>), which sets the
  offset that the clock of \<open>main.rs\<close> adds to the uptime, and the mDNS responder
  (\<open>firmware-nostd/mdns.rs\<close>). The UDP sockets are records of functions; a datagram is its bytes.
\<close>

section \<open>SNTP\<close>

definition NTP_UNIX_OFFSET :: u64 where "NTP_UNIX_OFFSET = 2208988800"
definition SANITY_MIN :: u64 where "SANITY_MIN = 1735689600"
definition RESYNC_S :: nat where "RESYNC_S = 6 * 60 * 60"
definition RETRY_S :: nat where "RETRY_S = 30"

datatype udp_read = UdpBytes bytes | UdpError | UdpTimeout

record 'n sntp_ops =
  tp_dns :: "'n \<Rightarrow> string \<Rightarrow> 'n \<times> bytes list option"
  tp_bind :: "'n \<Rightarrow> 'n \<times> bool"
  tp_send :: "'n \<Rightarrow> bytes \<Rightarrow> bytes \<Rightarrow> u16 \<Rightarrow> 'n \<times> bool"
  tp_recv :: "'n \<Rightarrow> nat \<Rightarrow> 'n \<times> udp_read"

definition be32 :: "u8 \<Rightarrow> u8 \<Rightarrow> u8 \<Rightarrow> u8 \<Rightarrow> u32" where
  "be32 a b c d = of_nat (256 ^ 3 * unat a + 256 ^ 2 * unat b + 256 * unat c + unat d)"

definition checked_sub :: "u64 \<Rightarrow> u64 \<Rightarrow> u64 option" where
  "checked_sub a b = (if b \<le> a then Some (a - b) else None)"

definition sntp_reply :: "bytes \<Rightarrow> string + u64" where
  "sntp_reply resp =
    (if length resp < 48 then Inl ''short''
     else let ntp_secs = as_u64 (be32 (resp ! 40) (resp ! 41) (resp ! 42) (resp ! 43)) in
       case checked_sub ntp_secs NTP_UNIX_OFFSET of
         None \<Rightarrow> Inl ''pre-1970''
       | Some unix \<Rightarrow> if unix < SANITY_MIN then Inl ''insane'' else Inr unix)"

definition sntp_request :: bytes where
  "sntp_request = (replicate 48 0)[0 := 0x23]"

definition sync_once :: "'n sntp_ops \<Rightarrow> 'n \<Rightarrow> 'n \<times> (string + u64)" where
  "sync_once ops n =
    (case tp_dns ops n ''pool.ntp.org'' of
       (n, None) \<Rightarrow> (n, Inl ''dns'')
     | (n, Some []) \<Rightarrow> (n, Inl ''dns empty'')
     | (n, Some (server # _)) \<Rightarrow> (case tp_bind ops n of
         (n, False) \<Rightarrow> (n, Inl ''bind'')
       | (n, True) \<Rightarrow> (case tp_send ops n sntp_request server 123 of
           (n, False) \<Rightarrow> (n, Inl ''send'')
         | (n, True) \<Rightarrow> (case tp_recv ops n 48 of
             (n, UdpError) \<Rightarrow> (n, Inl ''recv'')
           | (n, UdpTimeout) \<Rightarrow> (n, Inl ''timeout'')
           | (n, UdpBytes resp) \<Rightarrow> (n, sntp_reply resp)))))"

text \<open>One pass of the task: the offset \<open>EPOCH_AT_BOOT\<close> behind it and the seconds to the next pass.\<close>

definition sntp_round :: "'n sntp_ops \<Rightarrow> u64 \<Rightarrow> 64 word \<Rightarrow> 'n \<Rightarrow> 'n \<times> 64 word \<times> nat" where
  "sntp_round ops uptime epoch_at_boot n =
    (case sync_once ops n of
       (n, Inr unix_now) \<Rightarrow> (n, unix_now - uptime, RESYNC_S)
     | (n, Inl e) \<Rightarrow> (n, epoch_at_boot, RETRY_S))"

section \<open>mDNS\<close>

definition MDNS_PORT :: u16 where "MDNS_PORT = 5353"
definition TYPE_A :: u16 where "TYPE_A = 1"
definition TYPE_ANY :: u16 where "TYPE_ANY = 255"
definition MDNS_TTL :: u32 where "MDNS_TTL = 120"

text \<open>A hostname that does not fit 32 bytes becomes empty, which disables the responder.\<close>

definition mdns_hostname :: "config \<Rightarrow> string option" where
  "mdns_hostname cfg =
    (let hostname = (if length (wf_hostname (cf_wifi cfg)) \<le> 32 then wf_hostname (cf_wifi cfg) else []) in
     if hostname = [] then None else Some hostname)"

text \<open>The output vector of 256 bytes.\<close>

definition vec_extend :: "bytes \<Rightarrow> bytes \<Rightarrow> bytes option" where
  "vec_extend out bs = (if length out + length bs \<le> 256 then Some (out @ bs) else None)"

definition write_label :: "bytes \<Rightarrow> bytes \<Rightarrow> bytes option" where
  "write_label out label =
    (if label = [] \<or> 63 < length label then None
     else do {
       out \<leftarrow> vec_extend out [of_nat (length label)];
       vec_extend out label
     })"

function mdns_labels :: "bytes \<Rightarrow> nat \<Rightarrow> bytes list \<Rightarrow> (nat \<times> bytes list) option" where
  "mdns_labels query pos labels =
    (if pos < length query then
       (let len = unat (query ! pos) in
        if len = 0 then Some (pos + 1, labels)
        else if and len 0xC0 \<noteq> 0 \<or> length labels = 4 then None
        else if length query < pos + 1 + len then None
        else mdns_labels query (pos + 1 + len) (labels @ [take len (drop (pos + 1) query)]))
     else None)"
  by pat_completeness auto
termination by (relation "measure (\<lambda>(query, pos, labels). length query - pos)") auto

declare mdns_labels.simps [simp del]

definition be_of_u16 :: "u16 \<Rightarrow> bytes" where
  "be_of_u16 w = [of_nat (unat w div 256), of_nat (unat w)]"

definition build_response :: "bytes \<Rightarrow> string \<Rightarrow> bytes \<Rightarrow> bytes option" where
  "build_response query hostname ip =
    (if length query < 12 then None
     else if be16 (query ! 4) (query ! 5) = 0 then None
     else do {
       (pos, labels) \<leftarrow> mdns_labels query 12 [];
       t1 \<leftarrow> byte_at query pos;
       t2 \<leftarrow> byte_at query (pos + 1);
       let qtype = be16 t1 t2;
       if qtype \<noteq> TYPE_A \<and> qtype \<noteq> TYPE_ANY then None
       else if length labels \<noteq> 2 \<or> \<not> eq_ignore_case (string_of (labels ! 0)) hostname \<or>
         \<not> eq_ignore_case (string_of (labels ! 1)) ''local'' then None
       else do {
         out \<leftarrow> vec_extend [] [0, 0, 0x84, 0x00, 0, 0, 0, 1, 0, 0, 0, 0];
         out \<leftarrow> write_label out (bytes_of hostname);
         out \<leftarrow> write_label out (bytes_of ''local'');
         out \<leftarrow> vec_extend out [0];
         out \<leftarrow> vec_extend out (be_of_u16 TYPE_A);
         out \<leftarrow> vec_extend out (be_of_u16 0x8001);
         out \<leftarrow> vec_extend out (be_of_u32 MDNS_TTL);
         out \<leftarrow> vec_extend out (be_of_u16 4);
         vec_extend out ip
       }
     })"

text \<open>One datagram through the responder.\<close>

definition mdns_serve :: "config \<Rightarrow> bytes \<Rightarrow> bytes \<Rightarrow> bytes option" where
  "mdns_serve cfg ip query = (case mdns_hostname cfg of
      None \<Rightarrow> None
    | Some hostname \<Rightarrow> build_response query hostname ip)"

section \<open>Lemmas\<close>

text \<open>The reading of a big-endian field.\<close>

lemma unat_be32:
  "unat (be32 a b c d) = 256 ^ 3 * unat a + 256 ^ 2 * unat b + 256 * unat c + unat d"
proof -
  have "unat a < 256" "unat b < 256" "unat c < 256" "unat d < 256"
    using unat_lt_pow [of a] unat_lt_pow [of b] unat_lt_pow [of c] unat_lt_pow [of d] by simp_all
  then have "256 ^ 3 * unat a + 256 ^ 2 * unat b + 256 * unat c + unat d < 2 ^ 32" by simp
  then show ?thesis unfolding be32_def unat_of_nat by simp
qed

definition ntp_field :: "bytes \<Rightarrow> nat" where
  "ntp_field resp = unat (be32 (resp ! 40) (resp ! 41) (resp ! 42) (resp ! 43))"

lemma sntp_reply_field:
  assumes "48 \<le> length resp"
  shows "sntp_reply resp =
     (if ntp_field resp < 2208988800 then Inl ''pre-1970''
      else if ntp_field resp < 3944678400 then Inl ''insane''
      else Inr (of_nat (ntp_field resp - 2208988800)))"
proof -
  let ?s = "as_u64 (be32 (resp ! 40) (resp ! 41) (resp ! 42) (resp ! 43))"
  have s: "unat ?s = ntp_field resp" by (simp add: ntp_field_def)
  have "?s - NTP_UNIX_OFFSET = of_nat (ntp_field resp - 2208988800)" if "2208988800 \<le> ntp_field resp"
    using that unfolding s [symmetric] by (simp add: NTP_UNIX_OFFSET_def of_nat_diff as_u64_def)
  moreover have "unat (?s - NTP_UNIX_OFFSET) = ntp_field resp - 2208988800" if "2208988800 \<le> ntp_field resp"
    using that s by (simp add: NTP_UNIX_OFFSET_def unat_sub_if' word_le_nat_alt)
  ultimately show ?thesis
    using assms s by (auto simp: sntp_reply_def checked_sub_def Let_def word_le_nat_alt word_less_nat_alt
        NTP_UNIX_OFFSET_def SANITY_MIN_def)
qed

text \<open>The reply of a server whose clock shows \<open>t\<close> seconds of Unix time: the field has 32 bits.\<close>

definition ntp_packet :: "nat \<Rightarrow> bytes" where
  "ntp_packet t = replicate 40 0 @ be_of_u32 (of_nat (t + 2208988800)) @ replicate 4 0"

lemma base256: "256 ^ 3 * (n div 256 ^ 3) + 256 ^ 2 * (n div 256 ^ 2 mod 256) + 256 * (n div 256 mod 256) + n mod 256 = n"
  for n :: nat
proof -
  have p: "n div 256 ^ 2 = n div 256 div 256" "n div 256 ^ 3 = n div 256 div 256 div 256"
    by (simp_all flip: div_mult2_eq)
  have "256 * (n div 256) + n mod 256 = n" "256 * (n div 256 div 256) + n div 256 mod 256 = n div 256"
    "256 * (n div 256 div 256 div 256) + n div 256 div 256 mod 256 = n div 256 div 256"
    by (rule mult_div_mod_eq)+
  then show ?thesis unfolding p unfolding power2_eq_square power3_eq_cube by linarith
qed

lemma be32_be_of_u32: "be32 (be_of_u32 w ! 0) (be_of_u32 w ! 1) (be_of_u32 w ! 2) (be_of_u32 w ! 3) = w"
proof -
  let ?n = "unat w"
  have "?n div 256 ^ 3 < 256" using unat_u32_bound [of w] by (simp add: div_less_iff_less_mult)
  then have "unat (be32 (be_of_u32 w ! 0) (be_of_u32 w ! 1) (be_of_u32 w ! 2) (be_of_u32 w ! 3)) =
      256 ^ 3 * (?n div 256 ^ 3) + 256 ^ 2 * (?n div 256 ^ 2 mod 256) + 256 * (?n div 256 mod 256) + ?n mod 256"
    unfolding unat_be32 be_of_u32_def by (simp add: unat_of_nat del: of_nat_div of_nat_unat word_of_nat_eq_0_iff)
  then show ?thesis unfolding base256 word_unat_eq_iff .
qed

lemma ntp_field_packet: "ntp_field (ntp_packet t) = (t + 2208988800) mod 2 ^ 32"
proof -
  have "ntp_packet t ! (40 + i) = be_of_u32 (of_nat (t + 2208988800)) ! i" if "i < 4" for i
    using that unfolding ntp_packet_def by (subst nth_append) (simp add: nth_append length_be_of_u32 del: of_nat_add)
  from this [of 0] this [of 1] this [of 2] this [of 3]
  show ?thesis by (simp add: ntp_field_def be32_be_of_u32 [simplified] unat_of_nat del: of_nat_add)
qed

lemma length_ntp_packet [simp]: "length (ntp_packet t) = 48"
  by (simp add: ntp_packet_def be_of_u32_def)

text \<open>The walk over the labels of a question.\<close>

lemma flag_bits: "n < 256 \<Longrightarrow> and n 192 = 0 \<Longrightarrow> n < 64" for n :: nat
proof -
  assume n: "n < 256" "and n 192 = 0"
  have "drop_bit 6 (and n 192) = and (drop_bit 6 n) (drop_bit 6 192)" by (rule drop_bit_and)
  then have "drop_bit 6 (and n 192) = and (n div 64) 3" by (simp add: drop_bit_eq_div)
  moreover have "and (n div 64) 3 = take_bit 2 (n div 64)"
    by (simp add: take_bit_eq_mask numeral_3_eq_3 mask_eq_exp_minus_1)
  moreover have "take_bit 2 (n div 64) = n div 64"
    using n(1) by (simp add: take_bit_nat_eq_self_iff)
  ultimately have "n div 64 = 0" using n(2) by simp
  then show "n < 64" by simp
qed

lemma labels_sound:
  "mdns_labels query pos labels = Some (p, ls) \<Longrightarrow>
     \<exists>new. ls = labels @ new \<and> list_all label_ok new \<and> p \<le> length query \<and>
       drop pos query = qname new @ drop p query"
proof (induction query pos labels rule: mdns_labels.induct)
  case (1 query pos labels)
  let ?len = "unat (query ! pos)"
  from "1.prems" have pos: "pos < length query" by (simp add: mdns_labels.simps [of query pos] split: if_splits)
  have d: "drop pos query = query ! pos # drop (pos + 1) query" using pos by (simp add: Cons_nth_drop_Suc)
  show ?case
  proof (cases "?len = 0")
    case True
    then have "query ! pos = 0" by (simp add: unat_eq_0)
    with "1.prems" pos d show ?thesis
      by (intro exI [of _ "[]"]) (auto simp: mdns_labels.simps [of query pos] qname_def)
  next
    case False
    let ?l = "take ?len (drop (pos + 1) query)"
    from "1.prems" pos False have g: "and ?len 0xC0 = 0" "length labels \<noteq> 4" "pos + 1 + ?len \<le> length query"
      "mdns_labels query (pos + 1 + ?len) (labels @ [?l]) = Some (p, ls)"
      by (auto simp: mdns_labels.simps [of query pos] Let_def split: if_splits)
    have len: "length ?l = ?len" using g(3) by simp
    then have ne: "?l \<noteq> []" using False by auto
    have "?len < 64" using flag_bits [of ?len] g(1) unat_lt_pow [of "query ! pos"] by simp
    then have ok: "label_ok ?l" "(of_nat (length ?l) :: u8) = query ! pos"
      using ne unfolding label_ok_def len by simp_all
    from "1.IH" [OF pos refl False] g obtain new where
      n: "ls = labels @ ?l # new" "list_all label_ok new" "p \<le> length query"
        "drop (pos + 1 + ?len) query = qname new @ drop p query"
      by auto
    have "drop (pos + 1) query = ?l @ drop (pos + 1 + ?len) query"
      by (metis add.commute append_take_drop_id drop_drop)
    then have "drop pos query = qname (?l # new) @ drop p query"
      unfolding d n(4) using ok(2) by (simp add: qname_def del: length_take)
    with n ok show ?thesis by (intro exI [of _ "?l # new"]) simp
  qed
qed

lemma labels_complete:
  "list_all label_ok new \<Longrightarrow> length labels + length new \<le> 4 \<Longrightarrow>
     mdns_labels (pre @ qname new @ rest) (length pre) labels = Some (length pre + length (qname new), labels @ new)"
proof (induction new arbitrary: pre labels)
  case Nil
  then show ?case by (simp add: mdns_labels.simps qname_def)
next
  case (Cons l ls)
  let ?n = "(of_nat (length l) :: u8)"
  have l: "label_ok l" "length l \<noteq> 0" "and (length l) 192 = 0"
    using Cons.prems small_label [of "length l"] by (auto simp: label_ok_def)
  have q: "pre @ qname (l # ls) @ rest = (pre @ ?n # l) @ qname ls @ rest" by (simp add: qname_def)
  have "mdns_labels (pre @ qname (l # ls) @ rest) (length pre) labels =
      mdns_labels ((pre @ ?n # l) @ qname ls @ rest) (length (pre @ ?n # l)) (labels @ [l])"
    unfolding q using l Cons.prems
    by (subst mdns_labels.simps) (simp add: nth_append Let_def)
  also have "\<dots> = Some (length (pre @ ?n # l) + length (qname ls), (labels @ [l]) @ ls)"
    using Cons.prems by (intro Cons.IH) simp_all
  finally show ?case by (simp add: qname_def)
qed

text \<open>The whole answer: the first question names the host, and it is of type A or ANY.\<close>

definition mdns_answer :: "string \<Rightarrow> bytes \<Rightarrow> bytes" where
  "mdns_answer hostname ip =
     [0, 0, 0x84, 0, 0, 0, 0, 1, 0, 0, 0, 0] @ qname [bytes_of hostname, bytes_of ''local''] @
     [0, 1, 0x80, 1, 0, 0, 0, 120, 0, 4] @ ip"

definition asks_for :: "string \<Rightarrow> bytes \<Rightarrow> bool" where
  "asks_for hostname query \<longleftrightarrow>
     (\<exists>hdr h l t rest. query = hdr @ qname [h, l] @ [0, t] @ rest \<and> length hdr = 12 \<and> (hdr ! 4, hdr ! 5) \<noteq> (0, 0) \<and>
        label_ok h \<and> label_ok l \<and> eq_ignore_case (string_of h) hostname \<and>
        eq_ignore_case (string_of l) ''local'' \<and> t \<in> {1, 255})"

lemma bytes_of_empty: "bytes_of s = [] \<longleftrightarrow> s = []"
  by (simp add: bytes_of_def)

lemma mdns_build:
  assumes "0 < length hostname" "length hostname \<le> 32" "length ip = 4"
  shows "(do {
         out \<leftarrow> vec_extend [] [0, 0, 0x84, 0x00, 0, 0, 0, 1, 0, 0, 0, 0];
         out \<leftarrow> write_label out (bytes_of hostname);
         out \<leftarrow> write_label out (bytes_of ''local'');
         out \<leftarrow> vec_extend out [0];
         out \<leftarrow> vec_extend out (be_of_u16 TYPE_A);
         out \<leftarrow> vec_extend out (be_of_u16 0x8001);
         out \<leftarrow> vec_extend out (be_of_u32 MDNS_TTL);
         out \<leftarrow> vec_extend out (be_of_u16 4);
         vec_extend out ip
       }) = Some (mdns_answer hostname ip)"
  using assms
  by (simp add: vec_extend_def write_label_def be_of_u16_def be_of_u32_def TYPE_A_def MDNS_TTL_def
      mdns_answer_def qname_def bytes_of_empty)

lemma unat_be16: "unat (be16 a b) = 256 * unat a + unat b"
proof -
  have "256 * unat a + unat b < 2 ^ 16" using unat_lt_pow [of a] unat_lt_pow [of b] by simp
  then show ?thesis unfolding be16_def unat_of_nat by simp
qed

lemma be16_eq_0: "be16 a b = 0 \<longleftrightarrow> a = 0 \<and> b = 0"
  by (simp add: word_unat_eq_iff unat_be16)

lemma be16_type: "be16 a b = TYPE_A \<or> be16 a b = TYPE_ANY \<longleftrightarrow> a = 0 \<and> b \<in> {1, 255}"
  using unat_lt_pow [of b]
  by (cases "unat a") (auto simp: word_unat_eq_iff unat_be16 TYPE_A_def TYPE_ANY_def)

lemma build_response_iff:
  assumes "0 < length hostname" "length hostname \<le> 32" "length ip = 4"
  shows "build_response query hostname ip = (if asks_for hostname query then Some (mdns_answer hostname ip) else None)"
proof (cases "asks_for hostname query")
  case True
  then obtain hdr h l t rest where q: "query = hdr @ qname [h, l] @ [0, t] @ rest" "length hdr = 12"
    "(hdr ! 4, hdr ! 5) \<noteq> (0, 0)" "label_ok h" "label_ok l" "eq_ignore_case (string_of h) hostname"
    "eq_ignore_case (string_of l) ''local''" "t \<in> {1, 255}"
    unfolding asks_for_def by blast
  have w: "mdns_labels query 12 [] = Some (12 + length (qname [h, l]), [h, l])"
    using labels_complete [of "[h, l]" "[]" hdr "[0, t] @ rest"] q by simp
  have "query ! 4 = hdr ! 4" "query ! 5 = hdr ! 5" "12 \<le> length query" using q(1,2) by (simp_all add: nth_append)
  moreover have "query ! (12 + length (qname [h, l])) = 0" "query ! (12 + length (qname [h, l]) + 1) = t"
    "12 + length (qname [h, l]) + 1 < length query"
    using q(1,2) by (simp_all add: nth_append)
  ultimately show ?thesis
    using q(3,6,7,8) True be16_type [of 0 t] mdns_build [OF assms] w
    by (auto simp: build_response_def be16_eq_0 Let_def)
next
  case False
  have "build_response query hostname ip = None"
  proof (rule ccontr)
    assume "build_response query hostname ip \<noteq> None"
    then obtain pos labels where g: "12 \<le> length query" "\<not> (query ! 4 = 0 \<and> query ! 5 = 0)"
      "mdns_labels query 12 [] = Some (pos, labels)" "pos + 1 < length query"
      "query ! pos = 0" "query ! (pos + 1) \<in> {1, 255}" "length labels = 2"
      "eq_ignore_case (string_of (labels ! 0)) hostname" "eq_ignore_case (string_of (labels ! 1)) ''local''"
      unfolding build_response_def mdns_build [OF assms] Let_def byte_at_def
      using be16_type by (auto simp: be16_eq_0 split: if_split_asm Option.bind_split_asm)
    from labels_sound [OF g(3)] have s: "list_all label_ok labels" "drop 12 query = qname labels @ drop pos query" by auto
    from g(7) obtain h l where hl: "labels = [h, l]" by (auto simp: numeral_2_eq_2 length_Suc_conv)
    have "drop pos query = query ! pos # query ! (pos + 1) # drop (pos + 2) query"
      using g(4) by (simp add: Cons_nth_drop_Suc)
    with s(2) g(5) hl have eq: "query = take 12 query @ qname [h, l] @ [0, query ! (pos + 1)] @ drop (pos + 2) query"
      by (metis append_Cons append_Nil append_take_drop_id)
    have "asks_for hostname query"
      unfolding asks_for_def
    proof (intro exI conjI)
      show "query = take 12 query @ qname [h, l] @ [0, query ! (pos + 1)] @ drop (pos + 2) query" by (rule eq)
    qed (use g hl s(1) in simp_all)
    with False show False ..
  qed
  with False show ?thesis by simp
qed

section \<open>Properties\<close>

text \<open>The SNTP client accepts a reply exactly if its timestamp lies between 2025-01-01 and the end of the
  32 bit era of the protocol, 2036-02-07 06:28:15 UTC, and then takes over exactly that time: whatever
  the server sends, the time of the device is in that range.\<close>

theorem sntp_range:
  assumes "48 \<le> length resp"
  shows "case sntp_reply resp of
      Inl e \<Rightarrow> ntp_field resp < 3944678400
    | Inr t \<Rightarrow> 3944678400 \<le> ntp_field resp \<and> unat t = ntp_field resp - 2208988800 \<and>
        1735689600 \<le> unat t \<and> unat t \<le> 2085978495"
proof -
  have b: "ntp_field resp < 4294967296" unfolding ntp_field_def by (rule unat_u32_bound)
  then have "unat (of_nat (ntp_field resp - 2208988800) :: u64) = ntp_field resp - 2208988800"
    by (simp add: unat_of_nat del: of_nat_diff)
  with b show ?thesis by (auto simp: sntp_reply_field [OF assms] simp del: of_nat_diff)
qed

lemma sntp_range_witness:
  "case sntp_reply (ntp_packet 1800000000) of
      Inl e \<Rightarrow> ntp_field (ntp_packet 1800000000) < 3944678400
    | Inr t \<Rightarrow> 3944678400 \<le> ntp_field (ntp_packet 1800000000) \<and>
        unat t = ntp_field (ntp_packet 1800000000) - 2208988800 \<and>
        1735689600 \<le> unat t \<and> unat t \<le> 2085978495"
  by (rule sntp_range) simp

text \<open>C39. Setting the clock: when the exchange at uptime \<open>u\<close> delivered the reply of a server that shows \<open>t\<close>
  seconds, before the end of the era, the clock of the firmware shows at any later uptime \<open>v\<close> exactly
  \<open>t + (v - u)\<close>, whatever it showed before. From the end of the era on every reply is refused: the clock
  keeps its old offset and the task retries every 30 seconds.\<close>

theorem sntp_sets_clock:
  assumes "snd (sync_once ops n) = sntp_reply (ntp_packet t)"
    and "u \<le> v" "unat v < 2 ^ 30" "1735689600 \<le> t" "t < 6030656896"
  shows "if t < 2085978496
    then unat (embassy_now_secs (fst (snd (sntp_round ops u old n))) v) = t + (unat v - unat u)
    else snd (sntp_round ops u old n) = (old, 30)"
proof -
  obtain n' where s: "sync_once ops n = (n', sntp_reply (ntp_packet t))"
    using assms(1) by (cases "sync_once ops n") simp
  have f: "ntp_field (ntp_packet t) = (t + 2208988800) mod 4294967296" by (simp add: ntp_field_packet)
  show ?thesis
  proof (cases "t < 2085978496")
    case True
    then have "sntp_reply (ntp_packet t) = Inr (of_nat t)"
      using assms(4) by (simp add: sntp_reply_field f)
    then have e: "fst (snd (sntp_round ops u old n)) = of_nat t - u" using s by (simp add: sntp_round_def)
    have u: "unat u < t" "unat (of_nat t :: u64) = t" "unat u \<le> unat v"
      using assms(2,3,4) True by (simp_all add: word_le_nat_alt unat_of_nat)
    then have d: "unat (of_nat t - u) = t - unat u" by (simp add: unat_sub_if')
    then have "of_nat t - u \<noteq> 0" using u(1) by (metis unat_0 zero_less_diff less_numeral_extra(3))
    moreover have "unat (of_nat t - u + v) = t - unat u + unat v"
      using d assms(3) True by (subst unat_word_ariths(1)) simp
    ultimately show ?thesis using True u by (simp add: e embassy_now_secs_def)
  next
    case False
    then have "(t + 2208988800) mod 4294967296 = t + 2208988800 - 4294967296"
      using assms(5) by (simp add: mod_if)
    then have "\<exists>e. sntp_reply (ntp_packet t) = Inl e" using assms(5) False by (simp add: sntp_reply_field f)
    then show ?thesis using s False by (auto simp: sntp_round_def RETRY_S_def)
  qed
qed

definition ntp_server :: "nat \<Rightarrow> unit sntp_ops" where
  "ntp_server t = \<lparr>tp_dns = \<lambda>n _. (n, Some [[10, 0, 0, 1]]), tp_bind = \<lambda>n. (n, True),
     tp_send = \<lambda>n _ _ _. (n, True), tp_recv = \<lambda>n _. (n, UdpBytes (ntp_packet t))\<rparr>"

lemma sntp_sets_clock_witness:
  "if (1800000000 :: nat) < 2085978496
    then unat (embassy_now_secs (fst (snd (sntp_round (ntp_server 1800000000) 20 0 ()))) 3620) =
      1800000000 + (unat (3620 :: u64) - unat (20 :: u64))
    else snd (sntp_round (ntp_server 1800000000) 20 0 ()) = (0, 30)"
  by (rule sntp_sets_clock) (simp_all add: sync_once_def ntp_server_def)

text \<open>The mDNS responder answers exactly the queries whose first question asks for the address or any
  record of \<open>hostname.local\<close>, in any case, always with the same packet, which carries the address of
  the device; every other datagram stays unanswered.\<close>

theorem mdns_answers_iff:
  assumes "mdns_hostname cfg = Some hostname" "length ip = 4"
  shows "mdns_serve cfg ip query = (if asks_for hostname query then Some (mdns_answer hostname ip) else None)"
proof -
  have "0 < length hostname" "length hostname \<le> 32"
    using assms(1) by (auto simp: mdns_hostname_def Let_def split: if_splits)
  from build_response_iff [OF this assms(2), of query] assms(1) show ?thesis by (simp add: mdns_serve_def)
qed

definition named_config :: config where
  "named_config = sample_config\<lparr>cf_wifi := (cf_wifi sample_config)\<lparr>wf_hostname := ''garden''\<rparr>\<rparr>"

lemma mdns_answers_iff_witness:
  "mdns_serve named_config [10, 0, 0, 7] (replicate 4 0 @ [0, 1] @ replicate 6 0) =
    (if asks_for ''garden'' (replicate 4 0 @ [0, 1] @ replicate 6 0) then Some (mdns_answer ''garden'' [10, 0, 0, 7]) else None)"
  by (rule mdns_answers_iff) (simp_all add: mdns_hostname_def named_config_def)

end
