(* ===== verification/Nostd_Mqtt.thy ===== *)
theory Nostd_Mqtt
  imports Mqtt_Dispatch "HOL-Library.Sublist"
begin

text \<open>
  The MQTT task of the no_std firmware, \<open>crates/firmware-nostd/src/mqtt.rs\<close>: one session from the
  connection to its first error, and the loop around it. The client is third-party: \<open>send\<close> performs one
  call on it and tells whether it succeeded. Its calls are those of theory \<open>Mqtt_Dispatch\<close>; every
  message is sent retained with quality of service 1.
\<close>

section \<open>Host and topics\<close>

text \<open>\<open>None\<close> is a panic: a bad octet, a fifth part (the array has four), or fewer than four.\<close>

fun host_octets :: "string list \<Rightarrow> bytes \<Rightarrow> bytes option" where
  "host_octets [] octets = (if length octets = 4 then Some octets else None)"
| "host_octets (part # parts) octets =
    (case parse_u8 part of
       None \<Rightarrow> None
     | Some b \<Rightarrow> if length octets < 4 then host_octets parts (octets @ [b]) else None)"

definition parse_host :: "string \<Rightarrow> bytes option" where
  "parse_host s = host_octets (split_char (CHR ''.'') s) []"

definition NOSTD_FW_VERSION :: string where "NOSTD_FW_VERSION = ''wc-nostd''"

definition session_context :: "config \<Rightarrow> device_context" where
  "session_context cfg =
    \<lparr>dc_base_topic = mq_base_topic (cf_mqtt cfg), dc_discovery_prefix = mq_ha_discovery_prefix (cf_mqtt cfg),
     dc_device_id = wf_hostname (cf_wifi cfg), dc_friendly_name = ''Doremorwater'',
     dc_sw_version = NOSTD_FW_VERSION, dc_manufacturer = ''homebrew'', dc_model = ''watercontroller''\<rparr>"

definition connect_calls :: "(ha_payload \<Rightarrow> bytes) \<Rightarrow> config \<Rightarrow> mqtt_call list" where
  "connect_calls enc cfg =
    (let ctx = session_context cfg;
         availability = mq_base_topic (cf_mqtt cfg) @ ''/status''
     in map (\<lambda>msg. CPublish (dm_topic msg) (enc (dm_payload msg)) retained) (all_messages ctx) @
        [CPublish availability (bytes_of ''online'') retained] @
        map (\<lambda>key. CSubscribe (switch_command_topic ctx key)) [''sprinkler_1'', ''sprinkler_2'', ''water_control''])"

definition sw_payload :: "bool \<Rightarrow> bytes" where
  "sw_payload on = (if on then bytes_of ''ON'' else bytes_of ''OFF'')"

text \<open>The uptime is written into a string of 16 bytes; a number that does not fit is not written.\<close>

definition uptime_text :: "u64 \<Rightarrow> string" where
  "uptime_text uptime_ms = (let s = show_word (uptime_ms div 1000) in if length s \<le> 16 then s else [])"

definition state_calls :: "device_context \<Rightarrow> device_snapshot \<Rightarrow> mqtt_call list" where
  "state_calls ctx snap =
    [CPublish (sensor_state_topic ctx ''uptime'') (bytes_of (uptime_text (sn_uptime_ms snap))) retained,
     CPublish (switch_state_topic ctx ''sprinkler_1'') (sw_payload (st_sprinkler_1 (sn_switches snap))) retained,
     CPublish (switch_state_topic ctx ''sprinkler_2'') (sw_payload (st_sprinkler_2 (sn_switches snap))) retained,
     CPublish (switch_state_topic ctx ''water_control'')
       (sw_payload (st_water_control (sn_switches snap) \<in> {WcOn, WcTransitioning})) retained,
     CPublish (sensor_state_topic ctx ''flow_alarm'') (sw_payload (fa_active (sn_alarm snap))) retained]"

section \<open>A session\<close>

text \<open>A sequence of sends ends at the first that fails.\<close>

fun send_calls :: "('c \<Rightarrow> mqtt_call \<Rightarrow> 'c \<times> bool) \<Rightarrow> mqtt_call list \<Rightarrow> 'c \<Rightarrow> 'c \<times> bool" where
  "send_calls snd_call [] c = (c, True)"
| "send_calls snd_call (m # ms) c =
    (case snd_call c m of (c, ok) \<Rightarrow> if ok then send_calls snd_call ms c else (c, False))"

text \<open>What \<open>select\<close> answers in a pass of the serve loop.\<close>

datatype serve_in = TimerWins | Received string bytes | ReceiveFails

record ('s, 'd, 'c) mq_session =
  mq_app :: "('s, 'd) app"
  mq_client :: 'c
  mq_up :: bool

definition serve_round ::
    "('s, 't, 'd) env \<Rightarrow> ('c \<Rightarrow> mqtt_call \<Rightarrow> 'c \<times> bool) \<Rightarrow> config \<Rightarrow> serve_in \<Rightarrow> ('s, 'd, 'c) mq_session \<Rightarrow>
     ('s, 'd, 'c) mq_session \<times> bool" where
  "serve_round env snd_call cfg i s = (case i of
      TimerWins \<Rightarrow>
        (let (c, ok) = send_calls snd_call (state_calls (session_context cfg) (app_snapshot (mq_app s))) (mq_client s)
         in (s\<lparr>mq_client := c\<rparr>, ok))
    | Received topic payload \<Rightarrow>
        (case parse_command (mq_base_topic (cf_mqtt cfg)) topic payload of
           Some cmd \<Rightarrow> (s\<lparr>mq_app := fst (switch_command env (mq_app s) cmd)\<rparr>, True)
         | None \<Rightarrow> (s, True))
    | ReceiveFails \<Rightarrow> (s, False))"

text \<open>A pass of the loop: what the other tasks do to the application while \<open>select\<close> waits, and its answer.\<close>

type_synonym ('s, 'd) serve_pass = "(('s, 'd) app \<Rightarrow> ('s, 'd) app) \<times> serve_in"

fun serve_loop ::
    "('s, 't, 'd) env \<Rightarrow> ('c \<Rightarrow> mqtt_call \<Rightarrow> 'c \<times> bool) \<Rightarrow> config \<Rightarrow> ('s, 'd) serve_pass list \<Rightarrow> ('s, 'd, 'c) mq_session \<Rightarrow>
     ('s, 'd, 'c) mq_session \<times> bool" where
  "serve_loop env snd_call cfg [] s = (s, True)"
| "serve_loop env snd_call cfg ((others, i) # ps) s =
    (case serve_round env snd_call cfg i (s\<lparr>mq_app := others (mq_app s)\<rparr>) of
       (s, ok) \<Rightarrow> if ok then serve_loop env snd_call cfg ps s else (s, False))"

text \<open>A session over the passes of the serve loop; the flag tells whether it still runs when they are
  used up. The configuration is that of the start of the session.\<close>

definition run_session ::
    "('s, 't, 'd) env \<Rightarrow> (ha_payload \<Rightarrow> bytes) \<Rightarrow> ('c \<Rightarrow> mqtt_call \<Rightarrow> 'c \<times> bool) \<Rightarrow> bool \<Rightarrow> bool \<Rightarrow> ('s, 'd) serve_pass list \<Rightarrow>
     ('s, 'd, 'c) mq_session \<Rightarrow> ('s, 'd, 'c) mq_session \<times> bool" where
  "run_session env enc snd_call tcp_ok broker_ok ps s =
    (if \<not> tcp_ok then (s, False)
     else if \<not> broker_ok then (s, False)
     else let s = s\<lparr>mq_up := True\<rparr>; cfg = ap_config (mq_app s);
              (c, ok) = send_calls snd_call (connect_calls enc cfg) (mq_client s); s = s\<lparr>mq_client := c\<rparr>
       in if ok then serve_loop env snd_call cfg ps s else (s, False))"

text \<open>One pass of the task: a session that has ended takes the flag down.\<close>

definition mqtt_task_round ::
    "('s, 't, 'd) env \<Rightarrow> (ha_payload \<Rightarrow> bytes) \<Rightarrow> ('c \<Rightarrow> mqtt_call \<Rightarrow> 'c \<times> bool) \<Rightarrow> bool \<Rightarrow> bool \<Rightarrow> ('s, 'd) serve_pass list \<Rightarrow>
     ('s, 'd, 'c) mq_session \<Rightarrow> ('s, 'd, 'c) mq_session" where
  "mqtt_task_round env enc snd_call tcp_ok broker_ok ps s =
    (case run_session env enc snd_call tcp_ok broker_ok ps s of
       (s, running) \<Rightarrow> if running then s else s\<lparr>mq_up := False\<rparr>)"

section \<open>Lemmas\<close>

lemma session_context_core: "session_context cfg = mqtt_context cfg NOSTD_FW_VERSION"
  by (simp add: session_context_def mqtt_context_def)

lemma sw_payload_on_off: "sw_payload = on_off"
  by (rule ext) (simp add: sw_payload_def on_off_def)

lemma subseq_prefix: "subseq xs ys \<Longrightarrow> subseq xs (zs @ ys)"
  by (induction zs) auto

lemma subseq_both: "subseq xs ys \<Longrightarrow> subseq xs' ys' \<Longrightarrow> subseq (xs @ xs') (ys @ ys')"
  by (rule list_emb_append_mono)

lemma opt_publish_Some:
  "opt_publish ctx key (Some s) = [CPublish (sensor_state_topic ctx key) (bytes_of s) retained]"
  by (simp add: opt_publish_def)

lemma uptime_fits:
  assumes "unat u < 10 ^ 19"
  shows "uptime_text u = show_word (u div 1000)"
proof -
  have "unat (u div 1000) < 10 ^ 16" using assms by (simp add: unat_div)
  then have "length (show_word (u div 1000)) \<le> 16" unfolding show_word_def by (rule length_show_nat) simp
  then show ?thesis by (simp add: uptime_text_def Let_def)
qed

lemma state_topics_base:
  "mq_base_topic (cf_mqtt cfg) = mq_base_topic (cf_mqtt cfg') \<Longrightarrow>
     state_calls (session_context cfg) snap = state_calls (session_context cfg') snap"
  by (simp add: state_calls_def session_context_def sensor_state_topic_def switch_state_topic_def)

lemma state_calls_subseq:
  "unat (sn_uptime_ms snap) < 10 ^ 19 \<Longrightarrow>
     subseq (state_calls (session_context (ap_config a)) snap) (publish_state a NOSTD_FW_VERSION snap)"
  unfolding publish_state_def state_calls_def Let_def session_context_core sw_payload_on_off
  by (rule subseq_prefix, rule subseq_prefix, rule subseq_prefix, rule subseq_prefix, rule subseq_prefix,
      rule subseq_prefix) (simp add: opt_publish_Some subseq_prefix uptime_fits)

text \<open>The base topic can be read off a state topic.\<close>

lemma last_slash: "xs @ c # k = ys @ c # k' \<Longrightarrow> c \<notin> set k \<Longrightarrow> c \<notin> set k' \<Longrightarrow> xs = ys"
proof (induction xs arbitrary: ys)
  case Nil
  then show ?case by (cases ys) auto
next
  case (Cons x xs)
  then show ?case by (cases ys) auto
qed

lemma state_topic_base:
  assumes "sensor_state_topic c k = sensor_state_topic c' k'" "CHR ''/'' \<notin> set k" "CHR ''/'' \<notin> set k'"
  shows "dc_base_topic c = dc_base_topic c'"
proof (rule last_slash [OF _ assms(2,3)])
  show "dc_base_topic c @ CHR ''/'' # k = dc_base_topic c' @ CHR ''/'' # k'"
    using assms(1) append_same_eq [of "dc_base_topic c @ CHR ''/'' # k" "''/state''" "dc_base_topic c' @ CHR ''/'' # k'"]
    by (simp add: sensor_state_topic_def)
qed

lemma chosen_subset: "set (map f (map fst (filter P ks))) \<subseteq> f ` set (map fst ks)"
  by auto

lemma published_bases:
  assumes "t \<in> set (concat (map call_topic (publish_state a fv snap)))"
  obtains k where "t = sensor_state_topic (mqtt_context (ap_config a) fv) k" "CHR ''/'' \<notin> set k"
proof -
  let ?names = "[''battery'', ''pressure'', ''water_flow'', ''water_total'', ''wifi_rssi'', ''free_heap'', ''uptime'',
       ''reset_reason'', ''sprinkler_1'', ''sprinkler_2'', ''water_control'', ''flow_alarm'']"
  have "t \<in> sensor_state_topic (mqtt_context (ap_config a) fv) ` set ?names"
    using subsetD [OF chosen_subset assms [unfolded publish_state_topics]] by (simp only: list.map fst_conv)
  moreover have "\<forall>k \<in> set ?names. CHR ''/'' \<notin> set k"
    by simp
  ultimately show ?thesis using that by blast
qed

lemma state_calls_subseq_iff:
  assumes "unat (sn_uptime_ms snap) < 10 ^ 19"
  shows "subseq (state_calls (session_context cfg) snap) (publish_state a NOSTD_FW_VERSION snap) \<longleftrightarrow>
    mq_base_topic (cf_mqtt (ap_config a)) = mq_base_topic (cf_mqtt cfg)"
proof
  assume "subseq (state_calls (session_context cfg) snap) (publish_state a NOSTD_FW_VERSION snap)"
  then have "set (state_calls (session_context cfg) snap) \<subseteq> set (publish_state a NOSTD_FW_VERSION snap)"
    by (auto dest: list_emb_set)
  then have "sensor_state_topic (session_context cfg) ''uptime'' \<in>
      set (concat (map call_topic (publish_state a NOSTD_FW_VERSION snap)))"
    by (force simp: state_calls_def)
  then obtain k where "sensor_state_topic (session_context cfg) ''uptime'' =
      sensor_state_topic (mqtt_context (ap_config a) NOSTD_FW_VERSION) k" "CHR ''/'' \<notin> set k"
    by (rule published_bases)
  from state_topic_base [OF this(1) _ this(2)] show "mq_base_topic (cf_mqtt (ap_config a)) = mq_base_topic (cf_mqtt cfg)"
    by (simp add: session_context_def mqtt_context_def)
next
  assume "mq_base_topic (cf_mqtt (ap_config a)) = mq_base_topic (cf_mqtt cfg)"
  from state_calls_subseq [OF assms, of a] state_topics_base [OF this, of snap]
  show "subseq (state_calls (session_context cfg) snap) (publish_state a NOSTD_FW_VERSION snap)"
    by simp
qed

text \<open>A recording client, and messages that arrive faster than the timer.\<close>

definition record_call :: "mqtt_call list \<Rightarrow> mqtt_call \<Rightarrow> mqtt_call list \<times> bool" where
  "record_call c m = (c @ [m], True)"

lemma send_record: "send_calls record_call ms c = (c @ ms, True)"
  by (induction ms arbitrary: c) (simp_all add: record_call_def)

text \<open>The application at the passes of a session in which the timer wins.\<close>

fun timer_apps :: "('s, 't, 'd) env \<Rightarrow> string \<Rightarrow> ('s, 'd) serve_pass list \<Rightarrow> ('s, 'd) app \<Rightarrow> ('s, 'd) app list" where
  "timer_apps env base [] a = []"
| "timer_apps env base ((others, TimerWins) # ps) a = others a # timer_apps env base ps (others a)"
| "timer_apps env base ((others, Received topic payload) # ps) a =
    timer_apps env base ps (route_message env base topic payload (others a))"
| "timer_apps env base ((others, ReceiveFails) # ps) a = []"

lemma serve_loop_sends:
  "mq_client (fst (serve_loop env record_call cfg ps s)) = mq_client s @
     concat (map (\<lambda>a. state_calls (session_context cfg) (app_snapshot a)) (timer_apps env (mq_base_topic (cf_mqtt cfg)) ps (mq_app s)))"
proof (induction ps arbitrary: s)
  case (Cons p ps)
  obtain others i where p: "p = (others, i)" by fastforce
  have r: "(case parse_command (mq_base_topic (cf_mqtt cfg)) topic payload of
       Some cmd \<Rightarrow> (x\<lparr>mq_app := fst (switch_command env (mq_app x) cmd)\<rparr>, True) | None \<Rightarrow> (x, True)) =
     (x\<lparr>mq_app := route_message env (mq_base_topic (cf_mqtt cfg)) topic payload (mq_app x)\<rparr>, True)"
    for topic payload and x :: "('a, 'b, mqtt_call list) mq_session"
    by (simp add: route_message_def split: option.split)
  show ?case
    by (cases i) (simp_all add: p serve_round_def send_record r Cons.IH Let_def)
qed simp

section \<open>Properties\<close>

text \<open>C40. Both firmwares present the same device to the broker, as long as the base topic is not changed
  during a session. Whatever the other tasks do while a session of the no_std firmware runs: it
  sends, first, the messages the shared integration sends on connection, for the configuration in
  force then and in the same order; and then, each time the timer wins, one update, made from the
  snapshot of that moment but with the topics of the configuration of the start. An update is a
  subsequence of what the shared integration publishes at that moment, with the same topics and
  payloads, exactly when the base topic is still the one of the start (for the first 300 million
  years of uptime, after which the number no longer fits its buffer).\<close>

theorem nostd_mqtt_agrees:
  assumes "cfg = ap_config (mq_app s)" "ctx = session_context cfg"
    and "as = timer_apps env (mq_base_topic (cf_mqtt cfg)) ps (mq_app s)"
    and "\<forall>a \<in> set as. unat (sn_uptime_ms (app_snapshot a)) < 10 ^ 19"
  shows "mq_client (fst (run_session env enc record_call True True ps s)) =
      mq_client s @ connect_calls enc cfg @ concat (map (\<lambda>a. state_calls ctx (app_snapshot a)) as) \<and>
    connect_calls enc cfg @ [CSetHandler (mq_base_topic (cf_mqtt cfg))] = on_connect enc (mq_app s) NOSTD_FW_VERSION \<and>
    (\<forall>a \<in> set as. subseq (state_calls ctx (app_snapshot a)) (publish_state a NOSTD_FW_VERSION (app_snapshot a)) \<longleftrightarrow>
       mq_base_topic (cf_mqtt (ap_config a)) = mq_base_topic (cf_mqtt cfg))"
proof -
  have "mq_client (fst (run_session env enc record_call True True ps s)) =
      mq_client s @ connect_calls enc cfg @ concat (map (\<lambda>a. state_calls ctx (app_snapshot a)) as)"
    by (simp add: run_session_def send_record Let_def serve_loop_sends assms(1-3))
  moreover have "connect_calls enc cfg @ [CSetHandler (mq_base_topic (cf_mqtt cfg))] = on_connect enc (mq_app s) NOSTD_FW_VERSION"
    by (simp add: connect_calls_def on_connect_def session_context_core Let_def assms(1))
  ultimately show ?thesis
    using assms(4) state_calls_subseq_iff unfolding assms(2) by blast
qed

definition sample_session :: "(fake_nvs, webhook_event list, mqtt_call list) mq_session" where
  "sample_session = \<lparr>mq_app = app_new (sample_env (\<lambda>_. 0)) sample_config, mq_client = [], mq_up = False\<rparr>"

text \<open>Two updates, the second after the base topic has been changed through the web interface.\<close>

definition other_base :: "(fake_nvs, webhook_event list) app \<Rightarrow> (fake_nvs, webhook_event list) app" where
  "other_base a = a\<lparr>ap_config := (ap_config a)\<lparr>cf_mqtt := (cf_mqtt (ap_config a))\<lparr>mq_base_topic := ''garden''\<rparr>\<rparr>\<rparr>"

lemma nostd_mqtt_agrees_witness:
  "let a = mq_app sample_session; ctx = session_context sample_config in
   mq_client (fst (run_session (sample_env (\<lambda>_. 0)) (\<lambda>_. []) record_call True True
     [(id, TimerWins), (other_base, TimerWins)] sample_session)) =
     connect_calls (\<lambda>_. []) sample_config @ state_calls ctx (app_snapshot a) @ state_calls ctx (app_snapshot (other_base a)) \<and>
   subseq (state_calls ctx (app_snapshot a)) (publish_state a NOSTD_FW_VERSION (app_snapshot a)) \<and>
   \<not> subseq (state_calls ctx (app_snapshot (other_base a)))
      (publish_state (other_base a) NOSTD_FW_VERSION (app_snapshot (other_base a)))"
proof -
  let ?a = "mq_app sample_session" and ?ps = "[(id, TimerWins), (other_base, TimerWins)]"
  have c: "ap_config ?a = sample_config" "mq_client sample_session = []" "unat (sn_uptime_ms (app_snapshot ?a)) < 10 ^ 19"
    by (simp_all add: sample_session_def app_new_def app_with_nvs_def app_snapshot_def device_state_new_def Let_def
        state_snapshot_def default_snapshot_def)
  have s: "app_snapshot (other_base ?a) = app_snapshot ?a"
    by (simp add: other_base_def app_snapshot_def)
  have b: "mq_base_topic (cf_mqtt sample_config) \<noteq> ''garden''"
    by (simp add: sample_config_def default_mqtt_config_def)
  from nostd_mqtt_agrees [OF refl refl refl, where env = "sample_env (\<lambda>_. 0)" and ps = ?ps and s = sample_session
      and enc = "\<lambda>_. []"]
  show ?thesis
    using c s b by (simp add: other_base_def Let_def)
qed

text \<open>The outcomes of \<open>select\<close> for messages that come the given number of milliseconds after each
  other: the timer of five seconds starts again in every pass.\<close>

fun arrivals :: "(nat \<times> string \<times> bytes) list \<Rightarrow> ('s, 'd) serve_pass list" where
  "arrivals [] = []"
| "arrivals ((gap, topic, payload) # ms) =
     replicate (gap div 5000) (id, TimerWins) @ (id, Received topic payload) # arrivals ms"

lemma starved:
  "list_all (\<lambda>(gap, _). gap < 5000) ms \<Longrightarrow>
     \<exists>a. serve_loop env record_call cfg (arrivals ms) s = (s\<lparr>mq_app := a\<rparr>, True)"
proof (induction ms arbitrary: s)
  case Nil
  then show ?case by (intro exI [of _ "mq_app s"]) simp
next
  case (Cons m ms)
  obtain gap topic payload where m: "m = (gap, topic, payload)" by (cases m)
  obtain a where r: "serve_round env record_call cfg (Received topic payload) s = (s\<lparr>mq_app := a\<rparr>, True)"
    by (cases "parse_command (mq_base_topic (cf_mqtt cfg)) topic payload")
      (auto simp: serve_round_def intro: that [of "mq_app s"])
  from Cons.IH [of "s\<lparr>mq_app := a\<rparr>"] Cons.prems m r show ?case by auto
qed

text \<open>Traffic starves the state updates: while messages keep arriving less than five seconds apart, a
  session of the no_std firmware never publishes the state of the device, commands or not.\<close>

theorem nostd_mqtt_starved:
  assumes "list_all (\<lambda>(gap, _). gap < 5000) ms"
  shows "mq_client (fst (run_session env enc record_call True True (arrivals ms) s)) =
    mq_client s @ connect_calls enc (ap_config (mq_app s))"
proof -
  let ?s = "s\<lparr>mq_up := True, mq_client := mq_client s @ connect_calls enc (ap_config (mq_app s))\<rparr>"
  from starved [OF assms, of env "ap_config (mq_app s)" ?s] obtain a where
    "serve_loop env record_call (ap_config (mq_app s)) (arrivals ms) ?s = (?s\<lparr>mq_app := a\<rparr>, True)" ..
  then show ?thesis by (simp add: run_session_def send_record Let_def)
qed

lemma nostd_mqtt_starved_witness:
  "mq_client (fst (run_session (sample_env (\<lambda>_. 0)) (\<lambda>_. []) record_call True True
       (arrivals [(4000, ''garden/water_control/set'', bytes_of ''ON''), (4999, ''x'', [])]) sample_session)) =
   mq_client sample_session @ connect_calls (\<lambda>_. []) (ap_config (mq_app sample_session))"
  by (rule nostd_mqtt_starved) simp

end
