(* ===== verification/Host_Server.thy ===== *)
theory Host_Server
  imports Http_Server
begin

text \<open>
  The web server of the host simulator, \<open>crates/host/src/http.rs\<close>, against which the web interface is
  tested. One definition per handler; axum decodes the request before the handler, so a handler gets
  values. Its extractor \<open>Json\<close> first asks for a \<open>Content-Type\<close> that is JSON and answers 415 otherwise; a body
  that does not decode is answered with a status of axum's (\<open>ax_reject\<close>). The decoders are those of
  \<open>http_env\<close>; the simulator asks for no token and has no store. The tick task of \<open>main.rs\<close> is here as
  well. The log stream is in theory \<open>Log_Streams\<close>.
\<close>

section \<open>State and handlers\<close>

record ('s, 'd, 'w) host =
  ho_app :: "('s, 'd) app"
  ho_wifi :: 'w

text \<open>\<open>host_replace\<close>: the common end of the section handlers.\<close>

definition host_replace :: "('s, 't, 'd) env \<Rightarrow> config \<Rightarrow> ('s, 'd, 'w) host \<Rightarrow> ('s, 'd, 'w) host \<times> reply" where
  "host_replace env cfg h = (h\<lparr>ho_app := replace_config env (ho_app h) cfg\<rparr>, Reply 204 [] NoBody)"

definition host_json :: "body \<Rightarrow> reply" where
  "host_json b = Reply 200 JSON_CT b"

definition host_get_wifi_scan :: "'w wifi_ops \<Rightarrow> ('s, 'd, 'w) host \<Rightarrow> ('s, 'd, 'w) host \<times> reply" where
  "host_get_wifi_scan ops h = (case wi_scan ops (ho_wifi h) of
      (w, Inr networks) \<Rightarrow> (h\<lparr>ho_wifi := w\<rparr>, host_json (ScanBody \<lparr>ws_networks = networks\<rparr>))
    | (w, Inl msg) \<Rightarrow> (h\<lparr>ho_wifi := w\<rparr>, Reply 503 JSON_CT (ErrorBody (api_error_new msg))))"

definition host_post_wifi_reconnect :: "'w wifi_ops \<Rightarrow> ('s, 'd, 'w) host \<Rightarrow> ('s, 'd, 'w) host \<times> reply" where
  "host_post_wifi_reconnect ops h = (h\<lparr>ho_wifi := wi_reconnect ops (ho_wifi h)\<rparr>, Reply 204 [] NoBody)"

definition host_get_flow_alarm :: "('s, 'd, 'w) host \<Rightarrow> reply" where
  "host_get_flow_alarm h = host_json (SectionBody (FlowAlarmSec (cf_flow_alarm (ap_config (ho_app h)))))"

definition host_put_flow_alarm :: "('s, 't, 'd) env \<Rightarrow> flow_alarm_config \<Rightarrow> ('s, 'd, 'w) host \<Rightarrow> ('s, 'd, 'w) host \<times> reply" where
  "host_put_flow_alarm env new h = (let cfg = ap_config (ho_app h) in host_replace env (cfg\<lparr>cf_flow_alarm := new\<rparr>) h)"

definition host_post_alarm_clear :: "('s, 't, 'd) env \<Rightarrow> ('s, 'd, 'w) host \<Rightarrow> ('s, 'd, 'w) host \<times> reply" where
  "host_post_alarm_clear env h = (h\<lparr>ho_app := clear_flow_alarm env (ho_app h)\<rparr>, Reply 204 [] NoBody)"

definition host_get_alarm_history :: "('s, 'd, 'w) host \<Rightarrow> reply" where
  "host_get_alarm_history h = host_json (HistoryBody (alarm_history (ho_app h)))"

definition host_get_webhooks :: "('s, 'd, 'w) host \<Rightarrow> reply" where
  "host_get_webhooks h = host_json (SectionBody (WebhooksSec (cf_webhooks (ap_config (ho_app h)))))"

definition host_put_webhooks :: "('s, 't, 'd) env \<Rightarrow> webhook_config list \<Rightarrow> ('s, 'd, 'w) host \<Rightarrow> ('s, 'd, 'w) host \<times> reply" where
  "host_put_webhooks env new h =
    (let new = take WEBHOOKS_MAX new; cfg = (ap_config (ho_app h))\<lparr>cf_webhooks := new\<rparr>
     in (h\<lparr>ho_app := replace_config_section env (ho_app h) cfg ''webhooks''\<rparr>, Reply 204 [] NoBody))"

definition host_post_webhooks_test ::
    "('s, 't, 'd) env \<Rightarrow> event_kind \<times> vars \<Rightarrow> ('s, 'd, 'w) host \<Rightarrow> ('s, 'd, 'w) host \<times> reply" where
  "host_post_webhooks_test env tr h = (case tr of (kind, vs) \<Rightarrow>
     (h\<lparr>ho_app := emit_event env (ho_app h) ((event_new kind)\<lparr>we_vars := vs\<rparr>)\<rparr>, Reply 202 [] NoBody))"

definition host_post_factory_reset :: reply where
  "host_post_factory_reset =
     Reply 501 JSON_CT (ErrorBody (api_error_new ''factory reset is only implemented on real devices''))"

definition host_index :: reply where
  "host_index = Reply 200 HTML_CT IndexHtml"

definition host_get_status :: "('s, 'd, 'w) host \<Rightarrow> reply" where
  "host_get_status h = host_json (StatusBody (app_snapshot (ho_app h)))"

text \<open>The query is its list of keys.\<close>

definition host_get_config :: "string list \<Rightarrow> ('s, 'd, 'w) host \<Rightarrow> reply" where
  "host_get_config query h =
    (if ''all'' \<in> set query then host_json (ConfigBody (ap_config (ho_app h)))
     else host_json (ConfigBody (redact_secrets_for_api (ap_config (ho_app h)))))"

definition host_put_config :: "('s, 't, 'd) env \<Rightarrow> config \<Rightarrow> ('s, 'd, 'w) host \<Rightarrow> ('s, 'd, 'w) host \<times> reply" where
  "host_put_config env u h = host_replace env (merge_preserving_secrets (ap_config (ho_app h)) u) h"

definition host_post_switch :: "('s, 't, 'd) env \<Rightarrow> switch_command \<Rightarrow> ('s, 'd, 'w) host \<Rightarrow> ('s, 'd, 'w) host \<times> reply" where
  "host_post_switch env cmd h =
    (let (a, outcome) = switch_command env (ho_app h) cmd;
         status = (case outcome of CmdOk \<Rightarrow> 200 | CmdBusy _ \<Rightarrow> 409)
     in (h\<lparr>ho_app := a\<rparr>, Reply status JSON_CT (OutcomeBody outcome)))"

definition host_get_wifi :: "('s, 'd, 'w) host \<Rightarrow> reply" where
  "host_get_wifi h = host_json (SectionBody (WifiSec (cf_wifi (redact_secrets_for_api (ap_config (ho_app h))))))"

definition host_put_wifi ::
    "('s, 't, 'd) env \<Rightarrow> 'w wifi_ops \<Rightarrow> wifi_config \<Rightarrow> ('s, 'd, 'w) host \<Rightarrow> ('s, 'd, 'w) host \<times> reply" where
  "host_put_wifi env ops new h =
    (let cfg = ap_config (ho_app h);
         nets = map (\<lambda>net. if wc_password net = [] then
             (case find (\<lambda>n. wc_ssid n = wc_ssid net) (wf_networks (cf_wifi cfg)) of
                Some old \<Rightarrow> net\<lparr>wc_password := wc_password old\<rparr> | None \<Rightarrow> net) else net) (wf_networks new);
         cfg = cfg\<lparr>cf_wifi := new\<lparr>wf_networks := nets\<rparr>\<rparr>;
         networks = wf_networks (cf_wifi cfg);
         (h, r) = host_replace env cfg h
     in (h\<lparr>ho_wifi := wi_connect ops (ho_wifi h) networks\<rparr>, r))"

definition host_get_mqtt :: "('s, 'd, 'w) host \<Rightarrow> reply" where
  "host_get_mqtt h = host_json (SectionBody (MqttSec (cf_mqtt (redact_secrets_for_api (ap_config (ho_app h))))))"

definition host_put_mqtt :: "('s, 't, 'd) env \<Rightarrow> mqtt_config \<Rightarrow> ('s, 'd, 'w) host \<Rightarrow> ('s, 'd, 'w) host \<times> reply" where
  "host_put_mqtt env new h =
    (let cfg = ap_config (ho_app h);
         new = (if mq_password new = [] then new\<lparr>mq_password := mq_password (cf_mqtt cfg)\<rparr> else new);
         new = (if mq_client_key_pem new = [] then new\<lparr>mq_client_key_pem := mq_client_key_pem (cf_mqtt cfg)\<rparr> else new)
     in host_replace env (cfg\<lparr>cf_mqtt := new\<rparr>) h)"

definition host_get_switches :: "('s, 'd, 'w) host \<Rightarrow> reply" where
  "host_get_switches h = host_json (SectionBody (SwitchesSec (cf_switches (ap_config (ho_app h)))))"

definition host_put_switches :: "('s, 't, 'd) env \<Rightarrow> switches_config \<Rightarrow> ('s, 'd, 'w) host \<Rightarrow> ('s, 'd, 'w) host \<times> reply" where
  "host_put_switches env new h = (let cfg = ap_config (ho_app h) in host_replace env (cfg\<lparr>cf_switches := new\<rparr>) h)"

definition host_get_sensors :: "('s, 'd, 'w) host \<Rightarrow> reply" where
  "host_get_sensors h = host_json (SectionBody (SensorsSec (cf_sensors (ap_config (ho_app h)))))"

definition host_put_sensors :: "('s, 't, 'd) env \<Rightarrow> sensors_config \<Rightarrow> ('s, 'd, 'w) host \<Rightarrow> ('s, 'd, 'w) host \<times> reply" where
  "host_put_sensors env new h = (let cfg = ap_config (ho_app h) in host_replace env (cfg\<lparr>cf_sensors := new\<rparr>) h)"

definition host_get_schedule :: "('s, 'd, 'w) host \<Rightarrow> reply" where
  "host_get_schedule h = host_json (SectionBody (ScheduleSec (cf_schedule (ap_config (ho_app h)))))"

definition host_put_schedule :: "('s, 't, 'd) env \<Rightarrow> schedule \<Rightarrow> ('s, 'd, 'w) host \<Rightarrow> ('s, 'd, 'w) host \<times> reply" where
  "host_put_schedule env new h = (let cfg = ap_config (ho_app h) in host_replace env (cfg\<lparr>cf_schedule := new\<rparr>) h)"

definition host_get_https :: "('s, 'd, 'w) host \<Rightarrow> reply" where
  "host_get_https h = host_json (SectionBody (HttpsSec (cf_https (redact_secrets_for_api (ap_config (ho_app h))))))"

definition host_put_https :: "('s, 't, 'd) env \<Rightarrow> https_config \<Rightarrow> ('s, 'd, 'w) host \<Rightarrow> ('s, 'd, 'w) host \<times> reply" where
  "host_put_https env new h =
    (let cfg = ap_config (ho_app h);
         new = (if hs_key_pem new = [] then new\<lparr>hs_key_pem := hs_key_pem (cf_https cfg)\<rparr> else new)
     in host_replace env (cfg\<lparr>cf_https := new\<rparr>) h)"

definition host_get_wg :: "('s, 'd, 'w) host \<Rightarrow> reply" where
  "host_get_wg h = host_json (SectionBody (WireguardSec (cf_wireguard (redact_secrets_for_api (ap_config (ho_app h))))))"

definition host_put_wg :: "('s, 't, 'd) env \<Rightarrow> wireguard_config \<Rightarrow> ('s, 'd, 'w) host \<Rightarrow> ('s, 'd, 'w) host \<times> reply" where
  "host_put_wg env new h =
    (let cfg = ap_config (ho_app h);
         new = (if wg_private_key new = [] then new\<lparr>wg_private_key := wg_private_key (cf_wireguard cfg)\<rparr> else new);
         new = (if wg_peer_preshared_key new = []
           then new\<lparr>wg_peer_preshared_key := wg_peer_preshared_key (cf_wireguard cfg)\<rparr> else new)
     in host_replace env (cfg\<lparr>cf_wireguard := new\<rparr>) h)"

definition host_get_time :: "('s, 'd, 'w) host \<Rightarrow> reply" where
  "host_get_time h = (let cfg = ap_config (ho_app h) in
     host_json (SectionBody (TimeSec \<lparr>ti_timezone = cf_timezone cfg, ti_sntp_servers = cf_sntp_servers cfg\<rparr>)))"

definition host_put_time :: "('s, 't, 'd) env \<Rightarrow> time_section \<Rightarrow> ('s, 'd, 'w) host \<Rightarrow> ('s, 'd, 'w) host \<times> reply" where
  "host_put_time env new h =
    (let cfg = ap_config (ho_app h);
         cfg = cfg\<lparr>cf_timezone := ti_timezone new\<rparr>;
         cfg = cfg\<lparr>cf_sntp_servers := ti_sntp_servers new\<rparr>
     in host_replace env cfg h)"

definition host_get_auth :: reply where
  "host_get_auth = host_json (SectionBody (AuthSec \<lparr>au_admin_token = []\<rparr>))"

definition host_put_auth :: "('s, 't, 'd) env \<Rightarrow> auth_section \<Rightarrow> ('s, 'd, 'w) host \<Rightarrow> ('s, 'd, 'w) host \<times> reply" where
  "host_put_auth env new h =
    (let cfg = ap_config (ho_app h);
         cfg = (if au_admin_token new \<noteq> [] then cfg\<lparr>cf_admin_token := au_admin_token new\<rparr> else cfg)
     in host_replace env cfg h)"

section \<open>The router\<close>

definition host_get :: "'w wifi_ops \<Rightarrow> string \<Rightarrow> string list \<Rightarrow> ('s, 'd, 'w) host \<Rightarrow> ('s, 'd, 'w) host \<times> reply" where
  "host_get ops p query h =
    (if p = WIFI_SCAN then host_get_wifi_scan ops h
     else (h,
       if p = ''/'' then host_index
       else if p = STATUS then host_get_status h
       else if p = CONFIG then host_get_config query h
       else if p = ''/api/config/wifi'' then host_get_wifi h
       else if p = ''/api/config/mqtt'' then host_get_mqtt h
       else if p = ''/api/config/switches'' then host_get_switches h
       else if p = ''/api/config/sensors'' then host_get_sensors h
       else if p = ''/api/config/schedule'' then host_get_schedule h
       else if p = ''/api/config/https'' then host_get_https h
       else if p = ''/api/config/wireguard'' then host_get_wg h
       else if p = ''/api/config/time'' then host_get_time h
       else if p = ''/api/config/auth'' then host_get_auth
       else if p = ''/api/config/flow_alarm'' then host_get_flow_alarm h
       else if p = ''/api/config/webhooks'' then host_get_webhooks h
       else if p = ALARM_HISTORY then host_get_alarm_history h
       else NoHandler))"

text \<open>The extractor in front of a handler. What is axum's is a parameter: which values of the header are
  a JSON media type (\<open>application/json\<close> with or without parameters, or a subtype ending in \<open>+json\<close>),
  and the status for a body that does not decode.\<close>

record 'j axum =
  ax_json :: "string \<Rightarrow> bool"
  ax_reject :: "'j \<Rightarrow> nat"

definition json_typed :: "'j axum \<Rightarrow> string option \<Rightarrow> bool" where
  "json_typed ax content_type = (case content_type of None \<Rightarrow> False | Some v \<Rightarrow> ax_json ax v)"

definition json_body ::
    "'j axum \<Rightarrow> string option \<Rightarrow> 'j + 'x \<Rightarrow> ('x \<Rightarrow> ('s, 'd, 'w) host \<Rightarrow> ('s, 'd, 'w) host \<times> reply) \<Rightarrow>
     ('s, 'd, 'w) host \<Rightarrow> ('s, 'd, 'w) host \<times> reply" where
  "json_body ax content_type d handler h =
    (if \<not> json_typed ax content_type then (h, Reply 415 [] NoBody)
     else case d of Inl e \<Rightarrow> (h, Reply (ax_reject ax e) [] NoBody) | Inr x \<Rightarrow> handler x h)"

definition host_put ::
    "('s, 't, 'd, 'w, 'o, 'j) http_env \<Rightarrow> 'j axum \<Rightarrow> string option \<Rightarrow> string \<Rightarrow> bytes \<Rightarrow> ('s, 'd, 'w) host \<Rightarrow>
     ('s, 'd, 'w) host \<times> reply" where
  "host_put he ax ct p b h = (let env = he_env he in
     if p = CONFIG then json_body ax ct (cc_dec (he_codec he) b) (host_put_config env) h
     else if p = ''/api/config/wifi'' then json_body ax ct (he_dec_wifi he b) (host_put_wifi env (he_wifi he)) h
     else if p = ''/api/config/mqtt'' then json_body ax ct (he_dec_mqtt he b) (host_put_mqtt env) h
     else if p = ''/api/config/switches'' then json_body ax ct (he_dec_switches he b) (host_put_switches env) h
     else if p = ''/api/config/sensors'' then json_body ax ct (he_dec_sensors he b) (host_put_sensors env) h
     else if p = ''/api/config/schedule'' then json_body ax ct (he_dec_schedule he b) (host_put_schedule env) h
     else if p = ''/api/config/https'' then json_body ax ct (he_dec_https he b) (host_put_https env) h
     else if p = ''/api/config/wireguard'' then json_body ax ct (he_dec_wireguard he b) (host_put_wg env) h
     else if p = ''/api/config/time'' then json_body ax ct (he_dec_time he b) (host_put_time env) h
     else if p = ''/api/config/auth'' then json_body ax ct (he_dec_auth he b) (host_put_auth env) h
     else if p = ''/api/config/flow_alarm'' then json_body ax ct (he_dec_flow_alarm he b) (host_put_flow_alarm env) h
     else if p = ''/api/config/webhooks'' then json_body ax ct (he_dec_webhooks he b) (host_put_webhooks env) h
     else (h, NoHandler))"

definition host_post_route ::
    "('s, 't, 'd, 'w, 'o, 'j) http_env \<Rightarrow> 'j axum \<Rightarrow> string option \<Rightarrow> string \<Rightarrow> bytes \<Rightarrow> ('s, 'd, 'w) host \<Rightarrow>
     ('s, 'd, 'w) host \<times> reply" where
  "host_post_route he ax ct p b h = (let env = he_env he in
     if p = SWITCH then json_body ax ct (he_switch he b) (host_post_switch env) h
     else if p = FACTORY_RESET then (h, host_post_factory_reset)
     else if p = ''/api/wifi/reconnect'' then host_post_wifi_reconnect (he_wifi he) h
     else if p = ALARM_CLEAR then host_post_alarm_clear env h
     else if p = WEBHOOKS_TEST then json_body ax ct (he_test he b) (host_post_webhooks_test env) h
     else (h, NoHandler))"

section \<open>The tick task\<close>

text \<open>One pass, every 10 ms: the tick, whose outputs nobody drives, and the readings of the dashboard.\<close>

definition host_tick :: "('s, 't, 'd) env \<Rightarrow> u64 \<Rightarrow> string \<Rightarrow> ('s, 'd) app \<Rightarrow> ('s, 'd) app" where
  "host_tick env ms version a =
    app_update_state (fst (app_tick env a)) (\<lambda>s. s\<lparr>sn_uptime_ms := ms,
       sn_firmware_version := (if sn_firmware_version s = [] then version else sn_firmware_version s),
       sn_network := (sn_network s)\<lparr>net_wifi := (case net_wifi (sn_network s) of
           None \<Rightarrow> Some (Connected ''host-dev'' ''127.0.0.1'') | Some w \<Rightarrow> Some w)\<rparr>\<rparr>)"

section \<open>The fake radio and the start\<close>

definition fake_wifi_connected_to :: "string \<Rightarrow> string \<Rightarrow> wifi_state" where
  "fake_wifi_connected_to ssid ip = Connected ssid ip"

definition fake_wifi_scan :: "wifi_scan_result list" where
  "fake_wifi_scan =
    [\<lparr>ws_ssid = ''FakeNet-2.4G'', ws_rssi_dbm = -52, ws_auth = ''wpa2'', ws_channel = 6\<rparr>,
     \<lparr>ws_ssid = ''FakeNet-Guest'', ws_rssi_dbm = -67, ws_auth = ''open'', ws_channel = 1\<rparr>]"

definition fake_wifi_ops :: "wifi_state wifi_ops" where
  "fake_wifi_ops = \<lparr>wi_connect = \<lambda>w networks. w, wi_reconnect = \<lambda>w. w, wi_scan = \<lambda>w. (w, Inr fake_wifi_scan)\<rparr>"

definition host_main :: "('s, 't, 'd) env \<Rightarrow> config \<Rightarrow> 'd \<Rightarrow> ('s, 'd, wifi_state) host" where
  "host_main env dflt dispatcher =
    \<lparr>ho_app = set_webhook_dispatcher (app_new env dflt) dispatcher,
     ho_wifi = fake_wifi_connected_to ''host-dev'' ''127.0.0.1''\<rparr>"

section \<open>Lemmas\<close>

text \<open>When the firmware acknowledges a write, the configuration it runs is the merged one.\<close>

lemma saved_runs:
  "save_and_replace he req cfg sv = (sv', Reply 204 hs b) \<Longrightarrow> ap_config (sv_app sv') = cfg"
  by (auto simp: save_and_replace_def send_error_def send_def replace_config_def split: prod.splits sum.splits if_splits)

lemma put_config_acknowledged:
  assumes "put_config he req sv = (sv', Reply 204 hs b)" "read_body (rq_reads req) [] = Complete buf"
  shows "\<exists>u. cc_dec (he_codec he) buf = Inr u \<and> ap_config (sv_app sv') = merge_preserving_secrets (ap_config (sv_app sv)) u"
  using assms saved_runs [of he req _ sv sv' hs b]
  by (auto simp: put_config_def write_unauthorized_def send_error_def send_def split: if_splits sum.splits)

lemma section_acknowledged:
  assumes "section_put he dec ap req sv = (sv', Reply 204 hs b)" "read_body (rq_reads req) [] = Complete buf"
  shows "\<exists>x. dec buf = Inr x \<and> ap_config (sv_app sv') = fst (ap (ap_config (sv_app sv)) x (sv_wifi sv))"
  using assms saved_runs [of he req _ _ sv' hs b]
  by (auto simp: section_put_def write_unauthorized_def send_error_def send_def Let_def
      split: if_splits sum.splits prod.splits)

lemma host_replace_config [simp]:
  "ap_config (ho_app (fst (host_replace env cfg h))) = cfg" "snd (host_replace env cfg h) = Reply 204 [] NoBody"
  by (simp_all add: host_replace_def replace_config_def)

lemma host_put_sections:
  "ap_config (ho_app (fst (host_put_config env u h))) = merge_preserving_secrets (ap_config (ho_app h)) u"
  "ap_config (ho_app (fst (host_put_wifi env ops w h))) = fst (apply_wifi ops' (ap_config (ho_app h)) w v)"
  "ap_config (ho_app (fst (host_put_mqtt env m h))) = apply_mqtt (ap_config (ho_app h)) m"
  "ap_config (ho_app (fst (host_put_switches env sw h))) = apply_switches (ap_config (ho_app h)) sw"
  "ap_config (ho_app (fst (host_put_sensors env se h))) = apply_sensors (ap_config (ho_app h)) se"
  "ap_config (ho_app (fst (host_put_schedule env sc h))) = apply_schedule (ap_config (ho_app h)) sc"
  "ap_config (ho_app (fst (host_put_https env hc h))) = apply_https (ap_config (ho_app h)) hc"
  "ap_config (ho_app (fst (host_put_wg env wg h))) = apply_wireguard (ap_config (ho_app h)) wg"
  "ap_config (ho_app (fst (host_put_time env ti h))) = apply_time (ap_config (ho_app h)) ti"
  "ap_config (ho_app (fst (host_put_auth env au h))) = apply_auth (ap_config (ho_app h)) au"
  "ap_config (ho_app (fst (host_put_flow_alarm env fa h))) = apply_flow_alarm (ap_config (ho_app h)) fa"
  "ap_config (ho_app (fst (host_put_webhooks env wh h))) = apply_webhooks (ap_config (ho_app h)) wh"
  by (simp_all add: host_put_config_def host_put_wifi_def host_put_mqtt_def host_put_switches_def
      host_put_sensors_def host_put_schedule_def host_put_https_def host_put_wg_def host_put_time_def
      host_put_auth_def host_put_flow_alarm_def host_put_webhooks_def apply_wifi_def apply_mqtt_def
      apply_switches_def apply_sensors_def apply_schedule_def apply_https_def apply_wireguard_def
      apply_time_def apply_auth_def apply_flow_alarm_def apply_webhooks_def keep_if_empty_def
      restore_network_def [abs_def] host_replace_def replace_config_def Let_def)

lemma host_put_204:
  "snd (host_put_config env u h) = Reply 204 [] NoBody" "snd (host_put_wifi env ops w h) = Reply 204 [] NoBody"
  "snd (host_put_mqtt env m h) = Reply 204 [] NoBody" "snd (host_put_switches env sw h) = Reply 204 [] NoBody"
  "snd (host_put_sensors env se h) = Reply 204 [] NoBody" "snd (host_put_schedule env sc h) = Reply 204 [] NoBody"
  "snd (host_put_https env hc h) = Reply 204 [] NoBody" "snd (host_put_wg env wg h) = Reply 204 [] NoBody"
  "snd (host_put_time env ti h) = Reply 204 [] NoBody" "snd (host_put_auth env au h) = Reply 204 [] NoBody"
  "snd (host_put_flow_alarm env fa h) = Reply 204 [] NoBody" "snd (host_put_webhooks env wh h) = Reply 204 [] NoBody"
  by (simp_all add: host_put_config_def host_put_wifi_def host_put_mqtt_def host_put_switches_def
      host_put_sensors_def host_put_schedule_def host_put_https_def host_put_wg_def host_put_time_def
      host_put_auth_def host_put_flow_alarm_def host_put_webhooks_def host_replace_def Let_def)

text \<open>\<open>mirrors typed h f g\<close>: if the firmware's result \<open>f\<close> is an acknowledged write that ends in some server,
  the simulator's result \<open>g\<close>, from the state \<open>h\<close>, is an acknowledged one with the same configuration when
  the request is typed as JSON, and a refusal that changes nothing when it is not.\<close>

definition mirrors :: "bool \<Rightarrow> ('s, 'd, 'w) host \<Rightarrow> ('s, 'd, 'w, 'o) server \<times> reply \<Rightarrow> ('s, 'd, 'w) host \<times> reply \<Rightarrow> bool" where
  "mirrors typed h f g \<longleftrightarrow> (\<forall>sv' hs b. f = (sv', Reply 204 hs b) \<longrightarrow>
     (if typed then snd g = Reply 204 [] NoBody \<and> ap_config (ho_app (fst g)) = ap_config (sv_app sv')
      else g = (h, Reply 415 [] NoBody)))"

lemma if_mirrors: "mirrors ty h f g \<Longrightarrow> mirrors ty h f' g' \<Longrightarrow> mirrors ty h (if c then f else f') (if c then g else g')"
  by simp

lemma mirrors_no_handler: "mirrors ty h (sv, NoHandler) g"
  by (simp add: mirrors_def)

lemma mirrors_section:
  assumes "read_body (rq_reads req) [] = Complete buf"
    and "\<And>x. snd (handler x h) = Reply 204 [] NoBody \<and>
      ap_config (ho_app (fst (handler x h))) = fst (ap (ap_config (sv_app sv)) x (sv_wifi sv))"
  shows "mirrors (json_typed ax ct) h (section_put he dec ap req sv) (json_body ax ct (dec buf) handler h)"
  unfolding mirrors_def using section_acknowledged [OF _ assms(1)] assms(2)
  by (fastforce simp: json_body_def)

lemma mirrors_config:
  assumes "read_body (rq_reads req) [] = Complete buf" "ap_config (ho_app h) = ap_config (sv_app sv)"
  shows "mirrors (json_typed ax ct) h (put_config he req sv)
    (json_body ax ct (cc_dec (he_codec he) buf) (host_put_config env) h)"
  unfolding mirrors_def using put_config_acknowledged [OF _ assms(1)] assms(2)
  by (fastforce simp: json_body_def host_put_sections host_put_204)

lemma mirrors_put:
  assumes "read_body (rq_reads req) [] = Complete buf" "ap_config (ho_app h) = ap_config (sv_app sv)"
  shows "mirrors (json_typed ax ct) h (put_route he req sv) (host_put he ax ct (rq_path req) buf h)"
  unfolding put_route_def host_put_def Let_def
  by (intro if_mirrors mirrors_config mirrors_section mirrors_no_handler assms)
    (simp_all add: host_put_204 host_put_sections(1,3-12) host_put_sections(2) [where ops' = "he_wifi he" and v = "sv_wifi sv"] assms(2) plain_section_def)

lemma redacted_sections:
  "cf_switches (redact_secrets_for_api c) = cf_switches c" "cf_sensors (redact_secrets_for_api c) = cf_sensors c"
  "cf_schedule (redact_secrets_for_api c) = cf_schedule c" "cf_flow_alarm (redact_secrets_for_api c) = cf_flow_alarm c"
  "cf_webhooks (redact_secrets_for_api c) = cf_webhooks c" "cf_timezone (redact_secrets_for_api c) = cf_timezone c"
  "cf_sntp_servers (redact_secrets_for_api c) = cf_sntp_servers c"
  by (simp_all add: redact_secrets_for_api_def)

lemma sections_alike:
  "rq_writable req \<Longrightarrow> send req 200 JSON_CT b = host_json b"
  "host_get_wifi h = host_json (SectionBody (WifiSec (cf_wifi (redact_secrets_for_api (ap_config (ho_app h))))))"
  "host_get_mqtt h = host_json (SectionBody (MqttSec (cf_mqtt (redact_secrets_for_api (ap_config (ho_app h))))))"
  "host_get_switches h = host_json (SectionBody (SwitchesSec (cf_switches (redact_secrets_for_api (ap_config (ho_app h))))))"
  "host_get_sensors h = host_json (SectionBody (SensorsSec (cf_sensors (redact_secrets_for_api (ap_config (ho_app h))))))"
  "host_get_schedule h = host_json (SectionBody (ScheduleSec (cf_schedule (redact_secrets_for_api (ap_config (ho_app h))))))"
  "host_get_https h = host_json (SectionBody (HttpsSec (cf_https (redact_secrets_for_api (ap_config (ho_app h))))))"
  "host_get_wg h = host_json (SectionBody (WireguardSec (cf_wireguard (redact_secrets_for_api (ap_config (ho_app h))))))"
  "host_get_time h = host_json (SectionBody (TimeSec \<lparr>ti_timezone = cf_timezone (redact_secrets_for_api (ap_config (ho_app h))),
     ti_sntp_servers = cf_sntp_servers (redact_secrets_for_api (ap_config (ho_app h)))\<rparr>))"
  "host_get_auth = host_json (SectionBody (AuthSec \<lparr>au_admin_token = []\<rparr>))"
  "host_get_flow_alarm h = host_json (SectionBody (FlowAlarmSec (cf_flow_alarm (redact_secrets_for_api (ap_config (ho_app h))))))"
  "host_get_webhooks h = host_json (SectionBody (WebhooksSec (cf_webhooks (redact_secrets_for_api (ap_config (ho_app h))))))"
  by (simp_all add: redacted_sections send_def host_json_def host_get_wifi_def host_get_mqtt_def host_get_switches_def
      host_get_sensors_def host_get_schedule_def host_get_https_def host_get_wg_def host_get_time_def host_get_auth_def
      host_get_flow_alarm_def host_get_webhooks_def Let_def)

section \<open>Properties\<close>

text \<open>C38. The simulator behaves as the device, for requests typed as JSON: whenever the ESP-IDF firmware
  acknowledges a configuration write, on whatever route, the simulator started from the same
  configuration acknowledges the same request with 204 and then runs exactly the same
  configuration, secrets restored alike. The firmware never looks at the \<open>Content-Type\<close>: without one
  that is JSON it acknowledges the write all the same, and the simulator answers 415 and changes
  nothing.\<close>

theorem host_mirrors_firmware:
  assumes "read_body (rq_reads req) [] = Complete buf" "ap_config (ho_app h) = ap_config (sv_app sv)"
    and "http_handle he PUT req sv = (sv', Reply 204 hs b)"
  shows "if json_typed ax content_type
    then snd (host_put he ax content_type (rq_path req) buf h) = Reply 204 [] NoBody \<and>
      ap_config (ho_app (fst (host_put he ax content_type (rq_path req) buf h))) = ap_config (sv_app sv')
    else host_put he ax content_type (rq_path req) buf h = (h, Reply 415 [] NoBody)"
  using mirrors_put [OF assms(1,2), of ax content_type he] assms(3) by (simp add: mirrors_def)

definition sample_axum :: "unit axum" where
  "sample_axum = \<lparr>ax_json = \<lambda>v. v = ''application/json'', ax_reject = \<lambda>_. 400\<rparr>"

definition sample_host :: "(fake_nvs, webhook_event list, wifi_creds list list) host" where
  "sample_host = \<lparr>ho_app = sv_app (sample_server fake_nvs_ops fake_nvs_new sample_config), ho_wifi = []\<rparr>"

lemma host_mirrors_firmware_witness:
  "let he = sample_http_env fake_nvs_ops sample_config in
   snd (host_put he sample_axum (Some ''application/json'') CONFIG [] sample_host) = Reply 204 [] NoBody \<and>
   ap_config (ho_app (fst (host_put he sample_axum (Some ''application/json'') CONFIG [] sample_host))) = sample_config \<and>
   host_put he sample_axum None CONFIG [] sample_host = (sample_host, Reply 415 [] NoBody)"
proof -
  let ?he = "sample_http_env fake_nvs_ops sample_config"
  let ?rq = "sample_request CONFIG (Some ''Bearer secret'') []"
  let ?sv = "sample_server fake_nvs_ops fake_nvs_new sample_config"
  have d: "cc_dec (constant_codec sample_config) [] = Inr sample_config" by (simp add: constant_codec_def)
  have "http_handle ?he PUT ?rq ?sv = save_and_replace ?he ?rq sample_config ?sv"
    by (simp add: put_route_def put_config_def sample_request_sel d merge_sample)
  then have "snd (http_handle ?he PUT ?rq ?sv) = Reply 204 [] NoBody"
    by (simp add: save_and_replace_def server_save_def config_save_def constant_codec_def fake_nvs_defs
        send_def sample_request_sel)
  then have "http_handle ?he PUT ?rq ?sv = (fst (http_handle ?he PUT ?rq ?sv), Reply 204 [] NoBody)"
    by (metis prod.collapse)
  note m = host_mirrors_firmware [OF _ _ this, of "[]" sample_host sample_axum]
  from m [of "Some ''application/json''"] m [of None] show ?thesis
    by (simp add: sample_request_sel sample_host_def sample_put_config json_typed_def sample_axum_def Let_def
        del: http_handle.simps)
qed

text \<open>Reading a section gives the same body on the simulator and on the device, with the same secrets blanked.\<close>

theorem host_sections_alike:
  assumes "rq_path req \<in> set [''/api/config/wifi'', ''/api/config/mqtt'', ''/api/config/switches'', ''/api/config/sensors'',
      ''/api/config/schedule'', ''/api/config/https'', ''/api/config/wireguard'', ''/api/config/time'', ''/api/config/auth'',
      ''/api/config/flow_alarm'', ''/api/config/webhooks'']"
    and "rq_writable req" "ap_config (ho_app h) = ap_config (sv_app sv)"
  shows "snd (host_get ops (rq_path req) query h) = snd (http_handle he GET req sv)"
proof -
  have w: "rq_path req \<noteq> WIFI_SCAN" using assms(1) by (auto simp: WIFI_SCAN_def)
  have "rq_path req \<noteq> ''/''" "rq_path req \<noteq> STATUS" "rq_path req \<noteq> CONFIG" "rq_path req \<noteq> ''/api/diag''"
    using assms(1) by (auto simp: STATUS_def CONFIG_def)
  note n = w this
  show ?thesis
    using assms(1)
    unfolding host_get_def http_handle.simps get_route_def Let_def section_get_def
    by (simp only: n if_False snd_conv) (auto simp: sections_alike assms)
qed

lemma host_sections_alike_witness:
  "snd (host_get sample_wifi (rq_path (sample_request ''/api/config/mqtt'' None [])) [] sample_host) =
   snd (http_handle (sample_http_env fake_nvs_ops sample_config) GET (sample_request ''/api/config/mqtt'' None [])
     (sample_server fake_nvs_ops fake_nvs_new sample_config))"
  by (rule host_sections_alike) (simp_all add: sample_request_sel sample_host_def)

end
