(* ===== verification/Log_Streams.thy ===== *)
theory Log_Streams
  imports Log_Buffer
begin

text \<open>
  How log records reach a listener. The ESP-IDF firmware: the logger (\<open>firmware/tee_log.rs\<close>), a telnet
  client (\<open>firmware/log_telnet.rs\<close>), and the WebSocket senders with their fan-out thread
  (\<open>firmware/http_server.rs\<close>). The no_std firmware: the logger with its lines of 160 bytes
  (\<open>firmware-nostd/logbuf.rs\<close>) and its telnet port (\<open>firmware-nostd/telnet.rs\<close>). The host:
  the WebSocket of \<open>host/http.rs\<close>. A thread is a sequence of steps between which other threads log.
\<close>

section \<open>The loggers\<close>

datatype severity = LvError | LvWarn | LvInfo | LvDebug | LvTrace

fun level_rank :: "severity \<Rightarrow> u8" where
  "level_rank LvError = 1"
| "level_rank LvWarn = 2"
| "level_rank LvInfo = 3"
| "level_rank LvDebug = 4"
| "level_rank LvTrace = 5"

text \<open>The order of \<open>log::Level\<close>: errors first.\<close>

lemma level_rank_inj: "level_rank l = level_rank m \<Longrightarrow> l = m"
  by (cases l; cases m) simp_all

instantiation severity :: linorder
begin

definition less_eq_severity :: "severity \<Rightarrow> severity \<Rightarrow> bool" where
  "l \<le> m \<longleftrightarrow> level_rank l \<le> level_rank m"

definition less_severity :: "severity \<Rightarrow> severity \<Rightarrow> bool" where
  "l < m \<longleftrightarrow> level_rank l < level_rank m"

instance
  by standard (auto simp: less_eq_severity_def less_severity_def dest: level_rank_inj)

end

fun level_letter :: "severity \<Rightarrow> string" where
  "level_letter LvError = ''E''"
| "level_letter LvWarn = ''W''"
| "level_letter LvInfo = ''I''"
| "level_letter LvDebug = ''D''"
| "level_letter LvTrace = ''T''"

fun level_name :: "severity \<Rightarrow> string" where
  "level_name LvError = ''ERROR''"
| "level_name LvWarn = ''WARN''"
| "level_name LvInfo = ''INFO''"
| "level_name LvDebug = ''DEBUG''"
| "level_name LvTrace = ''TRACE''"

text \<open>\<open>max_level\<close> as a rank, 0 for off. The clock is read twice, for the UART line and for the record.\<close>

definition tee_enabled :: "u8 \<Rightarrow> severity \<Rightarrow> bool" where
  "tee_enabled max_level l \<longleftrightarrow> level_rank l \<le> max_level"

definition tee_log ::
    "u8 \<Rightarrow> u64 \<Rightarrow> u64 \<Rightarrow> severity \<Rightarrow> string \<Rightarrow> string \<Rightarrow> string list \<times> log_buffer option \<Rightarrow> string list \<times> log_buffer option" where
  "tee_log max_level now1 now2 l target_name message x = (case x of (uart, g) \<Rightarrow>
     if \<not> tee_enabled max_level l then (uart, g)
     else (uart @ [show_word now1 @ '' '' @ level_letter l @ '' '' @ target_name @ '': '' @ message],
       map_option (\<lambda>b. log_push b \<lparr>lr_monotonic_ms = now2, lr_level = level_rank l,
         lr_target = target_name, lr_message = message\<rparr>) g))"

text \<open>The lines of the no_std firmware. \<open>write!\<close> hands the pieces of the format to the bounded string one
  after the other and stops at the first that does not fit; a piece is taken whole or not at all.\<close>

fun write_pieces :: "nat \<Rightarrow> string \<Rightarrow> string list \<Rightarrow> string" where
  "write_pieces cap line [] = line"
| "write_pieces cap line (p # ps) =
    (if length line + length p \<le> cap then write_pieces cap (line @ p) ps else line)"

definition log_line :: "severity \<Rightarrow> string list \<Rightarrow> string" where
  "log_line l args = write_pieces 160 [] (level_name l # '' '' # args)"

section \<open>A telnet client of the ESP-IDF firmware\<close>

datatype tel_pc = TReplay "log_record list" | TLive u64 | TClosed

record tel_client =
  tc_pc :: tel_pc
  tc_out :: "string list"

text \<open>\<open>rx.recv()\<close>: \<open>None\<close> when the queue is empty and the thread waits.\<close>

definition recv_record :: "log_buffer \<Rightarrow> u64 \<Rightarrow> (log_buffer \<times> log_record) option" where
  "recv_record b i = (case map_of (lb_subscribers b) i of
      None \<Rightarrow> None
    | Some ch \<Rightarrow> (case ch_queue ch of
        [] \<Rightarrow> None
      | r # q \<Rightarrow> Some (b\<lparr>lb_subscribers := map (\<lambda>(j, c). if j = i then (j, c\<lparr>ch_queue := q\<rparr>) else (j, c)) (lb_subscribers b)\<rparr>, r)))"

definition tel_start :: "log_buffer \<Rightarrow> tel_client" where
  "tel_start b = \<lparr>tc_pc = TReplay (log_snapshot b 200), tc_out = []\<rparr>"

text \<open>One step of the thread: a write (\<open>ok\<close>: it succeeds), or the subscription behind the replay.\<close>

definition tel_step :: "bool \<Rightarrow> log_buffer \<times> tel_client \<Rightarrow> log_buffer \<times> tel_client" where
  "tel_step ok x = (case x of (b, c) \<Rightarrow> (case tc_pc c of
      TReplay (rec # recs) \<Rightarrow>
        if ok then (b, c\<lparr>tc_pc := TReplay recs, tc_out := tc_out c @ [log_formatted rec]\<rparr>)
        else (b, c\<lparr>tc_pc := TClosed\<rparr>)
    | TReplay [] \<Rightarrow> (let (b, i) = log_subscribe b 256 in (b, c\<lparr>tc_pc := TLive i\<rparr>))
    | TLive i \<Rightarrow> (case recv_record b i of
        None \<Rightarrow> (b, c)
      | Some (b, rec) \<Rightarrow>
          if ok then (b, c\<lparr>tc_out := tc_out c @ [log_formatted rec]\<rparr>)
          else (log_unsubscribe b i, c\<lparr>tc_pc := TClosed\<rparr>))
    | TClosed \<Rightarrow> (b, c)))"

section \<open>The WebSocket senders\<close>

text \<open>A sender is its session and the time it was made. The fan-out thread takes the lock for the sweep,
  for the count and for every single frame: between these steps sessions can be added.\<close>

definition WS_SENDER_CAP :: nat where "WS_SENDER_CAP = 4"
definition WS_SENDER_MAX_AGE_MS :: u64 where "WS_SENDER_MAX_AGE_MS = 120 * 1000"

datatype ws_pc = WsRecv | WsCount string | WsFrame nat nat string

record ws_fanout =
  wx_senders :: "(nat \<times> u64) list"
  wx_last :: u64
  wx_pc :: ws_pc
  wx_frames :: "(nat \<times> string) list"

definition ws_fanout_start :: "u64 \<Rightarrow> ws_fanout" where
  "ws_fanout_start now = \<lparr>wx_senders = [], wx_last = now - 1000, wx_pc = WsRecv, wx_frames = []\<rparr>"

fun evict_oldest :: "(nat \<times> u64) list \<Rightarrow> (nat \<times> u64) list" where
  "evict_oldest [] = []"
| "evict_oldest (x # xs) = (if WS_SENDER_CAP \<le> length (x # xs) then evict_oldest xs else x # xs)"

text \<open>A new session: the recent records, \<open>ok_writes\<close> of which can be sent, then its sender, if ESP-IDF
  makes one. The result holds the lines sent.\<close>

definition ws_new_session ::
    "log_buffer option \<Rightarrow> nat \<Rightarrow> bool \<Rightarrow> nat \<Rightarrow> u64 \<Rightarrow> ws_fanout \<Rightarrow> ws_fanout \<times> string list" where
  "ws_new_session g ok_writes made session now s =
    (let lines = (case g of Some b \<Rightarrow> map log_formatted (log_snapshot b 200) | None \<Rightarrow> []) in
     if ok_writes < length lines then (s, take ok_writes lines)
     else if made then (s\<lparr>wx_senders := evict_oldest (wx_senders s) @ [(session, now)]\<rparr>, lines)
     else (s, lines))"

text \<open>A step of the fan-out thread; \<open>rec\<close> is the record received in a step at \<open>WsRecv\<close>.\<close>

definition ws_fanout_step :: "u64 \<Rightarrow> (nat \<Rightarrow> bool) \<Rightarrow> log_record \<Rightarrow> ws_fanout \<Rightarrow> ws_fanout" where
  "ws_fanout_step now gone rec s = (case wx_pc s of
      WsRecv \<Rightarrow>
        if sat_sub now (wx_last s) < 200 then s
        else s\<lparr>wx_senders := filter (\<lambda>(i, t). \<not> gone i \<and> sat_sub now t < WS_SENDER_MAX_AGE_MS) (wx_senders s),
               wx_pc := WsCount (log_formatted rec)\<rparr>
    | WsCount line \<Rightarrow> s\<lparr>wx_pc := WsFrame 0 (length (wx_senders s)) line\<rparr>
    | WsFrame i n line \<Rightarrow>
        if n \<le> i \<or> length (wx_senders s) \<le> i then s\<lparr>wx_pc := WsRecv, wx_last := now\<rparr>
        else if gone (fst (wx_senders s ! i)) then s\<lparr>wx_pc := WsFrame (i + 1) n line\<rparr>
        else s\<lparr>wx_frames := wx_frames s @ [(fst (wx_senders s ! i), line)], wx_pc := WsFrame (i + 1) n line\<rparr>)"

section \<open>The other streams\<close>

text \<open>The telnet port of the no_std firmware: \<open>oks k\<close> tells whether the \<open>k\<close>-th write succeeds, \<open>slot\<close>
  whether a subscriber was free.\<close>

definition EOL :: string where "EOL = [CHR 0x0D, CHR 0x0A]"

fun nostd_tel_loop :: "(nat \<Rightarrow> bool) \<Rightarrow> nat \<Rightarrow> string list \<Rightarrow> string" where
  "nostd_tel_loop oks k [] = []"
| "nostd_tel_loop oks k (line # ls) =
    (if \<not> oks k then []
     else line @ (if \<not> oks (k + 1) then [] else EOL @ nostd_tel_loop oks (k + 2) ls))"

definition nostd_telnet :: "bool \<Rightarrow> (nat \<Rightarrow> bool) \<Rightarrow> string list \<Rightarrow> string" where
  "nostd_telnet slot oks ls =
    (if \<not> slot then (if oks 0 then ''log subscriber slots full'' @ EOL else [])
     else (if oks 0 then ''wc-nostd log stream'' @ EOL else []) @ nostd_tel_loop oks 1 ls)"

text \<open>The host subscribes before the upgrade of the connection: \<open>received\<close> is what came since, \<open>None\<close>
  the error of a receiver that lags or of a closed channel; \<open>ok_writes\<close> sends succeed.\<close>

definition host_ws_logs :: "log_buffer option \<Rightarrow> log_record option list \<Rightarrow> nat \<Rightarrow> string list" where
  "host_ws_logs g received ok_writes =
    (let first = (case g of Some b \<Rightarrow> map log_formatted (log_snapshot b 200) | None \<Rightarrow> []);
         live = map (\<lambda>r. log_formatted (the r)) (takeWhile (\<lambda>r. r \<noteq> None) received)
     in take ok_writes (first @ live))"

section \<open>Lemmas\<close>

lemma write_pieces_length: "length line \<le> cap \<Longrightarrow> length (write_pieces cap line ps) \<le> cap"
  by (induction ps arbitrary: line) auto

lemma write_pieces_prefix: "\<exists>k. write_pieces cap line ps = line @ concat (take k ps)"
proof (induction ps arbitrary: line)
  case (Cons p ps)
  show ?case
  proof (cases "length line + length p \<le> cap")
    case True
    from Cons [of "line @ p"] obtain k where "write_pieces cap (line @ p) ps = (line @ p) @ concat (take k ps)" ..
    with True show ?thesis by (intro exI [of _ "Suc k"]) simp
  qed (auto intro: exI [of _ 0])
qed simp

lemma length_evict: "length (evict_oldest xs) \<le> 3"
  by (induction xs) (auto simp: WS_SENDER_CAP_def)

text \<open>A run of the fan-out: steps of the thread and new sessions.\<close>

datatype ws_event = WsStep u64 "nat \<Rightarrow> bool" log_record | WsNew "log_buffer option" nat bool nat u64

fun ws_apply :: "ws_fanout \<Rightarrow> ws_event \<Rightarrow> ws_fanout" where
  "ws_apply s (WsStep now gone rec) = ws_fanout_step now gone rec s"
| "ws_apply s (WsNew g ok_writes made session now) = fst (ws_new_session g ok_writes made session now s)"

interpretation ws_runs: run_machine ws_apply "\<lambda>_ _. True" "\<lambda>s. length (wx_senders s) \<le> 4"
proof
  fix s :: ws_fanout and e :: ws_event
  assume "length (wx_senders s) \<le> 4"
  then show "length (wx_senders (ws_apply s e)) \<le> 4"
    using length_evict [of "wx_senders s"]
    by (cases e) (auto simp: ws_fanout_step_def ws_new_session_def Let_def split: ws_pc.split
        intro: order.trans [OF length_filter_le])
qed

text \<open>The telnet client: pushes by other threads, and steps of the thread.\<close>

datatype tel_event = TPush log_record | TStep bool

fun tel_apply :: "log_buffer \<times> tel_client \<Rightarrow> tel_event \<Rightarrow> log_buffer \<times> tel_client" where
  "tel_apply (b, c) (TPush rec) = (log_push b rec, c)"
| "tel_apply x (TStep ok) = tel_step ok x"

lemma replay_run:
  "foldl tel_apply (b, \<lparr>tc_pc = TReplay recs, tc_out = out\<rparr>) (replicate (length recs) (TStep True)) =
     (b, \<lparr>tc_pc = TReplay [], tc_out = out @ map log_formatted recs\<rparr>)"
  by (induction recs arbitrary: out) (simp_all add: tel_step_def)

lemma push_run: "foldl tel_apply (b, c) (map TPush rs) = (foldl log_push b rs, c)"
  by (induction rs arbitrary: b) simp_all

lemma recv_front:
  assumes "map_of (lb_subscribers b) i = Some ch" "ch_queue ch = r # q"
  shows "\<exists>b'. recv_record b i = Some (b', r) \<and> map_of (lb_subscribers b') i = Some (ch\<lparr>ch_queue := q\<rparr>)"
proof -
  have "map_of (map (\<lambda>(j, c). if j = i then (j, c\<lparr>ch_queue := q\<rparr>) else (j, c)) subs) i =
      map_option (\<lambda>c. c\<lparr>ch_queue := q\<rparr>) (map_of subs i)" for subs :: "(u64 \<times> channel) list"
    by (induction subs) auto
  with assms show ?thesis by (simp add: recv_record_def)
qed

lemma drain:
  "map_of (lb_subscribers b) i = Some ch \<Longrightarrow> ch_queue ch = q \<Longrightarrow>
     \<exists>b'. foldl tel_apply (b, \<lparr>tc_pc = TLive i, tc_out = out\<rparr>) (replicate (length q) (TStep True)) =
       (b', \<lparr>tc_pc = TLive i, tc_out = out @ map log_formatted q\<rparr>)"
proof (induction q arbitrary: b ch out)
  case (Cons r q)
  from recv_front [OF Cons.prems] obtain b1 where
    b1: "recv_record b i = Some (b1, r)" "map_of (lb_subscribers b1) i = Some (ch\<lparr>ch_queue := q\<rparr>)" by blast
  from Cons.IH [OF b1(2), of "out @ [log_formatted r]"] b1(1) show ?case by (simp add: tel_step_def)
qed simp

lemma push_next_id [simp]: "lb_next_id (foldl log_push b rs) = lb_next_id b"
proof (induction rs arbitrary: b)
  case (Cons r rs)
  then show ?case by (simp add: log_push_def Let_def)
qed simp

lemma fill_keys: "fst ` set (map (fill rs) subs) = fst ` set subs"
  by (force simp: fill_def image_iff)

lemma subscribed_queue:
  assumes "all_open (lb_subscribers b)" "lb_next_id b \<notin> fst ` set (lb_subscribers b)" "length live \<le> 256"
    and "log_subscribe b 256 = (b1, i)"
  shows "\<exists>ch. map_of (lb_subscribers (foldl log_push b1 live)) i = Some ch \<and> ch_queue ch = live"
proof -
  let ?new = "\<lparr>ch_capacity = 256, ch_queue = [], ch_open = True\<rparr>"
  have s: "lb_subscribers b1 = lb_subscribers b @ [(i, ?new)]" "i = lb_next_id b"
    using assms(4) by (auto simp: log_subscribe_def Let_def)
  have o: "all_open (lb_subscribers b1)" using assms(1) by (simp add: s all_open_def)
  have "map_of (map (fill live) (lb_subscribers b)) i = None"
    using assms(2) fill_keys [of live "lb_subscribers b"] s(2) by (simp add: map_of_eq_None_iff)
  then show ?thesis
    unfolding slow_subscribers_keep_first [OF o] using assms(3) by (simp add: s fill_def map_add_def)
qed

section \<open>Properties\<close>

text \<open>A more severe record is shown whenever a less severe one is.\<close>

lemma tee_enabled_mono: "l \<le> m \<Longrightarrow> tee_enabled max_level m \<Longrightarrow> tee_enabled max_level l"
  by (simp add: tee_enabled_def less_eq_severity_def)

text \<open>The WebSocket log of the ESP-IDF firmware is bounded: on every run of new sessions and steps of the
  fan-out thread, in every interleaving, there are never more than four senders.\<close>

theorem ws_senders_bounded:
  "length (wx_senders (foldl ws_apply (ws_fanout_start now) es)) \<le> 4"
  by (rule ws_runs.run_inv_total) (simp_all add: ws_fanout_start_def)

text \<open>A telnet client misses what is logged during its replay: it is shown the snapshot taken at the start
  and the records logged after its subscription, which comes only behind the replay; the records
  logged in between are in neither part.\<close>

theorem telnet_replay_gap:
  assumes "all_open (lb_subscribers b)" "lb_next_id b \<notin> fst ` set (lb_subscribers b)" "length live \<le> 256"
  shows "tc_out (snd (foldl tel_apply (b, tel_start b)
      (map TPush gap @ replicate (length (log_snapshot b 200)) (TStep True) @ [TStep True] @ map TPush live @
       replicate (length live) (TStep True)))) =
    map log_formatted (log_snapshot b 200 @ live)"
proof -
  let ?b = "foldl log_push b gap" and ?recs = "log_snapshot b 200"
  obtain b1 i where sub: "log_subscribe ?b 256 = (b1, i)" by (cases "log_subscribe ?b 256")
  have g: "lb_subscribers ?b = map (fill gap) (lb_subscribers b)" by (rule slow_subscribers_keep_first [OF assms(1)])
  have "all_open (lb_subscribers ?b)" "lb_next_id ?b \<notin> fst ` set (lb_subscribers ?b)"
    using assms(1,2) fill_keys [of gap "lb_subscribers b"] by (simp_all add: g all_open_fill)
  from subscribed_queue [OF this assms(3) sub] obtain ch where
    ch: "map_of (lb_subscribers (foldl log_push b1 live)) i = Some ch" "ch_queue ch = live" by blast
  have step: "tel_apply (?b, \<lparr>tc_pc = TReplay [], tc_out = out\<rparr>) (TStep True) = (b1, \<lparr>tc_pc = TLive i, tc_out = out\<rparr>)" for out
    by (simp add: tel_step_def sub)
  from drain [OF ch, of "map log_formatted ?recs"] show ?thesis
    by (auto simp: tel_start_def push_run replay_run step simp del: tel_apply.simps)
qed

lemma telnet_replay_gap_witness:
  "tc_out (snd (foldl tel_apply (log_push (log_buffer_new 5) (sample_record ''a''), tel_start (log_push (log_buffer_new 5) (sample_record ''a'')))
      (map TPush [sample_record ''b''] @
       replicate (length (log_snapshot (log_push (log_buffer_new 5) (sample_record ''a'')) 200)) (TStep True) @ [TStep True] @
       map TPush [sample_record ''c''] @ replicate (length [sample_record ''c'']) (TStep True)))) =
    map log_formatted (log_snapshot (log_push (log_buffer_new 5) (sample_record ''a'')) 200 @ [sample_record ''c''])"
  by (rule telnet_replay_gap) (simp_all add: log_buffer_new_def fan_out_def List.map_filter_def all_open_def log_push_def)

text \<open>A line of the no_std logger holds at most 160 bytes and a whole number of pieces: a message that is
  one literal and does not fit is not cut off but dropped, and only its level is shown.\<close>

theorem log_line_pieces:
  "length (log_line l args) \<le> 160 \<and> (\<exists>k. log_line l args = concat (take k (level_name l # '' '' # args))) \<and>
   log_line l [replicate 160 c] = level_name l @ '' ''"
  using write_pieces_length [of "[]" 160 "level_name l # '' '' # args"]
    write_pieces_prefix [of 160 "[]" "level_name l # '' '' # args"]
  by (cases l) (auto simp: log_line_def)

end
