(* ===== verification/Esp_Services.thy ===== *)
theory Esp_Services
  imports Firmware_Main Flash_Kv "HOL-Library.Sublist"
begin

text \<open>
  What the ESP-IDF firmware builds on C libraries, as the sequence of their calls: the certificate
  generator over mbedTLS (\<open>firmware/tls_certgen.rs\<close>), the mDNS advertisement (\<open>mdns_init.rs\<close>), the
  start of the two web servers (\<open>spawn\<close> of \<open>http_server.rs\<close>) and of a named thread
  (\<open>task_util.rs\<close>). A library is a function from its state and a call to its new state, the return
  code and the bytes it wrote; it is a parameter.
\<close>

section \<open>Return codes\<close>

function hex_digits :: "nat \<Rightarrow> string" where
  "hex_digits n = (if n < 16 then [''0123456789abcdef'' ! n]
                   else hex_digits (n div 16) @ [''0123456789abcdef'' ! (n mod 16)])"
  by pat_completeness auto
termination by (relation "measure id") auto

declare hex_digits.simps [simp del]

text \<open>\<open>{:#x}\<close> of an \<open>i32\<close>: its two's complement.\<close>

definition show_hex :: "int \<Rightarrow> string" where
  "show_hex rc = ''0x'' @ hex_digits (nat (rc mod 2 ^ 32))"

text \<open>A computation over the library that can fail with an error text, and its sequence.\<close>

type_synonym ('m, 'a) ffi = "'m \<Rightarrow> 'm \<times> (string + 'a)"

definition ffi_then :: "('m, 'a) ffi \<Rightarrow> ('a \<Rightarrow> ('m, 'b) ffi) \<Rightarrow> ('m, 'b) ffi" where
  "ffi_then f g m = (case f m of (m, Inl e) \<Rightarrow> (m, Inl e) | (m, Inr x) \<Rightarrow> g x m)"

definition ffi_fail :: "string \<Rightarrow> ('m, 'a) ffi" where "ffi_fail e m = (m, Inl e)"
definition ffi_return :: "'a \<Rightarrow> ('m, 'a) ffi" where "ffi_return x m = (m, Inr x)"

section \<open>Certificate generation\<close>

datatype mb_ctx = CtxEntropy | CtxDrbg | CtxKey | CtxCrt

datatype mb_op =
    MbInit mb_ctx
  | MbFree mb_ctx
  | MbSeed string
  | MbPkInfo
  | MbPkSetup
  | MbGenKey
  | MbSubject string
  | MbIssuer string
  | MbSubjectKey
  | MbIssuerKey
  | MbMdAlg
  | MbBasic int int
  | MbValidity string string
  | MbRandom nat
  | MbSerial bytes
  | MbCrtPem nat
  | MbKeyPem nat

type_synonym 'm mbedtls = "'m \<Rightarrow> mb_op \<Rightarrow> 'm \<times> int \<times> bytes"

text \<open>A call whose result is passed to \<open>check\<close>, a void call, and a call whose result is used.\<close>

definition mb_error :: "int \<Rightarrow> string \<Rightarrow> string" where
  "mb_error rc what = ''mbedtls '' @ what @ '': '' @ show_hex rc"

definition mb_check :: "'m mbedtls \<Rightarrow> mb_op \<Rightarrow> string \<Rightarrow> ('m, bytes) ffi" where
  "mb_check lib op what m =
    (case lib m op of (m, rc, out) \<Rightarrow> (m, if rc = 0 then Inr out else Inl (mb_error rc what)))"

definition mb_void :: "'m mbedtls \<Rightarrow> mb_op \<Rightarrow> ('m, bytes) ffi" where
  "mb_void lib op m = (case lib m op of (m, rc, out) \<Rightarrow> (m, Inr out))"

definition mb_pem :: "'m mbedtls \<Rightarrow> mb_op \<Rightarrow> string \<Rightarrow> string \<Rightarrow> ('m, string) ffi" where
  "mb_pem lib op what ctx m = (case lib m op of (m, rc, buf) \<Rightarrow>
     (m, if rc < 0 then Inl (what @ '': '' @ show_hex rc)
         else case from_utf8 (takeWhile (\<lambda>b. b \<noteq> 0) buf) of Some s \<Rightarrow> Inr s | None \<Rightarrow> Inl ctx))"

datatype mb_step = Checked mb_op string | Void mb_op

fun mb_steps :: "'m mbedtls \<Rightarrow> mb_step list \<Rightarrow> ('m, unit) ffi" where
  "mb_steps lib [] = ffi_return ()"
| "mb_steps lib (Checked op what # ss) = ffi_then (mb_check lib op what) (\<lambda>_. mb_steps lib ss)"
| "mb_steps lib (Void op # ss) = ffi_then (mb_void lib op) (\<lambda>_. mb_steps lib ss)"

definition ctx_new :: "'m mbedtls \<Rightarrow> 'm \<Rightarrow> 'm" where
  "ctx_new lib m = fst (mb_steps lib [Void (MbInit CtxEntropy), Void (MbInit CtxDrbg), Void (MbInit CtxKey),
     Void (MbInit CtxCrt)] m)"

definition ctx_drop :: "'m mbedtls \<Rightarrow> 'm \<Rightarrow> 'm" where
  "ctx_drop lib m = fst (mb_steps lib [Void (MbFree CtxCrt), Void (MbFree CtxKey), Void (MbFree CtxDrbg),
     Void (MbFree CtxEntropy)] m)"

definition PERS :: string where "PERS = ''watercontroller-tls-certgen''"

text \<open>A serial number is positive: the top bit is cleared, and a first byte of 0 becomes 1.\<close>

definition serial_of :: "bytes \<Rightarrow> bytes" where
  "serial_of serial =
    (let serial = serial[0 := and (serial ! 0) 0x7f]
     in if serial ! 0 = 0 then serial[0 := 1] else serial)"

definition write_steps :: "string \<Rightarrow> mb_step list" where
  "write_steps dn =
    [Checked (MbSubject dn) ''set_subject_name'', Checked (MbIssuer dn) ''set_issuer_name'',
     Void MbSubjectKey, Void MbIssuerKey, Void MbMdAlg, Checked (MbBasic 0 (-1)) ''set_basic_constraints'',
     Checked (MbValidity ''20260101000000'' ''20460101000000'') ''set_validity'']"

definition write_pems :: "'m mbedtls \<Rightarrow> bytes \<Rightarrow> ('m, string \<times> string) ffi" where
  "write_pems lib serial =
    ffi_then (mb_steps lib [Checked (MbSerial serial) ''set_serial_raw'']) (\<lambda>_.
    ffi_then (mb_pem lib (MbCrtPem 4096) ''x509write_crt_pem'' ''cert pem utf8'') (\<lambda>cert_pem.
    ffi_then (mb_pem lib (MbKeyPem 2048) ''pk_write_key_pem'' ''key pem utf8'') (\<lambda>key_pem.
    ffi_return (cert_pem, key_pem))))"

definition cert_body :: "'m mbedtls \<Rightarrow> string \<Rightarrow> ('m, string \<times> string) ffi" where
  "cert_body lib common_name =
    ffi_then (mb_steps lib [Checked (MbSeed PERS) ''ctr_drbg_seed'']) (\<lambda>_.
    ffi_then (\<lambda>m. case lib m MbPkInfo of (m, rc, out) \<Rightarrow>
      (m, if rc = 0 then Inl ''mbedtls_pk_info_from_type returned null'' else Inr ())) (\<lambda>_.
    ffi_then (mb_steps lib [Checked MbPkSetup ''pk_setup'', Checked MbGenKey ''ecp_gen_key'']) (\<lambda>_.
    ffi_then (if CHR 0x00 \<in> set common_name then ffi_fail ''CN: nul byte'' else ffi_return (''CN='' @ common_name)) (\<lambda>dn.
    ffi_then (mb_steps lib (write_steps dn)) (\<lambda>_.
    ffi_then (mb_check lib (MbRandom 16) ''drbg_random for serial'') (\<lambda>serial.
    write_pems lib (serial_of serial)))))))"

definition generate_self_signed :: "'m mbedtls \<Rightarrow> string \<Rightarrow> ('m, string \<times> string) ffi" where
  "generate_self_signed lib common_name m =
    (let (m, r) = cert_body lib common_name (ctx_new lib m) in (ctx_drop lib m, r))"

section \<open>The mDNS advertisement\<close>

datatype mdns_op =
    MdInit
  | MdHostname string
  | MdInstance string
  | MdService string string u16

definition md_check :: "('m \<Rightarrow> mdns_op \<Rightarrow> 'm \<times> int) \<Rightarrow> mdns_op \<Rightarrow> string \<Rightarrow> ('m, unit) ffi" where
  "md_check lib op what m =
    (case lib m op of (m, rc) \<Rightarrow> (m, if rc = 0 then Inr () else Inl (what @ '': esp_err '' @ show_hex rc)))"

text \<open>The two services: a failure is only logged.\<close>

definition mdns_start :: "('m \<Rightarrow> mdns_op \<Rightarrow> 'm \<times> int) \<Rightarrow> string \<Rightarrow> ('m, unit) ffi" where
  "mdns_start lib hostname =
    (if hostname = [] then ffi_fail ''mdns hostname must not be empty''
     else ffi_then (md_check lib MdInit ''mdns_init'') (\<lambda>_.
       if CHR 0x00 \<in> set hostname then ffi_fail ''hostname has nul byte''
       else ffi_then (md_check lib (MdHostname hostname) ''mdns_hostname_set'') (\<lambda>_.
         ffi_then (md_check lib (MdInstance hostname) ''mdns_instance_name_set'') (\<lambda>_ m.
           (fst (lib (fst (lib m (MdService ''_http'' ''_tcp'' 80))) (MdService ''_https'' ''_tcp'' 443)), Inr ())))))"

section \<open>The web servers\<close>

record server_config =
  svc_http_port :: u16
  svc_https_port :: u16
  svc_ctrl_port :: u16
  svc_stack_size :: nat
  svc_max_uri_handlers :: nat
  svc_max_open_sockets :: nat
  svc_session_timeout_s :: nat
  svc_lru_purge :: bool
  svc_certificate :: "bytes option"
  svc_private_key :: "bytes option"

definition HTTP_STACK :: nat where "HTTP_STACK = 8 * 1024"
definition HTTPS_STACK :: nat where "HTTPS_STACK = 12 * 1024"

text \<open>The server library: start a server, register the handlers on it, drop it. A server is a number.\<close>

record 'h server_lib =
  sl_new :: "'h \<Rightarrow> server_config \<Rightarrow> 'h \<times> (string + nat)"
  sl_register :: "'h \<Rightarrow> nat \<Rightarrow> 'h \<times> (string + unit)"
  sl_drop :: "'h \<Rightarrow> nat \<Rightarrow> 'h"

definition http_config :: "server_config \<Rightarrow> u16 \<Rightarrow> server_config" where
  "http_config dflt port = dflt\<lparr>svc_http_port := port, svc_stack_size := HTTP_STACK, svc_max_uri_handlers := 64,
     svc_max_open_sockets := 8, svc_session_timeout_s := 60, svc_lru_purge := True\<rparr>"

definition tls_config :: "server_config \<Rightarrow> u16 \<Rightarrow> bytes \<Rightarrow> bytes \<Rightarrow> server_config" where
  "tls_config dflt port cert key = dflt\<lparr>svc_http_port := port, svc_https_port := 443, svc_stack_size := HTTPS_STACK,
     svc_max_open_sockets := 2, svc_max_uri_handlers := 64, svc_session_timeout_s := 15, svc_lru_purge := True,
     svc_ctrl_port := 32769, svc_certificate := Some cert, svc_private_key := Some key\<rparr>"

text \<open>The server's own copy of the helper that adds a NUL to a PEM text: \<open>None\<close> is the panic of its \<open>expect\<close>.\<close>

definition http_leak_cstr :: "string \<Rightarrow> bytes option" where
  "http_leak_cstr s =
    (let b = bytes_of s; b = (if b \<noteq> [] \<and> last b = 0 then b else b @ [0])
     in if 0 \<in> set (butlast b) then None else Some b)"

text \<open>The handles of a successful start. \<open>None\<close> is a panic.\<close>

definition spawn_servers ::
    "'h server_lib \<Rightarrow> server_config \<Rightarrow> u16 \<Rightarrow> string \<Rightarrow> string \<Rightarrow> bool \<Rightarrow> 'h \<Rightarrow> ('h \<times> (string + nat \<times> nat option)) option" where
  "spawn_servers lib dflt port cert_pem key_pem https_enabled h =
    (case sl_new lib h (http_config dflt port) of
       (h, Inl e) \<Rightarrow> Some (h, Inl e)
     | (h, Inr http) \<Rightarrow> (case sl_register lib h http of
         (h, Inl e) \<Rightarrow> Some (sl_drop lib h http, Inl e)
       | (h, Inr _) \<Rightarrow>
           if https_enabled \<and> cert_pem \<noteq> [] \<and> key_pem \<noteq> [] then
             (case (http_leak_cstr cert_pem, http_leak_cstr key_pem) of
                (Some cert, Some key) \<Rightarrow> (case sl_new lib h (tls_config dflt port cert key) of
                    (h, Inr https) \<Rightarrow> (case sl_register lib h https of
                        (h, Inl e) \<Rightarrow> Some (sl_drop lib (sl_drop lib h https) http, Inl e)
                      | (h, Inr _) \<Rightarrow> Some (h, Inr (http, Some https)))
                  | (h, Inl e) \<Rightarrow> Some (h, Inr (http, None)))
              | _ \<Rightarrow> None)
           else Some (h, Inr (http, None))))"

section \<open>Named threads\<close>

record thread_cfg =
  thc_name :: string
  thc_stack :: nat
  thc_inherit :: bool

text \<open>\<open>set_ok\<close>, \<open>reset_ok\<close>: the two calls that set the configuration of the calling thread; \<open>spawned\<close>: the
  thread could be created. The result is that configuration, and of a new thread the name FreeRTOS
  gives it, from the configuration in force, and the size of its stack, from the builder.\<close>

definition spawn_named ::
    "thread_cfg \<Rightarrow> bool \<Rightarrow> bool \<Rightarrow> bool \<Rightarrow> string \<Rightarrow> nat \<Rightarrow> thread_cfg \<Rightarrow> thread_cfg \<times> (string \<times> nat) option" where
  "spawn_named dflt set_ok spawned reset_ok name stack_size cur =
    (let cfg = dflt\<lparr>thc_name := name, thc_stack := stack_size, thc_inherit := False\<rparr>;
         cur = (if set_ok then cfg else cur);
         h = (if spawned then Some (thc_name cur, stack_size) else None);
         cur = (if reset_ok then dflt else cur)
     in (cur, h))"

section \<open>Updates from a reader\<close>

text \<open>\<open>apply_image\<close> of \<open>net_ota.rs\<close>, which the upload handler of theory \<open>Http_Server\<close> repeats inline.
  \<open>discard\<close> is what dropping an unfinished update does.\<close>

fun image_loop :: "'o ota_ops \<Rightarrow> ('o \<Rightarrow> 'o) \<Rightarrow> read_result list \<Rightarrow> 'o \<Rightarrow> nat \<Rightarrow> 'o \<times> (string + nat)" where
  "image_loop ops discard [] ota tot = (ota, Inr tot)"
| "image_loop ops discard (RdErr e # rest) ota tot = (discard ota, Inl (''ota read: '' @ e))"
| "image_loop ops discard (Rd buf # rest) ota tot =
    (if buf = [] then (ota, Inr tot)
     else case ot_write ops ota buf of
       (ota, Inl e) \<Rightarrow> (discard ota, Inl e)
     | (ota, Inr u) \<Rightarrow> image_loop ops discard rest ota (tot + length buf))"

definition apply_image :: "'o ota_ops \<Rightarrow> ('o \<Rightarrow> 'o) \<Rightarrow> read_result list \<Rightarrow> 'o \<Rightarrow> 'o \<times> (string + nat)" where
  "apply_image ops discard reads ota = (case ot_new ops ota of
      (ota, Inl e) \<Rightarrow> (ota, Inl e)
    | (ota, Inr u) \<Rightarrow> (case ot_initiate ops ota of
        (ota, Inl e) \<Rightarrow> (ota, Inl e)
      | (ota, Inr u) \<Rightarrow> (case image_loop ops discard reads ota 0 of
          (ota, Inl e) \<Rightarrow> (ota, Inl e)
        | (ota, Inr tot) \<Rightarrow>
            if tot = 0 then (discard ota, Inl ''empty firmware image'')
            else (case ot_complete ops ota of
              (ota, Inl e) \<Rightarrow> (ota, Inl e)
            | (ota, Inr u) \<Rightarrow> (ota, Inr tot)))))"

section \<open>Lemmas\<close>

lemma image_loop_as_upload:
  "(\<forall>ota' tot. image_loop ops discard reads ota n = (ota', Inr tot) \<longleftrightarrow> ota_loop ops reads ota n = (ota', Inr tot))"
  by (induction ops reads ota n rule: ota_loop.induct) (auto split: prod.split sum.split)

text \<open>A library that keeps a trace of its calls, and what a computation adds to the trace. \<open>emits f PS\<close>:
  it adds a prefix of one of the programmes \<open>PS\<close>, and a whole programme if it succeeds.\<close>

definition logged :: "'m mbedtls \<Rightarrow> ('m \<times> mb_op list) mbedtls" where
  "logged lib x op = (case x of (m, tr) \<Rightarrow> (case lib m op of (m, rc, out) \<Rightarrow> ((m, tr @ [op]), rc, out)))"

definition emits :: "('m \<times> mb_op list, 'a) ffi \<Rightarrow> mb_op list set \<Rightarrow> bool" where
  "emits f PS \<longleftrightarrow> (\<forall>m tr. \<exists>ops. \<exists>P\<in>PS. snd (fst (f (m, tr))) = tr @ ops \<and> prefix ops P \<and>
     (isl (snd (f (m, tr))) \<or> ops = P))"

lemma emits_then:
  assumes f: "emits f {P}" and g: "\<And>x m. snd (f m) = Inr x \<Longrightarrow> emits (g x) QS" and "QS \<noteq> {}"
  shows "emits (ffi_then f g) ((@) P ` QS)"
  unfolding emits_def
proof (intro allI)
  fix m tr
  obtain m1 tr1 r where r: "f (m, tr) = ((m1, tr1), r)" by (metis prod.exhaust)
  from f r obtain ops where ops: "tr1 = tr @ ops" "prefix ops P" "isl r \<or> ops = P"
    unfolding emits_def by (metis fst_conv snd_conv singletonD)
  show "\<exists>ops. \<exists>P\<in>(@) P ` QS. snd (fst (ffi_then f g (m, tr))) = tr @ ops \<and> prefix ops P \<and>
      (isl (snd (ffi_then f g (m, tr))) \<or> ops = P)"
  proof (cases r)
    case (Inl e)
    with r ops assms(3) show ?thesis by (auto simp: ffi_then_def)
  next
    case (Inr x)
    with ops have P: "ops = P" by simp
    from g [of "(m, tr)" x] r Inr have "emits (g x) QS" by simp
    then obtain ops' Q where "snd (fst (g x (m1, tr1))) = tr1 @ ops'" "Q \<in> QS" "prefix ops' Q"
      "isl (snd (g x (m1, tr1))) \<or> ops' = Q" unfolding emits_def by blast
    with r Inr P ops(1) show ?thesis by (intro exI [of _ "P @ ops'"]) (auto simp: ffi_then_def)
  qed
qed

lemma emits_then_one:
  "emits f {P} \<Longrightarrow> (\<And>x. emits (g x) {Q}) \<Longrightarrow> emits (ffi_then f g) {P @ Q}"
  using emits_then [of f P g "{Q}"] by simp

lemma emits_calls:
  "emits (mb_check (logged lib) op what) {[op]}" "emits (mb_void (logged lib) op) {[op]}"
  "emits (mb_pem (logged lib) op what ctx) {[op]}" "emits (ffi_return x) {[]}" "emits (ffi_fail e) {[]}"
  by (auto simp: emits_def mb_check_def mb_void_def mb_pem_def ffi_return_def ffi_fail_def logged_def
      split: prod.split)

fun step_op :: "mb_step \<Rightarrow> mb_op" where
  "step_op (Checked op what) = op"
| "step_op (Void op) = op"

lemma emits_steps: "emits (mb_steps (logged lib) ss) {map step_op ss}"
proof (induction ss)
  case (Cons s ss)
  have "emits (mb_steps (logged lib) (s # ss)) {[step_op s] @ map step_op ss}"
    by (cases s) (simp_all add: emits_then_one [OF emits_calls(1) Cons] emits_then_one [OF emits_calls(2) Cons]
        del: append_Cons append_Nil)
  then show ?case by simp
qed (simp add: emits_calls)

definition serial_ok :: "bytes \<Rightarrow> bool" where
  "serial_ok s \<longleftrightarrow> length s = 16 \<and> 1 \<le> unat (s ! 0) \<and> unat (s ! 0) \<le> 127"

lemma serial_of_ok:
  assumes "length s = 16"
  shows "serial_ok (serial_of s)"
proof -
  have "unat (and (s ! 0) 0x7f) \<le> 127"
    using word_and_le1 [of "s ! 0" "0x7f"] by (simp add: word_le_nat_alt)
  moreover have "unat (and (s ! 0) 0x7f) \<noteq> 0" if "and (s ! 0) 0x7f \<noteq> 0"
    using that by (simp add: unat_eq_0)
  ultimately show ?thesis using assms by (auto simp: serial_ok_def serial_of_def Let_def)
qed

text \<open>The calls of a complete run.\<close>

definition cert_programme :: "string \<Rightarrow> bytes \<Rightarrow> mb_op list" where
  "cert_programme dn serial =
    [MbSeed PERS, MbPkInfo, MbPkSetup, MbGenKey, MbSubject dn, MbIssuer dn, MbSubjectKey, MbIssuerKey, MbMdAlg,
     MbBasic 0 (-1), MbValidity ''20260101000000'' ''20460101000000'', MbRandom 16, MbSerial serial,
     MbCrtPem 4096, MbKeyPem 2048]"

lemma pk_info_emits:
  "emits (\<lambda>m. case logged lib m MbPkInfo of (m, rc, out) \<Rightarrow> (m, if rc = 0 then Inl e else Inr ())) {[MbPkInfo]}"
  by (auto simp: emits_def logged_def split: prod.split)

lemma serial_length:
  assumes "\<And>m. length (snd (snd (lib m (MbRandom 16)))) = 16" "snd (mb_check (logged lib) (MbRandom 16) what m) = Inr s"
  shows "length s = 16"
  using assms(2) assms(1) [of "fst m"]
  by (cases m; cases "lib (fst m) (MbRandom 16)") (auto simp: mb_check_def logged_def split: if_splits)

lemma emits_mono: "emits f PS \<Longrightarrow> PS \<subseteq> QS \<Longrightarrow> emits f QS"
  unfolding emits_def by blast

lemma emits_pems: "emits (write_pems (logged lib) serial) {[MbSerial serial, MbCrtPem 4096, MbKeyPem 2048]}"
proof -
  have "emits (write_pems (logged lib) serial)
      {map step_op [Checked (MbSerial serial) ''set_serial_raw''] @ [MbCrtPem 4096] @ [MbKeyPem 2048] @ []}"
    unfolding write_pems_def by (intro emits_then_one emits_steps emits_calls)
  then show ?thesis by simp
qed

text \<open>The serial number comes from the library: sixteen bytes, as requested.\<close>

definition random_fills :: "'m mbedtls \<Rightarrow> bool" where
  "random_fills lib \<longleftrightarrow> (\<forall>m. length (snd (snd (lib m (MbRandom 16)))) = 16)"

definition pem_programmes :: "mb_op list set" where
  "pem_programmes = {[MbSerial s, MbCrtPem 4096, MbKeyPem 2048] | s. serial_ok s}"

lemma pem_ne [simp]: "pem_programmes \<noteq> {}"
proof -
  have "serial_ok (replicate 16 1)" by (simp add: serial_ok_def)
  then show ?thesis unfolding pem_programmes_def by blast
qed

lemma emits_random:
  assumes "random_fills lib"
  shows "emits (ffi_then (mb_check (logged lib) (MbRandom 16) ''drbg_random for serial'')
      (\<lambda>serial. write_pems (logged lib) (serial_of serial))) ((@) [MbRandom 16] ` pem_programmes)"
proof (rule emits_then [OF emits_calls(1)])
  fix serial m
  assume "snd (mb_check (logged lib) (MbRandom 16) ''drbg_random for serial'' m) = Inr serial"
  with assms have "serial_ok (serial_of serial)"
    unfolding random_fills_def by (metis serial_of_ok serial_length)
  then show "emits (write_pems (logged lib) (serial_of serial)) pem_programmes"
    by (intro emits_mono [OF emits_pems]) (auto simp: pem_programmes_def)
qed simp

lemma emits_body:
  assumes "random_fills lib"
  shows "emits (cert_body (logged lib) cn) {cert_programme (''CN='' @ cn) s | s. serial_ok s}"
proof -
  let ?dn = "''CN='' @ cn"
  let ?tail = "\<lambda>dn. ffi_then (mb_steps (logged lib) (write_steps dn)) (\<lambda>_.
      ffi_then (mb_check (logged lib) (MbRandom 16) ''drbg_random for serial'')
        (\<lambda>serial. write_pems (logged lib) (serial_of serial)))"
  let ?PS = "(@) (map step_op (write_steps ?dn)) ` (@) [MbRandom 16] ` pem_programmes"
  note steps = emits_steps [of lib "[Checked (MbSeed PERS) ''ctr_drbg_seed'']"]
    emits_steps [of lib "[Checked MbPkSetup ''pk_setup'', Checked MbGenKey ''ecp_gen_key'']"]
  have dn: "emits (if CHR 0x00 \<in> set cn then ffi_fail ''CN: nul byte'' else ffi_return ?dn) {[]}"
    by (simp add: emits_calls)
  have rest: "emits (?tail x) ?PS"
    if "snd ((if CHR 0x00 \<in> set cn then ffi_fail ''CN: nul byte'' else ffi_return ?dn) m) = Inr x" for x and m :: "'a \<times> mb_op list"
  proof -
    have "x = ?dn" using that by (simp add: ffi_fail_def ffi_return_def split: if_splits)
    then show ?thesis
      by (simp only:) (rule emits_then [OF emits_steps emits_random [OF assms]], simp)
  qed
  have "emits (cert_body (logged lib) cn) ((@) (map step_op [Checked (MbSeed PERS) ''ctr_drbg_seed'']) ` (@) [MbPkInfo] `
      (@) (map step_op [Checked MbPkSetup ''pk_setup'', Checked MbGenKey ''ecp_gen_key'']) ` (@) [] ` ?PS)"
    unfolding cert_body_def
    by (rule emits_then [OF steps(1)], rule emits_then [OF pk_info_emits], rule emits_then [OF steps(2)],
        rule emits_then [OF dn], rule rest) (simp_all)
  then show ?thesis
    by (rule emits_mono) (auto simp: pem_programmes_def cert_programme_def write_steps_def)
qed

lemma ctx_trace:
  "snd (ctx_new (logged lib) (m, tr)) = tr @ [MbInit CtxEntropy, MbInit CtxDrbg, MbInit CtxKey, MbInit CtxCrt]"
  "snd (ctx_drop (logged lib) (m, tr)) = tr @ [MbFree CtxCrt, MbFree CtxKey, MbFree CtxDrbg, MbFree CtxEntropy]"
  by (simp_all add: ctx_new_def ctx_drop_def ffi_then_def mb_void_def logged_def ffi_return_def split: prod.split)

lemma bytes_of_butlast: "butlast (bytes_of s) = bytes_of (butlast s)"
  by (simp add: bytes_of_def map_butlast)

lemma nul_not_leaked: "CHR 0x00 \<in> set (butlast s) \<Longrightarrow> http_leak_cstr s = None"
proof -
  assume "CHR 0x00 \<in> set (butlast s)"
  then have z: "0 \<in> set (butlast (bytes_of s))"
    unfolding bytes_of_butlast by (force simp: bytes_of_def)
  then have "0 \<in> set (bytes_of s)" by (rule in_set_butlastD)
  with z show ?thesis by (simp add: http_leak_cstr_def Let_def butlast_append)
qed

section \<open>Properties\<close>

text \<open>The certificate generator leaks nothing and gives up at the first failure: whatever mbedTLS
  answers, the calls are the four initialisations, a beginning of the programme, and the four
  releases in reverse order, each exactly once; with success the whole programme has been executed.
  The serial number of the certificate is always positive.\<close>

theorem certgen_calls:
  assumes "random_fills lib"
  shows "\<exists>ops serial. serial_ok serial \<and>
    snd (fst (generate_self_signed (logged lib) cn (m, []))) =
      [MbInit CtxEntropy, MbInit CtxDrbg, MbInit CtxKey, MbInit CtxCrt] @ ops @
      [MbFree CtxCrt, MbFree CtxKey, MbFree CtxDrbg, MbFree CtxEntropy] \<and>
    prefix ops (cert_programme (''CN='' @ cn) serial) \<and>
    (isl (snd (generate_self_signed (logged lib) cn (m, []))) \<or> ops = cert_programme (''CN='' @ cn) serial)"
proof -
  obtain m1 tr1 where new: "ctx_new (logged lib) (m, []) = (m1, tr1)" by fastforce
  obtain m2 tr2 r where body: "cert_body (logged lib) cn (m1, tr1) = ((m2, tr2), r)" by (metis prod.exhaust)
  from emits_body [OF assms, of cn] body obtain ops serial where
    "serial_ok serial" "tr2 = tr1 @ ops" "prefix ops (cert_programme (''CN='' @ cn) serial)"
    "isl r \<or> ops = cert_programme (''CN='' @ cn) serial"
    unfolding emits_def by (smt (verit) fst_conv snd_conv mem_Collect_eq)
  with ctx_trace [of lib] new body show ?thesis
    by (intro exI [of _ ops] exI [of _ serial]) (auto simp: generate_self_signed_def dest: arg_cong [of _ _ snd])
qed

text \<open>A library that signs anything.\<close>

definition willing_mbedtls :: "unit mbedtls" where
  "willing_mbedtls m op = (m, case op of
      MbPkInfo \<Rightarrow> (1, [])
    | MbRandom n \<Rightarrow> (0, replicate n 0x80)
    | MbCrtPem n \<Rightarrow> (0, [67, 0])
    | MbKeyPem n \<Rightarrow> (0, [75, 0])
    | _ \<Rightarrow> (0, []))"

lemma certgen_calls_witness:
  "\<exists>ops serial. serial_ok serial \<and>
    snd (fst (generate_self_signed (logged willing_mbedtls) ''garden'' ((), []))) =
      [MbInit CtxEntropy, MbInit CtxDrbg, MbInit CtxKey, MbInit CtxCrt] @ ops @
      [MbFree CtxCrt, MbFree CtxKey, MbFree CtxDrbg, MbFree CtxEntropy]"
  using certgen_calls [of willing_mbedtls "''garden''" "()"]
  by (auto simp: random_fills_def willing_mbedtls_def)

text \<open>A stored certificate with a NUL character inside keeps the device from starting: the web interface
  accepts and saves it, and then every boot ends in a panic when the servers are started, behind the
  start of the plain one.\<close>

theorem nul_certificate_boot_panics:
  assumes "blob_partition bl content" "env_nvs env = esp_nvs_ops bl"
    and "config_save (esp_nvs_ops bl) codec cfg p = (p', Inr ())"
    and "\<And>bs. cc_enc codec cfg = Inr bs \<Longrightarrow> cc_dec codec bs = Inr cfg"
    and "hs_enabled (cf_https cfg)" "hs_key_pem (cf_https cfg) \<noteq> []" "CHR 0x00 \<in> set (butlast (hs_cert_pem (cf_https cfg)))"
    and "sl_new lib h (http_config srv 80) = (h1, Inr http)" "sl_register lib h1 http = (h2, Inr ())"
  shows "let https = cf_https (ap_config (esp_boot env codec dflt generate dispatcher p'))
    in spawn_servers lib srv 80 (hs_cert_pem https) (hs_key_pem https) (hs_enabled https) h = None"
proof -
  have "hs_cert_pem (cf_https cfg) \<noteq> []" using assms(7) by auto
  with boot_runs_saved [OF assms(1-4), of dflt generate dispatcher] nul_not_leaked [OF assms(7)] assms(5,6,8,9)
  show ?thesis by (simp add: spawn_servers_def)
qed

text \<open>A TLS server that does not start leaves the plain one running: without a panic, and if the
  registrations succeed, the start answers a running plain server, whatever the certificate and
  whether the TLS server starts.\<close>

theorem plain_server_survives:
  assumes "sl_new lib h (http_config srv port) = (h1, Inr http)" "sl_register lib h1 http = (h2, Inr ())"
    and "\<And>h n. snd (sl_register lib h n) = Inr ()"
    and "http_leak_cstr cert \<noteq> None" "http_leak_cstr key \<noteq> None"
  shows "\<exists>h' https. spawn_servers lib srv port cert key enabled h = Some (h', Inr (http, https)) \<and>
    (https = None \<longleftrightarrow> \<not> enabled \<or> cert = [] \<or> key = [] \<or>
       isl (snd (sl_new lib h2 (tls_config srv port (the (http_leak_cstr cert)) (the (http_leak_cstr key))))))"
proof -
  obtain c k where ck: "http_leak_cstr cert = Some c" "http_leak_cstr key = Some k" using assms(4,5) by auto
  obtain h3 r where n: "sl_new lib h2 (tls_config srv port c k) = (h3, r)" by fastforce
  obtain h4 q where g: "\<And>n. sl_register lib h3 n = (h4 n, q n)"
    using that [of "\<lambda>n. fst (sl_register lib h3 n)" "\<lambda>n. snd (sl_register lib h3 n)"] by simp
  have "q n = Inr ()" for n using assms(3) [of h3 n] g by simp
  then show ?thesis using assms(1,2) ck n g by (cases r) (auto simp: spawn_servers_def)
qed

text \<open>The helper and the upload handler agree: with authorization, and a client that takes the answer, one
  succeeds exactly if the other does, with the same number of bytes and the same partition.\<close>

theorem apply_image_as_upload:
  assumes "require_auth req (sv_app sv)" "rq_writable req"
  shows "apply_image (he_ota he) discard (rq_reads req) (sv_ota sv) = (ota, Inr tot) \<longleftrightarrow>
    (\<exists>sv'. post_ota he req sv = (sv', Reply 202 JSON_CT (OtaBody tot)) \<and> sv_ota sv' = ota)"
proof -
  let ?ops = "he_ota he"
  obtain o1 x1 where 1: "ot_new ?ops (sv_ota sv) = (o1, x1)" by fastforce
  obtain o2 x2 where 2: "ot_initiate ?ops o1 = (o2, x2)" by fastforce
  obtain o3 x3 where 3: "ota_loop ?ops (rq_reads req) o2 0 = (o3, x3)" by fastforce
  obtain o4 x4 where 4: "image_loop ?ops discard (rq_reads req) o2 0 = (o4, x4)" by fastforce
  have same: "x4 = Inr n \<and> o4 = o3 \<longleftrightarrow> x3 = Inr n" "isl x4 = isl x3" for n
    using image_loop_as_upload [of ?ops discard "rq_reads req" o2 0] 3 4 by (cases x3; cases x4; auto)+
  show ?thesis
  proof (cases x3)
    case (Inr n)
    with same(1) [of n] 1 2 3 4 assms show ?thesis
      by (auto simp: apply_image_def post_ota_def send_def send_error_def Let_def split: sum.split prod.split)
  next
    case (Inl e)
    then obtain e' where "x4 = Inl e'" using same(2) by (cases x4) auto
    with Inl 1 2 3 4 assms show ?thesis
      by (auto simp: apply_image_def post_ota_def send_def send_error_def Let_def split: sum.split prod.split)
  qed
qed

text \<open>A library of servers that starts everything; its state counts the servers.\<close>

definition willing_servers :: "nat server_lib" where
  "willing_servers = \<lparr>sl_new = \<lambda>n _. (n + 1, Inr n), sl_register = \<lambda>n _. (n, Inr ()), sl_drop = \<lambda>n _. n\<rparr>"

definition server_defaults :: server_config where
  "server_defaults = \<lparr>svc_http_port = 80, svc_https_port = 443, svc_ctrl_port = 32768, svc_stack_size = 6144,
     svc_max_uri_handlers = 32, svc_max_open_sockets = 4, svc_session_timeout_s = 1200, svc_lru_purge = False,
     svc_certificate = None, svc_private_key = None\<rparr>"

definition nul_config :: config where
  "nul_config = sample_config\<lparr>cf_https := \<lparr>hs_enabled = True, hs_cert_pem = [CHR ''c'', CHR 0x00, CHR ''t''], hs_key_pem = ''key''\<rparr>\<rparr>"

lemma nul_certificate_boot_panics_witness:
  "let https = cf_https (ap_config (esp_boot ((sample_env (\<lambda>_. 0))\<lparr>env_nvs := esp_nvs_ops ram_partition\<rparr>)
      (constant_codec nul_config) sample_config (\<lambda>_. Inl []) [] [NVS_KEY \<mapsto> [123, 125]]))
   in spawn_servers willing_servers server_defaults 80 (hs_cert_pem https) (hs_key_pem https) (hs_enabled https) 0 = None"
proof -
  have "config_save (esp_nvs_ops ram_partition) (constant_codec nul_config) nul_config Map.empty =
      ([NVS_KEY \<mapsto> [123, 125]], Inr ())"
    by (simp add: config_save_def constant_codec_def esp_nvs_set_def ram_partition_def)
  from nul_certificate_boot_panics [OF ram_blob_partition _ this,
      of "(sample_env (\<lambda>_. 0))\<lparr>env_nvs := esp_nvs_ops ram_partition\<rparr>" willing_servers 0 server_defaults 1 0 1
        sample_config "\<lambda>_. Inl []" "[]"]
  show ?thesis by (simp add: constant_codec_def nul_config_def willing_servers_def)
qed

lemma plain_server_survives_witness:
  "\<exists>h' https. spawn_servers willing_servers server_defaults 80 ''cert'' ''key'' True 0 = Some (h', Inr (0, https))"
  using plain_server_survives [of willing_servers 0 server_defaults 80 1 0 1 "''cert''" "''key''" True]
  by (auto simp: willing_servers_def http_leak_cstr_def bytes_of_def)

end
