(* ===== verification/Nostd_Router.thy ===== *)
theory Nostd_Router
  imports Web_Api Http_Server Ota_Update Nostd_Main
begin

text \<open>
  The web server of the no_std firmware, \<open>build_app\<close> of \<open>crates/firmware-nostd/src/main.rs\<close>: the
  routes over the handlers of theory \<open>Web_Api\<close>, and the log stream of its WebSocket. The server is
  picoserve. A request is what it hands over: the method, the segments of the path, and the results
  of its extractors (\<open>Inl\<close> a refusal with its status). Routes are tried in order; a path that none
  matches is answered with 404 and a method a route does not have with 405, both by the server
  itself (\<open>NsRefused\<close>).
\<close>

section \<open>Replies and extractors\<close>

datatype ns_reply =
    NsText nat string string
  | NsNoContent
  | NsStream json_view
  | NsPage
  | NsUpgrade
  | NsRefused nat

fun ns_status :: "ns_reply \<Rightarrow> nat" where
  "ns_status (NsText status _ _) = status"
| "ns_status NsNoContent = 204"
| "ns_status (NsStream _) = 200"
| "ns_status NsPage = 200"
| "ns_status NsUpgrade = 101"
| "ns_status (NsRefused status) = status"

definition json_str :: "string \<Rightarrow> ns_reply" where
  "json_str s = NsText 200 ''application/json'' s"

fun api_resp_reply :: "api_resp \<Rightarrow> ns_reply" where
  "api_resp_reply (Json s) = json_str s"
| "api_resp_reply NoContent = NsNoContent"
| "api_resp_reply (JsonStream view) = NsStream view"

text \<open>The upload extractor runs \<open>write_image\<close> (theory \<open>Ota_Update\<close>); its flag is the reboot request. The
  scan is what the connection task answers within twelve seconds.\<close>

record ns_request =
  nq_path :: "string list"
  nq_query :: "nat + string option"
  nq_body :: "nat + bytes"
  nq_upgrade :: "nat + unit"
  nq_upload :: "ota_report \<times> bool"
  nq_scan :: "wifi_scan_result list option"

text \<open>\<open>parse_path_segment::<Seg>\<close>: one segment behind the prefix, of at most 24 bytes.\<close>

definition captured :: "string list \<Rightarrow> string list \<Rightarrow> string option" where
  "captured pre p =
    (if p \<noteq> [] \<and> butlast p = pre \<and> length (last p) \<le> 24 then Some (last p) else None)"

section \<open>The routes\<close>

definition ota_reply :: "ota_report \<Rightarrow> ns_reply" where
  "ota_reply report =
    (if or_ok report
     then json_str (''{'' @ quoted ''result'' @ '':'' @ quoted ''ok'' @ '','' @
       quoted ''detail'' @ '':'' @ quoted (or_detail report) @ ''}'')
     else json_str (''{'' @ quoted ''error'' @ '':'' @ quoted (or_detail report) @ ''}''))"

definition api_seg_route ::
    "('s, 't, 'd, 'j) web_env \<Rightarrow> http_method \<Rightarrow> string \<Rightarrow> ns_request \<Rightarrow> ('s, 'd) app_state \<Rightarrow>
     ('s, 'd) app_state \<times> ns_reply" where
  "api_seg_route we m seg rq st = (case m of
      GET \<Rightarrow> (case nq_query rq of
          Inl status \<Rightarrow> (st, NsRefused status)
        | Inr q \<Rightarrow> (st, api_resp_reply (api_get we seg st (q \<noteq> None))))
    | PUT \<Rightarrow> (case nq_body rq of
          Inl status \<Rightarrow> (st, NsRefused status)
        | Inr body \<Rightarrow> (let (st, s) = api_put we seg st body in (st, json_str s)))
    | POST \<Rightarrow> (case nq_body rq of
          Inl status \<Rightarrow> (st, NsRefused status)
        | Inr body \<Rightarrow> (let (st, s) = api_post we seg st body in (st, json_str s))))"

definition config_seg_route ::
    "('s, 't, 'd, 'j) web_env \<Rightarrow> http_method \<Rightarrow> string \<Rightarrow> ns_request \<Rightarrow> ('s, 'd) app_state \<Rightarrow>
     ('s, 'd) app_state \<times> ns_reply" where
  "config_seg_route we m sec rq st = (case m of
      GET \<Rightarrow> (st, api_resp_reply (config_section_get sec st))
    | PUT \<Rightarrow> (case nq_body rq of
          Inl status \<Rightarrow> (st, NsRefused status)
        | Inr body \<Rightarrow> (let (st, s) = config_section_put we sec st body in (st, json_str s)))
    | POST \<Rightarrow> (st, NsRefused 405))"

definition wifi_seg_route ::
    "(wifi_scan_response \<Rightarrow> string option) \<Rightarrow> http_method \<Rightarrow> string \<Rightarrow> ns_request \<Rightarrow> ns_reply" where
  "wifi_seg_route enc m act rq = (case m of
      GET \<Rightarrow> json_str (if act = ''scan'' then request_scan enc (nq_scan rq) else wifi_get act)
    | POST \<Rightarrow> api_resp_reply (wifi_post act)
    | PUT \<Rightarrow> NsRefused 405)"

definition build_app ::
    "('s, 't, 'd, 'j) web_env \<Rightarrow> (wifi_scan_response \<Rightarrow> string option) \<Rightarrow> http_method \<Rightarrow> ns_request \<Rightarrow>
     ('s, 'd) app_state \<Rightarrow> ('s, 'd) app_state \<times> ns_reply" where
  "build_app we enc m rq st =
    (let p = nq_path rq in
     if p = [] then (st, if m = GET then NsPage else NsRefused 405)
     else if p = [''ws'', ''logs''] then
       (st, if m = GET then (case nq_upgrade rq of Inl status \<Rightarrow> NsRefused status | Inr _ \<Rightarrow> NsUpgrade)
            else NsRefused 405)
     else if p = [''api'', ''ota''] then
       (if m = POST then
          (case nq_upload rq of (report, reboot) \<Rightarrow>
             (st\<lparr>as_reboot := as_reboot st \<or> reboot\<rparr>, ota_reply report))
        else (st, NsRefused 405))
     else case captured [''api''] p of Some seg \<Rightarrow> api_seg_route we m seg rq st | None \<Rightarrow>
       (case captured [''api'', ''config''] p of Some sec \<Rightarrow> config_seg_route we m sec rq st | None \<Rightarrow>
       (case captured [''api'', ''wifi''] p of Some act \<Rightarrow> (st, wifi_seg_route enc m act rq) | None \<Rightarrow>
       (case captured [''api'', ''alarm''] p of Some act \<Rightarrow>
          (if m = POST then (let (st, r) = alarm_post we act st in (st, api_resp_reply r)) else (st, NsRefused 405)) | None \<Rightarrow>
       (case captured [''api'', ''webhooks''] p of Some act \<Rightarrow>
          (if m = POST then
             (case nq_body rq of
                Inl status \<Rightarrow> (st, NsRefused status)
              | Inr body \<Rightarrow> (let (st, s) = webhooks_post we act st body in (st, json_str s)))
           else (st, NsRefused 405)) | None \<Rightarrow>
       (st, NsRefused 404))))))"

section \<open>The log stream\<close>

text \<open>What \<open>next_message\<close> answers: a frame of the client, a read error, or a log line with the success of
  sending it. The result is what was sent, and whether the stream has ended.\<close>

datatype stream_in = ClientFrame | StreamError | LogLine string bool

fun log_stream :: "stream_in list \<Rightarrow> string list \<times> bool" where
  "log_stream [] = ([], False)"
| "log_stream (ClientFrame # is) = ([], True)"
| "log_stream (StreamError # is) = ([], True)"
| "log_stream (LogLine line ok # is) =
    (if ok then (let (out, ended) = log_stream is in (line # out, ended)) else ([], True))"

definition log_streamer :: "bool \<Rightarrow> stream_in list \<Rightarrow> string list \<times> bool" where
  "log_streamer slot is = (if \<not> slot then ([], True) else log_stream is)"

section \<open>Lemmas\<close>

lemma status_json_str [simp]: "ns_status (json_str s) = 200"
  by (simp add: json_str_def)

lemma captured_snoc [simp]: "captured pre (p @ [s]) = (if p = pre \<and> length s \<le> 24 then Some s else None)"
  by (simp add: captured_def)

lemma captured_two [simp]:
  "captured pre [a, b] = (if pre = [a] \<and> length b \<le> 24 then Some b else None)"
  "captured pre [a, b, c] = (if pre = [a, b] \<and> length c \<le> 24 then Some c else None)"
  by (auto simp: captured_def)

lemma build_app_section:
  assumes "nq_path rq = [''api'', ''config'', s]" "length s \<le> 24"
  shows "build_app we enc m rq st = config_seg_route we m s rq st"
  using assms by (simp add: build_app_def)

text \<open>The names of the sections the ESP-IDF firmware and the web interface use.\<close>

definition ESP_SECTIONS :: "string list" where
  "ESP_SECTIONS = [''wifi'', ''mqtt'', ''switches'', ''sensors'', ''schedule'', ''https'', ''wireguard'',
     ''time'', ''auth'', ''flow_alarm'', ''webhooks'']"

lemma esp_sections_short: "s \<in> set ESP_SECTIONS \<Longrightarrow> length s \<le> 24"
  by (auto simp: ESP_SECTIONS_def)

lemma esp_sections_parse: "s \<in> set ESP_SECTIONS \<Longrightarrow> section_parse s = None \<longleftrightarrow> s \<in> {''time'', ''auth''}"
  by (auto simp: ESP_SECTIONS_def section_parse_def)

lemma json_error_inj [simp]: "json_error a = json_error b \<longleftrightarrow> a = b"
  by (simp add: json_error_def quoted_def)

text \<open>A section with a key is not refused as unknown.\<close>

lemma save_not_unknown: "snd (save_then_replace we cfg st) \<noteq> json_error ''unknown config section''"
  by (auto simp: save_then_replace_def json_error_not_ok [symmetric] simp del: json_error_not_ok split: prod.split sum.split)

lemma section_put_unknown:
  assumes "we_value we body = Inr v" "we_to_value we (ap_config (as_app st)) = Some (JObj fs)"
  shows "snd (config_section_put we sec st body) = json_error ''unknown config section'' \<longleftrightarrow> map_of fs sec = None"
    and "map_of fs sec = None \<Longrightarrow> fst (config_section_put we sec st body) = st"
  using assms save_not_unknown by (auto simp: config_section_put_def split: option.split sum.split)

text \<open>Who raises the reboot flag.\<close>

lemma captured_path: "captured pre p = Some s \<Longrightarrow> p = pre @ [s]"
  by (auto simp: captured_def split: if_splits)

lemma state_save_reboot [simp]: "as_reboot (fst (state_save we cfg st)) = as_reboot st"
  by (auto simp: state_save_def Let_def split: option.split prod.split)

lemma save_replace_reboot [simp]: "as_reboot (fst (save_then_replace we cfg st)) = as_reboot st"
  using state_save_reboot [of we cfg st]
  by (cases "state_save we cfg st"; cases "snd (state_save we cfg st)")
    (simp_all add: save_then_replace_def del: state_save_reboot)

lemma put_reboot [simp]:
  "as_reboot (fst (api_put we seg st body)) = as_reboot st"
  "as_reboot (fst (config_section_put we seg st body)) = as_reboot st"
  by (auto simp: api_put_def config_section_put_def split: sum.split option.split json.split)

lemma post_reboot [simp]:
  "as_reboot (fst (alarm_post we act st)) = as_reboot st"
  "as_reboot (fst (webhooks_post we act st body)) = as_reboot st"
  by (auto simp: alarm_post_def webhooks_post_def split: sum.split)

definition reset_done :: "('s, 't, 'd, 'j) web_env \<Rightarrow> ('s, 'd) app_state \<Rightarrow> bool" where
  "reset_done we st \<longleftrightarrow> (case ap_nvs (as_app st) of
      None \<Rightarrow> False
    | Some s \<Rightarrow> (snd (config_factory_reset (env_nvs (we_env we)) s) :: 'j config_error + unit) = Inr ())"

lemma api_post_reboot:
  "as_reboot (fst (api_post we seg st body)) \<Longrightarrow> \<not> as_reboot st \<Longrightarrow> seg = ''factory_reset'' \<and> reset_done we st"
  by (auto simp: api_post_def reset_done_def Let_def split: if_splits sum.splits option.splits prod.splits)

lemma seg_route_reboot:
  "as_reboot (fst (api_seg_route we m seg rq st)) \<Longrightarrow> \<not> as_reboot st \<Longrightarrow> m = POST \<and> seg = ''factory_reset'' \<and> reset_done we st"
  by (cases m; cases "nq_query rq"; cases "nq_body rq")
    (auto simp: api_seg_route_def case_prod_beta dest: api_post_reboot)

lemma config_route_reboot [simp]: "as_reboot (fst (config_seg_route we m seg rq st)) = as_reboot st"
  by (cases m; cases "nq_body rq") (simp_all add: config_seg_route_def case_prod_beta)

text \<open>What a section of the ESP-IDF firmware is as JSON, by the same serializers.\<close>

definition section_json :: "('s, 't, 'd, 'j) web_env \<Rightarrow> section_view \<Rightarrow> json" where
  "section_json we view = (let sec = we_sections we in case view of
      WifiSec x \<Rightarrow> sv_of_wifi sec x
    | MqttSec x \<Rightarrow> sv_of_mqtt sec x
    | SwitchesSec x \<Rightarrow> sv_of_switches sec x
    | SensorsSec x \<Rightarrow> sv_of_sensors sec x
    | ScheduleSec x \<Rightarrow> sv_of_schedule sec x
    | HttpsSec x \<Rightarrow> sv_of_https sec x
    | WireguardSec x \<Rightarrow> sv_of_wireguard sec x
    | TimeSec x \<Rightarrow> JObj [(''sntp_servers'', JArr (map JStr (ti_sntp_servers x))), (''timezone'', JStr (ti_timezone x))]
    | AuthSec x \<Rightarrow> JObj [(''admin_token'', JStr (au_admin_token x))]
    | FlowAlarmSec x \<Rightarrow> sv_of_flow_alarm sec x
    | WebhooksSec x \<Rightarrow> sv_of_webhooks sec x)"

lemma build_app_get: "fst (build_app we enc GET rq st) = st"
proof -
  have "fst (api_seg_route we GET seg rq st) = st" for seg
    by (simp add: api_seg_route_def split: sum.split)
  moreover have "fst (config_seg_route we GET seg rq st) = st" for seg by (simp add: config_seg_route_def)
  ultimately show ?thesis by (simp add: build_app_def Let_def split: option.split)
qed

lemma build_app_reboot:
  assumes "as_reboot (fst (build_app we enc m rq st))" "\<not> as_reboot st"
  shows "m = POST \<and>
    (nq_path rq = [''api'', ''ota''] \<and> snd (nq_upload rq) \<or>
     nq_path rq = [''api'', ''factory_reset''] \<and> reset_done we st)"
proof (cases "\<exists>seg. captured [''api''] (nq_path rq) = Some seg \<and> nq_path rq \<noteq> [''api'', ''ota'']")
  case True
  then obtain seg where seg: "captured [''api''] (nq_path rq) = Some seg" "nq_path rq \<noteq> [''api'', ''ota'']" by blast
  then have p: "nq_path rq = [''api'', seg]" using captured_path by fastforce
  with seg have "build_app we enc m rq st = api_seg_route we m seg rq st" by (simp add: build_app_def)
  with assms seg_route_reboot [of we m seg rq st] p show ?thesis by (simp; blast)
next
  case False
  with assms show ?thesis
    by (auto simp: build_app_def Let_def case_prod_beta split: if_splits option.splits sum.splits)
qed

section \<open>Properties\<close>

text \<open>The no_std firmware does not know two of the sections of the web interface. Of the eleven section
  routes of the ESP-IDF firmware it refuses to write exactly \<open>time\<close> and \<open>auth\<close>, without any effect, and
  the status of the refusal is 200, as for a section that was saved. (The keys of the JSON form of a
  configuration are the names of its fields, which are the sections \<open>section_parse\<close> knows.)\<close>

theorem nostd_sections_refused:
  assumes "we_to_value we (ap_config (as_app st)) = Some (JObj fs)"
    and "fst ` set fs = {s. section_parse s \<noteq> None}"
    and "nq_path rq = [''api'', ''config'', s]" "s \<in> set ESP_SECTIONS"
    and "nq_body rq = Inr body" "we_value we body = Inr v"
  shows "ns_status (snd (build_app we enc PUT rq st)) = 200 \<and>
    (snd (build_app we enc PUT rq st) = json_str (json_error ''unknown config section'') \<longleftrightarrow> s \<in> {''time'', ''auth''}) \<and>
    (s \<in> {''time'', ''auth''} \<longrightarrow> fst (build_app we enc PUT rq st) = st)"
proof -
  have "map_of fs s = None \<longleftrightarrow> s \<in> {''time'', ''auth''}"
    using assms(2) esp_sections_parse [OF assms(4)] by (auto simp: map_of_eq_None_iff)
  with section_put_unknown [OF assms(6,1), of s] show ?thesis
    unfolding build_app_section [OF assms(3) esp_sections_short [OF assms(4)]]
    by (auto simp: config_seg_route_def assms(5) json_str_def split: prod.splits)
qed

definition named_values :: "config \<Rightarrow> json option" where
  "named_values _ = Some (JObj (map (\<lambda>k. (k, JNull)) [''admin_token'', ''flow_alarm'', ''https'', ''mqtt'', ''schedule'',
     ''sensors'', ''sntp_servers'', ''switches'', ''timezone'', ''webhooks'', ''wifi'', ''wireguard'']))"

definition router_env :: "(fake_nvs, int, webhook_event list, unit) web_env" where
  "router_env = (sample_web_env sample_config)\<lparr>we_to_value := named_values, we_value := \<lambda>_. Inr JNull\<rparr>"

definition router_request :: "string list \<Rightarrow> ns_request" where
  "router_request p = \<lparr>nq_path = p, nq_query = Inr None, nq_body = Inr [], nq_upgrade = Inl 400,
     nq_upload = (\<lparr>or_ok = False, or_detail = []\<rparr>, False), nq_scan = None\<rparr>"

lemma nostd_sections_refused_witness:
  "ns_status (snd (build_app router_env (\<lambda>_. None) PUT (router_request [''api'', ''config'', ''auth''])
      (sample_app_state sample_config))) = 200 \<and>
   fst (build_app router_env (\<lambda>_. None) PUT (router_request [''api'', ''config'', ''auth'']) (sample_app_state sample_config)) =
     sample_app_state sample_config"
proof -
  let ?fs = "map (\<lambda>k. (k, JNull)) [''admin_token'', ''flow_alarm'', ''https'', ''mqtt'', ''schedule'',
     ''sensors'', ''sntp_servers'', ''switches'', ''timezone'', ''webhooks'', ''wifi'', ''wireguard'']"
  have "fst ` set ?fs = {s. section_parse s \<noteq> None}"
    by (auto simp: section_parse_def split: if_splits)
  from nostd_sections_refused [OF _ this, of router_env "sample_app_state sample_config"
      "router_request [''api'', ''config'', ''auth'']" "''auth''" "[]" JNull "\<lambda>_. None"]
  show ?thesis by (simp add: router_env_def named_values_def router_request_def ESP_SECTIONS_def)
qed

text \<open>Reading a section gives the same JSON on both firmwares: for each of the nine sections that both
  know, the no_std firmware streams a view and the ESP-IDF firmware sends a body with the same value,
  of the same redacted configuration.\<close>

theorem nostd_reads_alike:
  assumes "s \<in> set ESP_SECTIONS" "s \<notin> {''time'', ''auth''}"
    and "nq_path rq = [''api'', ''config'', s]" "rq_path req = ''/api/config/'' @ s" "rq_writable req"
    and "ap_config (as_app st) = ap_config (sv_app sv)"
  shows "\<exists>view sec. build_app we enc GET rq st = (st, NsStream view) \<and>
    snd (http_handle he GET req sv) = Reply 200 JSON_CT (SectionBody sec) \<and>
    view_json we view = Some (section_json we sec)"
  unfolding build_app_section [OF assms(3) esp_sections_short [OF assms(1)]]
  using assms(1,2,4-6)
  by (auto simp: ESP_SECTIONS_def config_seg_route_def config_section_get_def section_parse_def get_route_def
      section_get_def send_def view_json_def section_json_def Let_def WIFI_SCAN_def STATUS_def CONFIG_def)

lemma nostd_reads_alike_witness:
  "\<exists>view sec. build_app router_env (\<lambda>_. None) GET (router_request [''api'', ''config'', ''mqtt'']) (sample_app_state sample_config) =
      (sample_app_state sample_config, NsStream view) \<and>
    snd (http_handle (sample_http_env fake_nvs_ops sample_config) GET (sample_request ''/api/config/mqtt'' None [])
      (sample_server fake_nvs_ops fake_nvs_new sample_config)) = Reply 200 JSON_CT (SectionBody sec) \<and>
    view_json router_env view = Some (section_json router_env sec)"
  by (rule nostd_reads_alike [of "''mqtt''"])
    (simp_all add: ESP_SECTIONS_def router_request_def sample_request_def sample_app_state_def sample_server_def
      app_with_nvs_def Let_def)

text \<open>Only two requests can make the no_std firmware reboot, an upload that reports so and an accepted
  factory reset, and reading never changes anything.\<close>

theorem nostd_reboot_only:
  assumes "\<not> as_reboot st"
  shows "fst (build_app we enc GET rq st) = st \<and>
    (as_reboot (fst (build_app we enc m rq st)) \<longrightarrow> m = POST \<and>
      (nq_path rq = [''api'', ''ota''] \<and> snd (nq_upload rq) \<or>
       nq_path rq = [''api'', ''factory_reset''] \<and> reset_done we st))"
  using build_app_get build_app_reboot [OF _ assms] by blast

lemma nostd_reboot_only_witness:
  "as_reboot (fst (build_app router_env (\<lambda>_. None) POST (router_request [''api'', ''factory_reset'']) (sample_app_state sample_config))) \<and>
   \<not> as_reboot (fst (build_app router_env (\<lambda>_. None) POST (router_request [''api'', ''ota'']) (sample_app_state sample_config)))"
proof -
  have "\<not> as_reboot (sample_app_state sample_config)" by (simp add: sample_app_state_def)
  from nostd_reboot_only [OF this, of router_env "\<lambda>_. None" "router_request [''api'', ''ota'']" POST]
  have "\<not> as_reboot (fst (build_app router_env (\<lambda>_. None) POST (router_request [''api'', ''ota'']) (sample_app_state sample_config)))"
    by (auto simp: router_request_def)
  moreover have "as_reboot (fst (build_app router_env (\<lambda>_. None) POST (router_request [''api'', ''factory_reset'']) (sample_app_state sample_config)))"
    by (simp add: build_app_def router_request_def api_seg_route_def api_post_def router_env_def sample_web_env_def
        sample_app_state_def app_with_nvs_def config_factory_reset_def fake_nvs_defs Let_def split: prod.split sum.split)
  ultimately show ?thesis by simp
qed

end
