(* ===== verification/Device_System.thy ===== *)
theory Device_System
  imports Nostd_Router Pin_Task Firmware_Main Serial_Cli Sensors Wifi_Supervisor Nostd_Mqtt Host_Server
begin

text \<open>
  The devices as a whole. On either firmware the web server, the MQTT client, the schedule, the
  sensors, the console and the tick are tasks that share one application and one store.

  \<^item> \<open>acts\<close> says what a task may do to the application; every task of the two firmwares but the tick
    keeps to it. On ESP-IDF the tasks are threads that interrupt each other inside the calls of the
    application, which is theory Esp_Threads.
  \<^item> The tasks of the no_std firmware share one executor, and there is no \<open>await\<close> inside a call of the
    application: a step of the device is an uninterrupted step of one of them. What a task keeps for
    itself (a last poll, a line being typed, a back-off) is left open in its step, so every history
    of it is covered. The contract of such a device is the locale \<open>control_device\<close>.
\<close>

section \<open>What a task may do to the application\<close>

text \<open>\<open>acts\<close>: the application is changed by its own methods except the tick, by writes of the store, and
  by snapshot writers that leave the alarm and the switches alone.\<close>

inductive acts :: "('s, 't, 'd) env \<Rightarrow> ('s, 'd) app \<Rightarrow> ('s, 'd) app \<Rightarrow> bool" for env where
  acts_refl: "acts env a a"
| acts_op: "acts env a b \<Longrightarrow> e \<noteq> ATick \<Longrightarrow> acts env a (app_apply env b e)"
| acts_store: "acts env a b \<Longrightarrow> acts env a (b\<lparr>ap_nvs := x\<rparr>)"
| acts_write: "acts env a b \<Longrightarrow> (\<And>s. sn_alarm (f s) = sn_alarm s \<and> sn_switches (f s) = sn_switches s) \<Longrightarrow>
    acts env a (app_update_state b f)"

named_theorems act_intros

lemmas [act_intros] = acts_refl acts_store

lemma acts_methods [act_intros]:
  "acts env a b \<Longrightarrow> acts env a (fst (switch_command env b c))"
  "acts env a b \<Longrightarrow> acts env a (fst (fire_schedule_sprinkler env b i d))"
  "acts env a b \<Longrightarrow> acts env a (replace_config_section env b cfg n)"
  "acts env a b \<Longrightarrow> acts env a (replace_config env b cfg)"
  "acts env a b \<Longrightarrow> acts env a (clear_flow_alarm env b)"
  "acts env a b \<Longrightarrow> acts env a (emit_event env b ev)"
  using acts_op [of env a b "ACommand c"] acts_op [of env a b "AFire i d"] acts_op [of env a b "AReplace cfg n"]
    acts_op [of env a b "AReplace cfg ''all''"] acts_op [of env a b AClear] acts_op [of env a b "AEmit ev"]
  by (simp_all add: replace_config_def)

lemma acts_trans: "acts env b c \<Longrightarrow> acts env a b \<Longrightarrow> acts env a c"
  by (induction rule: acts.induct) (auto intro: acts.intros)

text \<open>What survives everything but a tick.\<close>

lemma acts_consistent: "acts env a b \<Longrightarrow> app_consistent a \<Longrightarrow> app_consistent b"
  by (induction rule: acts.induct) (auto intro: consistent_apply elim: consistent_cong)

lemma acts_pins: "acts env a b \<Longrightarrow> pins_follow l (ap_valve a) \<Longrightarrow> pins_follow l (ap_valve b)"
  by (induction rule: acts.induct) (auto intro: pins_follow_apply)

section \<open>The tasks\<close>

lemma acts_save: "acts env a (sv_app sv) \<Longrightarrow> acts env a (sv_app (fst (server_save he cfg sv)))"
  by (auto simp: server_save_def Let_def split: option.split prod.split intro: act_intros)

lemma acts_save_replace:
  assumes "acts (he_env he) a (sv_app sv)"
  shows "acts (he_env he) a (sv_app (fst (save_and_replace he req cfg sv)))"
  using acts_save [OF assms, of he cfg]
  by (cases "server_save he cfg sv"; cases "snd (server_save he cfg sv)")
    (auto simp: save_and_replace_def intro: act_intros)

lemma acts_section: "acts (he_env he) (sv_app sv) (sv_app (fst (section_put he dec ap req sv)))"
  by (auto simp: section_put_def intro!: acts_save_replace act_intros split: read_outcome.split sum.split prod.split)

lemma acts_put_config: "acts (he_env he) (sv_app sv) (sv_app (fst (put_config he req sv)))"
  by (auto simp: put_config_def intro!: acts_save_replace act_intros split: read_outcome.split sum.split)

lemma acts_posts:
  "acts (he_env he) (sv_app sv) (sv_app (fst (post_switch he req sv)))"
  "acts (he_env he) (sv_app sv) (sv_app (fst (post_ota he req sv)))"
  "acts (he_env he) (sv_app sv) (sv_app (fst (post_wifi_reconnect he req sv)))"
  "acts (he_env he) (sv_app sv) (sv_app (fst (post_alarm_clear he req sv)))"
  "acts (he_env he) (sv_app sv) (sv_app (fst (post_webhooks_test he req sv)))"
  "acts (he_env he) (sv_app sv) (sv_app (fst (post_factory_reset he req sv)))"
  by (auto simp: post_switch_def post_ota_def post_wifi_reconnect_def post_alarm_clear_def post_webhooks_test_def
      post_factory_reset_def case_prod_beta Let_def intro: act_intros split: option.split sum.split prod.split)

lemma acts_http: "acts (he_env he) (sv_app sv) (sv_app (fst (http_handle he m req sv)))"
proof (cases m)
  case GET
  then show ?thesis
    by (simp add: get_route_def get_wifi_scan_def Let_def acts_refl split: prod.split sum.split)
next
  case PUT
  then show ?thesis by (simp add: put_route_def Let_def acts_section acts_put_config acts_refl)
next
  case POST
  then show ?thesis by (simp add: post_route_def Let_def acts_posts acts_refl)
qed

lemma acts_state_save: "acts env a (as_app st) \<Longrightarrow> acts env a (as_app (fst (state_save we cfg st)))"
  by (auto simp: state_save_def Let_def split: option.split prod.split intro: act_intros)

lemma acts_save_then_replace: "acts (we_env we) (as_app st) (as_app (fst (save_then_replace we cfg st)))"
  using acts_state_save [OF acts_refl, of "we_env we" st we cfg]
  by (cases "state_save we cfg st"; cases "snd (state_save we cfg st)")
    (auto simp: save_then_replace_def intro: act_intros)

lemma acts_web_handlers:
  "acts (we_env we) (as_app st) (as_app (fst (api_put we seg st body)))"
  "acts (we_env we) (as_app st) (as_app (fst (config_section_put we seg st body)))"
  "acts (we_env we) (as_app st) (as_app (fst (api_post we seg st body)))"
  "acts (we_env we) (as_app st) (as_app (fst (alarm_post we seg st)))"
  "acts (we_env we) (as_app st) (as_app (fst (webhooks_post we seg st body)))"
  by (auto simp: api_put_def config_section_put_def api_post_def alarm_post_def webhooks_post_def case_prod_beta Let_def
      intro: act_intros acts_save_then_replace split: sum.split option.split json.split)

lemma acts_build_app: "acts (we_env we) (as_app st) (as_app (fst (build_app we enc m rq st)))"
proof -
  have "acts (we_env we) (as_app st) (as_app (fst (api_seg_route we m seg rq st)))" for seg
    by (cases m) (simp_all add: api_seg_route_def case_prod_beta acts_refl acts_web_handlers split: sum.split)
  moreover have "acts (we_env we) (as_app st) (as_app (fst (config_seg_route we m seg rq st)))" for seg
    by (cases m) (simp_all add: config_seg_route_def case_prod_beta acts_refl acts_web_handlers split: sum.split)
  ultimately show ?thesis
    by (simp add: build_app_def case_prod_beta Let_def acts_refl acts_web_handlers split: option.split sum.split)
qed

lemma acts_route_message: "acts env a (route_message env base topic payload a)"
  by (auto simp: route_message_def intro: act_intros split: option.split)

lemma acts_serve_round: "acts env (mq_app s) (mq_app (fst (serve_round env snd_call cfg i s)))"
  by (auto simp: serve_round_def Let_def case_prod_beta intro: act_intros split: serve_in.split option.split)

lemma acts_fire: "acts env a b \<Longrightarrow> acts env a (fold (fire_rule env) hits b)"
  by (induction hits arbitrary: b) (auto simp: fire_rule_def intro: act_intros split: action.split)

lemma acts_schedule: "schedule_round z mk env now (last_local, a) = Some (last', a') \<Longrightarrow> acts env a a'"
  by (auto simp: schedule_round_def Let_def intro: acts_fire acts_refl split: option.splits)

lemma acts_health: "acts env (hl_app h) (hl_app (fst (health_round env cause version i h)))"
  by (auto simp: health_round_def health_snapshot_def Let_def intro!: acts_write act_intros)

lemma acts_writers:
  "acts env a (app_update_state a (\<lambda>s. s\<lparr>sn_sensors := x\<rparr>))"
  "acts env a (app_update_state a (mirror_wifi w))"
  "acts env a (app_update_state a (\<lambda>s. snd (heartbeat_round ssid reason i (b, s))))"
  by (auto simp: mirror_wifi_def heartbeat_round_def Let_def intro!: acts_write acts_refl)

text \<open>The consoles.\<close>

lemma cli_say [simp]: "cn_app (say_all ts c) = cn_app c" "cn_app (put t c) = cn_app c"
proof -
  show "cn_app (put t c) = cn_app c" by (simp add: put_def)
  show "cn_app (say_all ts c) = cn_app c"
    unfolding say_all_def by (induction ts arbitrary: c) simp_all
qed

lemma cli_prints [simp]:
  "cn_app (print_help c) = cn_app c" "cn_app (list_networks c) = cn_app c" "cn_app (print_webhook_list c) = cn_app c"
  "cn_app (print_alarm_status c) = cn_app c" "cn_app (print_tasks ts c) = cn_app c" "cn_app (print_mem h c) = cn_app c"
  "cn_app (print_scan found c) = cn_app c" "cn_app (set_log_level l c) = cn_app c"
  by (simp_all add: print_help_def list_networks_def print_webhook_list_def print_alarm_status_def print_tasks_def
      print_mem_def print_scan_def set_log_level_def Let_def split: option.split prod.split)

lemma acts_cli_save: "acts env a b \<Longrightarrow> acts env a (fst (cli_save ce cfg b))"
  by (auto simp: cli_save_def Let_def split: option.split prod.split intro: act_intros)

lemma acts_cli_writes:
  "acts (ce_env ce) (cn_app c) (cn_app (modify_networks ce f c))"
  "acts (ce_env ce) (cn_app c) (cn_app (set_https ce on c))"
  "acts (ce_env ce) (cn_app c) (cn_app (cli_factory_reset ce c))"
  "acts (ce_env ce) (cn_app c) (cn_app (fire_webhook ce k c))"
proof -
  have sv: "acts (ce_env ce) (cn_app c) a" if "cli_save ce cfg (cn_app c) = (a, r)" for cfg a r
    using acts_cli_save [OF acts_refl, of "ce_env ce" "cn_app c" ce cfg] that by simp
  show "acts (ce_env ce) (cn_app c) (cn_app (modify_networks ce f c))" "acts (ce_env ce) (cn_app c) (cn_app (set_https ce on c))"
    by (auto simp: modify_networks_def set_https_def Let_def dest: sv intro: act_intros split: prod.split sum.split)
  show "acts (ce_env ce) (cn_app c) (cn_app (cli_factory_reset ce c))"
    "acts (ce_env ce) (cn_app c) (cn_app (fire_webhook ce k c))"
    by (auto simp: cli_factory_reset_def fire_webhook_def Let_def intro: act_intros split: option.split prod.split sum.split)
qed

lemma acts_cli_dispatch: "acts (ce_env ce) (cn_app c) (cn_app (cli_dispatch ce cmd c))"
  by (simp add: cli_dispatch_def dispatch_wifi_def dispatch_rest_def Let_def acts_refl acts_cli_writes acts_methods
      split: option.split prod.split sum.split)

lemma acts_cli_byte: "acts (ce_env ce) (cn_app c) (cn_app (cli_byte ce c b))"
proof -
  have "acts (ce_env ce) (cn_app c) (cn_app (cli_dispatch ce cmd (put t c)))" for cmd t
    using acts_cli_dispatch [of ce "put t c" cmd] by simp
  then show ?thesis by (simp add: cli_byte_def Let_def acts_refl)
qed

lemma serial_prints [simp]: "sr_app (serial_say t c) = sr_app c" "sr_app (serial_status u c) = sr_app c"
  by (simp_all add: serial_say_def serial_status_def Let_def)

lemma acts_serial_byte: "acts (se_env se) (sr_app c) (sr_app (serial_byte se c b))"
proof -
  have "acts (se_env se) (sr_app c) (sr_app (serial_config_reset se c))"
    "acts (se_env se) (sr_app c) (sr_app (serial_ap se c))"
    by (auto simp: serial_config_reset_def serial_ap_def Let_def intro: act_intros split: option.split prod.split sum.split)
  then show ?thesis by (simp add: serial_byte_def serial_handle_def Let_def acts_refl acts_methods)
qed

section \<open>A device\<close>

text \<open>The contract: a step changes the application as \<open>acts\<close> allows and leaves the pins alone, or it is a
  pass of the tick task, which writes the pins one after the other. \<open>shown\<close> is every level the pins
  have taken.\<close>

locale control_device =
  fixes step :: "'x \<Rightarrow> 'x \<Rightarrow> bool"
    and env :: "('s, 't, 'd) env"
    and task :: "('s, 't, 'd) env \<Rightarrow> ('s, 'd) app \<Rightarrow> ('s, 'd) app \<times> (pin \<times> bool) list"
    and app_of :: "'x \<Rightarrow> ('s, 'd) app"
    and pins :: "'x \<Rightarrow> levels"
    and shown :: "'x \<Rightarrow> levels list"
  assumes writes: "tick_writes task"
    and steps: "step x y \<Longrightarrow>
      acts env (app_of x) (app_of y) \<and> pins y = pins x \<and> shown y = shown x \<or>
      (\<exists>ws. task env (app_of x) = (app_of y, ws) \<and> pins y = last (pins x # write_trace (pins x) ws) \<and>
        shown y = shown x @ write_trace (pins x) ws)"
begin

definition device_inv :: "'x \<Rightarrow> bool" where
  "device_inv x \<longleftrightarrow> app_consistent (app_of x) \<and> pins_follow (pins x) (ap_valve (app_of x)) \<and>
     list_all windings_apart (shown x)"

lemma task_app: "fst (task env a) = fst (app_tick env a)"
  using writes by (auto simp: tick_writes_def nostd_tick_task_def esp_tick_task_def split: prod.split)

lemma step_inv:
  assumes "device_inv x" "step x y"
  shows "device_inv y"
  using steps [OF assms(2)]
proof (elim disjE exE conjE)
  assume *: "acts env (app_of x) (app_of y)" "pins y = pins x" "shown y = shown x"
  with assms(1) acts_consistent [OF *(1)] acts_pins [OF *(1)] show "device_inv y" by (simp add: device_inv_def)
next
  fix ws
  assume *: "task env (app_of x) = (app_of y, ws)" "pins y = last (pins x # write_trace (pins x) ws)"
    "shown y = shown x @ write_trace (pins x) ws"
  have "app_of y = fst (app_tick env (app_of x))" using task_app [of "app_of x"] *(1) by simp
  then have "app_consistent (app_of y)" using assms(1) by (simp add: device_inv_def consistent_tick)
  with tick_round [OF writes _ *(1)] assms(1) *(2,3) show "device_inv y" by (simp add: device_inv_def)
qed

lemma reachable_inv:
  assumes "step\<^sup>*\<^sup>* x y" "device_inv x"
  shows "device_inv y"
  using assms by (induction rule: rtranclp_induct) (auto intro: step_inv)

end

section \<open>The ESP-IDF tasks\<close>

text \<open>Each of them, run by itself, is a sequence of what \<open>acts\<close> allows: none but the tick thread ticks, and
  none touches the alarm or the switches of the snapshot.\<close>

theorem esp_tasks_act:
  "acts (he_env he) (sv_app sv) (sv_app (fst (http_handle he m req sv)))"
  "acts env a (route_message env base topic payload a)"
  "schedule_round z mk env now (last_local, a) = Some (last_local', a') \<Longrightarrow> acts env a a'"
  "acts env (hl_app h) (hl_app (fst (health_round env cause version i h)))"
  "acts env a (app_update_state a (\<lambda>s. s\<lparr>sn_sensors := se\<rparr>))"
  "acts env a (app_update_state a (mirror_wifi w))"
  "acts (ce_env ce) (cn_app c) (cn_app (cli_byte ce c b))"
  by (rule acts_http acts_route_message acts_schedule acts_health acts_writers acts_cli_byte; assumption?)+

section \<open>The no_std device\<close>

record ('s, 'd) nostd_device =
  nd_state :: "('s, 'd) app_state"
  nd_pins :: levels
  nd_shown :: "levels list"

abbreviation nd_app :: "('s, 'd) nostd_device \<Rightarrow> ('s, 'd) app" where
  "nd_app d \<equiv> as_app (nd_state d)"

abbreviation nd_with :: "('s, 'd) nostd_device \<Rightarrow> ('s, 'd) app \<Rightarrow> ('s, 'd) nostd_device" where
  "nd_with d a \<equiv> d\<lparr>nd_state := (nd_state d)\<lparr>as_app := a\<rparr>\<rparr>"

text \<open>\<open>nd_store\<close>: the connection task and the setup mode write the boot mode.\<close>

inductive nostd_step ::
    "('u, 'm) zone_ops \<Rightarrow> 'm civil_ops \<Rightarrow> ('c \<Rightarrow> mqtt_call \<Rightarrow> 'c \<times> bool) \<Rightarrow> ('s, 't, 'd, 'j) web_env \<Rightarrow>
     ('s, 'd) nostd_device \<Rightarrow> ('s, 'd) nostd_device \<Rightarrow> bool"
  for z mk snd_call we where
  nd_web: "nostd_step z mk snd_call we d (d\<lparr>nd_state := fst (build_app we enc m rq (nd_state d))\<rparr>)"
| nd_message: "mq_app s = nd_app d \<Longrightarrow>
    nostd_step z mk snd_call we d (nd_with d (mq_app (fst (serve_round (we_env we) snd_call cfg i s))))"
| nd_schedule: "nostd_schedule_round z mk (we_env we) now (last_local, nd_app d) = Some (last_local', a) \<Longrightarrow>
    nostd_step z mk snd_call we d (nd_with d a)"
| nd_sensors: "sensor_round sc i (st, sn_sensors (app_snapshot (nd_app d))) = Some (st', se) \<Longrightarrow>
    nostd_step z mk snd_call we d (nd_with d (app_update_state (nd_app d) (\<lambda>s. s\<lparr>sn_sensors := se\<rparr>)))"
| nd_beat: "nostd_step z mk snd_call we d (nd_with d (app_update_state (nd_app d) (\<lambda>s. snd (heartbeat_round ssid reason i (b, s)))))"
| nd_console: "se_env (se :: ('s, 't, 'd, 'j) serial_env) = we_env we \<Longrightarrow> sr_app c = nd_app d \<Longrightarrow>
    nostd_step z mk snd_call we d (d\<lparr>nd_state := (nd_state d)\<lparr>as_app := sr_app (serial_byte se c b)\<rparr>\<rparr>)"
| nd_store: "ap_nvs (nd_app d) = Some x \<Longrightarrow>
    nostd_step z mk snd_call we d (nd_with d ((nd_app d)\<lparr>ap_nvs := Some (write_boot_mode (env_nvs (we_env we)) x mode)\<rparr>))"
| nd_tick: "nostd_tick_task (we_env we) (nd_app d) = (a, ws) \<Longrightarrow>
    nostd_step z mk snd_call we d ((nd_with d a)\<lparr>nd_pins := last (nd_pins d # write_trace (nd_pins d) ws),
      nd_shown := nd_shown d @ write_trace (nd_pins d) ws\<rparr>)"

interpretation nostd: control_device "nostd_step z mk snd_call we" "we_env we" nostd_tick_task nd_app nd_pins nd_shown
  for z :: "('u, 'm) zone_ops" and mk :: "'m civil_ops" and snd_call :: "'c \<Rightarrow> mqtt_call \<Rightarrow> 'c \<times> bool"
    and we :: "('s, 't, 'd, 'j) web_env"
proof
  fix d d' :: "('s, 'd) nostd_device"
  assume "nostd_step z mk snd_call we d d'"
  then show "acts (we_env we) (nd_app d) (nd_app d') \<and> nd_pins d' = nd_pins d \<and> nd_shown d' = nd_shown d \<or>
      (\<exists>ws. nostd_tick_task (we_env we) (nd_app d) = (nd_app d', ws) \<and>
        nd_pins d' = last (nd_pins d # write_trace (nd_pins d) ws) \<and> nd_shown d' = nd_shown d @ write_trace (nd_pins d) ws)"
  proof (cases rule: nostd_step.cases)
    case (nd_message s cfg i)
    with acts_serve_round [of "we_env we" s snd_call cfg i] show ?thesis by simp
  next
    case (nd_console se c b)
    with acts_serial_byte [of se c b] show ?thesis by simp
  qed (auto simp: nostd_schedule_as_esp intro: acts_build_app acts_schedule acts_writers acts_store acts_refl)
qed (simp add: tick_writes_def)

section \<open>Power on\<close>

definition nostd_power_on ::
    "('s, 't, 'd, 'j) web_env \<Rightarrow> config \<Rightarrow> 'd \<Rightarrow> 's \<Rightarrow> ('s, 'd) nostd_device" where
  "nostd_power_on we dflt dispatcher s =
    \<lparr>nd_state = \<lparr>as_app = nostd_boot (we_env we) (we_codec we) dflt dispatcher s, as_reboot = False\<rparr>,
     nd_pins = all_low, nd_shown = []\<rparr>"

lemma consistent_dispatcher: "app_consistent (set_webhook_dispatcher a d) \<longleftrightarrow> app_consistent a"
  by (simp add: app_consistent_def set_webhook_dispatcher_def)

lemma pins_low: "pins_follow all_low v"
  by (simp add: pins_follow_def all_low_def)

lemma nostd_start: "nostd.device_inv (nostd_power_on we dflt dispatcher s)"
  by (simp add: nostd.device_inv_def nostd_power_on_def nostd_boot_def consistent_dispatcher consistent_boot pins_low Let_def)

section \<open>The simulator\<close>

text \<open>The simulator has no pins; its requests and its tick share the application.\<close>

inductive host_step ::
    "('s, 't, 'd, 'w, 'o, 'j) http_env \<Rightarrow> 'j axum \<Rightarrow> ('s, 'd, 'w) host \<Rightarrow> ('s, 'd, 'w) host \<Rightarrow> bool" for he ax where
  hs_get: "host_step he ax h (fst (host_get (he_wifi he) p query h))"
| hs_put: "host_step he ax h (fst (host_put he ax ct p body h))"
| hs_post: "host_step he ax h (fst (host_post_route he ax ct p body h))"
| hs_tick: "host_step he ax h (h\<lparr>ho_app := host_tick (he_env he) ms version (ho_app h)\<rparr>)"

lemma acts_host_replace:
  "acts env a (ho_app h) \<Longrightarrow> acts env a (ho_app (fst (host_replace env cfg h)))"
  by (simp add: host_replace_def act_intros)

lemma acts_host_puts:
  "acts env (ho_app h) (ho_app (fst (host_put_config env u h)))"
  "acts env (ho_app h) (ho_app (fst (host_put_wifi env ops nw h)))"
  "acts env (ho_app h) (ho_app (fst (host_put_mqtt env nm h)))"
  "acts env (ho_app h) (ho_app (fst (host_put_switches env ns h)))"
  "acts env (ho_app h) (ho_app (fst (host_put_sensors env ne h)))"
  "acts env (ho_app h) (ho_app (fst (host_put_schedule env nc h)))"
  "acts env (ho_app h) (ho_app (fst (host_put_https env nh h)))"
  "acts env (ho_app h) (ho_app (fst (host_put_wg env ng h)))"
  "acts env (ho_app h) (ho_app (fst (host_put_time env nt h)))"
  "acts env (ho_app h) (ho_app (fst (host_put_auth env na h)))"
  "acts env (ho_app h) (ho_app (fst (host_put_flow_alarm env nf h)))"
  "acts env (ho_app h) (ho_app (fst (host_put_webhooks env nb h)))"
  by (simp_all add: host_put_config_def host_put_wifi_def host_put_mqtt_def host_put_switches_def host_put_sensors_def
      host_put_schedule_def host_put_https_def host_put_wg_def host_put_time_def host_put_auth_def host_put_flow_alarm_def
      host_put_webhooks_def case_prod_beta Let_def acts_host_replace act_intros)

lemma acts_host_posts:
  "acts env (ho_app h) (ho_app (fst (host_post_switch env cmd h)))"
  "acts env (ho_app h) (ho_app (fst (host_post_wifi_reconnect ops h)))"
  "acts env (ho_app h) (ho_app (fst (host_post_alarm_clear env h)))"
  "acts env (ho_app h) (ho_app (fst (host_post_webhooks_test env tr h)))"
  by (simp_all add: host_post_switch_def host_post_wifi_reconnect_def host_post_alarm_clear_def host_post_webhooks_test_def
      case_prod_beta Let_def act_intros)

lemma acts_json_body:
  "(\<And>x. acts env (ho_app h) (ho_app (fst (handler x h)))) \<Longrightarrow> acts env (ho_app h) (ho_app (fst (json_body ax ct d handler h)))"
  by (simp add: json_body_def acts_refl split: sum.split)

lemma host_requests:
  "acts (he_env he) (ho_app h) (ho_app (fst (host_get (he_wifi he) p query h)))"
  "acts (he_env he) (ho_app h) (ho_app (fst (host_put he ax ct p body h)))"
  "acts (he_env he) (ho_app h) (ho_app (fst (host_post_route he ax ct p body h)))"
  by (simp_all add: host_get_def host_get_wifi_scan_def host_put_def host_post_route_def Let_def
      acts_json_body acts_host_puts acts_host_posts acts_refl split: prod.split sum.split)

text \<open>So the simulator keeps the invariant of the devices.\<close>

theorem simulator_consistent:
  assumes "(host_step he ax)\<^sup>*\<^sup>* (host_main (he_env he) dflt dispatcher) h"
  shows "app_consistent (ho_app h)"
  using assms
proof (induction rule: rtranclp_induct)
  case base
  show ?case by (simp add: host_main_def consistent_dispatcher app_new_def consistent_boot)
next
  case (step x y)
  from step.hyps(2) show ?case
  proof (cases rule: host_step.cases)
    case (hs_tick ms version)
    have "app_consistent (fst (app_tick (he_env he) (ho_app x)))" using step.IH by (rule consistent_tick)
    then show ?thesis unfolding hs_tick host_tick_def by (auto elim: consistent_cong)
  qed (auto intro: host_requests acts_consistent [OF _ step.IH])
qed

section \<open>Two writers\<close>

text \<open>The first half of a section write, up to the lock of the application: \<open>Inl\<close> an early answer, \<open>Inr\<close>
  the configuration to save. \<open>section_put\<close> is this half followed by the commit.\<close>

definition section_read ::
    "('s, 't, 'd, 'w, 'o, 'j) http_env \<Rightarrow> (bytes \<Rightarrow> 'j + 'x) \<Rightarrow> (config \<Rightarrow> 'x \<Rightarrow> 'w \<Rightarrow> config \<times> 'w) \<Rightarrow>
     http_request \<Rightarrow> ('s, 'd, 'w, 'o) server \<Rightarrow> reply + config \<times> 'w" where
  "section_read he dec apply_section req sv =
    (if \<not> require_auth req (sv_app sv) then Inl (write_unauthorized req)
     else case read_body (rq_reads req) [] of
       ReadFailed \<Rightarrow> Inl Dropped
     | Overflow buf \<Rightarrow> Inl (send_error req 413 ''body too large'')
     | Complete buf \<Rightarrow>
        (case dec buf of
           Inl e \<Rightarrow> Inl (send_error req 400 (''invalid json: '' @ he_show he e))
         | Inr section_value \<Rightarrow> Inr (apply_section (ap_config (sv_app sv)) section_value (sv_wifi sv))))"

lemma section_put_halves:
  "section_put he dec ap req sv = (case section_read he dec ap req sv of
      Inl r \<Rightarrow> (sv, r)
    | Inr (cfg, w) \<Rightarrow> save_and_replace he req cfg (sv\<lparr>sv_wifi := w\<rparr>))"
  by (simp add: section_put_def section_read_def split: read_outcome.split sum.split prod.split)



section \<open>Properties\<close>

text \<open>C10. The no_std device is safe under every interleaving: from power on with any store, over any
  sequence of web requests, MQTT messages, schedule polls, sensor and heartbeat passes, console
  input, boot mode writes and ticks, of any content and in any order, the two windings of the valve
  are never both driven, and the limits in force are those of the configuration.\<close>

theorem nostd_device_safe:
  assumes "(nostd_step z mk snd_call we)\<^sup>*\<^sup>* (nostd_power_on we dflt dispatcher s) d"
  shows "list_all windings_apart (nd_shown d) \<and> app_consistent (nd_app d)"
  using nostd.reachable_inv [OF assms nostd_start] by (simp add: nostd.device_inv_def)

definition opened_nostd :: "(fake_nvs, webhook_event list) nostd_device" where
  "opened_nostd = (let we = router_env; d = nostd_power_on we sample_config [] fake_nvs_new;
     d = d\<lparr>nd_state := fst (build_app we (\<lambda>_. None) POST (router_request [''api'', ''alarm'', ''clear'']) (nd_state d))\<rparr>
   in (case nostd_tick_task (we_env we) (nd_app d) of (a, ws) \<Rightarrow>
     (nd_with d a)\<lparr>nd_pins := last (nd_pins d # write_trace (nd_pins d) ws),
       nd_shown := nd_shown d @ write_trace (nd_pins d) ws\<rparr>))"

lemma nostd_device_safe_witness:
  "list_all windings_apart (nd_shown opened_nostd) \<and> app_consistent (nd_app opened_nostd) \<and>
   length (nd_shown opened_nostd) = 5"
proof -
  let ?on = "nostd_power_on router_env sample_config [] fake_nvs_new"
  let ?d = "?on\<lparr>nd_state := fst (build_app router_env (\<lambda>_. None) POST (router_request [''api'', ''alarm'', ''clear'']) (nd_state ?on))\<rparr>"
  obtain a ws where t: "nostd_tick_task (we_env router_env) (nd_app ?d) = (a, ws)" by fastforce
  let ?e = "(nd_with ?d a)\<lparr>nd_pins := last (nd_pins ?d # write_trace (nd_pins ?d) ws),
       nd_shown := nd_shown ?d @ write_trace (nd_pins ?d) ws\<rparr>"
  have o: "opened_nostd = ?e"
    unfolding opened_nostd_def Let_def t prod.case ..
  have "(nostd_step utc_zone naive_ops record_call router_env)\<^sup>*\<^sup>* ?on ?e"
    by (rule converse_rtranclp_into_rtranclp, rule nd_web, rule r_into_rtranclp, rule nd_tick, rule t)
  from nostd_device_safe [OF this] have "list_all windings_apart (nd_shown ?e) \<and> app_consistent (nd_app ?e)" .
  moreover have "nd_shown ?on = []"
    by (simp add: nostd_power_on_def)
  moreover have "length (write_trace l ws) = 5" for l
    using t by (auto simp: nostd_tick_task_def split: prod.splits)
  ultimately show ?thesis
    unfolding o by simp
qed



end
