(* ===== verification/Startup.thy ===== *)
theory Startup
  imports Esp_Services Nostd_Mqtt Nostd_Main Serial_Cli Captive_Net
begin

text \<open>
  How the two firmwares are built and started: the build scripts that pass the credentials of the
  \<open>.env\<close> file to the compiler (\<open>core/build.rs\<close>, \<open>firmware-nostd/build.rs\<close>), the order in which the two
  \<open>main\<close> functions start their parts, and the report on heap and tasks of \<open>firmware/diag.rs\<close>.
\<close>

section \<open>Build scripts\<close>

text \<open>The file: missing, not readable, or its lines (\<open>None\<close> is a line that is not UTF-8). A script prints
  assignments for the compiler; the panic of the script is \<open>None\<close>.\<close>

datatype env_file = EnvMissing | EnvUnreadable | EnvLines "string option list"

definition ENV_WHITELIST :: "(string \<times> string) list" where
  "ENV_WHITELIST = [(''SSID'', ''WC_WIFI_SSID''), (''PASSWORD'', ''WC_WIFI_PASSWORD'')]"

definition is_quote :: "char \<Rightarrow> bool" where
  "is_quote c \<longleftrightarrow> c = CHR 0x22 \<or> c = CHR 0x27"

definition trim_quotes :: "string \<Rightarrow> string" where
  "trim_quotes s = rev (dropWhile is_quote (rev (dropWhile is_quote s)))"

definition core_env_line :: "(string \<Rightarrow> bool) \<Rightarrow> string \<Rightarrow> (string \<times> string) list" where
  "core_env_line external line =
    (let line = trim line in
     if line = [] \<or> starts_with line ''#'' then []
     else case split_once (CHR ''='') line of
       None \<Rightarrow> []
     | Some (key, raw) \<Rightarrow>
         (let key = trim key; val = trim_quotes (trim raw) in
          concat (map (\<lambda>(env_key, rust_key).
            if key = env_key \<and> \<not> external rust_key then [(rust_key, val)] else []) ENV_WHITELIST)))"

fun lines_until_error :: "string option list \<Rightarrow> string list" where
  "lines_until_error (Some l # ls) = l # lines_until_error ls"
| "lines_until_error _ = []"

definition core_build :: "(string \<Rightarrow> bool) \<Rightarrow> env_file \<Rightarrow> (string \<times> string) list" where
  "core_build external f = (case f of
      EnvLines ls \<Rightarrow> concat (map (core_env_line external) (lines_until_error ls))
    | _ \<Rightarrow> [])"

definition nostd_env_line :: "string \<Rightarrow> (string \<times> string) list" where
  "nostd_env_line line =
    (let line = trim line in
     if line = [] \<or> starts_with line ''#'' then []
     else case split_once (CHR ''='') line of
       None \<Rightarrow> []
     | Some (k, v) \<Rightarrow> [(trim k, trim v)])"

definition nostd_build :: "env_file \<Rightarrow> (string \<times> string) list option" where
  "nostd_build f = (case f of
      EnvLines ls \<Rightarrow> if None \<in> set ls then None else Some (concat (map nostd_env_line (map the ls)))
    | _ \<Rightarrow> None)"

section \<open>The start of the ESP-IDF firmware\<close>

datatype esp_task =
    EtWebhooks | EtCaptiveDns | EtWifi | EtWifiMirror | EtMqtt | EtTelnet | EtConsole
  | EtSchedule | EtSensors | EtTick

datatype boot_op =
    BoPeripherals
  | BoNvsPartition
  | BoEventLoop
  | BoOutput nat
  | BoAdc
  | BoPcnt
  | BoNetif
  | BoOpenNvs
  | BoApp
  | BoTask esp_task
  | BoEthernet
  | BoMdns
  | BoWebServers

text \<open>The steps of \<open>main\<close> up to its last loop, for the build features \<open>qemu\<close> and \<open>serial-cli\<close>. The flag says
  that a failure leaves \<open>main\<close> (the \<open>?\<close> of the code); of the others it is at most logged.\<close>

definition hardware_plan :: "bool \<Rightarrow> (boot_op \<times> bool) list" where
  "hardware_plan qemu =
    [(BoPeripherals, True), (BoNvsPartition, True), (BoEventLoop, True)] @
    map (\<lambda>gpio. (BoOutput gpio, True)) [26, 27, 25, 12, 4, 13, 14] @
    (if qemu then [] else [(BoAdc, True), (BoPcnt, True)]) @
    [(BoNetif, False), (BoOpenNvs, True)]"

definition app_plan :: "(boot_op \<times> bool) list" where
  "app_plan = [(BoApp, False), (BoTask EtWebhooks, False), (BoTask EtCaptiveDns, False)]"

definition network_plan :: "bool \<Rightarrow> (boot_op \<times> bool) list" where
  "network_plan qemu =
    (if qemu then [(BoEthernet, True)]
     else [(BoTask EtWifi, False), (BoTask EtWifiMirror, False), (BoTask EtMqtt, False), (BoMdns, False)])"

definition service_plan :: "bool \<Rightarrow> (boot_op \<times> bool) list" where
  "service_plan serial_cli =
    [(BoTask EtTelnet, False)] @ (if serial_cli then [(BoTask EtConsole, False)] else []) @
    [(BoWebServers, True), (BoTask EtSchedule, False), (BoTask EtSensors, False), (BoTask EtTick, False)]"

definition boot_plan :: "bool \<Rightarrow> bool \<Rightarrow> (boot_op \<times> bool) list" where
  "boot_plan qemu serial_cli = hardware_plan qemu @ app_plan @ network_plan qemu @ service_plan serial_cli"

text \<open>\<open>ok\<close>: what succeeds. The result is what was attempted and whether the last loop is reached.\<close>

fun run_boot :: "(boot_op \<Rightarrow> bool) \<Rightarrow> (boot_op \<times> bool) list \<Rightarrow> boot_op list \<times> bool" where
  "run_boot ok [] = ([], True)"
| "run_boot ok ((op, must) # ps) =
    (if must \<and> \<not> ok op then ([op], False)
     else let (tried, looping) = run_boot ok ps in (op # tried, looping))"

definition esp_main :: "bool \<Rightarrow> bool \<Rightarrow> (boot_op \<Rightarrow> bool) \<Rightarrow> boot_op list \<times> bool" where
  "esp_main qemu serial_cli ok = run_boot ok (boot_plan qemu serial_cli)"

definition esp_started :: "bool \<Rightarrow> bool \<Rightarrow> (boot_op \<Rightarrow> bool) \<Rightarrow> esp_task \<Rightarrow> bool" where
  "esp_started qemu serial_cli ok t \<longleftrightarrow> BoTask t \<in> set (fst (esp_main qemu serial_cli ok)) \<and> ok (BoTask t)"

section \<open>The start of the no_std firmware\<close>

datatype nostd_task =
    NtNet | NtHeartbeat | NtTick | NtReboot | NtSensors | NtConsole | NtSchedule | NtTelnet | NtMdns
  | NtDhcp | NtDns | NtScan
  | NtConnection | NtMqtt | NtSntp | NtWebhooks
  | NtWeb

definition WEB_TASK_POOL_SIZE :: nat where "WEB_TASK_POOL_SIZE = 3"

text \<open>How many instances of a task can be spawned: the next one makes the \<open>unwrap\<close> behind it panic.\<close>

definition pool_size :: "nostd_task \<Rightarrow> nat" where
  "pool_size t = (if t = NtWeb then WEB_TASK_POOL_SIZE else 1)"

definition nostd_tasks :: "bool \<Rightarrow> nostd_task list" where
  "nostd_tasks ap =
    [NtNet, NtHeartbeat, NtTick, NtReboot, NtSensors, NtConsole, NtSchedule, NtTelnet, NtMdns] @
    (if ap then [NtDhcp, NtDns, NtScan] else [NtConnection, NtMqtt, NtSntp, NtWebhooks]) @
    replicate WEB_TASK_POOL_SIZE NtWeb"

text \<open>The address of the interface: fixed with a prefix of 24 bits, or by DHCP.\<close>

datatype nostd_net = StaticV4 bytes nat | DhcpV4

definition nostd_net_config :: "bool \<Rightarrow> nostd_net" where
  "nostd_net_config ap =
    (if ap then StaticV4 [AP_IP ! 0, AP_IP ! 1, AP_IP ! 2, AP_IP ! 3] 24 else DhcpV4)"

text \<open>The spawner: \<open>None\<close> when a pool is exhausted.\<close>

fun spawn_all :: "nostd_task list \<Rightarrow> nostd_task list \<Rightarrow> nostd_task list option" where
  "spawn_all running [] = Some running"
| "spawn_all running (t # ts) =
    (if count_list running t < pool_size t then spawn_all (running @ [t]) ts else None)"

definition nostd_main :: "'s nvs_ops \<Rightarrow> 's \<Rightarrow> config \<Rightarrow> nostd_task list option" where
  "nostd_main ops nvs cfg = spawn_all [] (nostd_tasks (boot_ap ops nvs cfg))"

section \<open>Diagnostics\<close>

text \<open>What the heap reports for one class of memory, and the answer over the three classes asked for.\<close>

record multi_heap_info =
  mh_total_free :: u32
  mh_total_allocated :: u32
  mh_largest_free :: u32
  mh_minimum_free :: u32

datatype heap_caps = Cap8Bit | CapInternal | CapSpiram

record diag_heap = heap_info +
  dh_internal_free :: u32
  dh_internal_largest :: u32
  dh_internal_min_ever :: u32
  dh_psram_free :: u32
  dh_psram_largest :: u32

definition diag_heap_info :: "(heap_caps \<Rightarrow> multi_heap_info) \<Rightarrow> diag_heap" where
  "diag_heap_info caps =
    (let total = caps Cap8Bit; internal = caps CapInternal; spiram = caps CapSpiram in
     \<lparr>hp_total_free = mh_total_free total, hp_total_allocated = mh_total_allocated total,
      hp_largest_free = mh_largest_free total, hp_min_ever = mh_minimum_free total,
      dh_internal_free = mh_total_free internal, dh_internal_largest = mh_largest_free internal,
      dh_internal_min_ever = mh_minimum_free internal,
      dh_psram_free = mh_total_free spiram, dh_psram_largest = mh_largest_free spiram\<rparr>)"

datatype rtos_state = RtRunning | RtReady | RtBlocked | RtSuspended | RtDeleted | RtInvalid

fun state_name :: "rtos_state \<Rightarrow> string" where
  "state_name RtRunning = ''running''"
| "state_name RtReady = ''ready''"
| "state_name RtBlocked = ''blocked''"
| "state_name RtSuspended = ''suspended''"
| "state_name RtDeleted = ''deleted''"
| "state_name RtInvalid = ''?''"

record rtos_task =
  rt_name :: "string option"
  rt_state :: rtos_state
  rt_priority :: u32
  rt_high_water :: u32
  rt_run_time :: u32

text \<open>\<open>uxTaskGetSystemState\<close>: fills an array of the given size, or, documented, nothing if it is too small.\<close>

definition system_state :: "rtos_task list \<Rightarrow> nat \<Rightarrow> rtos_task list" where
  "system_state tasks cap = (if length tasks \<le> cap then tasks else [])"

text \<open>\<open>tasks_then\<close> are the tasks when they are counted, \<open>tasks_now\<close> those when the array is filled.\<close>

definition task_list :: "rtos_task list \<Rightarrow> rtos_task list \<Rightarrow> task_info list" where
  "task_list tasks_then tasks_now =
    (let n = length tasks_then; cap = n + 4 in
     map (\<lambda>t. \<lparr>tk_name = (case rt_name t of None \<Rightarrow> [] | Some s \<Rightarrow> s), tk_state = state_name (rt_state t),
       tk_priority = rt_priority t, tk_stack_free = rt_high_water t, tk_run_time = rt_run_time t\<rparr>)
       (system_state tasks_now cap))"

definition diag_snapshot ::
    "(heap_caps \<Rightarrow> multi_heap_info) \<Rightarrow> rtos_task list \<Rightarrow> rtos_task list \<Rightarrow> diag_heap \<times> task_info list" where
  "diag_snapshot caps tasks_then tasks_now = (diag_heap_info caps, task_list tasks_then tasks_now)"

section \<open>Lemmas\<close>

lemma run_boot_looping: "snd (run_boot ok ps) \<longleftrightarrow> list_all (\<lambda>(op, must). must \<longrightarrow> ok op) ps"
  by (induction ps) (auto split: prod.split)

lemma run_boot_tried: "snd (run_boot ok ps) \<Longrightarrow> fst (run_boot ok ps) = map fst ps"
  by (induction ps) (auto simp: case_prod_beta split: if_splits)

lemma run_boot_subset: "set (fst (run_boot ok ps)) \<subseteq> fst ` set ps"
  by (induction ps) (auto simp: case_prod_beta Let_def split: if_splits)

lemmas boot_plan_defs = boot_plan_def hardware_plan_def app_plan_def network_plan_def service_plan_def

text \<open>Before the web servers, and behind them.\<close>

definition plan_before :: "bool \<Rightarrow> bool \<Rightarrow> (boot_op \<times> bool) list" where
  "plan_before qemu serial_cli = takeWhile (\<lambda>p. fst p \<noteq> BoWebServers) (boot_plan qemu serial_cli)"

lemma boot_plan_split:
  "boot_plan q c = plan_before q c @
     [(BoWebServers, True), (BoTask EtSchedule, False), (BoTask EtSensors, False), (BoTask EtTick, False)]"
  by (cases q; cases c) (simp_all add: boot_plan_defs plan_before_def)

lemma run_boot_append:
  "run_boot ok (ps @ qs) = (if snd (run_boot ok ps)
     then (fst (run_boot ok ps) @ fst (run_boot ok qs), snd (run_boot ok qs)) else run_boot ok ps)"
  by (induction ps) (auto simp: case_prod_beta)

lemma tasks_before:
  "{t. BoTask t \<in> fst ` set (plan_before q c)} = {EtWebhooks, EtCaptiveDns, EtTelnet} \<union>
     (if q then {} else {EtWifi, EtWifiMirror, EtMqtt}) \<union> (if c then {EtConsole} else {})"
  by (cases q; cases c) (auto simp: boot_plan_defs plan_before_def)

lemma nostd_tasks_fit: "spawn_all [] (nostd_tasks ap) = Some (nostd_tasks ap)"
  by (cases ap) (simp_all add: nostd_tasks_def pool_size_def WEB_TASK_POOL_SIZE_def numeral_3_eq_3)

lemma never_synchronised: "list_all (\<lambda>(epoch, now). epoch = 0) readings \<Longrightarrow> nostd_schedule_start z cfg readings = None"
  by (induction readings) auto

lemma env_line_agree:
  "core_env_line (\<lambda>_. False) line = concat (map (\<lambda>(k, v).
     concat (map (\<lambda>(e, r). if k = e then [(r, trim_quotes v)] else []) ENV_WHITELIST)) (nostd_env_line line))"
  by (simp add: core_env_line_def nostd_env_line_def Let_def split: option.split)

lemma readable_lines: "None \<notin> set ls \<Longrightarrow> lines_until_error ls = map the ls"
  by (induction ls rule: lines_until_error.induct) auto

lemma split_char_head: "c \<noteq> x \<Longrightarrow> \<exists>p ps. split_char c (x # xs) = (x # p) # ps"
  by (cases "split_char c xs") auto

lemma quoted_not_u8: "parse_u8 (CHR 0x22 # s) = None"
  by (simp add: parse_u8_def parse_unsigned_def is_digit_def Let_def)

section \<open>Properties\<close>

text \<open>\<open>main\<close> reaches its last loop exactly if every call whose failure it does not tolerate succeeds,
  whatever becomes of the others; and the control loop of the valve runs exactly if, beyond that, its
  own thread can be created. Its failure is tolerated.\<close>

theorem control_loop_runs_iff:
  "snd (esp_main q c ok) \<longleftrightarrow> list_all (\<lambda>(op, must). must \<longrightarrow> ok op) (boot_plan q c)"
  "esp_started q c ok EtTick \<longleftrightarrow> snd (esp_main q c ok) \<and> ok (BoTask EtTick)"
proof -
  show "snd (esp_main q c ok) \<longleftrightarrow> list_all (\<lambda>(op, must). must \<longrightarrow> ok op) (boot_plan q c)"
    by (simp add: esp_main_def run_boot_looping)
  have "BoTask EtTick \<notin> set (fst (run_boot ok (plan_before q c)))"
    using tasks_before [of q c] run_boot_subset [of ok "plan_before q c"] by (auto split: if_splits)
  then show "esp_started q c ok EtTick \<longleftrightarrow> snd (esp_main q c ok) \<and> ok (BoTask EtTick)"
    unfolding esp_started_def esp_main_def boot_plan_split run_boot_append by (simp add: Let_def)
qed

text \<open>A TLS server that starts but cannot register its handlers stops the whole controller: with everything
  else in order, \<open>main\<close> ends, the plain server is dropped as well, and of the tasks those of the network
  have been started, but neither the schedule nor the sensors nor the control loop of the valve.\<close>

theorem tls_failure_stops_control:
  assumes "sl_new lib h (http_config srv 80) = (h1, Inr http)" "sl_register lib h1 http = (h2, Inr ())"
    and "cert \<noteq> []" "key \<noteq> []" "http_leak_cstr cert = Some cb" "http_leak_cstr key = Some kb"
    and "sl_new lib h2 (tls_config srv 80 cb kb) = (h3, Inr tls)" "sl_register lib h3 tls = (h4, Inl e)"
    and "ok BoWebServers \<longleftrightarrow> (\<exists>h' x. spawn_servers lib srv 80 cert key True h = Some (h', Inr x))"
    and others: "\<And>op. op \<noteq> BoWebServers \<Longrightarrow> ok op"
  shows "\<not> snd (esp_main q c ok) \<and> {t. esp_started q c ok t} = {EtWebhooks, EtCaptiveDns, EtTelnet} \<union>
     (if q then {} else {EtWifi, EtWifiMirror, EtMqtt}) \<union> (if c then {EtConsole} else {})"
proof -
  have "\<not> ok BoWebServers" using assms(1-9) by (auto simp: spawn_servers_def)
  moreover have before: "snd (run_boot ok (plan_before q c))"
    unfolding run_boot_looping plan_before_def
    by (auto simp: list_all_iff dest!: set_takeWhileD intro: others)
  ultimately have m: "esp_main q c ok = (map fst (plan_before q c) @ [BoWebServers], False)"
    unfolding esp_main_def boot_plan_split run_boot_append by (simp add: run_boot_tried)
  have "{t. esp_started q c ok t} = {t. BoTask t \<in> fst ` set (plan_before q c)}"
    unfolding esp_started_def m using others by auto
  with m tasks_before show ?thesis by simp
qed

text \<open>A library whose second server takes no handlers.\<close>

definition half_servers :: "nat server_lib" where
  "half_servers = willing_servers\<lparr>sl_register := \<lambda>n s. (n, if s = 0 then Inr () else Inl ''ESP_ERR_HTTPD_HANDLERS_FULL'')\<rparr>"

lemma tls_failure_stops_control_witness:
  "\<not> snd (esp_main False True (\<lambda>op. op \<noteq> BoWebServers)) \<and>
   \<not> esp_started False True (\<lambda>op. op \<noteq> BoWebServers) EtTick \<and> esp_started False True (\<lambda>op. op \<noteq> BoWebServers) EtMqtt"
proof -
  have "\<not> snd (esp_main False True (\<lambda>op. op \<noteq> BoWebServers)) \<and>
      {t. esp_started False True (\<lambda>op. op \<noteq> BoWebServers) t} = {EtWebhooks, EtCaptiveDns, EtTelnet} \<union>
     (if False then {} else {EtWifi, EtWifiMirror, EtMqtt}) \<union> (if True then {EtConsole} else {})"
    by (rule tls_failure_stops_control [of half_servers 0 server_defaults 1 0 1 "''cert''" "''key''"
        "bytes_of ''cert'' @ [0]" "bytes_of ''key'' @ [0]" 2 1 2 "''ESP_ERR_HTTPD_HANDLERS_FULL''"])
      (auto simp: half_servers_def willing_servers_def spawn_servers_def http_leak_cstr_def bytes_of_def)
  then have looping: "\<not> snd (esp_main False True (\<lambda>op. op \<noteq> BoWebServers))" and
    r: "{t. esp_started False True (\<lambda>op. op \<noteq> BoWebServers) t} = {EtWebhooks, EtCaptiveDns, EtTelnet} \<union>
     (if False then {} else {EtWifi, EtWifiMirror, EtMqtt}) \<union> (if True then {EtConsole} else {})" by blast+
  have "EtTick \<notin> {t. esp_started False True (\<lambda>op. op \<noteq> BoWebServers) t}"
    "EtMqtt \<in> {t. esp_started False True (\<lambda>op. op \<noteq> BoWebServers) t}" unfolding r by simp_all
  with looping show ?thesis by blast
qed

text \<open>In setup mode the no_std firmware serves and controls, but no schedule runs: the spawner never panics,
  the tasks of the control are started, and without the SNTP task the clock is never synchronised,
  which the schedule waits for.\<close>

theorem setup_mode_schedule_waits:
  assumes "boot_ap ops nvs cfg"
    and "\<And>ts. nostd_main ops nvs cfg = Some ts \<Longrightarrow> NtSntp \<notin> set ts \<Longrightarrow> list_all (\<lambda>(epoch, now). epoch = 0) readings"
  shows "\<exists>ts. nostd_main ops nvs cfg = Some ts \<and> {NtTick, NtSensors, NtConsole, NtWeb, NtSchedule, NtDhcp, NtDns, NtScan} \<subseteq> set ts \<and>
    nostd_schedule_start z cfg readings = None"
proof -
  have ts: "nostd_main ops nvs cfg = Some (nostd_tasks True)"
    using assms(1) nostd_tasks_fit [of True] by (simp add: nostd_main_def)
  have "NtSntp \<notin> set (nostd_tasks True)" by (simp add: nostd_tasks_def)
  from assms(2) [OF ts this] ts show ?thesis
    by (auto simp: nostd_tasks_def WEB_TASK_POOL_SIZE_def numeral_3_eq_3 never_synchronised)
qed

text \<open>The two build scripts read the same file differently: what the script of the core crate passes on is
  what that of the no_std firmware passes on for the two listed keys, but without the quotes.\<close>

theorem env_scripts_differ:
  assumes "nostd_build (EnvLines ls) = Some out"
  shows "core_build (\<lambda>_. False) (EnvLines ls) = concat (map (\<lambda>(k, v).
     concat (map (\<lambda>(e, r). if k = e then [(r, trim_quotes v)] else []) ENV_WHITELIST)) out)"
proof -
  have ls: "None \<notin> set ls" "out = concat (map nostd_env_line (map the ls))"
    using assms by (auto simp: nostd_build_def split: if_splits)
  have "core_build (\<lambda>_. False) (EnvLines ls) = concat (map (core_env_line (\<lambda>_. False)) (map the ls))"
    by (simp add: core_build_def readable_lines [OF ls(1)])
  also have "\<dots> = concat (map (\<lambda>(k, v).
     concat (map (\<lambda>(e, r). if k = e then [(r, trim_quotes v)] else []) ENV_WHITELIST)) out)"
    unfolding ls(2) by (induction ls) (simp_all add: env_line_agree)
  finally show ?thesis .
qed

text \<open>So a broker address in quotes, a form the core script documents, builds a firmware whose MQTT task
  panics at its start.\<close>

theorem quoted_broker_panics:
  assumes "s \<noteq> []" "CHR ''='' \<notin> set s"
  shows "nostd_build (EnvLines [Some (''MQTT_HOST='' @ [CHR 0x22] @ s @ [CHR 0x22])]) =
      Some [(''MQTT_HOST'', [CHR 0x22] @ s @ [CHR 0x22])] \<and>
    parse_host ([CHR 0x22] @ s @ [CHR 0x22]) = None"
proof
  show "parse_host ([CHR 0x22] @ s @ [CHR 0x22]) = None"
    using split_char_head [of "CHR ''.''" "CHR 0x22" "s @ [CHR 0x22]"] quoted_not_u8
    by (auto simp: parse_host_def)
  have t: "trim (x # xs @ [CHR 0x22]) = x # xs @ [CHR 0x22]" if "\<not> is_ws x" for x xs
    using that by (simp add: trim_def trim_start_def trim_end_def is_ws_def)
  show "nostd_build (EnvLines [Some (''MQTT_HOST='' @ [CHR 0x22] @ s @ [CHR 0x22])]) =
      Some [(''MQTT_HOST'', [CHR 0x22] @ s @ [CHR 0x22])]"
    using t [of "CHR ''M''" "''QTT_HOST='' @ [CHR 0x22] @ s"] t [of "CHR 0x22" s]
    by (simp add: nostd_build_def nostd_env_line_def starts_with_def is_ws_def trim_def trim_start_def trim_end_def)
qed

text \<open>The report of the tasks is complete, unless more than four have been created since they were counted:
  then it is empty.\<close>

theorem task_list_all_or_nothing:
  "length (task_list tasks_then tasks_now) =
     (if length tasks_now \<le> length tasks_then + 4 then length tasks_now else 0)"
  by (simp add: task_list_def system_state_def Let_def)

end
