(* ===== verification/App_Locks.thy ===== *)
theory App_Locks
  imports App
begin

text \<open>
  The application object under threads. On ESP-IDF and on the host the methods of \<open>App\<close> run on
  several threads at once (both web servers, the console, MQTT, the schedule, the tick), and
  \<open>core/app.rs\<close> guards each component with a lock of its own: a method is a sequence of critical
  sections, and other threads run between them. Theory App gives the methods without interruption;
  this one gives them as the sections they are.

  \<^item> A \<open>prog\<close> is the rest of a method: finished, or a section to run under some locks, followed by a
    continuation over what the section read. The methods are written in this form, in the order the
    code takes its locks; \<open>app_prog_sequential\<close> shows that, run alone, each is the method of
    theory App.
  \<^item> A pool is a list of threads, each with the number of locks it has taken for its next section,
    and the shared object. \<open>pool_step\<close> takes one lock that no thread holds, or runs a section whose
    locks are all held and releases them. A section that may log lists the log buffer's lock, which
    the code takes inside the section only when it does log.
  \<^item> \<open>threads_finish\<close>: no deadlock, and a bound on the steps of every run.
  \<^item> The locale \<open>rely\<close> is rely-guarantee reasoning over pools: what a thread ensures while the others
    only make moves the relation allows. It carries the flow alarm's promise and the agreement of
    the components with the configuration to threads; \<open>torn_replace\<close> shows where agreement fails.
    Theory Esp_Threads carries the windings of the valve through the tick thread.

  The dispatcher is swapped at boot only, so the event goes to the one in place when it is queued.
\<close>

section \<open>Programs of critical sections\<close>

datatype lock =
    LkConfig | LkWebhooks | LkSprinkler1 | LkSprinkler2 | LkValve | LkLastPersisted | LkLastCheck
  | LkHistory | LkState | LkNvs | LkQueue | LkLog

datatype ('a, 'r) prog = Ret 'r | Crit "lock list" "'a \<Rightarrow> 'a" "'a \<Rightarrow> ('a, 'r) prog"

primrec prog_bind :: "('a, 'r) prog \<Rightarrow> ('r \<Rightarrow> ('a, 'q) prog) \<Rightarrow> ('a, 'q) prog" where
  "prog_bind (Ret r) g = g r"
| "prog_bind (Crit ls f k) g = Crit ls f (\<lambda>a. prog_bind (k a) g)"

primrec run_alone :: "('a, 'r) prog \<Rightarrow> 'a \<Rightarrow> 'a \<times> 'r" where
  "run_alone (Ret r) a = (a, r)"
| "run_alone (Crit ls f k) a = run_alone (k a) (f a)"

definition locked :: "lock list \<Rightarrow> ('a \<Rightarrow> 'a \<times> 'r) \<Rightarrow> ('a, 'r) prog" where
  "locked ls m = Crit ls (\<lambda>a. fst (m a)) (\<lambda>a. Ret (snd (m a)))"

definition reading :: "lock list \<Rightarrow> ('a \<Rightarrow> 'r) \<Rightarrow> ('a, 'r) prog" where
  "reading ls g = locked ls (\<lambda>a. (a, g a))"

definition updating :: "lock list \<Rightarrow> ('a \<Rightarrow> 'a) \<Rightarrow> ('a, unit) prog" where
  "updating ls f = locked ls (\<lambda>a. (f a, ()))"

definition log_line :: "('a, unit) prog" where
  "log_line = updating [LkLog] id"

definition log_if :: "bool \<Rightarrow> ('a, unit) prog" where
  "log_if b = (if b then log_line else Ret ())"

definition ignoring :: "('a, 'r) prog \<Rightarrow> ('a, unit) prog" where
  "ignoring p = prog_bind p (\<lambda>_. Ret ())"

lemma run_bind [simp]:
  "run_alone (prog_bind p g) a = (case run_alone p a of (b, r) \<Rightarrow> run_alone (g r) b)"
  by (induction p arbitrary: a) auto

lemma run_sections [simp]:
  "run_alone (locked ls m) a = m a" "run_alone (reading ls g) a = (a, g a)"
  "run_alone (updating ls f) a = (f a, ())" "run_alone log_line a = (a, ())"
  "run_alone (log_if b) a = (a, ())"
  by (simp_all add: locked_def reading_def updating_def log_line_def log_if_def)

section \<open>The methods as sections\<close>

type_synonym ('s, 'd, 'r) app_prog = "(('s, 'd) app, 'r) prog"

definition clock_now :: "('s, 't, 'd) env \<Rightarrow> ('s, 'd, u64) app_prog" where
  "clock_now env = locked [] (\<lambda>a. prod.swap (read_mono env a))"

definition wall_now :: "('s, 't, 'd) env \<Rightarrow> ('s, 'd, 't) app_prog" where
  "wall_now env = locked [] (\<lambda>a. prod.swap (read_wall env a))"

definition event_vars :: "('s, 't, 'd) env \<Rightarrow> config \<Rightarrow> 't \<Rightarrow> u64 \<Rightarrow> webhook_event \<Rightarrow> (string \<times> string) list" where
  "event_vars env cfg now ms ev =
    (let v = we_vars ev;
         v = bm_insert_if_absent ''event'' (event_as_str (we_kind ev)) v;
         v = bm_insert_if_absent ''event_label'' (event_label (we_kind ev)) v;
         v = bm_insert_if_absent ''iso_ts'' (env_rfc3339 env now) v;
         v = bm_insert_if_absent ''device'' (wf_hostname (cf_wifi cfg)) v
     in bm_insert_if_absent ''uptime_s'' (show_word (ms div 1000)) v)"

definition emit_prog :: "('s, 't, 'd) env \<Rightarrow> webhook_event \<Rightarrow> ('s, 'd, unit) app_prog" where
  "emit_prog env ev =
    prog_bind (reading [LkConfig] ap_config) (\<lambda>cfg.
    prog_bind (wall_now env) (\<lambda>now.
    prog_bind (clock_now env) (\<lambda>ms.
    prog_bind (updating [LkWebhooks] id) (\<lambda>_.
    updating [LkQueue, LkLog] (\<lambda>a. a\<lparr>ap_webhooks :=
      env_dispatch env (ap_webhooks a) (ev\<lparr>we_vars := event_vars env cfg now ms ev\<rparr>)\<rparr>)))))"

definition store_history :: "('s, 't, 'd) env \<Rightarrow> alarm_event list \<Rightarrow> ('s, 'd) app \<Rightarrow> ('s, 'd) app" where
  "store_history env h a = (case ap_nvs a of
      None \<Rightarrow> a
    | Some s \<Rightarrow> (case env_enc_history env h of
        None \<Rightarrow> a
      | Some bytes \<Rightarrow> a\<lparr>ap_nvs := Some (fst (nvs_set (env_nvs env) s NVS_ALARM_HISTORY bytes))\<rparr>))"

definition record_prog :: "('s, 't, 'd) env \<Rightarrow> alarm_event \<Rightarrow> ('s, 'd, unit) app_prog" where
  "record_prog env ev =
    prog_bind (locked [LkHistory] (\<lambda>a. let h = push_history (ap_history a) ev in (a\<lparr>ap_history := h\<rparr>, h)))
      (\<lambda>h. updating [LkNvs] (store_history env h))"

definition replace_prog :: "('s, 't, 'd) env \<Rightarrow> config \<Rightarrow> string \<Rightarrow> ('s, 'd, unit) app_prog" where
  "replace_prog env cfg section_name =
    (let sw = cf_switches cfg in
     prog_bind (updating [LkSprinkler1] (\<lambda>a. a\<lparr>ap_sprinkler1 :=
       switch_set_auto_off (ap_sprinkler1 a) (auto_off_or_none (sprinkler_1_auto_off_secs sw))\<rparr>)) (\<lambda>_.
     prog_bind (updating [LkSprinkler2] (\<lambda>a. a\<lparr>ap_sprinkler2 :=
       switch_set_auto_off (ap_sprinkler2 a) (auto_off_or_none (sprinkler_2_auto_off_secs sw))\<rparr>)) (\<lambda>_.
     prog_bind (updating [LkValve] (\<lambda>a. a\<lparr>ap_valve := valve_set_timing (ap_valve a) (sw_valve_timing sw)\<rparr>)) (\<lambda>_.
     prog_bind (updating [LkConfig] (\<lambda>a. a\<lparr>ap_config := cfg\<rparr>)) (\<lambda>_.
     emit_prog env (event_with (event_new ConfigChanged) ''section'' section_name))))))"

definition fire_prog :: "('s, 't, 'd) env \<Rightarrow> string \<Rightarrow> u32 option \<Rightarrow> ('s, 'd, bool) app_prog" where
  "fire_prog env sid duration_secs = prog_bind (clock_now env) (\<lambda>now.
     if sid = ''sprinkler_1'' then
       locked [LkSprinkler1, LkLog]
         (\<lambda>a. (a\<lparr>ap_sprinkler1 := schedule_turn_on (ap_sprinkler1 a) now duration_secs\<rparr>, True))
     else if sid = ''sprinkler_2'' then
       locked [LkSprinkler2, LkLog]
         (\<lambda>a. (a\<lparr>ap_sprinkler2 := schedule_turn_on (ap_sprinkler2 a) now duration_secs\<rparr>, True))
     else Ret False)"

definition command_prog :: "('s, 't, 'd) env \<Rightarrow> switch_command \<Rightarrow> ('s, 'd, command_outcome) app_prog" where
  "command_prog env cmd = prog_bind (clock_now env) (\<lambda>now. case cmd of
       Sprinkler1 on \<Rightarrow> locked [LkSprinkler1, LkLog]
         (\<lambda>a. (a\<lparr>ap_sprinkler1 := (if on then switch_turn_on (ap_sprinkler1 a) now
                                  else switch_turn_off (ap_sprinkler1 a) now)\<rparr>, CmdOk))
     | Sprinkler2 on \<Rightarrow> locked [LkSprinkler2, LkLog]
         (\<lambda>a. (a\<lparr>ap_sprinkler2 := (if on then switch_turn_on (ap_sprinkler2 a) now
                                  else switch_turn_off (ap_sprinkler2 a) now)\<rparr>, CmdOk))
     | WaterControl on \<Rightarrow> locked [LkValve, LkLog]
         (\<lambda>a. if valve_is_busy (ap_valve a) then (a, CmdBusy ''valve sequence in progress'')
              else (a\<lparr>ap_valve := (if on then valve_turn_on (ap_valve a) now
                                  else valve_turn_off (ap_valve a) now)\<rparr>, CmdOk)))"

definition no_alarm :: "device_snapshot \<Rightarrow> device_snapshot" where
  "no_alarm s = s\<lparr>sn_alarm := \<lparr>fa_active = False, fa_elapsed_secs = 0\<rparr>\<rparr>"

text \<open>The closure of the second \<open>update_state\<close>: \<open>any_on\<close>, \<open>over_limit\<close> and \<open>was_active\<close> were read from
  the earlier snapshot, the elapsed time and the alarm are those of the moment.\<close>

definition count_alarm :: "flow_alarm_config \<Rightarrow> bool \<Rightarrow> bool \<Rightarrow> bool \<Rightarrow> u32 \<Rightarrow> ('s, 'd) app \<Rightarrow> ('s, 'd) app \<times> bool" where
  "count_alarm al any_on over_limit was_active delta_s a =
    (let elapsed = (if any_on \<or> \<not> over_limit then 0
           else sat_add (fa_elapsed_secs (sn_alarm (app_snapshot a))) delta_s);
         just_fired = (\<not> was_active \<and> al_duration_secs al \<le> elapsed)
     in (app_update_state a (\<lambda>s. s\<lparr>sn_alarm :=
           \<lparr>fa_active = fa_active (sn_alarm s) \<or> just_fired, fa_elapsed_secs = elapsed\<rparr>\<rparr>), just_fired))"

definition fired_prog :: "('s, 't, 'd) env \<Rightarrow> flow_alarm_config \<Rightarrow> f32 \<Rightarrow> u64 \<Rightarrow> ('s, 'd, unit) app_prog" where
  "fired_prog env al flow now_ms =
    prog_bind log_line (\<lambda>_.
    prog_bind (wall_now env) (\<lambda>wall.
    prog_bind (record_prog env
      \<lparr>ae_epoch_secs = (word_of_int (max (env_timestamp env wall) 0) :: u64), ae_uptime_ms = now_ms,
       ae_flow_lph = flow, ae_duration_secs = al_duration_secs al\<rparr>) (\<lambda>_.
    prog_bind (emit_prog env
       (event_with (event_with (event_with (event_new FlowAlarmFire)
          ''flow_lph'' (fmt_f32 1 flow))
          ''threshold_lph'' (fmt_f32 1 (al_threshold_lph al)))
          ''duration_secs'' (show_word (al_duration_secs al)))) (\<lambda>_.
    ignoring (command_prog env (WaterControl False))))))"

definition react_prog ::
    "('s, 't, 'd) env \<Rightarrow> flow_alarm_config \<Rightarrow> u64 \<Rightarrow> device_snapshot \<Rightarrow> bool \<Rightarrow> ('s, 'd, unit) app_prog" where
  "react_prog env al now_ms snap just_fired =
    (if just_fired then
       fired_prog env al (case flow_lph (sn_sensors snap) of Some f \<Rightarrow> f | None \<Rightarrow> f32_zero) now_ms
     else if fa_active (sn_alarm snap) \<and> st_water_control (sn_switches snap) = WcOn then
       ignoring (command_prog env (WaterControl False))
     else Ret ())"

definition rule_prog ::
    "('s, 't, 'd) env \<Rightarrow> flow_alarm_config \<Rightarrow> u64 \<Rightarrow> u32 \<Rightarrow> ('s, 'd, unit) app_prog" where
  "rule_prog env al now_ms delta_s =
    (if \<not> al_enabled al then updating [LkState] (\<lambda>a. app_update_state a no_alarm)
     else prog_bind (reading [LkState] app_snapshot) (\<lambda>snap.
       prog_bind (locked [LkState] (count_alarm al
          (st_sprinkler_1 (sn_switches snap) \<or> st_sprinkler_2 (sn_switches snap))
          (flow_above snap al) (fa_active (sn_alarm snap)) delta_s))
         (react_prog env al now_ms snap)))"

definition evaluate_prog :: "('s, 't, 'd) env \<Rightarrow> u64 \<Rightarrow> ('s, 'd, unit) app_prog" where
  "evaluate_prog env now_ms =
    prog_bind (reading [LkConfig] ap_config) (\<lambda>cfg.
    prog_bind (locked [LkLastCheck] (\<lambda>a. (a\<lparr>ap_last_check := Some now_ms\<rparr>, alarm_delta a now_ms)))
      (rule_prog env (cf_flow_alarm cfg) now_ms))"

definition clear_prog :: "('s, 't, 'd) env \<Rightarrow> ('s, 'd, unit) app_prog" where
  "clear_prog env =
    prog_bind (reading [LkState] (\<lambda>a. fa_active (sn_alarm (app_snapshot a)))) (\<lambda>was_active.
    prog_bind (updating [LkState] (\<lambda>a. app_update_state a no_alarm)) (\<lambda>_.
    if was_active then prog_bind log_line (\<lambda>_. emit_prog env (event_new FlowAlarmClear))
    else Ret ()))"

definition store_valve :: "('s, 't, 'd) env \<Rightarrow> bool \<Rightarrow> ('s, 'd) app \<Rightarrow> ('s, 'd) app" where
  "store_valve env user_on a = (case ap_nvs a of
      None \<Rightarrow> a
    | Some s \<Rightarrow>
        if ap_last_persisted a \<noteq> Some user_on then
          (case nvs_set (env_nvs env) s NVS_VALVE_STATE [if user_on then 1 else 0] of
             (s', Inl e) \<Rightarrow> a\<lparr>ap_nvs := Some s'\<rparr>
           | (s', Inr u) \<Rightarrow> a\<lparr>ap_nvs := Some s', ap_last_persisted := Some user_on\<rparr>)
        else a)"

definition persist_prog :: "('s, 't, 'd) env \<Rightarrow> ('s, 'd, unit) app_prog" where
  "persist_prog env = prog_bind (reading [] (\<lambda>a. ap_nvs a \<noteq> None)) (\<lambda>stored.
     if stored then
       prog_bind (reading [LkValve] (\<lambda>a. wv_user_state (ap_valve a)))
         (\<lambda>user_on. updating [LkLastPersisted, LkNvs, LkLog] (store_valve env user_on))
     else Ret ())"

definition tick_prog :: "('s, 't, 'd) env \<Rightarrow> ('s, 'd, tick_outputs) app_prog" where
  "tick_prog env =
    prog_bind (clock_now env) (\<lambda>now.
    prog_bind (locked [LkSprinkler1] (\<lambda>a. case switch_tick (ap_sprinkler1 a) now of
      (s, fired) \<Rightarrow> (a\<lparr>ap_sprinkler1 := s\<rparr>, fired))) (\<lambda>s1_fired.
    prog_bind (locked [LkSprinkler2] (\<lambda>a. case switch_tick (ap_sprinkler2 a) now of
      (s, fired) \<Rightarrow> (a\<lparr>ap_sprinkler2 := s\<rparr>, fired))) (\<lambda>s2_fired.
    prog_bind (locked [LkValve] (\<lambda>a. case valve_tick (ap_valve a) now of
      (v, outs) \<Rightarrow> (a\<lparr>ap_valve := v\<rparr>, outs))) (\<lambda>outs.
    prog_bind (log_if s1_fired) (\<lambda>_.
    prog_bind (log_if s2_fired) (\<lambda>_.
    prog_bind (reading [LkSprinkler1] (\<lambda>a. sw_on (ap_sprinkler1 a))) (\<lambda>s1_on.
    prog_bind (reading [LkSprinkler2] (\<lambda>a. sw_on (ap_sprinkler2 a))) (\<lambda>s2_on.
    prog_bind (reading [LkValve] (\<lambda>a. valve_state (ap_valve a))) (\<lambda>vs.
    prog_bind (updating [LkState, LkLog] (\<lambda>a. app_update_state a (mirror_switches s1_on s2_on vs))) (\<lambda>_.
    prog_bind (evaluate_prog env now) (\<lambda>_.
    prog_bind (persist_prog env) (\<lambda>_.
    Ret \<lparr>to_sprinkler_1 = s1_on, to_sprinkler_2 = s2_on, to_valve = outs\<rparr>))))))))))))"

fun op_prog :: "('s, 't, 'd) env \<Rightarrow> app_op \<Rightarrow> ('s, 'd, unit) app_prog" where
  "op_prog env ATick = ignoring (tick_prog env)"
| "op_prog env (ACommand c) = ignoring (command_prog env c)"
| "op_prog env (AFire i d) = ignoring (fire_prog env i d)"
| "op_prog env (AReplace c n) = replace_prog env c n"
| "op_prog env AClear = clear_prog env"
| "op_prog env (AEmit ev) = emit_prog env ev"
| "op_prog env (AUpdate se ne di up) = updating [LkState] (\<lambda>a. app_update_state a (app_write se ne di up))"

primrec calls_prog :: "('s, 't, 'd) env \<Rightarrow> app_op list \<Rightarrow> ('s, 'd, unit) app_prog" where
  "calls_prog env [] = Ret ()"
| "calls_prog env (e # es) = prog_bind (op_prog env e) (\<lambda>_. calls_prog env es)"

section \<open>Without interruption they are the methods\<close>

lemma run_clock [simp]:
  "run_alone (clock_now env) a = (a\<lparr>ap_reads := Suc (ap_reads a)\<rparr>, env_mono env (ap_reads a))"
  "run_alone (wall_now env) a = (a\<lparr>ap_reads := Suc (ap_reads a)\<rparr>, env_wall env (ap_reads a))"
  by (simp_all add: clock_now_def wall_now_def)

lemma run_ignoring [simp]: "run_alone (ignoring p) a = (fst (run_alone p a), ())"
  by (simp add: ignoring_def split: prod.split)

lemma run_emit [simp]: "run_alone (emit_prog env ev) a = (emit_event env a ev, ())"
  by (simp add: emit_prog_def emit_event_def event_vars_def Let_def)

lemma run_record [simp]: "run_alone (record_prog env ev) a = (record_alarm_event env a ev, ())"
  by (simp add: record_prog_def record_alarm_event_def store_history_def Let_def)

lemma run_command [simp]: "run_alone (command_prog env c) a = switch_command env a c"
  by (simp add: command_prog_def switch_command_def Let_def split: switch_command.split)

lemma run_fire [simp]: "run_alone (fire_prog env i d) a = fire_schedule_sprinkler env a i d"
  by (simp add: fire_prog_def fire_schedule_sprinkler_def Let_def)

lemma run_replace [simp]: "run_alone (replace_prog env cfg n) a = (replace_config_section env a cfg n, ())"
  by (simp add: replace_prog_def replace_config_section_def Let_def)

lemma no_alarm_eq: "no_alarm = (\<lambda>s. s\<lparr>sn_alarm := \<lparr>fa_active = False, fa_elapsed_secs = 0\<rparr>\<rparr>)"
  by (simp add: no_alarm_def fun_eq_iff)

lemma run_clear [simp]: "run_alone (clear_prog env) a = (clear_flow_alarm env a, ())"
  by (simp add: clear_prog_def clear_flow_alarm_def no_alarm_eq Let_def)

lemma run_persist [simp]: "run_alone (persist_prog env) a = (persist_valve env a, ())"
  by (simp add: persist_prog_def persist_valve_def store_valve_def Let_def split: option.split)

lemma run_evaluate [simp]: "run_alone (evaluate_prog env now) a = (evaluate_flow_alarm env a now, ())"
  by (simp add: evaluate_prog_def rule_prog_def react_prog_def evaluate_flow_alarm_def fired_prog_def count_alarm_def
      no_alarm_eq alarm_delta_def Let_def)

lemma run_tick [simp]: "run_alone (tick_prog env) a = app_tick env a"
  by (simp add: tick_prog_def app_tick_def Let_def split: prod.split)

text \<open>Run without interruption, the sections of a method are the method of theory App: same object after it,
  for every call and every state.\<close>

lemma app_prog_sequential:
  "run_alone (calls_prog env es) a = (foldl (app_apply env) a es, ())"
proof (induction es arbitrary: a)
  case (Cons e es)
  then show ?case
    by (cases e) simp_all
qed simp

section \<open>Threads\<close>

type_synonym 'a thread = "nat \<times> ('a, unit) prog"

definition wants :: "'a thread \<Rightarrow> lock list" where
  "wants t = (case snd t of Ret _ \<Rightarrow> [] | Crit ls _ _ \<Rightarrow> ls)"

definition held :: "'a thread \<Rightarrow> lock list" where
  "held t = take (fst t) (wants t)"

definition finished :: "'a thread \<Rightarrow> bool" where
  "finished t = (case snd t of Ret _ \<Rightarrow> True | Crit _ _ _ \<Rightarrow> False)"

inductive pool_step :: "'a thread list \<times> 'a \<Rightarrow> 'a thread list \<times> 'a \<Rightarrow> bool" where
  take_lock: "i < length ts \<Longrightarrow> ts ! i = (n, Crit ls f k) \<Longrightarrow> n < length ls \<Longrightarrow>
     \<forall>t \<in> set ts. ls ! n \<notin> set (held t) \<Longrightarrow> pool_step (ts, a) (ts[i := (Suc n, Crit ls f k)], a)"
| run_section: "i < length ts \<Longrightarrow> ts ! i = (length ls, Crit ls f k) \<Longrightarrow>
     pool_step (ts, a) (ts[i := (0, k a)], f a)"

inductive_cases pool_stepE [elim]: "pool_step s s'"

definition calls_pool :: "('s, 't, 'd) env \<Rightarrow> app_op list list \<Rightarrow> ('s, 'd) app thread list" where
  "calls_pool env opss = map (\<lambda>ops. (0, calls_prog env ops)) opss"

lemma held_simps [simp]:
  "held (n, Ret r) = []" "held (n, Crit ls f k) = take n ls" "held (0, p) = []"
  by (simp_all add: held_def wants_def)

lemma finished_simps [simp]: "finished (n, Ret r)" "\<not> finished (n, Crit ls f k)"
  by (simp_all add: finished_def)

lemma not_finished: "\<not> finished t \<Longrightarrow> \<exists>n ls f k. t = (n, Crit ls f k)"
  by (cases t; cases "snd t") (auto simp: finished_def)

text \<open>Mutual exclusion: no lock is ever held twice, so a section runs with exclusive access to the
  components it locks.\<close>

definition exclusive :: "'a thread list \<Rightarrow> bool" where
  "exclusive ts \<longleftrightarrow> (\<forall>t \<in> set ts. fst t \<le> length (wants t)) \<and> distinct (concat (map held ts))"

lemma concat_update:
  assumes "i < length xss"
  shows "mset (concat (xss[i := ys])) + mset (xss ! i) = mset (concat xss) + mset ys"
  using assms
proof (induction xss arbitrary: i)
  case (Cons xs xss)
  then show ?case
    by (cases i) (auto simp: ac_simps)
qed simp

lemma distinct_submultiset:
  assumes "mset xs + m = mset ys" "distinct ys"
  shows "distinct xs"
proof -
  obtain zs where "m = mset zs"
    by (metis ex_mset)
  then have "distinct (xs @ zs)"
    using assms mset_eq_imp_distinct_iff [of "xs @ zs" ys] by simp
  then show ?thesis
    by simp
qed

lemma exclusive_step: "pool_step s s' \<Longrightarrow> exclusive (fst s) \<Longrightarrow> exclusive (fst s')"
proof (induction rule: pool_step.induct)
  case (take_lock i ts n ls f k a)
  let ?hs = "map held ts"
  have eq: "mset (concat (?hs[i := take (Suc n) ls])) + mset (take n ls)
      = mset (concat ?hs) + mset (take (Suc n) ls)"
    using concat_update [of i ?hs "take (Suc n) ls"] take_lock.hyps by simp
  then have "mset (concat (?hs[i := take (Suc n) ls])) = mset (ls ! n # concat ?hs)"
    using take_lock.hyps(3) by (simp add: take_Suc_conv_app_nth)
  moreover have "distinct (ls ! n # concat ?hs)"
    using take_lock by (auto simp: exclusive_def)
  ultimately have "distinct (concat (?hs[i := take (Suc n) ls]))"
    using mset_eq_imp_distinct_iff by blast
  then show ?case
    using take_lock by (auto simp: exclusive_def map_update wants_def dest!: set_update_subset_insert [THEN subsetD])
next
  case (run_section i ts ls f k a)
  let ?hs = "map held ts"
  have "mset (concat (?hs[i := []])) + mset (?hs ! i) = mset (concat ?hs)"
    using concat_update [of i ?hs "[]"] run_section.hyps by simp
  then have "distinct (concat (?hs[i := []]))"
    using run_section.prems by (auto simp: exclusive_def intro: distinct_submultiset)
  then show ?case
    using run_section by (auto simp: exclusive_def map_update dest!: set_update_subset_insert [THEN subsetD])
qed

section \<open>No deadlock\<close>

text \<open>The order in which the code takes nested locks: the components' first, the store and the
  dispatcher's queue inside them, the log buffer innermost.\<close>

fun lock_rank :: "lock \<Rightarrow> nat" where
  "lock_rank LkNvs = 1"
| "lock_rank LkQueue = 1"
| "lock_rank LkLog = 2"
| "lock_rank _ = 0"

primrec ranked :: "('a, 'r) prog \<Rightarrow> bool" where
  "ranked (Ret r) = True"
| "ranked (Crit ls f k) = (sorted_wrt (\<lambda>x y. lock_rank x < lock_rank y) ls \<and> (\<forall>a. ranked (k a)))"

lemma ranked_bind [simp]: "ranked p \<Longrightarrow> (\<And>r. ranked (g r)) \<Longrightarrow> ranked (prog_bind p g)"
  by (induction p) simp_all

lemma ranked_sections [simp]:
  "ranked (locked ls m) = sorted_wrt (\<lambda>x y. lock_rank x < lock_rank y) ls"
  "ranked (reading ls g) = sorted_wrt (\<lambda>x y. lock_rank x < lock_rank y) ls"
  "ranked (updating ls h) = sorted_wrt (\<lambda>x y. lock_rank x < lock_rank y) ls"
  "ranked log_line" "ranked (log_if b)" "ranked (clock_now env)" "ranked (wall_now env)"
  by (simp_all add: locked_def reading_def updating_def log_line_def log_if_def clock_now_def wall_now_def)

lemma ranked_ignoring [simp]: "ranked p \<Longrightarrow> ranked (ignoring p)"
  by (simp add: ignoring_def)

lemma ranked_methods [simp]:
  "ranked (emit_prog env ev)" "ranked (record_prog env h)" "ranked (replace_prog env cfg n)"
  "ranked (fire_prog env i d)" "ranked (command_prog env c)" "ranked (clear_prog env)"
  "ranked (persist_prog env)"
  by (simp_all add: emit_prog_def record_prog_def replace_prog_def fire_prog_def command_prog_def
      clear_prog_def persist_prog_def Let_def split: switch_command.split)

lemma ranked_evaluate [simp]: "ranked (evaluate_prog env now)"
  by (simp add: evaluate_prog_def rule_prog_def react_prog_def fired_prog_def)

lemma ranked_tick [simp]: "ranked (tick_prog env)"
  by (simp add: tick_prog_def)

lemma ranked_calls [simp]: "ranked (calls_prog env es)"
proof (induction es)
  case (Cons e es)
  then show ?case
    by (cases e) simp_all
qed simp

text \<open>The argument: if no thread can move, each unfinished thread waits for a lock another holds;
  take the wanted lock of highest rank. Its holder waits for a lock of still higher rank.\<close>

lemma some_thread_moves:
  assumes "\<forall>t \<in> set ts. fst t \<le> length (wants t) \<and> ranked (snd t)" "\<not> list_all finished ts"
  shows "\<exists>s. pool_step (ts, a) s"
proof (rule ccontr)
  assume stuck: "\<not> ?thesis"
  let ?W = "{t \<in> set ts. \<not> finished t}"
  let ?r = "\<lambda>t. lock_rank (wants t ! fst t)"
  have waits: "fst t < length (wants t) \<and> (\<exists>u \<in> ?W. wants t ! fst t \<in> set (held u))" if "t \<in> ?W" for t
  proof -
    from that obtain i n ls f k where t: "i < length ts" "ts ! i = t" "t = (n, Crit ls f k)"
      by (auto simp: in_set_conv_nth dest: not_finished)
    have "n \<noteq> length ls"
      using stuck t by (metis run_section)
    then have n: "n < length ls"
      using assms(1) that t(3) by (fastforce simp: wants_def)
    have "\<exists>u \<in> set ts. ls ! n \<in> set (held u)"
      using stuck t n by (metis take_lock)
    moreover have "finished u \<Longrightarrow> held u = []" for u :: "'a thread"
      by (cases u; cases "snd u") auto
    ultimately show ?thesis
      using t(3) n by (fastforce simp: wants_def)
  qed
  have "finite (?r ` ?W)" "?r ` ?W \<noteq> {}"
    using assms(2) by (auto simp: list_all_iff)
  then obtain t where t: "t \<in> ?W" "\<forall>u \<in> ?W. ?r u \<le> ?r t"
    by (metis (mono_tags, lifting) Max_ge Max_in image_iff)
  then obtain u where u: "u \<in> ?W" "wants t ! fst t \<in> set (held u)"
    using waits by blast
  then obtain m where m: "m < fst u" "m < length (wants u)" "wants u ! m = wants t ! fst t"
    by (auto simp: held_def in_set_conv_nth)
  obtain n ls f k where c: "u = (n, Crit ls f k)"
    using u(1) not_finished by blast
  have "sorted_wrt (\<lambda>x y. lock_rank x < lock_rank y) (wants u)"
    using assms(1) u(1) c by (fastforce simp: wants_def)
  then have "?r t < ?r u"
    using sorted_wrt_nth_less [of _ "wants u" m "fst u"] m(1,3) waits [OF u(1)] by simp
  then show False
    using t(2) u(1) by (meson not_less)
qed

text \<open>The steps a program needs: one for each lock it takes and one for each section.\<close>

primrec budget :: "('a, 'r) prog \<Rightarrow> nat \<Rightarrow> bool" where
  "budget (Ret r) n = True"
| "budget (Crit ls f k) n = (length ls < n \<and> (\<forall>a. budget (k a) (n - Suc (length ls))))"

lemma budget_mono: "budget p m \<Longrightarrow> m \<le> n \<Longrightarrow> budget p n"
proof (induction p arbitrary: m n)
  case (Crit ls f k)
  then show ?case
    by (auto intro: Crit.IH [OF _ _ diff_le_mono])
qed simp

lemma budget_bind: "budget p m \<Longrightarrow> (\<And>r. budget (g r) n) \<Longrightarrow> m + n \<le> c \<Longrightarrow> budget (prog_bind p g) c"
proof (induction p arbitrary: m c)
  case (Ret r)
  then show ?case
    by (auto intro: budget_mono [of _ n])
next
  case (Crit ls f k)
  have "budget (prog_bind (k a) g) (c - Suc (length ls))" for a
    using Crit.IH [of "k a" "m - Suc (length ls)" "c - Suc (length ls)"] Crit.prems by auto
  then show ?case
    using Crit.prems by auto
qed

fun op_cost :: "app_op \<Rightarrow> nat" where
  "op_cost ATick = 55"
| "op_cost (ACommand c) = 4"
| "op_cost (AFire i d) = 4"
| "op_cost (AReplace c n) = 17"
| "op_cost AClear = 15"
| "op_cost (AEmit ev) = 9"
| "op_cost (AUpdate se ne di up) = 2"

lemma budget_sections [simp]:
  "budget (locked ls m) n = (length ls < n)" "budget (reading ls g) n = (length ls < n)"
  "budget (updating ls h) n = (length ls < n)" "2 \<le> n \<Longrightarrow> budget log_line n"
  "2 \<le> n \<Longrightarrow> budget (log_if b) n" "budget (clock_now env) n = (0 < n)"
  "budget (wall_now env) n = (0 < n)"
  by (simp_all add: locked_def reading_def updating_def log_line_def log_if_def clock_now_def wall_now_def)

lemma budget_ignoring [simp]: "budget p n \<Longrightarrow> budget (ignoring p) n"
  unfolding ignoring_def by (rule budget_bind [of _ n _ 0]) simp_all

lemma budget_emit: "budget (emit_prog env ev) 9"
  unfolding emit_prog_def
  by (rule budget_bind [of _ 2 _ 7], simp, rule budget_bind [of _ 1 _ 6], simp,
      rule budget_bind [of _ 1 _ 5], simp, rule budget_bind [of _ 2 _ 3]) simp_all

lemma budget_command: "budget (command_prog env c) 4"
  unfolding command_prog_def by (rule budget_bind [of _ 1 _ 3]) (simp_all split: switch_command.split)

lemma budget_fire: "budget (fire_prog env i d) 4"
  unfolding fire_prog_def by (rule budget_bind [of _ 1 _ 3]) simp_all

lemma budget_replace: "budget (replace_prog env cfg n) 17"
  unfolding replace_prog_def Let_def
  by (rule budget_bind [of _ 2 _ 15], simp, rule budget_bind [of _ 2 _ 13], simp,
      rule budget_bind [of _ 2 _ 11], simp, rule budget_bind [of _ 2 _ 9]) (simp_all add: budget_emit)

lemma budget_clear: "budget (clear_prog env) 15"
  unfolding clear_prog_def
  by (rule budget_bind [of _ 2 _ 13], simp, rule budget_bind [of _ 2 _ 11])
     (simp_all add: budget_emit budget_bind [of _ 2 _ 9])

lemma budget_persist: "budget (persist_prog env) 7"
  unfolding persist_prog_def
  by (rule budget_bind [of _ 1 _ 6]) (simp_all add: budget_bind [of _ 2 _ 4])

lemma budget_fired: "budget (fired_prog env al flow now) 20"
  unfolding fired_prog_def record_prog_def
  by (rule budget_bind [of _ 2 _ 18], simp, rule budget_bind [of _ 1 _ 17], simp,
      rule budget_bind [of _ 4 _ 13], rule budget_bind [of _ 2 _ 2], simp, simp, simp,
      rule budget_bind [of _ 9 _ 4]) (simp_all add: budget_emit budget_command)

lemma budget_evaluate: "budget (evaluate_prog env now) 28"
proof -
  have close: "budget (ignoring (command_prog env (WaterControl False))) 20"
    by (rule budget_ignoring, rule budget_mono [OF budget_command]) simp
  show ?thesis
    unfolding evaluate_prog_def rule_prog_def react_prog_def
    by (rule budget_bind [of _ 2 _ 26], simp, rule budget_bind [of _ 2 _ 24], simp)
       (simp_all add: budget_bind [of _ 2 _ 22] budget_bind [of _ 2 _ 20] budget_fired close)
qed

lemma budget_tick: "budget (tick_prog env) 55"
  unfolding tick_prog_def
  by (rule budget_bind [of _ 1 _ 54], simp, rule budget_bind [of _ 2 _ 52], simp,
      rule budget_bind [of _ 2 _ 50], simp, rule budget_bind [of _ 2 _ 48], simp,
      rule budget_bind [of _ 2 _ 46], simp, rule budget_bind [of _ 2 _ 44], simp,
      rule budget_bind [of _ 2 _ 42], simp, rule budget_bind [of _ 2 _ 40], simp,
      rule budget_bind [of _ 2 _ 38], simp, rule budget_bind [of _ 3 _ 35], simp,
      rule budget_bind [of _ 28 _ 7], rule budget_evaluate, rule budget_bind [of _ 7 _ 0],
      rule budget_persist) simp_all

lemma budget_op: "budget (op_prog env e) (op_cost e)"
  by (cases e) (simp_all add: budget_emit budget_command budget_fire budget_replace budget_clear budget_tick)

lemma budget_calls: "budget (calls_prog env es) (sum_list (map op_cost es))"
  by (induction es) (auto intro: budget_bind [OF budget_op])

definition on_budget :: "'a thread list \<Rightarrow> nat \<Rightarrow> bool" where
  "on_budget ts c \<longleftrightarrow> (\<exists>bs. list_all2 (\<lambda>t b. budget (snd t) (fst t + b)) ts bs \<and> sum_list bs = c)"

lemma spend:
  assumes "list_all2 (\<lambda>t b. budget (snd t) (fst t + b)) ts bs" "i < length ts"
    "0 < bs ! i" "budget (snd t) (fst t + (bs ! i - 1))"
  shows "on_budget (ts[i := t]) (sum_list bs - 1)" "0 < sum_list bs"
proof -
  have i: "i < length bs"
    using assms by (simp add: list_all2_lengthD)
  have "sum_list (bs[i := bs ! i - 1]) = sum_list bs - 1"
    using i assms(3) elem_le_sum_list [OF i] by (simp add: sum_list_update)
  then show "on_budget (ts[i := t]) (sum_list bs - 1)"
    using list_all2_update_cong [of _ ts bs t "bs ! i - 1" i] assms(1,4) by (auto simp: on_budget_def)
  show "0 < sum_list bs"
    using assms(3) elem_le_sum_list [OF i] by simp
qed

lemma budget_step:
  "pool_step s s' \<Longrightarrow> on_budget (fst s) c \<Longrightarrow> 0 < c \<and> on_budget (fst s') (c - 1)"
proof (induction rule: pool_step.induct)
  case (take_lock i ts n ls f k a)
  then obtain bs where bs: "list_all2 (\<lambda>t b. budget (snd t) (fst t + b)) ts bs" "sum_list bs = c"
    by (auto simp: on_budget_def)
  have "budget (Crit ls f k) (n + bs ! i)"
    using list_all2_nthD [OF bs(1) take_lock.hyps(1)] take_lock.hyps(2) by simp
  then have "0 < bs ! i" "budget (Crit ls f k) (Suc n + (bs ! i - 1))"
    using take_lock.hyps(3) by auto
  then show ?case
    using spend [OF bs(1) take_lock.hyps(1), of "(Suc n, Crit ls f k)"] bs(2) by simp
next
  case (run_section i ts ls f k a)
  then obtain bs where bs: "list_all2 (\<lambda>t b. budget (snd t) (fst t + b)) ts bs" "sum_list bs = c"
    by (auto simp: on_budget_def)
  have "budget (Crit ls f k) (length ls + bs ! i)"
    using list_all2_nthD [OF bs(1) run_section.hyps(1)] run_section.hyps(2) by simp
  then have "0 < bs ! i" "budget (k a) (bs ! i - 1)"
    by (auto simp: Suc_diff_Suc)
  then show ?case
    using spend [OF bs(1) run_section.hyps(1), of "(0, k a)"] bs(2) by simp
qed

definition pool_ok :: "'a thread list \<Rightarrow> bool" where
  "pool_ok ts \<longleftrightarrow> (\<forall>t \<in> set ts. fst t \<le> length (wants t) \<and> ranked (snd t))"

lemma pool_ok_step: "pool_step s s' \<Longrightarrow> pool_ok (fst s) \<Longrightarrow> pool_ok (fst s')"
proof (induction rule: pool_step.induct)
  case (take_lock i ts n ls f k a)
  moreover have "ranked (Crit ls f k)"
    using take_lock nth_mem [of i ts] by (fastforce simp: pool_ok_def)
  ultimately show ?case
    by (auto simp: pool_ok_def wants_def dest!: set_update_subset_insert [THEN subsetD])
next
  case (run_section i ts ls f k a)
  moreover have "ranked (Crit ls f k)"
    using run_section nth_mem [of i ts] by (fastforce simp: pool_ok_def)
  ultimately show ?case
    by (auto simp: pool_ok_def dest!: set_update_subset_insert [THEN subsetD])
qed

lemma pool_run_budget:
  "(pool_step ^^ m) s s' \<Longrightarrow> on_budget (fst s) c \<Longrightarrow> pool_ok (fst s) \<Longrightarrow> exclusive (fst s) \<Longrightarrow>
     m \<le> c \<and> pool_ok (fst s') \<and> exclusive (fst s')"
proof (induction m arbitrary: s c)
  case (Suc m)
  then obtain u where u: "pool_step s u" "(pool_step ^^ m) u s'"
    by (meson relpowp_Suc_D2)
  have "m \<le> c - 1 \<and> pool_ok (fst s') \<and> exclusive (fst s')"
    using Suc.IH [OF u(2)] budget_step [OF u(1)] pool_ok_step [OF u(1)] exclusive_step [OF u(1)] Suc.prems
    by blast
  then show ?case
    using budget_step [OF u(1) Suc.prems(2)] by auto
qed simp

lemma calls_pool_start:
  "on_budget (calls_pool env opss) (sum_list (map op_cost (concat opss)))"
  "pool_ok (calls_pool env opss)" "exclusive (calls_pool env opss)"
proof -
  have "list_all2 (\<lambda>t b. budget (snd t) (fst t + b)) (calls_pool env opss)
      (map (\<lambda>ops. sum_list (map op_cost ops)) opss)"
    by (simp add: calls_pool_def list_all2_conv_all_nth budget_calls)
  moreover have "sum_list (map (\<lambda>ops. sum_list (map op_cost ops)) opss) = sum_list (map op_cost (concat opss))"
    by (induction opss) simp_all
  ultimately show "on_budget (calls_pool env opss) (sum_list (map op_cost (concat opss)))"
    by (auto simp: on_budget_def)
  show "pool_ok (calls_pool env opss)" "exclusive (calls_pool env opss)"
    by (auto simp: pool_ok_def exclusive_def calls_pool_def comp_def concat_eq_Nil_conv [THEN iffD2])
qed

text \<open>C11. Liveness of the locking. Threads making any sequences of calls can never all be stuck: after
  any number of steps either every call has returned or some thread can move; and the run is over
  after at most as many steps as the calls' costs add up to (55 for a tick). The code never takes
  two nested locks against the order component, store or queue, log.\<close>

theorem threads_finish:
  assumes "(pool_step ^^ m) (calls_pool env opss, a) (ts, b)"
  shows "m \<le> sum_list (map op_cost (concat opss)) \<and>
    (list_all finished ts \<or> (\<exists>s. pool_step (ts, b) s))"
proof -
  have "m \<le> sum_list (map op_cost (concat opss)) \<and> pool_ok ts"
    using pool_run_budget [OF assms] calls_pool_start by (metis fst_conv)
  then show ?thesis
    using some_thread_moves [of ts b] by (auto simp: pool_ok_def)
qed

theorem locks_exclusive:
  assumes "(pool_step ^^ m) (calls_pool env opss, a) (ts, b)"
  shows "distinct (concat (map held ts))"
  using pool_run_budget [OF assms] calls_pool_start by (metis exclusive_def fst_conv)

text \<open>An instance, two threads and one step: the tick reads the clock.\<close>

lemma threads_finish_witness:
  "\<exists>ts b. (pool_step ^^ 1) (calls_pool (sample_env (\<lambda>_. 0)) [[ATick], [AClear]],
        app_new (sample_env (\<lambda>_. 0)) sample_config) (ts, b) \<and>
     1 \<le> sum_list (map op_cost (concat [[ATick], [AClear]])) \<and>
     (list_all finished ts \<or> (\<exists>s. pool_step (ts, b) s))"
proof -
  let ?e = "sample_env (\<lambda>_. 0)"
  let ?a = "app_new ?e sample_config"
  obtain f k where t: "calls_prog ?e [ATick] = Crit [] f k"
    by (simp add: ignoring_def tick_prog_def clock_now_def locked_def)
  let ?ts = "[(0, k ?a), (0, calls_prog ?e [AClear])]"
  have "pool_step (calls_pool ?e [[ATick], [AClear]], ?a) (?ts, f ?a)"
    using run_section [of 0 "calls_pool ?e [[ATick], [AClear]]" "[]" f k ?a] t by (simp add: calls_pool_def)
  then have "(pool_step ^^ 1) (calls_pool ?e [[ATick], [AClear]], ?a) (?ts, f ?a)"
    by (simp only: relpowp_1)
  then show ?thesis
    using threads_finish by blast
qed

section \<open>Rely and guarantee\<close>

text \<open>\<open>under R Q p a\<close>: run \<open>p\<close> from \<open>a\<close> while the other threads, before and after each section,
  move the object along \<open>R\<close>; when \<open>p\<close> has returned \<open>r\<close>, the object satisfies \<open>Q r\<close> and keeps
  satisfying it. \<open>obeys R p\<close>: every section of \<open>p\<close> is itself a move along \<open>R\<close>.\<close>

primrec under :: "('a \<Rightarrow> 'a \<Rightarrow> bool) \<Rightarrow> ('r \<Rightarrow> 'a \<Rightarrow> bool) \<Rightarrow> ('a, 'r) prog \<Rightarrow> 'a \<Rightarrow> bool" where
  "under R Q (Ret r) a = (\<forall>b. R a b \<longrightarrow> Q r b)"
| "under R Q (Crit ls f k) a = (\<forall>b. R a b \<longrightarrow> under R Q (k b) (f b))"

primrec obeys :: "('a \<Rightarrow> 'a \<Rightarrow> bool) \<Rightarrow> ('a, 'r) prog \<Rightarrow> bool" where
  "obeys R (Ret r) = True"
| "obeys R (Crit ls f k) = (\<forall>a. R a (f a) \<and> obeys R (k a))"

lemma obeys_bind [simp]: "obeys R p \<Longrightarrow> (\<And>r. obeys R (g r)) \<Longrightarrow> obeys R (prog_bind p g)"
  by (induction p) simp_all

text \<open>What is left of a call at some moment of its run.\<close>

inductive rest_of :: "('a, 'r) prog \<Rightarrow> ('a, 'r) prog \<Rightarrow> bool" for p where
  at_start: "rest_of p p"
| later: "rest_of p (Crit ls f k) \<Longrightarrow> rest_of p (k a)"

lemma obeys_rest: "rest_of p q \<Longrightarrow> obeys R p \<Longrightarrow> obeys R q"
  by (induction rule: rest_of.induct) simp_all

locale rely =
  fixes R :: "'a \<Rightarrow> 'a \<Rightarrow> bool"
  assumes R_refl [simp]: "R a a"
    and R_trans: "R a b \<Longrightarrow> R b c \<Longrightarrow> R a c"
begin

lemma obeys_sections [simp]:
  "obeys R (locked ls m) \<longleftrightarrow> (\<forall>a. R a (fst (m a)))" "obeys R (reading ls g)"
  "obeys R (updating ls h) \<longleftrightarrow> (\<forall>a. R a (h a))" "obeys R log_line" "obeys R (log_if b)"
  by (simp_all add: locked_def reading_def updating_def log_line_def log_if_def)

lemma obeys_ignoring [simp]: "obeys R p \<Longrightarrow> obeys R (ignoring p)"
  by (simp add: ignoring_def)

lemma under_moves: "under R Q p a \<Longrightarrow> R a b \<Longrightarrow> under R Q p b"
  by (cases p) (auto intro: R_trans)

lemma under_bind:
  assumes "under R P p a" "\<And>r b. (\<And>c. R b c \<Longrightarrow> P r c) \<Longrightarrow> under R Q (g r) b"
  shows "under R Q (prog_bind p g) a"
  using assms(1)
proof (induction p arbitrary: a)
  case (Ret r)
  then show ?case
    using assms(2) by simp
next
  case (Crit ls f k)
  then show ?case
    by auto
qed

lemma under_any: "under R (\<lambda>_ _. True) p a"
  by (induction p arbitrary: a) simp_all

lemma under_skip: "(\<And>r b. under R Q (g r) b) \<Longrightarrow> under R Q (prog_bind p g) a"
  by (rule under_bind [OF under_any])

lemma under_weaken: "under R P p a \<Longrightarrow> (\<And>r b. P r b \<Longrightarrow> Q r b) \<Longrightarrow> under R Q p a"
  by (induction p arbitrary: a) auto

lemma under_obeys: "obeys R p \<Longrightarrow> R a b \<Longrightarrow> under R (\<lambda>_. R a) p b"
proof (induction p arbitrary: b)
  case (Ret r)
  then show ?case
    by (auto intro: R_trans)
next
  case (Crit ls f k)
  have "under R (\<lambda>_. R a) (k c) (f c)" if "R b c" for c
    using Crit.IH [of "k c" "f c"] Crit.prems that by (auto intro: R_trans)
  then show ?case
    by simp
qed

lemma under_locked: "(\<And>b c. R a b \<Longrightarrow> R (fst (m b)) c \<Longrightarrow> Q (snd (m b)) c) \<Longrightarrow> under R Q (locked ls m) a"
  by (simp add: locked_def)

lemma under_reading: "(\<And>b c. R a b \<Longrightarrow> R b c \<Longrightarrow> Q (g b) c) \<Longrightarrow> under R Q (reading ls g) a"
  unfolding reading_def by (rule under_locked) simp

lemma under_updating: "(\<And>b c. R a b \<Longrightarrow> R (h b) c \<Longrightarrow> Q () c) \<Longrightarrow> under R Q (updating ls h) a"
  unfolding updating_def by (rule under_locked) simp

lemma under_updating_from:
  "(\<And>b. R a b \<Longrightarrow> P b) \<Longrightarrow> (\<And>b c. P b \<Longrightarrow> R (h b) c \<Longrightarrow> Q () c) \<Longrightarrow> under R Q (updating ls h) a"
  by (rule under_updating) blast

lemma under_ignoring: "under R (\<lambda>_. Q ()) p a \<Longrightarrow> under R Q (ignoring p) a"
  unfolding ignoring_def by (erule under_bind) simp

lemma pool_keeps:
  assumes "pool_step s s'" "i < length (fst s)" "under R Q (snd (fst s ! i)) (snd s)"
    and "\<forall>j < length (fst s). j \<noteq> i \<longrightarrow> obeys R (snd (fst s ! j))"
  shows "length (fst s') = length (fst s) \<and> under R Q (snd (fst s' ! i)) (snd s') \<and>
    (\<forall>j < length (fst s). j \<noteq> i \<longrightarrow> obeys R (snd (fst s' ! j)))"
  using assms
proof (induction rule: pool_step.induct)
  case (take_lock j ts n ls f k a)
  then show ?case
    by (cases "j = i") (auto simp: nth_list_update dest: spec [of _ j])
next
  case (run_section j ts ls f k a)
  show ?case
  proof (cases "j = i")
    case True
    then show ?thesis
      using run_section by (auto simp: nth_list_update)
  next
    case False
    then have "obeys R (Crit ls f k)"
      using run_section by (metis fst_conv snd_conv)
    then show ?thesis
      using run_section False by (auto simp: nth_list_update intro: under_moves)
  qed
qed

lemma pool_run:
  assumes "pool_step\<^sup>*\<^sup>* s s'" "i < length (fst s)" "under R Q (snd (fst s ! i)) (snd s)"
    and "\<forall>j < length (fst s). j \<noteq> i \<longrightarrow> obeys R (snd (fst s ! j))"
  shows "under R Q (snd (fst s' ! i)) (snd s')"
proof -
  have "length (fst s') = length (fst s) \<and> under R Q (snd (fst s' ! i)) (snd s') \<and>
    (\<forall>j < length (fst s). j \<noteq> i \<longrightarrow> obeys R (snd (fst s' ! j)))"
    using assms(1)
  proof induction
    case (step t u)
    then show ?case
      using pool_keeps [OF step(2), of i] assms(2) by auto
  qed (use assms in auto)
  then show ?thesis
    by simp
qed

text \<open>Soundness, for a pool whose head thread is the one of interest.\<close>

lemma head_returns:
  assumes "pool_step\<^sup>*\<^sup>* ((n, p) # others, a) ((m, Ret r) # ts, b)" "under R Q p a"
    and "\<forall>t \<in> set others. obeys R (snd t)"
  shows "Q r b"
proof -
  have "obeys R (snd (((n, p) # others) ! j))" if "j < Suc (length others)" "j \<noteq> 0" for j
    using that assms(3) by (cases j) auto
  then show ?thesis
    using pool_run [OF assms(1), of 0 Q] assms(2) by simp
qed

end

section \<open>The alarm's promise under threads\<close>

text \<open>What every call but the tick leaves alone: it never raises the alarm, never brings the valve
  to On, and leaves the mirrored switches.\<close>

definition alarm_moves :: "('s, 'd) app \<Rightarrow> ('s, 'd) app \<Rightarrow> bool" where
  "alarm_moves a b \<longleftrightarrow>
     (fa_active (sn_alarm (app_snapshot b)) \<longrightarrow> fa_active (sn_alarm (app_snapshot a))) \<and>
     (valve_state (ap_valve b) = On \<longrightarrow> valve_state (ap_valve a) = On) \<and>
     sn_switches (app_snapshot b) = sn_switches (app_snapshot a)"

interpretation am: rely alarm_moves
  by unfold_locales (auto simp: alarm_moves_def)

lemma turn_on_state: "valve_state (valve_turn_on v now) = On \<Longrightarrow> valve_state v = On"
  by (auto simp: valve_turn_on_def valve_state_def split: phase.splits if_splits)

lemma turn_off_state: "valve_state (valve_turn_off v now) = On \<Longrightarrow> valve_state v = On \<and> wv_phase v \<noteq> Idle"
  by (auto simp: valve_turn_off_def valve_state_def split: phase.splits if_splits)

lemma set_timing_state [simp]: "valve_state (valve_set_timing v t) = valve_state v"
  by (simp add: valve_set_timing_def valve_state_def)

lemma more_snapshot_simps [simp]:
  "app_snapshot (a\<lparr>ap_webhooks := w\<rparr>) = app_snapshot a" "app_snapshot (a\<lparr>ap_nvs := s\<rparr>) = app_snapshot a"
  "app_snapshot (a\<lparr>ap_history := h\<rparr>) = app_snapshot a" "app_snapshot (a\<lparr>ap_config := c\<rparr>) = app_snapshot a"
  "app_snapshot (a\<lparr>ap_last_persisted := l\<rparr>) = app_snapshot a"
  by (simp_all add: app_snapshot_def)

lemma store_frame [simp]:
  "ap_state (store_history env h a) = ap_state a" "ap_valve (store_history env h a) = ap_valve a"
  "ap_config (store_history env h a) = ap_config a"
  "ap_sprinkler1 (store_history env h a) = ap_sprinkler1 a"
  "ap_sprinkler2 (store_history env h a) = ap_sprinkler2 a"
  "ap_state (store_valve env on a) = ap_state a" "ap_valve (store_valve env on a) = ap_valve a"
  "ap_config (store_valve env on a) = ap_config a"
  "ap_sprinkler1 (store_valve env on a) = ap_sprinkler1 a"
  "ap_sprinkler2 (store_valve env on a) = ap_sprinkler2 a"
  by (auto simp: store_history_def store_valve_def split: option.split prod.split sum.split)

lemma store_snapshot [simp]:
  "app_snapshot (store_history env h a) = app_snapshot a"
  "app_snapshot (store_valve env on a) = app_snapshot a"
  by (simp_all add: app_snapshot_def)

lemma am_clock [simp]: "obeys alarm_moves (clock_now env)" "obeys alarm_moves (wall_now env)"
  by (simp_all add: clock_now_def wall_now_def alarm_moves_def)

lemma am_emit [simp]: "obeys alarm_moves (emit_prog env ev)"
  by (simp add: emit_prog_def alarm_moves_def)

lemma am_record [simp]: "obeys alarm_moves (record_prog env ev)"
  by (simp add: record_prog_def alarm_moves_def Let_def)

lemma am_command [simp]: "obeys alarm_moves (command_prog env c)"
  unfolding command_prog_def
  by (cases c) (auto intro!: obeys_bind simp: alarm_moves_def dest: turn_on_state turn_off_state)

lemma am_persist [simp]: "obeys alarm_moves (persist_prog env)"
  by (simp add: persist_prog_def alarm_moves_def)

lemma am_calls: "ATick \<notin> set es \<Longrightarrow> obeys alarm_moves (calls_prog env es)"
proof (induction es)
  case (Cons e es)
  have "obeys alarm_moves (op_prog env e)"
    using Cons.prems
    by (cases e) (auto simp: replace_prog_def fire_prog_def clear_prog_def Let_def alarm_moves_def
        no_alarm_def app_write_def)
  then show ?case
    using Cons by simp
qed simp

definition alarm_safe :: "('s, 'd) app \<Rightarrow> bool" where
  "alarm_safe a \<longleftrightarrow> \<not> (fa_active (sn_alarm (app_snapshot a)) \<and> valve_state (ap_valve a) = On)"

text \<open>The switches mirrored by a tick: the valve is not On unless it was mirrored as On.\<close>

definition mirrored :: "('s, 'd) app \<Rightarrow> bool" where
  "mirrored a \<longleftrightarrow> (valve_state (ap_valve a) = On \<longrightarrow> st_water_control (sn_switches (app_snapshot a)) = WcOn)"

lemma moves_keep:
  "alarm_moves a b \<Longrightarrow> alarm_safe a \<Longrightarrow> alarm_safe b" "alarm_moves a b \<Longrightarrow> mirrored a \<Longrightarrow> mirrored b"
  "alarm_moves a b \<Longrightarrow> valve_state (ap_valve a) \<noteq> On \<Longrightarrow> valve_state (ap_valve b) \<noteq> On"
  by (auto simp: alarm_moves_def alarm_safe_def mirrored_def)

lemma am_keeps:
  assumes "obeys alarm_moves p" "I a" "\<And>b c. alarm_moves b c \<Longrightarrow> I b \<Longrightarrow> I c"
  shows "under alarm_moves (\<lambda>_. I) p a"
  by (rule am.under_weaken [OF am.under_obeys [OF assms(1)]]) (use assms in auto)

lemma close_not_on_under:
  "alarm_moves (fst (if valve_is_busy (ap_valve b) then (b, r)
     else (b\<lparr>ap_valve := valve_turn_off (ap_valve b) now\<rparr>, r'))) c \<Longrightarrow> alarm_safe c"
  by (auto simp: alarm_safe_def alarm_moves_def valve_is_busy_def valve_state_def valve_turn_off_def
      split: if_splits phase.splits)

lemma close_under: "under alarm_moves (\<lambda>_. alarm_safe) (ignoring (command_prog env (WaterControl False))) a"
proof (rule am.under_ignoring)
  show "under alarm_moves (\<lambda>_. alarm_safe) (command_prog env (WaterControl False)) a"
    unfolding command_prog_def switch_command.case if_False
    by (rule am.under_skip, rule am.under_locked, erule close_not_on_under)
qed

lemma fired_under: "under alarm_moves (\<lambda>_. alarm_safe) (fired_prog env al flow now) a"
  unfolding fired_prog_def
  by (rule am.under_skip, rule am.under_skip, rule am.under_skip, rule am.under_skip, rule close_under)

text \<open>What the evaluation knows once it has its snapshot: the alarm is not active unless the snapshot
  says so, and the valve is not On unless the snapshot says so.\<close>

definition seen :: "device_snapshot \<Rightarrow> ('s, 'd) app \<Rightarrow> bool" where
  "seen snap a \<longleftrightarrow>
     (fa_active (sn_alarm (app_snapshot a)) \<longrightarrow> fa_active (sn_alarm snap)) \<and>
     (valve_state (ap_valve a) = On \<longrightarrow> st_water_control (sn_switches snap) = WcOn)"

definition needs_no_close :: "device_snapshot \<Rightarrow> bool \<Rightarrow> bool" where
  "needs_no_close snap fired \<longleftrightarrow>
     \<not> fired \<and> \<not> (fa_active (sn_alarm snap) \<and> st_water_control (sn_switches snap) = WcOn)"

lemma seen_snapshot: "alarm_moves b c \<Longrightarrow> mirrored b \<Longrightarrow> seen (app_snapshot b) c"
  by (auto simp: seen_def mirrored_def alarm_moves_def)

lemma react_under:
  assumes "\<And>c. alarm_moves b c \<Longrightarrow> needs_no_close snap fired \<longrightarrow> alarm_safe c"
  shows "under alarm_moves (\<lambda>_. alarm_safe) (react_prog env al now snap fired) b"
  using assms by (auto simp: react_prog_def needs_no_close_def fired_under close_under)

lemma count_under:
  assumes "\<And>c. alarm_moves a c \<Longrightarrow> seen snap c"
  shows "under alarm_moves (\<lambda>fired c. needs_no_close snap fired \<longrightarrow> alarm_safe c)
    (locked [LkState] (count_alarm al on over_limit (fa_active (sn_alarm snap)) d)) a"
proof (rule am.under_locked)
  fix b c
  assume "alarm_moves a b"
    "alarm_moves (fst (count_alarm al on over_limit (fa_active (sn_alarm snap)) d b)) c"
  then show "needs_no_close snap (snd (count_alarm al on over_limit (fa_active (sn_alarm snap)) d b))
      \<longrightarrow> alarm_safe c"
    using assms [of b] by (auto simp: seen_def alarm_safe_def alarm_moves_def count_alarm_def
        needs_no_close_def Let_def)
qed

lemma rule_under:
  assumes "\<And>c. alarm_moves a c \<Longrightarrow> mirrored c"
  shows "under alarm_moves (\<lambda>_. alarm_safe) (rule_prog env al now d) a"
proof -
  have "under alarm_moves (\<lambda>_. alarm_safe) (updating [LkState] (\<lambda>a. app_update_state a no_alarm)) a"
    by (rule am.under_updating) (simp add: alarm_moves_def alarm_safe_def no_alarm_def)
  moreover have "under alarm_moves seen (reading [LkState] app_snapshot) a"
    by (rule am.under_reading, rule seen_snapshot, assumption, rule assms)
  then have "under alarm_moves (\<lambda>_. alarm_safe) (prog_bind (reading [LkState] app_snapshot) (\<lambda>snap.
       prog_bind (locked [LkState] (count_alarm al
          (st_sprinkler_1 (sn_switches snap) \<or> st_sprinkler_2 (sn_switches snap))
          (flow_above snap al) (fa_active (sn_alarm snap)) d)) (react_prog env al now snap))) a"
    by (rule am.under_bind) (rule am.under_bind, erule count_under, erule react_under)
  ultimately show ?thesis
    by (simp add: rule_prog_def)
qed

lemma evaluate_under:
  assumes "\<And>c. alarm_moves a c \<Longrightarrow> mirrored c"
  shows "under alarm_moves (\<lambda>_. alarm_safe) (evaluate_prog env now) a"
proof -
  have config: "under alarm_moves (\<lambda>_. mirrored) (reading [LkConfig] ap_config) a"
    by (rule am_keeps) (use assms in \<open>auto intro: moves_keep\<close>)
  have check: "under alarm_moves (\<lambda>_. mirrored)
      (locked [LkLastCheck] (\<lambda>a. (a\<lparr>ap_last_check := Some now\<rparr>, alarm_delta a now))) b"
    if "\<And>c. alarm_moves b c \<Longrightarrow> mirrored c" for b
    using that by (intro am_keeps) (auto simp: alarm_moves_def intro: moves_keep(2))
  show ?thesis
    unfolding evaluate_prog_def
    by (rule am.under_bind [OF config], rule am.under_bind, erule check, erule rule_under)
qed

lemma tick_under: "under alarm_moves (\<lambda>_. alarm_safe) (tick_prog env) a"
proof -
  have tail: "under alarm_moves (\<lambda>_. alarm_safe)
      (prog_bind (evaluate_prog env now) (\<lambda>_. prog_bind (persist_prog env) (\<lambda>_. Ret outs))) b"
    if "\<And>c. alarm_moves b c \<Longrightarrow> mirrored c" for now outs b
    by (rule am.under_bind [OF evaluate_under [OF that]], assumption,
        rule am.under_bind [OF am_keeps [where I = alarm_safe]]) (auto intro: moves_keep)
  have mirror: "under alarm_moves (\<lambda>_. mirrored)
      (updating [LkState, LkLog] (\<lambda>a. app_update_state a (mirror_switches s1 s2 vs))) b"
    if "\<And>c. alarm_moves b c \<Longrightarrow> valve_state (ap_valve c) = On \<longrightarrow> vs = On" for s1 s2 vs b
    by (rule am.under_updating) (use that in \<open>auto simp: alarm_moves_def mirrored_def mirror_switches_def
      water_control_of_On\<close>)
  have state: "under alarm_moves (\<lambda>vs c. valve_state (ap_valve c) = On \<longrightarrow> vs = On)
      (reading [LkValve] (\<lambda>a. valve_state (ap_valve a))) b" for b
    by (rule am.under_reading) (auto simp: alarm_moves_def)
  show ?thesis
    unfolding tick_prog_def
    by (rule am.under_skip, rule am.under_skip, rule am.under_skip, rule am.under_skip,
        rule am.under_skip, rule am.under_skip, rule am.under_skip, rule am.under_skip,
        rule am.under_bind [OF state], rule am.under_bind [OF mirror], assumption, rule tail)
qed

text \<open>C4. The promise of the flow alarm survives threads: when a tick returns, having run against any
  number of other threads in the middle of any calls but a tick, interrupted between any two of its
  sections, the valve is not On if the alarm is active.\<close>

theorem alarm_closes_under_threads:
  assumes "pool_step\<^sup>*\<^sup>* ((0, op_prog env ATick) # others, a) ((n, Ret ()) # ts, b)"
    and "\<forall>t \<in> set others. \<exists>es. ATick \<notin> set es \<and> rest_of (calls_prog env es) (snd t)"
  shows "\<not> (fa_active (sn_alarm (app_snapshot b)) \<and> valve_state (ap_valve b) = On)"
proof -
  have "\<forall>t \<in> set others. obeys alarm_moves (snd t)"
    using assms(2) am_calls obeys_rest by blast
  moreover have "under alarm_moves (\<lambda>_. alarm_safe) (op_prog env ATick) a"
    using am.under_ignoring [OF tick_under] by simp
  ultimately have "alarm_safe b"
    by (rule am.head_returns [OF assms(1), rotated])
  then show ?thesis
    by (simp add: alarm_safe_def)
qed

section \<open>A thread that runs to the end of its calls\<close>

lemma take_locks:
  assumes "i < length ts" "ts ! i = (n, Crit ls f k)" "m \<le> length ls" "n \<le> m"
    and "distinct ls" "\<forall>j < length ts. j \<noteq> i \<longrightarrow> held (ts ! j) = []"
  shows "pool_step\<^sup>*\<^sup>* (ts, a) (ts[i := (m, Crit ls f k)], a)"
  using assms(4,3)
proof (induction m rule: dec_induct)
  case base
  then show ?case
    using assms(1,2) by (metis list_update_id rtranclp.rtrancl_refl)
next
  case (step m)
  let ?ts = "ts[i := (m, Crit ls f k)]"
  have "ls ! m \<notin> set (held t)" if t: "t \<in> set ?ts" for t
  proof -
    obtain j where j: "j < length ts" "t = ?ts ! j"
      using t by (auto simp: in_set_conv_nth)
    show ?thesis
      using j assms(1,5,6) step.prems
      by (cases "j = i") (auto simp: in_set_conv_nth nth_eq_iff_index_eq)
  qed
  then have "pool_step (?ts, a) (?ts[i := (Suc m, Crit ls f k)], a)"
    using assms(1) step.prems by (intro take_lock) auto
  then show ?case
    using step by (auto intro: rtranclp.rtrancl_into_rtrancl)
qed

primrec no_repeats :: "('a, 'r) prog \<Rightarrow> bool" where
  "no_repeats (Ret r) = True"
| "no_repeats (Crit ls f k) = (distinct ls \<and> (\<forall>a. no_repeats (k a)))"

lemma ranked_distinct: "ranked p \<Longrightarrow> no_repeats p"
proof (induction p)
  case (Crit ls f k)
  have "distinct ls"
    using Crit.prems by (fastforce simp: distinct_conv_nth sorted_wrt_iff_nth_less neq_iff)
  then show ?case
    using Crit by simp
qed simp

lemma solo:
  assumes "i < length ts" "ts ! i = (0, p)" "no_repeats p"
    and "\<forall>j < length ts. j \<noteq> i \<longrightarrow> held (ts ! j) = []"
  shows "pool_step\<^sup>*\<^sup>* (ts, a) (ts[i := (0, Ret (snd (run_alone p a)))], fst (run_alone p a))"
  using assms
proof (induction p arbitrary: ts a)
  case (Ret r)
  then show ?case
    by (metis fst_conv list_update_id rtranclp.rtrancl_refl run_alone.simps(1) snd_conv)
next
  case (Crit ls f k)
  let ?ts = "ts[i := (length ls, Crit ls f k)]"
  have "pool_step\<^sup>*\<^sup>* (ts, a) (?ts, a)"
    using Crit.prems by (intro take_locks) auto
  moreover have "pool_step (?ts, a) (?ts[i := (0, k a)], f a)"
    using Crit.prems by (intro run_section) auto
  moreover have "pool_step\<^sup>*\<^sup>* (ts[i := (0, k a)], f a)
      (ts[i := (0, k a), i := (0, Ret (snd (run_alone (k a) (f a))))], fst (run_alone (k a) (f a)))"
    using Crit.prems by (intro Crit.IH) auto
  ultimately show ?case
    by (auto intro: rtranclp.rtrancl_into_rtrancl rtranclp_trans)
qed

text \<open>An instance: the alarm fires at once, the valve is open, another thread is about to command it
  to open.\<close>

definition armed_app :: "(fake_nvs, webhook_event list) app" where
  "armed_app = (app_new (sample_env (\<lambda>_. 0)) (sample_config\<lparr>cf_flow_alarm :=
     \<lparr>al_enabled = True, al_threshold_lph = f32_zero, al_duration_secs = 0\<rparr>\<rparr>))\<lparr>ap_valve := valve_restore valve_new True\<rparr>"

lemma alarm_closes_under_threads_witness:
  "fa_active (sn_alarm (app_snapshot (fst (app_tick (sample_env (\<lambda>_. 0)) armed_app)))) \<and>
   valve_state (ap_valve armed_app) = On \<and>
   valve_state (ap_valve (fst (app_tick (sample_env (\<lambda>_. 0)) armed_app))) \<noteq> On"
proof -
  let ?e = "sample_env (\<lambda>_. 0)"
  let ?o = "(0, calls_prog ?e [ACommand (WaterControl True)]) :: (fake_nvs, webhook_event list) app thread"
  have "pool_step\<^sup>*\<^sup>* ([(0, op_prog ?e ATick), ?o], armed_app)
    ([(0, op_prog ?e ATick), ?o] [0 := (0, Ret (snd (run_alone (op_prog ?e ATick) armed_app)))],
     fst (run_alone (op_prog ?e ATick) armed_app))"
    by (rule solo) (auto simp: less_Suc_eq intro: ranked_distinct)
  then have "pool_step\<^sup>*\<^sup>* ((0, op_prog ?e ATick) # [?o], armed_app)
    ((0, Ret ()) # [?o], fst (app_tick ?e armed_app))"
    by simp
  moreover have "\<exists>es. ATick \<notin> set es \<and> rest_of (calls_prog ?e es) (snd ?o)"
    by (rule exI [of _ "[ACommand (WaterControl True)]"]) (simp add: at_start del: calls_prog.simps)
  ultimately have "\<not> (fa_active (sn_alarm (app_snapshot (fst (app_tick ?e armed_app)))) \<and>
      valve_state (ap_valve (fst (app_tick ?e armed_app))) = On)"
    using alarm_closes_under_threads [of ?e "[?o]"] by simp
  moreover have "fa_active (sn_alarm (app_snapshot (fst (app_tick ?e armed_app))))"
    by (simp add: app_tick_split evaluate_alarm alarm_rule_def armed_app_def app_new_def
        app_with_nvs_def Let_def)
  moreover have "valve_state (ap_valve armed_app) = On"
    by (simp add: armed_app_def valve_restore_def valve_new_def valve_with_timing_def valve_state_def)
  ultimately show ?thesis
    by simp
qed

section \<open>Replacing the configuration under threads\<close>

text \<open>\<open>replace_config_section\<close> pushes the limits into the components before it stores the
  configuration, in four separate sections. \<open>pushed\<close>: the components run on the limits of \<open>cfg\<close>.\<close>

definition pushed :: "config \<Rightarrow> ('s, 'd) app \<Rightarrow> bool" where
  "pushed cfg a \<longleftrightarrow>
     sw_auto_off (ap_sprinkler1 a) = auto_off_or_none (sprinkler_1_auto_off_secs (cf_switches cfg)) \<and>
     sw_auto_off (ap_sprinkler2 a) = auto_off_or_none (sprinkler_2_auto_off_secs (cf_switches cfg)) \<and>
     wv_timing (ap_valve a) = sw_valve_timing (cf_switches cfg)"

definition limit_moves :: "('s, 'd) app \<Rightarrow> ('s, 'd) app \<Rightarrow> bool" where
  "limit_moves a b \<longleftrightarrow>
     ap_config b = ap_config a \<and> wv_timing (ap_valve b) = wv_timing (ap_valve a) \<and>
     sw_auto_off (ap_sprinkler1 b) = sw_auto_off (ap_sprinkler1 a) \<and>
     sw_auto_off (ap_sprinkler2 b) = sw_auto_off (ap_sprinkler2 a)"

interpretation lm: rely limit_moves
  by unfold_locales (auto simp: limit_moves_def)

lemma lm_simple [simp]:
  "obeys limit_moves (clock_now env)" "obeys limit_moves (wall_now env)"
  "obeys limit_moves (emit_prog env ev)" "obeys limit_moves (record_prog env h)"
  "obeys limit_moves (persist_prog env)"
  by (simp_all add: clock_now_def wall_now_def emit_prog_def record_prog_def persist_prog_def
      limit_moves_def Let_def)

lemma lm_command [simp]: "obeys limit_moves (command_prog env c)"
  unfolding command_prog_def
  by (cases c) (auto intro!: obeys_bind simp: limit_moves_def)

lemma lm_evaluate [simp]: "obeys limit_moves (evaluate_prog env now)"
  by (auto intro!: obeys_bind simp: evaluate_prog_def rule_prog_def react_prog_def fired_prog_def
      limit_moves_def count_alarm_def Let_def)

lemma lm_tick [simp]: "obeys limit_moves (tick_prog env)"
  unfolding tick_prog_def split_beta
  by (intro obeys_bind) (simp_all add: limit_moves_def)

fun replaces :: "app_op \<Rightarrow> bool" where
  "replaces (AReplace c n) = True"
| "replaces _ = False"

lemma lm_calls: "\<not> list_ex replaces es \<Longrightarrow> obeys limit_moves (calls_prog env es)"
proof (induction es)
  case (Cons e es)
  have "obeys limit_moves (op_prog env e)"
    using Cons.prems
    by (cases e) (auto intro!: obeys_bind simp: fire_prog_def clear_prog_def
        limit_moves_def schedule_turn_on_def split: option.split)
  then show ?case
    using Cons by simp
qed simp

lemma replace_under:
  "under limit_moves (\<lambda>_ b. ap_config b = cfg \<and> pushed cfg b) (replace_prog env cfg name) a"
proof -
  let ?sw = "cf_switches cfg"
  let ?l1 = "auto_off_or_none (sprinkler_1_auto_off_secs ?sw)"
  let ?l2 = "auto_off_or_none (sprinkler_2_auto_off_secs ?sw)"
  have s1: "under limit_moves (\<lambda>_ c. sw_auto_off (ap_sprinkler1 c) = ?l1)
    (updating [LkSprinkler1] (\<lambda>a. a\<lparr>ap_sprinkler1 := switch_set_auto_off (ap_sprinkler1 a) ?l1\<rparr>)) b" for b
    by (rule lm.under_updating) (simp add: limit_moves_def switch_set_auto_off_def)
  have s2: "under limit_moves (\<lambda>_ c. sw_auto_off (ap_sprinkler1 c) = ?l1 \<and> sw_auto_off (ap_sprinkler2 c) = ?l2)
    (updating [LkSprinkler2] (\<lambda>a. a\<lparr>ap_sprinkler2 := switch_set_auto_off (ap_sprinkler2 a) ?l2\<rparr>)) b"
    if "\<And>c. limit_moves b c \<Longrightarrow> sw_auto_off (ap_sprinkler1 c) = ?l1" for b
    by (rule lm.under_updating_from [OF that], assumption) (simp add: limit_moves_def switch_set_auto_off_def)
  have v: "under limit_moves (\<lambda>_. pushed cfg)
    (updating [LkValve] (\<lambda>a. a\<lparr>ap_valve := valve_set_timing (ap_valve a) (sw_valve_timing ?sw)\<rparr>)) b"
    if "\<And>c. limit_moves b c \<Longrightarrow> sw_auto_off (ap_sprinkler1 c) = ?l1 \<and> sw_auto_off (ap_sprinkler2 c) = ?l2" for b
    by (rule lm.under_updating_from [OF that], assumption) (simp add: limit_moves_def pushed_def valve_set_timing_def)
  have c: "under limit_moves (\<lambda>_ c. ap_config c = cfg \<and> pushed cfg c)
    (updating [LkConfig] (\<lambda>a. a\<lparr>ap_config := cfg\<rparr>)) b"
    if "\<And>c. limit_moves b c \<Longrightarrow> pushed cfg c" for b
    by (rule lm.under_updating_from [OF that], assumption) (simp add: limit_moves_def pushed_def)
  have e: "under limit_moves (\<lambda>_ c. ap_config c = cfg \<and> pushed cfg c) (emit_prog env ev) b"
    if "\<And>c. limit_moves b c \<Longrightarrow> ap_config c = cfg \<and> pushed cfg c" for ev b
    by (rule lm.under_weaken [OF lm.under_obeys [OF _ lm.R_refl]]) (use that in simp_all)
  show ?thesis
    unfolding replace_prog_def Let_def
    by (rule lm.under_bind [OF s1], rule lm.under_bind, erule s2, rule lm.under_bind, erule v,
        rule lm.under_bind, erule c, erule e)
qed

text \<open>C12. One writer at a time: when \<open>replace_config_section\<close> returns, having run against threads in the
  middle of any calls that do not replace the configuration, the configuration is the new one and
  the components run on its limits.\<close>

theorem replace_under_threads:
  assumes "pool_step\<^sup>*\<^sup>* ((0, op_prog env (AReplace cfg name)) # others, a) ((n, Ret ()) # ts, b)"
    and "\<forall>t \<in> set others. \<exists>es. \<not> list_ex replaces es \<and> rest_of (calls_prog env es) (snd t)"
  shows "ap_config b = cfg \<and> pushed cfg b"
proof -
  have "\<forall>t \<in> set others. obeys limit_moves (snd t)"
    using assms(2) lm_calls obeys_rest by blast
  moreover have "under limit_moves (\<lambda>_ b. ap_config b = cfg \<and> pushed cfg b) (op_prog env (AReplace cfg name)) a"
    by (simp add: replace_under)
  ultimately show ?thesis
    by (rule lm.head_returns [OF assms(1), rotated])
qed

lemma replace_under_threads_witness:
  "ap_config (fst (run_alone (op_prog (sample_env (\<lambda>_. 0)) (AReplace sample_config ''all'')) armed_app)) = sample_config \<and>
   pushed sample_config (fst (run_alone (op_prog (sample_env (\<lambda>_. 0)) (AReplace sample_config ''all'')) armed_app))"
proof -
  let ?e = "sample_env (\<lambda>_. 0)"
  let ?r = "op_prog ?e (AReplace sample_config ''all'')"
  let ?o = "(0, calls_prog ?e [ATick]) :: (fake_nvs, webhook_event list) app thread"
  have "pool_step\<^sup>*\<^sup>* ([(0, ?r), ?o], armed_app)
    ([(0, ?r), ?o] [0 := (0, Ret (snd (run_alone ?r armed_app)))], fst (run_alone ?r armed_app))"
    by (rule solo) (auto simp: less_Suc_eq intro: ranked_distinct)
  then have "pool_step\<^sup>*\<^sup>* ((0, ?r) # [?o], armed_app) ((0, Ret ()) # [?o], fst (run_alone ?r armed_app))"
    by simp
  moreover have "\<exists>es. \<not> list_ex replaces es \<and> rest_of (calls_prog ?e es) (snd ?o)"
    by (rule exI [of _ "[ATick]"]) (simp add: at_start del: calls_prog.simps)
  ultimately show ?thesis
    using replace_under_threads [of ?e sample_config "''all''" "[?o]"] by simp
qed

text \<open>C24. Two writers at once, a save from the web page and one from the console: \<open>cfg2\<close> can be replaced
  entirely between the first and the second section of the replacement by \<open>cfg1\<close>. Both calls
  return, the configuration is \<open>cfg1\<close>, and sprinkler 1 runs on the limit of \<open>cfg2\<close> until the next
  replacement or a reboot.\<close>

theorem torn_replace:
  "\<exists>b. pool_step\<^sup>*\<^sup>* ([(0, op_prog env (AReplace cfg1 name1)), (0, op_prog env (AReplace cfg2 name2))], a)
     ([(0, Ret ()), (0, Ret ())], b) \<and>
   ap_config b = cfg1 \<and>
   sw_auto_off (ap_sprinkler1 b) = auto_off_or_none (sprinkler_1_auto_off_secs (cf_switches cfg2))"
proof -
  let ?p1 = "replace_prog env cfg1 name1" and ?p2 = "replace_prog env cfg2 name2"
  let ?l = "auto_off_or_none (sprinkler_1_auto_off_secs (cf_switches cfg1))"
  let ?set = "\<lambda>a. a\<lparr>ap_sprinkler1 := switch_set_auto_off (ap_sprinkler1 a) ?l\<rparr>"
  obtain k where p1: "?p1 = Crit [LkSprinkler1] ?set (\<lambda>_. k)" "no_repeats k"
    "\<And>b. ap_config (fst (run_alone k b)) = cfg1"
    "\<And>b. ap_sprinkler1 (fst (run_alone k b)) = ap_sprinkler1 b"
  proof -
    have "ranked ?p1"
      by simp
    then show ?thesis
      by (intro that) (auto simp: replace_prog_def updating_def locked_def Let_def intro!: ranked_distinct)
  qed
  let ?b = "?set a" and ?c = "fst (run_alone ?p2 (?set a))"
  have "pool_step\<^sup>*\<^sup>* ([(0, ?p1), (0, ?p2)], a) ([(1, ?p1), (0, ?p2)], a)"
    unfolding p1(1) using take_locks [of 0 "[(0, ?p1), (0, ?p2)]" 0 "[LkSprinkler1]" ?set "\<lambda>_. k" 1 a]
    by (simp add: p1(1) less_Suc_eq)
  also have "pool_step ([(1, ?p1), (0, ?p2)], a) ([(0, k), (0, ?p2)], ?b)"
    unfolding p1(1) using run_section [of 0 "[(1, ?p1), (0, ?p2)]" "[LkSprinkler1]" ?set "\<lambda>_. k" a]
    by (simp add: p1(1))
  also have "pool_step\<^sup>*\<^sup>* ([(0, k), (0, ?p2)], ?b) ([(0, k), (0, Ret ())], ?c)"
    using solo [of 1 "[(0, k), (0, ?p2)]" ?p2 ?b] by (simp add: ranked_distinct less_Suc_eq)
  also have "pool_step\<^sup>*\<^sup>* ([(0, k), (0, Ret ())], ?c) ([(0, Ret ()), (0, Ret ())], fst (run_alone k ?c))"
    using solo [of 0 "[(0, k), (0, Ret ())]" k ?c] p1(2) by (simp add: less_Suc_eq)
  finally show ?thesis
    using p1(3,4) by (intro exI [of _ "fst (run_alone k ?c)"])
      (simp add: replace_config_section_def Let_def switch_set_auto_off_def)
qed

end
