(* ===== verification/Esp_Threads.thy ===== *)
theory Esp_Threads
  imports App_Locks Pin_Task
begin

text \<open>
  The ESP-IDF device as threads: the tick thread of \<open>crates/firmware/src/main.rs\<close>, which owns the
  pins, beside the threads of the web servers, the console, MQTT, the schedule and the sensors. The
  threads share the application, and between any two critical sections of one of them, and between
  any two pin writes, the others run.

  \<^item> A \<open>board\<close> is the application with the pins and every level the pins have taken.
  \<^item> \<open>tick_passes\<close> is the loop of the tick thread, its passes written with the sections of App_Locks
    and one step per pin write; \<open>task_prog\<close> is any other thread: calls of \<open>App\<close> but the tick, and
    writes of the store.
  \<^item> In the locale \<open>rely\<close>, \<open>during\<close> extends \<open>under\<close> by what holds at every moment of the run; the
    windings of the valve are such a property.
\<close>

section \<open>The board and its threads\<close>

record ('s, 'd) board =
  bd_app :: "('s, 'd) app"
  bd_pins :: levels
  bd_shown :: "levels list"

text \<open>A method of the application, run on the board.\<close>

primrec on_app :: "(('s, 'd) app, 'r) prog \<Rightarrow> (('s, 'd) board, 'r) prog" where
  "on_app (Ret r) = Ret r"
| "on_app (Crit ls f k) = Crit ls (\<lambda>x. x\<lparr>bd_app := f (bd_app x)\<rparr>) (\<lambda>x. on_app (k (bd_app x)))"

text \<open>The pins belong to the tick thread: a write takes no lock.\<close>

definition set_pin :: "pin \<Rightarrow> bool \<Rightarrow> ('s, 'd) board \<Rightarrow> ('s, 'd) board" where
  "set_pin p b x = x\<lparr>bd_pins := (bd_pins x)(p := b), bd_shown := bd_shown x @ [(bd_pins x)(p := b)]\<rparr>"

definition pin_prog :: "pin \<Rightarrow> bool \<Rightarrow> (('s, 'd) board, unit) prog" where
  "pin_prog p b = updating [] (set_pin p b)"

definition tick_pass :: "('s, 't, 'd) env \<Rightarrow> (('s, 'd) board, unit) prog" where
  "tick_pass env =
    prog_bind (on_app (tick_prog env)) (\<lambda>outputs.
    prog_bind (pin_prog PinValveOpen (open_motor (to_valve outputs))) (\<lambda>_.
    prog_bind (pin_prog PinValveClose (close_motor (to_valve outputs))) (\<lambda>_.
    prog_bind (pin_prog PinDrain (drain (to_valve outputs))) (\<lambda>_.
    prog_bind (pin_prog PinSprinkler1 (to_sprinkler_1 outputs)) (\<lambda>_.
    pin_prog PinSprinkler2 (to_sprinkler_2 outputs))))))"

text \<open>The first \<open>n\<close> passes of the loop.\<close>

primrec tick_passes :: "('s, 't, 'd) env \<Rightarrow> nat \<Rightarrow> (('s, 'd) board, unit) prog" where
  "tick_passes env 0 = Ret ()"
| "tick_passes env (Suc n) = prog_bind (tick_pass env) (\<lambda>_. tick_passes env n)"

text \<open>The other threads: calls of the application and writes of the store.\<close>

datatype 's task_call = Calls app_op | Stores "'s \<Rightarrow> 's"

primrec task_prog :: "('s, 't, 'd) env \<Rightarrow> 's task_call list \<Rightarrow> (('s, 'd) app, unit) prog" where
  "task_prog env [] = Ret ()"
| "task_prog env (c # cs) = prog_bind (case c of
       Calls e \<Rightarrow> op_prog env e
     | Stores f \<Rightarrow> updating [LkNvs] (\<lambda>a. a\<lparr>ap_nvs := map_option f (ap_nvs a)\<rparr>))
     (\<lambda>_. task_prog env cs)"

definition esp_pool :: "('s, 't, 'd) env \<Rightarrow> nat \<Rightarrow> 's task_call list list \<Rightarrow> ('s, 'd) board thread list" where
  "esp_pool env n tasks = (0, tick_passes env n) # map (\<lambda>cs. (0, on_app (task_prog env cs))) tasks"

text \<open>Power on: the pins are low.\<close>

definition board_on :: "('s, 'd) app \<Rightarrow> ('s, 'd) board" where
  "board_on a = \<lparr>bd_app = a, bd_pins = all_low, bd_shown = []\<rparr>"

lemma on_app_bind [simp]: "on_app (prog_bind p g) = prog_bind (on_app p) (\<lambda>r. on_app (g r))"
  by (induction p) simp_all

lemma run_on_app [simp]:
  "run_alone (on_app p) x = (x\<lparr>bd_app := fst (run_alone p (bd_app x))\<rparr>, snd (run_alone p (bd_app x)))"
  by (induction p arbitrary: x) (simp_all add: prod_eq_iff)

section \<open>What holds at every moment of a run\<close>

primrec during :: "('a \<Rightarrow> 'a \<Rightarrow> bool) \<Rightarrow> ('a \<Rightarrow> bool) \<Rightarrow> ('r \<Rightarrow> 'a \<Rightarrow> bool) \<Rightarrow> ('a, 'r) prog \<Rightarrow> 'a \<Rightarrow> bool" where
  "during R J Q (Ret r) a = (\<forall>b. R a b \<longrightarrow> J b \<and> Q r b)"
| "during R J Q (Crit ls f k) a = (\<forall>b. R a b \<longrightarrow> J b \<and> during R J Q (k b) (f b))"

context rely
begin

lemma during_moves: "during R J Q p a \<Longrightarrow> R a b \<Longrightarrow> during R J Q p b"
  by (cases p) (auto intro: R_trans)

lemma during_now: "during R J Q p a \<Longrightarrow> J a"
  by (cases p) simp_all

lemma during_returned: "during R J Q (Ret r) a \<Longrightarrow> Q r a"
  by simp

lemma during_bind:
  assumes "during R J P p a"
    and "\<And>r b. (\<And>c. R b c \<Longrightarrow> J c \<and> P r c) \<Longrightarrow> during R J Q (g r) b"
  shows "during R J Q (prog_bind p g) a"
  using assms(1)
proof (induction p arbitrary: a)
  case (Ret r)
  then show ?case
    using assms(2) by simp
next
  case (Crit ls f k)
  then show ?case
    by auto
qed

lemma during_section:
  assumes "\<And>b. R a b \<Longrightarrow> J b \<and> I b" "\<And>b c. J b \<Longrightarrow> I b \<Longrightarrow> R (fst (m b)) c \<Longrightarrow> J c \<and> Q (snd (m b)) c"
  shows "during R J Q (locked ls m) a"
  unfolding locked_def using assms by (simp, blast)

lemma during_update:
  assumes "\<And>b. R a b \<Longrightarrow> J b \<and> I b" "\<And>b c. J b \<Longrightarrow> I b \<Longrightarrow> R (h b) c \<Longrightarrow> J c \<and> Q () c"
  shows "during R J Q (updating ls h) a"
  unfolding updating_def by (rule during_section [where I = I]) (use assms in auto)

text \<open>A program of moves keeps what the moves keep.\<close>

lemma during_obeys:
  assumes "obeys R p" "\<And>b. R a b \<Longrightarrow> J b \<and> I b"
  shows "during R J (\<lambda>_. I) p a"
  using assms
proof (induction p arbitrary: a)
  case (Crit ls f k)
  have "during R J (\<lambda>_. I) (k b) (f b)" if b: "R a b" for b
  proof (rule Crit.IH)
    show "obeys R (k b)"
      using Crit.prems(1) by simp
    show "J c \<and> I c" if "R (f b) c" for c
    proof -
      have "R b (f b)"
        using Crit.prems(1) by simp
      then show ?thesis
        using Crit.prems(2) b that by (blast intro: R_trans)
    qed
  qed (rule range_eqI [OF refl])
  then show ?case
    using Crit.prems(2) by auto
qed simp

lemma during_skip:
  assumes "obeys R p" "\<And>b. R a b \<Longrightarrow> J b \<and> I b"
    and "\<And>r b. (\<And>c. R b c \<Longrightarrow> J c \<and> I c) \<Longrightarrow> during R J Q (g r) b"
  shows "during R J Q (prog_bind p g) a"
  by (rule during_bind [OF during_obeys [where I = I, OF assms(1)]]) (use assms(2,3) in auto)

lemma during_pool_step:
  assumes "pool_step s s'" "i < length (fst s)" "during R J Q (snd (fst s ! i)) (snd s)"
    and "\<forall>j < length (fst s). j \<noteq> i \<longrightarrow> obeys R (snd (fst s ! j))"
  shows "length (fst s') = length (fst s) \<and> during R J Q (snd (fst s' ! i)) (snd s') \<and>
    (\<forall>j < length (fst s). j \<noteq> i \<longrightarrow> obeys R (snd (fst s' ! j)))"
  using assms
proof (induction rule: pool_step.induct)
  case (take_lock j ts n ls f k a)
  then show ?case
    by (cases "j = i") (auto simp: nth_list_update dest: spec [of _ j])
next
  case (run_section j ts ls f k a)
  show ?case
  proof (cases "j = i")
    case True
    then show ?thesis
      using run_section by (auto simp: nth_list_update)
  next
    case False
    then have "obeys R (Crit ls f k)"
      using run_section by (metis fst_conv snd_conv)
    then show ?thesis
      using run_section False by (auto simp: nth_list_update intro: during_moves)
  qed
qed

text \<open>Soundness, for a pool whose head thread is the one of interest: the property holds in every
  state the pool reaches, and what the head thread ensures holds once it has returned.\<close>

lemma head_during:
  assumes "pool_step\<^sup>*\<^sup>* ((n, p) # others, a) (ts, b)" "during R J Q p a"
    and "\<forall>t \<in> set others. obeys R (snd t)"
  shows "J b \<and> (\<forall>m r. hd ts = (m, Ret r) \<longrightarrow> Q r b)"
proof -
  let ?s = "((n, p) # others, a)"
  have o: "obeys R (snd (((n, p) # others) ! j))" if "j < Suc (length others)" "j \<noteq> 0" for j
    using that assms(3) by (cases j) auto
  have "length (fst s) = length (fst ?s) \<and> during R J Q (snd (fst s ! 0)) (snd s) \<and>
    (\<forall>j < length (fst ?s). j \<noteq> 0 \<longrightarrow> obeys R (snd (fst s ! j)))" if "pool_step\<^sup>*\<^sup>* ?s s" for s
    using that
  proof induction
    case (step t u)
    then show ?case
      using during_pool_step [OF step(2), of 0] by auto
  qed (use assms(2) o in auto)
  from this [OF assms(1)] have d: "during R J Q (snd (hd ts)) b"
    by (cases ts) auto
  then show ?thesis
    using during_now during_returned by fastforce
qed

end

section \<open>The windings\<close>

text \<open>What the other threads may do: a valve whose motor runs stays in its phase, and the pins are not
  theirs.\<close>

definition valve_moves :: "('s, 'd) app \<Rightarrow> ('s, 'd) app \<Rightarrow> bool" where
  "valve_moves a b \<longleftrightarrow> (valve_is_busy (ap_valve a) \<longrightarrow> wv_phase (ap_valve b) = wv_phase (ap_valve a))"

definition board_moves :: "('s, 'd) board \<Rightarrow> ('s, 'd) board \<Rightarrow> bool" where
  "board_moves x y \<longleftrightarrow> valve_moves (bd_app x) (bd_app y) \<and> bd_pins y = bd_pins x \<and> bd_shown y = bd_shown x"

interpretation wm: rely valve_moves
  by unfold_locales (auto simp: valve_moves_def valve_is_busy_def)

interpretation bm: rely board_moves
  by unfold_locales (auto simp: board_moves_def intro: wm.R_trans)

lemma bm_on_app: "obeys valve_moves p \<Longrightarrow> obeys board_moves (on_app p)"
  by (induction p) (simp_all add: board_moves_def)

lemma vm_simple [simp]:
  "obeys valve_moves (clock_now env)" "obeys valve_moves (wall_now env)"
  "obeys valve_moves (emit_prog env ev)" "obeys valve_moves (record_prog env h)"
  "obeys valve_moves (persist_prog env)"
  by (simp_all add: clock_now_def wall_now_def emit_prog_def record_prog_def persist_prog_def
      valve_moves_def Let_def)

lemma vm_command [simp]: "obeys valve_moves (command_prog env c)"
  unfolding command_prog_def
  by (cases c) (auto intro!: obeys_bind simp: valve_moves_def)

lemma vm_evaluate [simp]: "obeys valve_moves (evaluate_prog env now)"
  by (auto intro!: obeys_bind simp: evaluate_prog_def rule_prog_def react_prog_def fired_prog_def
      valve_moves_def count_alarm_def Let_def)

lemma vm_update [simp]: "valve_moves a (app_update_state a f)"
  "valve_moves a (a\<lparr>ap_sprinkler1 := s\<rparr>)" "valve_moves a (a\<lparr>ap_sprinkler2 := s\<rparr>)"
  by (simp_all add: valve_moves_def)

lemma vm_call: "e \<noteq> ATick \<Longrightarrow> obeys valve_moves (op_prog env e)"
  by (cases e) (auto intro!: obeys_bind simp: fire_prog_def clear_prog_def replace_prog_def
      valve_moves_def valve_set_timing_def Let_def)

lemma vm_task: "Calls ATick \<notin> set cs \<Longrightarrow> obeys valve_moves (task_prog env cs)"
proof (induction cs)
  case (Cons c cs)
  have "obeys valve_moves (case c of Calls e \<Rightarrow> op_prog env e
     | Stores f \<Rightarrow> updating [LkNvs] (\<lambda>a. a\<lparr>ap_nvs := map_option f (ap_nvs a)\<rparr>))"
  proof (cases c)
    case (Calls e)
    with Cons.prems have "obeys valve_moves (op_prog env e)"
      by (intro vm_call) auto
    with Calls show ?thesis
      by simp
  qed (simp add: valve_moves_def)
  with Cons show ?case
    by simp
qed simp

text \<open>What holds of the pins at every moment, between two passes, and from the valve's section of a pass
  to the pin writes, which come after any number of moves of the others.\<close>

definition apart_so_far :: "('s, 'd) board \<Rightarrow> bool" where
  "apart_so_far x \<longleftrightarrow> list_all windings_apart (bd_shown x) \<and> windings_apart (bd_pins x)"

definition resting :: "('s, 'd) board \<Rightarrow> bool" where
  "resting x \<longleftrightarrow> pins_follow (bd_pins x) (ap_valve (bd_app x))"

definition pending :: "valve_outputs \<Rightarrow> ('s, 'd) board \<Rightarrow> bool" where
  "pending outs x \<longleftrightarrow>
     (open_motor outs \<longrightarrow> (\<exists>s. wv_phase (ap_valve (bd_app x)) = PTurningOn s)) \<and>
     (close_motor outs \<longrightarrow> (\<exists>s. wv_phase (ap_valve (bd_app x)) = PTurningOff s)) \<and>
     \<not> (open_motor outs \<and> close_motor outs) \<and>
     (bd_pins x PinValveClose \<longrightarrow> \<not> open_motor outs) \<and> (bd_pins x PinValveOpen \<longrightarrow> \<not> close_motor outs)"

lemma moves_keep_pins:
  "board_moves x y \<Longrightarrow> apart_so_far x \<Longrightarrow> apart_so_far y"
  "board_moves x y \<Longrightarrow> resting x \<Longrightarrow> resting y"
  "board_moves x y \<Longrightarrow> pending outs x \<Longrightarrow> pending outs y"
  by (auto simp: board_moves_def valve_moves_def valve_is_busy_def apart_so_far_def resting_def
      pins_follow_def pending_def)

lemma valve_section:
  assumes "resting x"
  shows "pending (snd (valve_tick (ap_valve (bd_app x)) now))
    (x\<lparr>bd_app := (bd_app x)\<lparr>ap_valve := fst (valve_tick (ap_valve (bd_app x)) now)\<rparr>\<rparr>)"
  using assms no_crossing [of "bd_pins x" "ap_valve (bd_app x)" now]
    tick_keeps_motor_phase [of "ap_valve (bd_app x)" now] valve_tick_at_most_one [of "ap_valve (bd_app x)" now]
  by (auto simp: pending_def resting_def at_most_one_def)

text \<open>A pass up to its outputs.\<close>

lemma on_app_locked:
  "on_app (locked ls m) = locked ls (\<lambda>x. (x\<lparr>bd_app := fst (m (bd_app x))\<rparr>, snd (m (bd_app x))))"
  by (simp add: locked_def)

lemma tick_during:
  fixes x :: "('s, 'd) board" and env :: "('s, 't, 'd) env"
  assumes "\<And>c. board_moves x c \<Longrightarrow> apart_so_far c \<and> resting c"
  shows "during board_moves apart_so_far (\<lambda>outs c. pending (to_valve outs) c) (on_app (tick_prog env)) x"
proof -
  let ?D = "during board_moves apart_so_far"
  have valve: "?D (\<lambda>outs c. apart_so_far c \<and> pending outs c)
      (on_app (locked [LkValve] (\<lambda>a. case valve_tick (ap_valve a) now of (v, outs) \<Rightarrow> (a\<lparr>ap_valve := v\<rparr>, outs)))) b"
    if "\<And>c. board_moves b c \<Longrightarrow> apart_so_far c \<and> resting c" for b :: "('s, 'd) board" and now
    unfolding on_app_locked
  proof (rule bm.during_section [where I = resting])
    fix c d :: "('s, 'd) board"
    let ?m = "case valve_tick (ap_valve (bd_app c)) now of (v, outs) \<Rightarrow> ((bd_app c)\<lparr>ap_valve := v\<rparr>, outs)"
    assume *: "apart_so_far c" "resting c" "board_moves (fst (c\<lparr>bd_app := fst ?m\<rparr>, snd ?m)) d"
    have "apart_so_far (c\<lparr>bd_app := fst ?m\<rparr>)"
      using *(1) by (simp add: apart_so_far_def)
    moreover have "pending (snd ?m) (c\<lparr>bd_app := fst ?m\<rparr>)"
      using valve_section [OF *(2), of now] by (simp add: split_beta)
    ultimately show "apart_so_far d \<and> apart_so_far d \<and> pending (snd (c\<lparr>bd_app := fst ?m\<rparr>, snd ?m)) d"
      using *(3) moves_keep_pins by auto
  qed (rule that)
  have tail: "?D (\<lambda>result c. pending (to_valve result) c)
      (prog_bind (on_app (log_if b1)) (\<lambda>_. prog_bind (on_app (log_if b2)) (\<lambda>_.
        prog_bind (on_app (reading [LkSprinkler1] (\<lambda>a. sw_on (ap_sprinkler1 a)))) (\<lambda>s1_on.
        prog_bind (on_app (reading [LkSprinkler2] (\<lambda>a. sw_on (ap_sprinkler2 a)))) (\<lambda>s2_on.
        prog_bind (on_app (reading [LkValve] (\<lambda>a. valve_state (ap_valve a)))) (\<lambda>vs.
        prog_bind (on_app (updating [LkState, LkLog] (\<lambda>a. app_update_state a (mirror_switches s1_on s2_on vs)))) (\<lambda>_.
        prog_bind (on_app (evaluate_prog env now)) (\<lambda>_.
        prog_bind (on_app (persist_prog env)) (\<lambda>_.
        on_app (Ret \<lparr>to_sprinkler_1 = s1_on, to_sprinkler_2 = s2_on, to_valve = outs\<rparr>)))))))))) b"
    if "\<And>c. board_moves b c \<Longrightarrow> apart_so_far c \<and> pending outs c" for b1 b2 now outs b
    using that
    by - ((rule bm.during_skip [where I = "pending outs", OF bm_on_app], simp, assumption)+, simp)
  show ?thesis
    unfolding tick_prog_def on_app_bind
    by (rule bm.during_skip [where I = resting, OF bm_on_app], simp, rule assms, assumption)
       ((rule bm.during_skip [where I = resting, OF bm_on_app], simp add: split_beta, assumption)+,
        rule bm.during_bind, erule valve, rule tail, simp)
qed

section \<open>The pin writes\<close>

lemma pin_during:
  assumes "\<And>c. board_moves x c \<Longrightarrow> apart_so_far c \<and> I c"
    and "\<And>c. apart_so_far c \<Longrightarrow> I c \<Longrightarrow> windings_apart ((bd_pins c)(p := b)) \<and> I' (set_pin p b c)"
    and "\<And>c d. board_moves c d \<Longrightarrow> I' c \<Longrightarrow> I' d"
  shows "during board_moves apart_so_far (\<lambda>_. I') (pin_prog p b) x"
  unfolding pin_prog_def
proof (rule bm.during_update [where I = I])
  fix c d :: "('a, 'b) board"
  assume *: "apart_so_far c" "I c" "board_moves (set_pin p b c) d"
  then have "apart_so_far (set_pin p b c)" "I' (set_pin p b c)"
    using assms(2) [of c] by (simp_all add: apart_so_far_def set_pin_def)
  then show "apart_so_far d \<and> I' d"
    using *(3) moves_keep_pins(1) assms(3) by blast
qed (rule assms(1))

definition half_written :: "valve_outputs \<Rightarrow> ('s, 'd) board \<Rightarrow> bool" where
  "half_written outs x \<longleftrightarrow> pending outs x \<and> bd_pins x PinValveOpen = open_motor outs"

lemma pass_during:
  assumes "\<And>c. board_moves x c \<Longrightarrow> apart_so_far c \<and> resting c"
  shows "during board_moves apart_so_far (\<lambda>_. resting) (tick_pass env) x"
proof -
  have half: "board_moves c d \<Longrightarrow> half_written outs c \<Longrightarrow> half_written outs d" for outs and c d :: "('a, 'b) board"
    using moves_keep_pins(3) by (auto simp: half_written_def board_moves_def)
  have opened: "during board_moves apart_so_far (\<lambda>_. half_written outs) (pin_prog PinValveOpen (open_motor outs)) c"
    if "\<And>d. board_moves c d \<Longrightarrow> apart_so_far d \<and> pending outs d" for outs and c :: "('a, 'b) board"
    by (rule pin_during [OF that]) (auto simp: half_written_def pending_def set_pin_def windings_apart_def
      apart_so_far_def dest: half)
  have closed: "during board_moves apart_so_far (\<lambda>_. resting) (pin_prog PinValveClose (close_motor outs)) c"
    if "\<And>d. board_moves c d \<Longrightarrow> apart_so_far d \<and> half_written outs d" for outs and c :: "('a, 'b) board"
    by (rule pin_during [OF that _ moves_keep_pins(2)]) (auto simp: half_written_def pending_def set_pin_def
      windings_apart_def resting_def pins_follow_def)
  have other: "during board_moves apart_so_far (\<lambda>_. resting) (pin_prog p b) c"
    if "\<And>d. board_moves c d \<Longrightarrow> apart_so_far d \<and> resting d" "p \<notin> {PinValveOpen, PinValveClose}"
    for p b and c :: "('a, 'b) board"
    by (rule pin_during [OF that(1) _ moves_keep_pins(2)])
       (use that(2) in \<open>auto simp: set_pin_def windings_apart_def apart_so_far_def resting_def pins_follow_def\<close>)
  show ?thesis
    unfolding tick_pass_def
    by (rule bm.during_bind [OF tick_during [OF assms]], assumption,
        rule bm.during_bind, erule opened, rule bm.during_bind, erule closed,
        rule bm.during_bind, rule other, assumption, simp,
        rule bm.during_bind, rule other, assumption, simp, rule other, assumption, simp)
qed

lemma passes_during:
  "(\<And>c. board_moves x c \<Longrightarrow> apart_so_far c \<and> resting c) \<Longrightarrow>
     during board_moves apart_so_far (\<lambda>_. resting) (tick_passes env n) x"
proof (induction n arbitrary: x)
  case (Suc n)
  then show ?case
    unfolding tick_passes.simps by (intro bm.during_bind [OF pass_during]) blast+
qed simp

section \<open>Properties\<close>

text \<open>C9. The ESP-IDF device is safe as the threads it is: from power on with any application, while the tick
  thread makes any number of passes and any number of other threads make any calls of the
  application but the tick and any writes of the store, interrupting each other and the tick between
  any two critical sections and any two pin writes, the open and the close winding of the valve are
  never both driven; and when the tick thread sleeps between two passes, a driven winding is the one
  of the motor phase the valve is in.\<close>

theorem esp_threads_safe:
  assumes "pool_step\<^sup>*\<^sup>* (esp_pool env n tasks, board_on a) (ts, x)"
    and "\<forall>cs \<in> set tasks. Calls ATick \<notin> set cs"
  shows "list_all windings_apart (bd_shown x) \<and>
    (finished (hd ts) \<longrightarrow> pins_follow (bd_pins x) (ap_valve (bd_app x)))"
proof -
  have "apart_so_far c \<and> resting c" if "board_moves (board_on a) c" for c
    using that by (auto simp: board_moves_def board_on_def apart_so_far_def resting_def pins_follow_def
        windings_apart_def all_low_def)
  then have "during board_moves apart_so_far (\<lambda>_. resting) (tick_passes env n) (board_on a)"
    by (rule passes_during)
  moreover have "\<forall>t \<in> set (map (\<lambda>cs. (0, on_app (task_prog env cs))) tasks). obeys board_moves (snd t)"
    using assms(2) by (auto intro!: bm_on_app vm_task)
  ultimately have r: "apart_so_far x \<and> (\<forall>m r. hd ts = (m, Ret r) \<longrightarrow> resting x)"
    by (rule bm.head_during [OF assms(1) [unfolded esp_pool_def]])
  then show ?thesis
    by (cases "hd ts"; cases "snd (hd ts)") (auto simp: apart_so_far_def resting_def)
qed

text \<open>A run: a request opens the valve, then the tick thread makes a pass and drives the open winding.\<close>

lemma ranked_on_app: "no_repeats p \<Longrightarrow> no_repeats (on_app p)"
  by (induction p) simp_all

lemma no_repeats_bind: "no_repeats p \<Longrightarrow> (\<And>r. no_repeats (g r)) \<Longrightarrow> no_repeats (prog_bind p g)"
  by (induction p) simp_all

lemma no_repeats_passes: "no_repeats (tick_passes env n)"
proof (induction n)
  case (Suc n)
  have "no_repeats (on_app (tick_prog env))"
    by (intro ranked_on_app ranked_distinct) simp
  with Suc show ?case
    by (auto simp: tick_pass_def pin_prog_def updating_def locked_def intro!: no_repeats_bind)
qed simp

definition second_env :: "(fake_nvs, int, webhook_event list) env" where
  "second_env = sample_env (\<lambda>n. if n = 0 then 0 else 1000)"

lemma second_reads: "env_mono second_env n = (if n = 0 then 0 else 1000)"
  by (simp add: second_env_def)

definition opened_board :: "(fake_nvs, webhook_event list) board" where
  "opened_board = (let env = second_env; x = board_on (app_new env sample_config);
     y = fst (run_alone (on_app (task_prog env [Calls (ACommand (WaterControl True))])) x)
   in fst (run_alone (tick_passes env 1) y))"

lemma esp_threads_safe_witness:
  "list_all windings_apart (bd_shown opened_board) \<and>
   pins_follow (bd_pins opened_board) (ap_valve (bd_app opened_board)) \<and> bd_pins opened_board PinValveOpen"
proof -
  let ?e = second_env
  let ?x = "board_on (app_new ?e sample_config)"
  let ?cs = "[Calls (ACommand (WaterControl True))] :: fake_nvs task_call list"
  let ?p = "on_app (task_prog ?e ?cs)" and ?t = "tick_passes ?e 1"
  let ?y = "fst (run_alone ?p ?x)"
  have "no_repeats ?p"
    by (intro ranked_on_app) (auto intro!: no_repeats_bind ranked_distinct)
  then have "pool_step\<^sup>*\<^sup>* (esp_pool ?e 1 [?cs], ?x) ([(0, ?t), (0, Ret ())], ?y)"
    using solo [of 1 "[(0, ?t), (0, ?p)]" ?p ?x] by (simp add: esp_pool_def less_Suc_eq)
  also have "pool_step\<^sup>*\<^sup>* ([(0, ?t), (0, Ret ())], ?y) ([(0, Ret ()), (0, Ret ())], fst (run_alone ?t ?y))"
    using solo [of 0 "[(0, ?t), (0, Ret ())]" ?t ?y] no_repeats_passes [of ?e 1] by (simp add: less_Suc_eq)
  finally have r: "pool_step\<^sup>*\<^sup>* (esp_pool ?e 1 [?cs], ?x) ([(0, Ret ()), (0, Ret ())], opened_board)"
    by (simp add: opened_board_def Let_def)
  let ?a = "app_new ?e sample_config"
  let ?b = "fst (switch_command ?e ?a (WaterControl True))"
  have v: "ap_valve ?a = valve_with_timing default_valve_timing" "ap_reads ?a = 0"
    by (simp_all add: app_new_def boot_valve stored_valve_state_def sample_config_def default_switches_config_def
        valve_with_timing_def) (simp add: app_with_nvs_def Let_def)
  then have "wv_phase (ap_valve ?b) = PTurningOn 0" "wv_timing (ap_valve ?b) = default_valve_timing" "ap_reads ?b = 1"
    by (simp_all add: switch_command_def valve_with_timing_def valve_is_busy_def valve_turn_on_def second_reads)
  then have "open_motor (to_valve (snd (app_tick ?e ?b)))"
    by (simp add: app_tick_outputs valve_tick_def second_reads Let_def word_le_nat_alt word_less_nat_alt
        unat_sat_sub default_valve_timing_def)
  then have "bd_pins opened_board PinValveOpen"
    by (simp add: opened_board_def board_on_def tick_pass_def pin_prog_def set_pin_def Let_def split_beta)
  with esp_threads_safe [OF r] show ?thesis
    by simp
qed

end
