(* ===== verification/App_Spec.thy ===== *)
theory App_Spec
  imports App
begin

text \<open>
  What the application of \<open>app.rs\<close> promises, without its clocks, counters and stores: an abstract device
  of five fields and one step per call, and the proof that every run of the model from boot is a run of the
  abstract device. A tick may only switch a sprinkler off; it moves the water valve as the four-state
  machine of theory Water_Valve does; it raises the alarm only when no sprinkler runs (or the configured
  duration is zero) and starts closing an open valve while the alarm is active. Commands, schedule
  activations, clears and configuration changes act on their own field alone.
\<close>

section \<open>Simulation\<close>

fun path :: "('a \<Rightarrow> 'e \<Rightarrow> 'a \<Rightarrow> bool) \<Rightarrow> 'a \<Rightarrow> 'e list \<Rightarrow> 'a \<Rightarrow> bool" where
  "path st x [] y \<longleftrightarrow> x = y"
| "path st x (e # es) y \<longleftrightarrow> (\<exists>z. st x e z \<and> path st z es y)"

lemma path_keeps:
  assumes "path st x es y" "P x" "\<And>x e y. P x \<Longrightarrow> e \<in> set es \<Longrightarrow> st x e y \<Longrightarrow> P y"
  shows "P y"
  using assms by (induction es arbitrary: x) (simp, metis list.set_intros path.simps(2))

locale simulation =
  fixes cstep :: "'s \<Rightarrow> 'e \<Rightarrow> 's"
    and abst :: "'s \<Rightarrow> 'a"
    and astep :: "'a \<Rightarrow> 'e \<Rightarrow> 'a \<Rightarrow> bool"
    and cinv :: "'s \<Rightarrow> bool"
  assumes cinv_step: "cinv s \<Longrightarrow> cinv (cstep s e)"
    and sim_step: "cinv s \<Longrightarrow> astep (abst s) e (abst (cstep s e))"
begin

lemma sim_run: "cinv s \<Longrightarrow> path astep (abst s) es (abst (foldl cstep s es))"
proof (induction es arbitrary: s)
  case (Cons e es)
  then show ?case
    using Cons.IH [OF cinv_step [OF Cons.prems]] sim_step [OF Cons.prems, of e] by auto
qed simp

lemma transfer:
  assumes "cinv s" "P (abst s)" "\<And>x e y. P x \<Longrightarrow> e \<in> set es \<Longrightarrow> astep x e y \<Longrightarrow> P y"
  shows "P (abst (foldl cstep s es))"
  by (rule path_keeps [OF sim_run [OF assms(1)]]) (use assms in auto)

end

text \<open>The valve alone is an instance: every call is a step of the four-state machine.\<close>

interpretation valve_sim: simulation "\<lambda>v (n, e). valve_apply v (n, e)" valve_state
  "\<lambda>s (n, e) s'. water_step s e s'" valve_ok
  by unfold_locales (auto intro: valve_ok_apply valve_apply_water_step)

section \<open>The abstract device\<close>

record device_spec =
  dv_sprinkler_1 :: bool
  dv_sprinkler_2 :: bool
  dv_water :: water_state
  dv_alarm :: bool
  dv_rule :: flow_alarm_config

inductive device_step :: "device_spec \<Rightarrow> app_op \<Rightarrow> device_spec \<Rightarrow> bool" where
  tick: "\<lbrakk> s1' \<longrightarrow> dv_sprinkler_1 d; s2' \<longrightarrow> dv_sprinkler_2 d; water_step (dv_water d) VTick w;
     al' \<longrightarrow> al_enabled (dv_rule d); al_enabled (dv_rule d) \<and> dv_alarm d \<longrightarrow> al';
     al' \<and> \<not> dv_alarm d \<longrightarrow> \<not> s1' \<and> \<not> s2' \<or> al_duration_secs (dv_rule d) = 0 \<rbrakk> \<Longrightarrow>
   device_step d ATick (d\<lparr>dv_sprinkler_1 := s1', dv_sprinkler_2 := s2', dv_alarm := al',
     dv_water := (if al' \<and> w = On then TurningOff else w)\<rparr>)"
| sprinkler_1: "device_step d (ACommand (Sprinkler1 on)) (d\<lparr>dv_sprinkler_1 := on\<rparr>)"
| sprinkler_2: "device_step d (ACommand (Sprinkler2 on)) (d\<lparr>dv_sprinkler_2 := on\<rparr>)"
| water: "water_step (dv_water d) (if on then VTurnOn else VTurnOff) w \<Longrightarrow>
   device_step d (ACommand (WaterControl on)) (d\<lparr>dv_water := w\<rparr>)"
| fire: "device_step d (AFire sid secs) (d\<lparr>dv_sprinkler_1 := dv_sprinkler_1 d \<or> sid = ''sprinkler_1'',
     dv_sprinkler_2 := dv_sprinkler_2 d \<or> sid = ''sprinkler_2''\<rparr>)"
| replace: "device_step d (AReplace c name) (d\<lparr>dv_rule := cf_flow_alarm c\<rparr>)"
| clear: "device_step d AClear (d\<lparr>dv_alarm := False\<rparr>)"
| emit: "device_step d (AEmit ev) d"
| update: "device_step d (AUpdate se ne di up) d"

inductive_simps device_step_simps [step_simps]:
  "device_step d ATick d'" "device_step d (ACommand (Sprinkler1 on)) d'"
  "device_step d (ACommand (Sprinkler2 on)) d'" "device_step d (ACommand (WaterControl on)) d'"
  "device_step d (AFire sid secs) d'" "device_step d (AReplace c name) d'" "device_step d AClear d'"
  "device_step d (AEmit ev) d'" "device_step d (AUpdate se ne di up) d'"

definition device_of :: "('s, 'd) app \<Rightarrow> device_spec" where
  "device_of a = \<lparr>dv_sprinkler_1 = sw_on (ap_sprinkler1 a), dv_sprinkler_2 = sw_on (ap_sprinkler2 a),
     dv_water = valve_state (ap_valve a), dv_alarm = fa_active (sn_alarm (app_snapshot a)),
     dv_rule = cf_flow_alarm (ap_config a)\<rparr>"

section \<open>The refinement\<close>

lemma switch_tick_on: "sw_on (fst (switch_tick sw n)) \<Longrightarrow> sw_on sw"
  by (auto simp: switch_tick_def switch_turn_off_def split: option.splits if_splits)

lemma valve_tick_step: "valve_ok v \<Longrightarrow> water_step (valve_state v) VTick (valve_state (fst (valve_tick v n)))"
  using valve_apply_water_step [of v VTick n] by simp

lemma valve_state_closing:
  "valve_state (ap_valve (fst (switch_command env a (WaterControl False)))) =
     (if valve_state (ap_valve a) = On then TurningOff else valve_state (ap_valve a))"
  by (auto simp: switch_command_def Let_def valve_is_busy_def valve_state_def valve_turn_off_def
      split: phase.splits)

text \<open>The valve after the alarm of a tick has been evaluated.\<close>

lemma evaluate_water:
  assumes "st_water_control (sn_switches (app_snapshot a)) = water_control_of (valve_state (ap_valve a))"
  shows "valve_state (ap_valve (evaluate_flow_alarm env a now)) =
    (if fa_active (sn_alarm (app_snapshot (evaluate_flow_alarm env a now))) \<and> valve_state (ap_valve a) = On
     then TurningOff else valve_state (ap_valve a))"
  using assms unfolding evaluate_flow_alarm_def Let_def
  by (auto simp: valve_state_closing water_control_of_On)

lemma tick_water:
  "valve_state (ap_valve (fst (app_tick env a))) =
    (let w = valve_state (fst (valve_tick (ap_valve a) (env_mono env (ap_reads a)))) in
     if fa_active (sn_alarm (app_snapshot (fst (app_tick env a)))) \<and> w = On then TurningOff else w)"
  using evaluate_water [of "tick_timers env a" env "env_mono env (ap_reads a)"]
  by (simp add: app_tick_split Let_def)

lemma alarm_rule_raised:
  "fa_active (alarm_rule al sp ab d fa) \<Longrightarrow> \<not> fa_active fa \<Longrightarrow> \<not> sp \<or> al_duration_secs al = 0"
  by (auto simp: alarm_rule_def Let_def split: if_splits)

lemma alarm_rule_disabled: "fa_active (alarm_rule al sp ab d fa) \<Longrightarrow> al_enabled al"
  by (auto simp: alarm_rule_def split: if_splits)

lemma device_tick:
  assumes "app_consistent a"
  shows "device_step (device_of a) ATick (device_of (fst (app_tick env a)))"
proof -
  let ?b = "fst (app_tick env a)" and ?n = "env_mono env (ap_reads a)"
  let ?w = "valve_state (fst (valve_tick (ap_valve a) ?n))"
  have "device_of ?b = (device_of a)\<lparr>dv_sprinkler_1 := sw_on (ap_sprinkler1 ?b),
      dv_sprinkler_2 := sw_on (ap_sprinkler2 ?b), dv_alarm := fa_active (sn_alarm (app_snapshot ?b)),
      dv_water := (if fa_active (sn_alarm (app_snapshot ?b)) \<and> ?w = On then TurningOff else ?w)\<rparr>"
    by (simp add: device_of_def tick_water Let_def)
  moreover have "device_step (device_of a) ATick \<dots>"
  proof (rule device_step.tick)
    show "sw_on (ap_sprinkler1 ?b) \<longrightarrow> dv_sprinkler_1 (device_of a)"
      "sw_on (ap_sprinkler2 ?b) \<longrightarrow> dv_sprinkler_2 (device_of a)"
      by (auto simp: device_of_def dest: switch_tick_on)
    show "water_step (dv_water (device_of a)) VTick ?w"
      using assms by (simp add: device_of_def app_consistent_def valve_tick_step)
    show "fa_active (sn_alarm (app_snapshot ?b)) \<longrightarrow> al_enabled (dv_rule (device_of a))"
      by (auto simp: device_of_def app_tick_alarm_rule dest: alarm_rule_disabled)
    show "al_enabled (dv_rule (device_of a)) \<and> dv_alarm (device_of a) \<longrightarrow> fa_active (sn_alarm (app_snapshot ?b))"
      by (simp add: device_of_def app_tick_alarm_rule alarm_rule_latched)
    show "fa_active (sn_alarm (app_snapshot ?b)) \<and> \<not> dv_alarm (device_of a) \<longrightarrow>
        \<not> sw_on (ap_sprinkler1 ?b) \<and> \<not> sw_on (ap_sprinkler2 ?b) \<or> al_duration_secs (dv_rule (device_of a)) = 0"
      unfolding device_of_def app_tick_alarm_rule by (auto dest: alarm_rule_raised)
  qed
  ultimately show ?thesis by simp
qed

lemma busy_step:
  "valve_is_busy v \<Longrightarrow> water_step (valve_state v) (if on then VTurnOn else VTurnOff) (valve_state v)"
  by (cases "wv_phase v") (simp_all add: valve_is_busy_def valve_state_def water_step_simps)

lemma device_water_command:
  assumes "app_consistent a"
  shows "device_step (device_of a) (ACommand (WaterControl on)) (device_of (fst (switch_command env a (WaterControl on))))"
proof -
  have "device_of (fst (switch_command env a (WaterControl on))) =
      (device_of a)\<lparr>dv_water := valve_state (ap_valve (fst (switch_command env a (WaterControl on))))\<rparr>"
    by (simp add: device_of_def)
  moreover have "water_step (valve_state (ap_valve a)) (if on then VTurnOn else VTurnOff)
      (valve_state (ap_valve (fst (switch_command env a (WaterControl on)))))"
  proof (cases "valve_is_busy (ap_valve a)")
    case True
    then show ?thesis by (simp add: switch_command_def Let_def busy_step)
  next
    case False
    have "valve_ok (ap_valve a)" using assms by (simp add: app_consistent_def)
    from valve_apply_water_step [OF this, of "if on then VTurnOn else VTurnOff" "env_mono env (ap_reads a)"]
    show ?thesis using False by (cases on) (simp_all add: switch_command_def Let_def)
  qed
  ultimately show ?thesis
    using device_step.water [of "device_of a" on] by (simp add: device_of_def)
qed

lemma device_apply:
  assumes "app_consistent a"
  shows "device_step (device_of a) e (device_of (app_apply env a e))"
proof (cases e)
  case (ACommand c)
  show ?thesis
  proof (cases c)
    case (WaterControl on)
    with ACommand show ?thesis using device_water_command [OF assms] by simp
  qed (use ACommand in \<open>auto simp: device_step_simps device_of_def switch_command_def switch_defs app_snapshot_def\<close>)
next
  case (AFire i d)
  then show ?thesis
    by (auto simp: device_step_simps device_of_def fire_schedule_sprinkler_def schedule_turn_on_def
        switch_defs app_snapshot_def Let_def split: option.split)
next
  case (AReplace c n)
  then show ?thesis
    by (simp add: device_step_simps device_of_def)
       (simp add: replace_config_section_def Let_def switch_set_auto_off_def valve_state_def valve_set_timing_def)
next
  case ATick
  then show ?thesis using device_tick [OF assms] by simp
next
  case AClear
  have "device_of (clear_flow_alarm env a) = (device_of a)\<lparr>dv_alarm := False\<rparr>"
    by (simp add: device_of_def)
  with AClear show ?thesis by (simp add: device_step.clear)
next
  case (AEmit ev)
  have "device_of (emit_event env a ev) = device_of a"
    by (simp add: device_of_def)
  with AEmit show ?thesis by (simp add: device_step.emit)
next
  case (AUpdate se ne di up)
  have "device_of (app_update_state a (app_write se ne di up)) = device_of a"
    by (simp add: device_of_def)
  with AUpdate show ?thesis by (simp add: device_step.update)
qed

interpretation app_sim: simulation "app_apply env" device_of device_step app_consistent
  for env :: "('s, 't, 'd) env"
  by unfold_locales (auto intro: consistent_apply device_apply)

lemma device_run:
  "path device_step
     \<lparr>dv_sprinkler_1 = False, dv_sprinkler_2 = False,
      dv_water = (if stored_valve_state env nvs = Some True then On else Off),
      dv_alarm = False, dv_rule = cf_flow_alarm cfg\<rparr>
     es (device_of (foldl (app_apply env) (app_with_nvs env cfg nvs) es))"
proof -
  have boot: "device_of (app_with_nvs env cfg nvs) = \<lparr>dv_sprinkler_1 = False, dv_sprinkler_2 = False,
      dv_water = (if stored_valve_state env nvs = Some True then On else Off),
      dv_alarm = False, dv_rule = cf_flow_alarm cfg\<rparr>"
    by (auto simp: device_of_def app_with_nvs_def Let_def switch_new_def valve_with_timing_def valve_restore_def
        valve_state_def app_snapshot_def state_snapshot_def device_state_new_def default_snapshot_def
        default_flow_alarm_def split: option.split)
  show ?thesis
    by (subst boot [symmetric]) (rule app_sim.sim_run [OF consistent_boot])
qed

text \<open>What a tick drives, in terms of the device it leaves: the sprinkler relays follow the device, and of the
  three valve outputs at most the one that belongs to its water state is on.\<close>

fun drives :: "water_state \<Rightarrow> valve_outputs set" where
  "drives Off = {default_valve_outputs, default_valve_outputs\<lparr>drain := True\<rparr>}"
| "drives On = {default_valve_outputs}"
| "drives TurningOn = {default_valve_outputs, default_valve_outputs\<lparr>open_motor := True\<rparr>}"
| "drives TurningOff = {default_valve_outputs, default_valve_outputs\<lparr>close_motor := True\<rparr>}"

lemma valve_tick_drives: "snd (valve_tick v n) \<in> drives (valve_state (fst (valve_tick v n)))"
  by (cases "wv_phase v") (auto simp: valve_tick_def valve_state_def Let_def)

theorem tick_drives_device:
  "let (b, out) = app_tick env a in
     to_sprinkler_1 out = dv_sprinkler_1 (device_of b) \<and> to_sprinkler_2 out = dv_sprinkler_2 (device_of b) \<and>
     to_valve out \<in> drives (dv_water (device_of b))"
proof -
  have "to_valve (snd (app_tick env a)) \<in> drives (valve_state (ap_valve (fst (app_tick env a))))"
    using valve_tick_drives [of "ap_valve a" "env_mono env (ap_reads a)"]
    by (auto simp: tick_water Let_def app_tick_outputs)
  then show ?thesis
    by (simp add: case_prod_beta device_of_def app_tick_outputs)
qed

text \<open>C3. The application refines the abstract device. Every run from boot, with any configuration, store,
  clocks and dispatcher and any sequence of ticks, commands, schedule activations, configuration changes,
  clears, events and sensor updates, is a run of the device that starts with both sprinklers off, the water
  settled and no alarm.\<close>

theorem app_refines_device:
  "path device_step
     \<lparr>dv_sprinkler_1 = False, dv_sprinkler_2 = False,
      dv_water = (if stored_valve_state env nvs = Some True then On else Off),
      dv_alarm = False, dv_rule = cf_flow_alarm cfg\<rparr>
     es (device_of (foldl (app_apply env) (app_with_nvs env cfg nvs) es))"
  by (rule device_run)

text \<open>What the device guarantees, carried over. The water never starts on its own: from a boot with the
  valve closed, a run without a command to open it leaves the valve closed.\<close>

definition opens_water :: "app_op \<Rightarrow> bool" where
  "opens_water e \<longleftrightarrow> e = ACommand (WaterControl True)"

theorem water_needs_command:
  assumes "stored_valve_state env nvs \<noteq> Some True" "list_all (\<lambda>e. \<not> opens_water e) es"
  shows "valve_state (ap_valve (foldl (app_apply env) (app_with_nvs env cfg nvs) es)) = Off"
proof -
  have "dv_water (device_of (foldl (app_apply env) (app_with_nvs env cfg nvs) es)) = Off"
  proof (rule path_keeps [OF device_run])
    fix x e y assume "dv_water x = Off" "e \<in> set es" "device_step x e y"
    moreover from this(2) assms(2) have "\<not> opens_water e" by (auto simp: list_all_iff)
    ultimately show "dv_water y = Off"
      by (auto simp: opens_water_def water_step_simps elim!: device_step.cases split: if_splits)
  qed (use assms in simp)
  then show ?thesis by (simp add: device_of_def)
qed

lemma water_needs_command_witness:
  "valve_state (ap_valve (foldl (app_apply (sample_env (\<lambda>n. of_nat (1000 * n))))
     (app_with_nvs (sample_env (\<lambda>n. of_nat (1000 * n))) sample_config None)
     [ATick, ACommand (Sprinkler1 True), ACommand (WaterControl False), ATick])) = Off"
  by (rule water_needs_command) (simp_all add: stored_valve_state_def opens_water_def)

end
