(* ===== verification/Sensor_Units.thy ===== *)
theory Sensor_Units
  imports Sensors
begin

text \<open>
  The units of the default sensor settings (\<open>core/config.rs\<close>, \<open>SensorsConfig::default\<close>), with the relative
  error of the \<open>f32\<close> operations. The default pressure calibration is in volts, the unit of the ESPHome
  configuration it is taken from, but both sensor tasks apply it to the counts of the converter
  (\<open>Adc::read_raw\<close>). The default flow factor is litres per hour for a pulse per minute, but both tasks multiply
  it with pulses per second.
\<close>

section \<open>Relative error of the operations\<close>

lemma pow2_powi: "pow2 e = 2 powi e"
  by (simp add: pow2_def power_int_def power_inverse field_simps)

lemma pow2_diff: "pow2 (a - int n) = pow2 a / 2 ^ n"
  by (simp add: pow2_powi power_int_diff)

lemma pow2_mono: "a \<le> b \<Longrightarrow> pow2 a \<le> pow2 b"
  by (simp add: pow2_powi power_int_increasing)

lemma binade_bounds:
  assumes "0 < q"
  shows "pow2 (binade q) \<le> q" "q < pow2 (binade q + 1)"
proof -
  obtain n d where nd: "quotient_of q = (n, d)" by (cases "quotient_of q")
  then have d: "0 < d" and q: "q = of_int n / of_int d"
    using quotient_of_denom_pos quotient_of_div by blast+
  with assms have n: "0 < n" by (simp add: zero_less_divide_iff)
  obtain bn bd where len: "bitlen n = int bn" "bitlen d = int bd"
    using bitlen_nonneg nonneg_int_cases by metis
  have pos: "1 \<le> bn" "1 \<le> bd"
    using n d bitlen_eq_zero_iff [of n] bitlen_eq_zero_iff [of d] len by linarith+
  then have "nat (int bn - 1) = bn - 1" "nat (int bd - 1) = bd - 1" by simp_all
  then have "2 ^ (bn - 1) \<le> n" "n < 2 ^ bn" "2 ^ (bd - 1) \<le> d" "d < 2 ^ bd"
    using bitlen_bounds [OF n] bitlen_bounds [OF d] by (simp_all add: len)
  then have N: "(2 :: rat) ^ (bn - 1) \<le> of_int n" "(of_int n :: rat) < 2 ^ bn"
    and D: "(2 :: rat) ^ (bd - 1) \<le> of_int d" "(of_int d :: rat) < 2 ^ bd"
    by (metis of_int_le_iff of_int_less_iff of_int_power of_int_numeral)+
  let ?e = "bitlen n - bitlen d"
  have e: "pow2 ?e = 2 ^ bn / 2 ^ bd"
    by (simp add: pow2_powi power_int_diff len)
  have lo: "pow2 (?e - 1) \<le> q"
  proof -
    have "pow2 (?e - 1) = 2 ^ (bn - 1) / 2 ^ bd"
      using pow2_diff [of ?e 1] e pos(1) by (simp add: power_diff)
    also have "\<dots> \<le> of_int n / of_int d"
      using N D d n by (intro frac_le) simp_all
    finally show ?thesis using q by simp
  qed
  have hi: "q < pow2 (?e + 1)"
  proof -
    have "q < 2 ^ bn / 2 ^ (bd - 1)"
      unfolding q using N D d n by (intro frac_less) simp_all
    also have "\<dots> = pow2 (?e + 1)"
      using pow2_diff [of "?e + 1" 1] e pos(2) by (simp add: power_diff)
    finally show ?thesis .
  qed
  show "pow2 (binade q) \<le> q" "q < pow2 (binade q + 1)"
    using lo hi by (auto simp: binade_def nd Let_def not_le)
qed

lemma round_mag_near:
  assumes "1 / 1000000 \<le> q"
  shows "\<bar>round_mag q - q\<bar> \<le> q / 1000000"
proof -
  have b: "pow2 (binade q) \<le> q" "q < pow2 (binade q + 1)"
    using assms by (intro binade_bounds; simp)+
  have "- 126 \<le> binade q"
  proof (rule ccontr)
    assume "\<not> - 126 \<le> binade q"
    then have "pow2 (binade q + 1) \<le> pow2 (- 126)" by (intro pow2_mono) simp
    also have "\<dots> < 1 / 1000000" by (simp add: pow2_def)
    finally show False using b(2) assms by simp
  qed
  then have "pow2 (f32_ulp_exp q) = pow2 (binade q) / 2 ^ 23"
    using pow2_diff [of "binade q" 23] by (simp add: f32_ulp_exp_def)
  with round_mag_error [of q] b assms show ?thesis by (simp add: abs_le_iff)
qed

text \<open>A positive finite number between two bounds, and the operations on such numbers.\<close>

definition spans :: "f32 \<Rightarrow> rat \<Rightarrow> rat \<Rightarrow> bool" where
  "spans x l u \<longleftrightarrow> (\<exists>q. x = Fin False q \<and> l \<le> q \<and> q \<le> u)"

lemma spans_mono: "spans x l u \<Longrightarrow> l' \<le> l \<Longrightarrow> u \<le> u' \<Longrightarrow> spans x l' u'"
  by (auto simp: spans_def)

lemma spans_make:
  assumes "l \<le> q" "q \<le> u" "1 / 1000000 \<le> l" "u \<le> 1000000000000"
  shows "spans (f32_make False q) (l * (999999 / 1000000)) (u * (1000001 / 1000000))"
proof -
  have r: "\<bar>round_mag q - q\<bar> \<le> q / 1000000"
    using assms by (intro round_mag_near) simp
  then have "round_mag q \<le> u * (1000001 / 1000000)" "l * (999999 / 1000000) \<le> round_mag q"
    using assms(1,2) abs_le_D1 [OF r] abs_le_D2 [OF r] by linarith+
  moreover have "u * (1000001 / 1000000) < pow2 128"
    using assms(4) by (simp add: pow2_def field_simps)
  ultimately show ?thesis
    by (simp add: spans_def f32_make_def Let_def)
qed

text \<open>The four operations on positive numbers, the difference where it is positive.\<close>

lemma spans_rat:
  assumes "1 / 1000000 \<le> q" "q \<le> 1000000000000"
  shows "spans (f32_of_rat q) (q * (999999 / 1000000)) (q * (1000001 / 1000000))"
  using spans_make [of q q q] assms by (simp add: f32_of_rat_def)

lemma spans_add:
  assumes "spans x l u" "spans y l' u'" "0 \<le> l" "0 \<le> l'" "1 / 1000000 \<le> l + l'" "u + u' \<le> 1000000000000"
  shows "spans (f32_add x y) ((l + l') * (999999 / 1000000)) ((u + u') * (1000001 / 1000000))"
proof -
  obtain p q where x: "x = Fin False p" "l \<le> p" "p \<le> u" and y: "y = Fin False q" "l' \<le> q" "q \<le> u'"
    using assms(1,2) by (auto simp: spans_def)
  with assms(3-5) have "\<not> (p = 0 \<and> q = 0)" "\<not> p + q < 0" by linarith+
  with x y spans_make [of "l + l'" "p + q" "u + u'"] assms(5,6) show ?thesis
    by (auto simp: f32_of_rat_def)
qed

lemma spans_sub:
  assumes "spans x l u" "1 / 1000000 \<le> l - c" "u \<le> 1000000000000" "0 \<le> c"
  shows "spans (f32_sub x (Fin False c)) ((l - c) * (999999 / 1000000)) ((u - c) * (1000001 / 1000000))"
proof -
  obtain p where x: "x = Fin False p" "l \<le> p" "p \<le> u"
    using assms(1) by (auto simp: spans_def)
  with assms(2,4) have "\<not> (p = 0 \<and> c = 0)" "\<not> p - c < 0" by linarith+
  with x spans_make [of "l - c" "p - c" "u - c"] assms(2-4) show ?thesis
    by (auto simp: f32_sub_def f32_of_rat_def)
qed

lemma spans_mul:
  assumes "spans x l u" "spans y l' u'" "0 \<le> l" "0 \<le> l'" "1 / 1000000 \<le> l * l'" "u * u' \<le> 1000000000000"
  shows "spans (f32_mul x y) (l * l' * (999999 / 1000000)) (u * u' * (1000001 / 1000000))"
proof -
  obtain p q where x: "x = Fin False p" "l \<le> p" "p \<le> u" and y: "y = Fin False q" "l' \<le> q" "q \<le> u'"
    using assms(1,2) by (auto simp: spans_def)
  with assms(3,4) have "l * l' \<le> p * q" "p * q \<le> u * u'" by (simp_all add: mult_mono)
  with x y spans_make [of "l * l'" "p * q" "u * u'"] assms(5,6) show ?thesis by simp
qed

lemma spans_div:
  assumes "spans x l u" "spans y l' u'" "0 \<le> l" "0 < l'" "1 / 1000000 \<le> l / u'" "u / l' \<le> 1000000000000"
  shows "spans (f32_div x y) (l / u' * (999999 / 1000000)) (u / l' * (1000001 / 1000000))"
proof -
  obtain p q where x: "x = Fin False p" "l \<le> p" "p \<le> u" and y: "y = Fin False q" "l' \<le> q" "q \<le> u'"
    using assms(1,2) by (auto simp: spans_def)
  with assms(3,4) have "l / u' \<le> p / q" "p / q \<le> u / l'" "q \<noteq> 0" by (auto intro!: frac_le)
  with x y spans_make [of "l / u'" "p / q" "u / l'"] assms(5,6) show ?thesis by simp
qed

lemma spans_exact: "spans (Fin False c) c c"
  by (simp add: spans_def)

section \<open>The default settings\<close>

definition pressure_1 :: calibration where
  "pressure_1 = \<lparr>cal_points = [(Fin False (3103785 / 8388608), Fin False (9059697 / 16777216)),
      (Fin False (2747269 / 1048576), Fin False (8346665 / 2097152))]\<rparr>"

definition pressure_2 :: calibration where
  "pressure_2 = \<lparr>cal_points = [(Fin False (9059697 / 16777216), Fin False 0),
      (Fin False (9 / 2), Fin False (1355565 / 131072))]\<rparr>"

lemma default_settings:
  assumes "default_sensors_config = Some sc"
  shows "sc_pressure_stage1 sc = pressure_1" "sc_pressure_stage2 sc = pressure_2"
    "sc_flow_l_per_pulse sc = Fin False (16631045 / 8589934592)"
    "sc_flow_lph_per_pps sc = Fin False (2265045 / 16777216)"
proof -
  have "map_option (\<lambda>sc. (sc_pressure_stage1 sc, sc_pressure_stage2 sc, sc_flow_l_per_pulse sc, sc_flow_lph_per_pps sc))
      default_sensors_config = Some (pressure_1, pressure_2, Fin False (16631045 / 8589934592), Fin False (2265045 / 16777216))"
    by code_simp
  then show "sc_pressure_stage1 sc = pressure_1" "sc_pressure_stage2 sc = pressure_2"
    "sc_flow_l_per_pulse sc = Fin False (16631045 / 8589934592)"
    "sc_flow_lph_per_pps sc = Fin False (2265045 / 16777216)"
    unfolding assms by simp_all
qed

section \<open>Pressure\<close>

lemma cal_apply_two: "cal_apply \<lparr>cal_points = [p, q]\<rparr> x = Some (interp p q x)"
  by (simp add: cal_apply_def windows2_def Let_def)

text \<open>The stages on readings of three counts or more, per count.\<close>

lemma stage_1:
  assumes "spans x (k * (99 / 100)) (k * (101 / 100))" "3 \<le> k" "k \<le> 65535"
  shows "\<exists>y. cal_apply pressure_1 x = Some y \<and> spans y (k * (130 / 100)) (k * (178 / 100))"
proof -
  have cst: "f32_sub (Fin False (2747269 / 1048576)) (Fin False (3103785 / 8388608)) = Fin False (9 / 4)"
    "f32_sub (Fin False (8346665 / 2097152)) (Fin False (9059697 / 16777216)) = Fin False (7214203 / 2097152)"
    by code_simp+
  have "spans (f32_sub x (Fin False (3103785 / 8388608))) (k * (86 / 100)) (k * (102 / 100))"
    by (rule spans_mono [OF spans_sub [OF assms(1)]]) (use assms(2,3) in simp_all)
  note t = spans_div [OF this spans_exact [of "9 / 4"]]
  have t: "spans (f32_div (f32_sub x (Fin False (3103785 / 8388608))) (Fin False (9 / 4))) (k * (38 / 100)) (k * (46 / 100))"
    by (rule spans_mono [OF t]) (use assms(2,3) in simp_all)
  note m = spans_mul [OF t spans_exact [of "7214203 / 2097152"]]
  have m: "spans (f32_mul (f32_div (f32_sub x (Fin False (3103785 / 8388608))) (Fin False (9 / 4))) (Fin False (7214203 / 2097152)))
      (k * (130 / 100)) (k * (159 / 100))"
    by (rule spans_mono [OF m]) (use assms(2,3) in simp_all)
  have "spans (interp (Fin False (3103785 / 8388608), Fin False (9059697 / 16777216))
      (Fin False (2747269 / 1048576), Fin False (8346665 / 2097152)) x) (k * (130 / 100)) (k * (178 / 100))"
    unfolding interp_def Let_def fst_conv snd_conv cst
    by (rule spans_mono [OF spans_add [OF spans_exact m]]) (use assms(2,3) in simp_all)
  then show ?thesis
    by (simp add: pressure_1_def cal_apply_two)
qed

lemma stage_2:
  assumes "spans x (k * (130 / 100)) (k * (178 / 100))" "3 \<le> k" "k \<le> 65535"
  shows "\<exists>y. cal_apply pressure_2 x = Some y \<and> spans y (k * (28 / 10)) (k * (48 / 10))"
proof -
  have cst: "f32_sub (Fin False (9 / 2)) (Fin False (9059697 / 16777216)) = Fin False (4152361 / 1048576)"
    "f32_sub (Fin False (1355565 / 131072)) (Fin False 0) = Fin False (1355565 / 131072)"
    by code_simp+
  have "spans (f32_sub x (Fin False (9059697 / 16777216))) (k * (111 / 100)) (k * (179 / 100))"
    by (rule spans_mono [OF spans_sub [OF assms(1)]]) (use assms(2,3) in simp_all)
  note t = spans_div [OF this spans_exact [of "4152361 / 1048576"]]
  have t: "spans (f32_div (f32_sub x (Fin False (9059697 / 16777216))) (Fin False (4152361 / 1048576))) (k * (279 / 1000)) (k * (453 / 1000))"
    by (rule spans_mono [OF t]) (use assms(2,3) in simp_all)
  note m = spans_mul [OF t spans_exact [of "1355565 / 131072"]]
  have m: "spans (f32_mul (f32_div (f32_sub x (Fin False (9059697 / 16777216))) (Fin False (4152361 / 1048576))) (Fin False (1355565 / 131072)))
      (k * (281 / 100)) (k * (47 / 10))"
    by (rule spans_mono [OF m]) (use assms(2,3) in simp_all)
  have "spans (interp (Fin False (9059697 / 16777216), Fin False 0) (Fin False (9 / 2), Fin False (1355565 / 131072)) x)
      (k * (28 / 10)) (k * (48 / 10))"
    unfolding interp_def Let_def fst_conv snd_conv cst
    by (rule spans_mono [OF spans_add [OF spans_exact m]]) (use assms(2,3) in simp_all)
  then show ?thesis
    by (simp add: pressure_2_def cal_apply_two)
qed

lemma spans_word:
  assumes "1 \<le> unat w" "unat w \<le> 1000000000"
  shows "spans (f32_of_word w) (of_nat (unat w) * (999999 / 1000000)) (of_nat (unat w) * (1000001 / 1000000))"
proof -
  have "(1 :: rat) \<le> of_nat (unat w)" "(of_nat (unat w) :: rat) \<le> 1000000000"
    using assms of_nat_le_iff [of 1 "unat w", where ?'a = rat] of_nat_le_iff [of "unat w" 1000000000, where ?'a = rat] by simp_all
  with spans_rat [of "of_nat (unat w)"] show ?thesis
    by (simp add: f32_of_word_def f32_of_int_def)
qed

lemma counts_as_bar:
  fixes w :: u16
  assumes "default_sensors_config = Some sc" "3 \<le> unat w"
  shows "\<exists>q. pressure_chain sc (f32_of_word w) = Some (Fin False q) \<and>
    of_nat (unat w) * (28 / 10) \<le> q \<and> q \<le> of_nat (unat w) * (48 / 10)"
proof -
  let ?k = "of_nat (unat w) :: rat"
  have "unat w < 2 ^ 16" using unsigned_less [of w] by simp
  then have k: "3 \<le> ?k" "?k \<le> 65535"
    using assms(2) of_nat_le_iff [of 3 "unat w", where ?'a = rat] of_nat_le_iff [of "unat w" 65535, where ?'a = rat] by simp_all
  have "spans (f32_of_word w) (?k * (99 / 100)) (?k * (101 / 100))"
    by (rule spans_mono [OF spans_word]) (use assms(2) \<open>unat w < 2 ^ 16\<close> k in \<open>linarith | simp\<close>)+
  from stage_1 [OF this k] obtain y where y: "cal_apply pressure_1 (f32_of_word w) = Some y"
    "spans y (?k * (130 / 100)) (?k * (178 / 100))" by auto
  from stage_2 [OF y(2) k] y(1) default_settings [OF assms(1)] show ?thesis
    by (auto simp: pressure_chain_def spans_def)
qed

text \<open>C8. With the default settings the pressure shown is 2.8 to 4.8 bar for every count of the converter, on
  both firmwares: a reading in the middle of its 12 bits shows thousands of bar. The calibration expects the
  voltage at the pin.\<close>

theorem default_pressure_reads_counts:
  assumes "default_sensors_config = Some sc" "3 \<le> unat counts"
    and "ei_pressure i = counts" "due_ms (ei_now_ms i) (es_last_pressure_ms est) 60000"
  shows "\<exists>q est'. 28 / 10 * of_nat (unat counts) \<le> q \<and> q \<le> 48 / 10 * of_nat (unat counts) \<and>
    sample_pressure sc counts (st, s) = Some (st, s\<lparr>pressure_bar := Some (Fin False q)\<rparr>) \<and>
    esp_pressure sc i (est, s) = Some (est', s\<lparr>pressure_bar := Some (Fin False q)\<rparr>)"
  using counts_as_bar [OF assms(1,2)] assms(3,4)
  by (auto simp: sample_pressure_def esp_pressure_def mult.commute)

section \<open>Flow\<close>

text \<open>A rate of pulses per second times the default factor.\<close>

lemma scaled_rate:
  assumes "spans pps (k * (99999 / 100000)) (k * (100001 / 100000))" "1 / 100000 \<le> k" "k \<le> 1000000000"
    and "default_sensors_config = Some sc"
  shows "\<exists>q. f32_mul pps (sc_flow_lph_per_pps sc) = Fin False q \<and> q * 51 \<le> 3600 * k * f32_value (sc_flow_l_per_pulse sc)"
proof -
  have "spans (f32_mul pps (Fin False (2265045 / 16777216))) (k * (13 / 100)) (k * (1351 / 10000))"
    by (rule spans_mono [OF spans_mul [OF assms(1) spans_exact]]) (use assms(2,3) in simp_all)
  then show ?thesis
    using assms(2) default_settings(3,4) [OF assms(4)] by (auto simp: spans_def)
qed

lemma word_rat_bounds:
  assumes "1 \<le> unat w" "unat w \<le> N"
  shows "(1 :: rat) \<le> of_nat (unat w)" "(of_nat (unat w) :: rat) \<le> of_nat N"
  using assms of_nat_le_iff [of 1 "unat w", where ?'a = rat] of_nat_le_iff [of "unat w" N, where ?'a = rat] by simp_all

lemma minute_rate:
  assumes "1 \<le> unat w" "unat w \<le> 1000000000"
  shows "spans (f32_div (f32_of_word w) (f32_of_int 60))
    (of_nat (unat w) / 60 * (99999 / 100000)) (of_nat (unat w) / 60 * (100001 / 100000))"
proof -
  have 60: "f32_of_int 60 = Fin False 60" by code_simp
  show ?thesis
    unfolding 60 by (rule spans_mono [OF spans_div [OF spans_word [OF assms] spans_exact]])
      (use word_rat_bounds [OF assms] in simp_all)
qed

lemma elapsed_rate:
  assumes "1 \<le> unat w" "unat w \<le> 100000000" "1 \<le> unat ms" "unat ms \<le> 100000000"
  shows "spans (f32_div (f32_of_word w) (f32_div (f32_of_word ms) (f32_of_int 1000)))
    (of_nat (unat w) * 1000 / of_nat (unat ms) * (99999 / 100000))
    (of_nat (unat w) * 1000 / of_nat (unat ms) * (100001 / 100000))"
proof -
  let ?n = "of_nat (unat w) :: rat" and ?m = "of_nat (unat ms) :: rat"
  have n: "1 \<le> ?n" "?n \<le> 100000000" and m: "1 \<le> ?m" "?m \<le> 100000000"
    using word_rat_bounds [OF assms(1,2)] word_rat_bounds [OF assms(3,4)] by simp_all
  have c: "f32_of_int 1000 = Fin False 1000" by code_simp
  have "unat ms \<le> 1000000000" "unat w \<le> 1000000000" using assms(2,4) by simp_all
  have e: "spans (f32_div (f32_of_word ms) (Fin False 1000)) (?m / 1000 * (999997 / 1000000)) (?m / 1000 * (1000003 / 1000000))"
    by (rule spans_mono [OF spans_div [OF spans_word [OF assms(3) \<open>unat ms \<le> 1000000000\<close>] spans_exact]]) (use m in simp_all)
  show ?thesis
    unfolding c
    by (rule spans_mono [OF spans_div [OF spans_word [OF assms(1) \<open>unat w \<le> 1000000000\<close>] e]])
      (use n m in \<open>simp_all add: field_simps\<close>)
qed

text \<open>C7. With the default settings the flow shown is less than a fifty-first of the flow that the litres
  counted by the same task amount to, on both firmwares: \<open>n\<close> pulses in a minute (in \<open>ms\<close> milliseconds) are
  \<open>n\<close> times the litres of a pulse in that time. The factor taken over is for pulses per minute.\<close>

theorem default_flow_too_small:
  assumes "default_sensors_config = Some sc"
    and "sat_sub (ss_pulse_total st) (ss_pulses_at_last_flow st) = n" "1 \<le> unat n" "unat n \<le> 100000000"
    and "sat_sub (ei_pulses i) (es_last_pulse_count est) = n" "sat_sub (ei_now_ms i) (es_last_flow_ms est) = ms"
    and "60000 \<le> unat ms" "unat ms \<le> 100000000"
  shows "\<exists>q r. flow_lph (snd (sample_flow sc (st, s))) = Some (Fin False q) \<and>
    q * 51 \<le> of_nat (unat n) * f32_value (sc_flow_l_per_pulse sc) * 60 \<and>
    flow_lph (snd (esp_flow sc i (est, s))) = Some (Fin False r) \<and>
    r * 51 \<le> of_nat (unat n) * f32_value (sc_flow_l_per_pulse sc) * (3600000 / of_nat (unat ms))"
proof -
  note n = word_rat_bounds [OF assms(3,4)]
  have n': "unat n \<le> 1000000000" using assms(4) by simp
  obtain q where q: "f32_mul (f32_div (f32_of_word n) (f32_of_int 60)) (sc_flow_lph_per_pps sc) = Fin False q"
    "q * 51 \<le> 3600 * (of_nat (unat n) / 60) * f32_value (sc_flow_l_per_pulse sc)"
    using scaled_rate [OF minute_rate [OF assms(3) n'] _ _ assms(1)] n by auto
  have ms: "1 \<le> unat ms" using assms(7) by simp
  note m = word_rat_bounds [OF ms assms(8)]
  have "1 / 100000 \<le> (of_nat (unat n) :: rat) * 1000 / of_nat (unat ms)"
    "(of_nat (unat n) :: rat) * 1000 / of_nat (unat ms) \<le> 1000000000"
    using n m of_nat_le_iff [of 60000 "unat ms", where ?'a = rat] assms(7) by (simp_all add: field_simps)
  then obtain r where r: "f32_mul (f32_div (f32_of_word n) (f32_div (f32_of_word ms) (f32_of_int 1000))) (sc_flow_lph_per_pps sc) = Fin False r"
    "r * 51 \<le> 3600 * (of_nat (unat n) * 1000 / of_nat (unat ms)) * f32_value (sc_flow_l_per_pulse sc)"
    using scaled_rate [OF elapsed_rate [OF assms(3,4) ms assms(8)] _ _ assms(1)] by auto
  have "due_ms (ei_now_ms i) (es_last_flow_ms est) 60000" "max ms 1 = ms"
    using assms(6,7) by (simp_all add: due_ms_def word_le_nat_alt max_def)
  with q r assms(2,5,6) show ?thesis
    by (simp add: sample_flow_def esp_flow_def Let_def mult_ac)
qed

text \<open>The leak alarm compares this flow: with the default settings a leak below 51 times the threshold, counted in
  the litres of the same task, is never above it.\<close>

lemma default_flow_not_above:
  assumes "default_sensors_config = Some sc"
    and "sat_sub (ss_pulse_total st) (ss_pulses_at_last_flow st) = n" "1 \<le> unat n" "unat n \<le> 1000000000"
    and "al_threshold_lph al = Fin False t" "of_nat (unat n) * f32_value (sc_flow_l_per_pulse sc) * 60 < t * 51"
    and "sn_sensors snap = snd (sample_flow sc (st, s))"
  shows "\<not> flow_above snap al"
proof -
  note n = word_rat_bounds [OF assms(3,4)]
  obtain q where "f32_mul (f32_div (f32_of_word n) (f32_of_int 60)) (sc_flow_lph_per_pps sc) = Fin False q"
    "q * 51 \<le> 3600 * (of_nat (unat n) / 60) * f32_value (sc_flow_l_per_pulse sc)"
    using scaled_rate [OF minute_rate [OF assms(3,4)] _ _ assms(1)] n by auto
  with assms(2,5-7) show ?thesis
    by (simp add: flow_above_def sample_flow_def Let_def)
qed

definition the_defaults :: sensors_config where
  "the_defaults = the default_sensors_config"

lemma the_defaults: "default_sensors_config = Some the_defaults"
proof -
  have "default_sensors_config \<noteq> None" by code_simp
  then show ?thesis by (simp add: the_defaults_def)
qed

lemma default_pressure_reads_counts_witness:
  "\<exists>q. 2800 \<le> q \<and> q \<le> 4800 \<and>
    sample_pressure the_defaults 1000 (sensor_start 0, default_sensors) =
      Some (sensor_start 0, default_sensors\<lparr>pressure_bar := Some (Fin False q)\<rparr>)"
  using default_pressure_reads_counts [OF the_defaults, of 1000
      "\<lparr>ei_now_ms = 60000, ei_battery = 0, ei_pressure = 1000, ei_pulses = 0\<rparr>" "esp_sensor_start 0" "sensor_start 0" default_sensors]
  by (auto simp: due_ms_def sat_sub_def esp_sensor_start_def)

lemma default_flow_too_small_witness:
  "\<exists>q. flow_lph (snd (sample_flow the_defaults ((sensor_start 0)\<lparr>ss_pulse_total := 5165\<rparr>, default_sensors))) = Some (Fin False q) \<and>
     q * 51 \<le> 5165 * f32_value (sc_flow_l_per_pulse the_defaults) * 60"
proof -
  have "sat_sub (ss_pulse_total ((sensor_start 0)\<lparr>ss_pulse_total := 5165\<rparr>)) (ss_pulses_at_last_flow ((sensor_start 0)\<lparr>ss_pulse_total := 5165\<rparr>)) = 5165"
    by (simp add: sensor_start_def sat_sub_def)
  from default_flow_too_small [OF the_defaults this, of
      "\<lparr>ei_now_ms = 60000, ei_battery = 0, ei_pressure = 0, ei_pulses = 5165\<rparr>" "esp_sensor_start 0" 60000 default_sensors]
  show ?thesis by (auto simp: sat_sub_def esp_sensor_start_def)
qed

text \<open>The placeholder of the emulated build reads 0 counts, which its comment says is about 0 bar.\<close>

lemma placeholder_pressure:
  "map_option (\<lambda>x. f32_lt x (f32_of_rat (- 147 / 100)) \<and> f32_lt (f32_of_rat (- 148 / 100)) x)
     (pressure_chain the_defaults (f32_of_word (placeholder_adc_read 0))) = Some True"
  unfolding pressure_chain_def default_settings [OF the_defaults] by code_simp

end
