(* ===== verification/Config_Writers.thy ===== *)
theory Config_Writers
  imports Device_System
begin

text \<open>
  Writers of the configuration that run at the same time: the tasks of the plain and of the TLS server and the
  thread of the console. Each write is two calls, \<open>cfg.save(nvs)\<close> and \<open>app.replace_config(cfg)\<close>, each atomic,
  with no lock over both (\<open>http_server.rs\<close>, lines 354 to 365 and 905 to 914; \<open>serial_cli.rs\<close>, lines 215 to
  219 and 465 to 471). A schedule is the list of the calls in the order they happen.
\<close>

datatype write_half = HSave config | HReplace config

fun half_apply ::
    "('s, 't, 'd, 'w, 'o, 'j) http_env \<Rightarrow> ('s, 'd, 'w, 'o) server \<Rightarrow> write_half \<Rightarrow> ('s, 'd, 'w, 'o) server" where
  "half_apply he sv (HSave cfg) = fst (server_save he cfg sv)"
| "half_apply he sv (HReplace cfg) = sv\<lparr>sv_app := replace_config (he_env he) (sv_app sv) cfg\<rparr>"

fun last_saved :: "write_half list \<Rightarrow> config option" where
  "last_saved [] = None"
| "last_saved (HSave c # hs) = (case last_saved hs of None \<Rightarrow> Some c | some \<Rightarrow> some)"
| "last_saved (HReplace c # hs) = last_saved hs"

fun last_replaced :: "write_half list \<Rightarrow> config option" where
  "last_replaced [] = None"
| "last_replaced (HReplace c # hs) = (case last_replaced hs of None \<Rightarrow> Some c | some \<Rightarrow> some)"
| "last_replaced (HSave c # hs) = last_replaced hs"

text \<open>One write alone is the common end of the handlers.\<close>

lemma whole_write:
  assumes "snd (server_save he cfg sv) = Inr u"
  shows "foldl (half_apply he) sv [HSave cfg, HReplace cfg] = fst (save_and_replace he req cfg sv)"
  using assms by (cases "server_save he cfg sv") (simp add: save_and_replace_def)

lemma last_append [simp]:
  "last_saved (hs @ [HSave c]) = Some c" "last_saved (hs @ [HReplace c]) = last_saved hs"
  "last_replaced (hs @ [HReplace c]) = Some c" "last_replaced (hs @ [HSave c]) = last_replaced hs"
  by (induction hs rule: last_saved.induct) (auto split: option.split)

lemma server_save_done:
  assumes "reliable_nvs (env_nvs (he_env he)) ok" "ap_nvs (sv_app sv) = Some s" "ok s"
    and "cc_enc (he_codec he) c = Inr bs"
  shows "\<exists>s'. server_save he c sv = (sv\<lparr>sv_app := (sv_app sv)\<lparr>ap_nvs := Some s'\<rparr>\<rparr>, Inr ()) \<and> ok s' \<and>
    nvs_get (env_nvs (he_env he)) s' NVS_KEY = Some bs"
proof -
  let ?r = "nvs_set (env_nvs (he_env he)) s NVS_KEY bs"
  have "snd ?r = Inr ()"
    using reliable_nvs.set_succeeds [OF assms(1,3)] .
  moreover have "nvs_get (env_nvs (he_env he)) (fst ?r) NVS_KEY = Some bs"
    using reliable_nvs.set_get_reliable [OF assms(1,3), of NVS_KEY bs] by simp
  moreover have "ok (fst ?r)"
    using nvs_store.set_ok [OF reliable_nvs.axioms(1) [OF assms(1)] assms(3)] .
  ultimately show ?thesis
    using assms(2,4) by (cases ?r) (auto simp: server_save_def config_save_def intro!: exI)
qed

definition savable :: "('s, 't, 'd, 'w, 'o, 'j) http_env \<Rightarrow> write_half list \<Rightarrow> bool" where
  "savable he hs \<longleftrightarrow> (\<forall>c. HSave c \<in> set hs \<longrightarrow> (\<exists>bs. cc_enc (he_codec he) c = Inr bs \<and> cc_dec (he_codec he) bs = Inr c))"

lemma halves_run:
  assumes "reliable_nvs (env_nvs (he_env he)) ok" "ap_nvs (sv_app sv) = Some s" "ok s" "savable he hs"
  shows "\<exists>s'. ap_nvs (sv_app (foldl (half_apply he) sv hs)) = Some s' \<and> ok s' \<and>
    nvs_get (env_nvs (he_env he)) s' NVS_KEY = (case last_saved hs of
       None \<Rightarrow> nvs_get (env_nvs (he_env he)) s NVS_KEY
     | Some c \<Rightarrow> (case cc_enc (he_codec he) c of Inr bs \<Rightarrow> Some bs | Inl _ \<Rightarrow> None)) \<and>
    ap_config (sv_app (foldl (half_apply he) sv hs)) = (case last_replaced hs of
       None \<Rightarrow> ap_config (sv_app sv) | Some c \<Rightarrow> c)"
  using assms(4)
proof (induction hs rule: rev_induct)
  case Nil
  then show ?case using assms(2,3) by simp
next
  case (snoc h hs)
  then have "savable he hs" by (auto simp: savable_def)
  from snoc.IH [OF this] obtain s' where ih: "ap_nvs (sv_app (foldl (half_apply he) sv hs)) = Some s'" "ok s'"
    "nvs_get (env_nvs (he_env he)) s' NVS_KEY = (case last_saved hs of
       None \<Rightarrow> nvs_get (env_nvs (he_env he)) s NVS_KEY
     | Some c \<Rightarrow> (case cc_enc (he_codec he) c of Inr bs \<Rightarrow> Some bs | Inl _ \<Rightarrow> None))"
    "ap_config (sv_app (foldl (half_apply he) sv hs)) = (case last_replaced hs of
       None \<Rightarrow> ap_config (sv_app sv) | Some c \<Rightarrow> c)"
    by auto
  show ?case
  proof (cases h)
    case (HSave c)
    with snoc.prems obtain bs where "cc_enc (he_codec he) c = Inr bs" by (auto simp: savable_def)
    with server_save_done [OF assms(1) ih(1,2) this] HSave ih(4) show ?thesis by auto
  next
    case (HReplace c)
    with ih show ?thesis by (simp add: replace_config_def)
  qed
qed

text \<open>C23. Store and running configuration of any interleaving of writes: with saves that succeed, the store
  holds the configuration saved last and the application runs with the one replaced last. So writes one after
  the other leave them equal, and two writes of which the first to save is the last to replace leave them
  different: both are answered with success, and the next boot loads another configuration.\<close>

theorem last_save_last_replace:
  assumes "reliable_nvs (env_nvs (he_env he)) ok" "ap_nvs (sv_app sv) = Some s" "ok s" "savable he hs"
    and "last_saved hs = Some c1" "last_replaced hs = Some c2"
  shows "\<exists>s'. ap_nvs (sv_app (foldl (half_apply he) sv hs)) = Some s' \<and>
    config_load (env_nvs (he_env he)) (he_codec he) dflt s' = Inr c1 \<and>
    ap_config (sv_app (foldl (half_apply he) sv hs)) = c2"
proof -
  have "\<exists>bs. cc_enc (he_codec he) c1 = Inr bs \<and> cc_dec (he_codec he) bs = Inr c1"
  proof -
    have "HSave c1 \<in> set hs"
      using assms(5) by (induction hs rule: last_saved.induct) (auto split: option.splits)
    with assms(4) show ?thesis by (auto simp: savable_def)
  qed
  then show ?thesis
    using halves_run [OF assms(1-4)] assms(5,6) by (auto simp: config_load_def)
qed

text \<open>A codec that tells two configurations apart, for the instance: the write of the first is overtaken
  between its two calls.\<close>

definition other_config :: config where
  "other_config = sample_config\<lparr>cf_timezone := ''Etc/UTC''\<rparr>"

definition two_codec :: "unit config_codec" where
  "two_codec = \<lparr>cc_enc = (\<lambda>c. Inr (if c = sample_config then [1] else [2])),
     cc_dec = (\<lambda>b. Inr (if b = [1] then sample_config else other_config))\<rparr>"

lemma configs_differ: "other_config \<noteq> sample_config"
  by (simp add: other_config_def sample_config_def default_timezone_def)

lemma last_save_last_replace_witness:
  "let he = (sample_http_env fake_nvs_ops sample_config)\<lparr>he_codec := two_codec\<rparr>;
     sv = foldl (half_apply he) (sample_server fake_nvs_ops fake_nvs_new sample_config)
       [HSave sample_config, HSave other_config, HReplace other_config, HReplace sample_config]
   in \<exists>s'. ap_nvs (sv_app sv) = Some s' \<and> ap_config (sv_app sv) = sample_config \<and>
     config_load fake_nvs_ops two_codec sample_config s' = Inr other_config \<and> other_config \<noteq> sample_config"
proof -
  let ?he = "(sample_http_env fake_nvs_ops sample_config)\<lparr>he_codec := two_codec\<rparr>"
  have "savable ?he [HSave sample_config, HSave other_config, HReplace other_config, HReplace sample_config]"
    using configs_differ by (auto simp: savable_def two_codec_def)
  from last_save_last_replace [OF _ _ _ this, of "\<lambda>_. True" "sample_server fake_nvs_ops fake_nvs_new sample_config"
      fake_nvs_new other_config sample_config sample_config]
  obtain s' where "ap_nvs (sv_app (foldl (half_apply ?he) (sample_server fake_nvs_ops fake_nvs_new sample_config)
       [HSave sample_config, HSave other_config, HReplace other_config, HReplace sample_config])) = Some s'"
    "config_load fake_nvs_ops two_codec sample_config s' = Inr other_config"
    "ap_config (sv_app (foldl (half_apply ?he) (sample_server fake_nvs_ops fake_nvs_new sample_config)
       [HSave sample_config, HSave other_config, HReplace other_config, HReplace sample_config])) = sample_config"
    using fake_reliable_nvs by (auto simp del: foldl_Cons half_apply.simps)
  then show ?thesis using configs_differ by (simp only: Let_def) blast
qed

end
