(* ===== verification/Core_Tests.thy ===== *)
theory Core_Tests
  imports Calibration Timed_Switch Schedule Webhook Config Log_Buffer HA_Discovery Captive_Net
begin

text \<open>
  The unit tests of the repository for the parts below the application object, run on the model:
  \<open>water_valve.rs\<close>, \<open>switch.rs\<close>, \<open>calibration.rs\<close>, \<open>schedule.rs\<close>, \<open>webhook.rs\<close>, \<open>config.rs\<close>,
  \<open>log_buffer.rs\<close>, \<open>ha_discovery.rs\<close> of \<open>crates/core\<close>, \<open>captive_dns.rs\<close> of the firmware and
  \<open>fakes.rs\<close> of the host. A test is the conjunction of its assertions over the states its calls
  produce, under the name the source gives it; a panic of the code under test is \<open>False\<close>. Each
  test is proved to pass, so the definitions of the model meet the expectations the authors wrote
  down. Where a test calls serde_json, the model's structure before encoding takes the place of
  the text.
\<close>

unbundle bit_operations_syntax

section \<open>The valve\<close>

primrec drive :: "water_valve \<Rightarrow> u64 list \<Rightarrow> water_valve \<times> (u64 \<times> valve_outputs) list" where
  "drive v [] = (v, [])"
| "drive v (t # ts) = (case valve_tick v t of (v', o_t) \<Rightarrow>
     (case drive v' ts of (w, os) \<Rightarrow> (w, (t, o_t) # os)))"

definition opening_outputs :: valve_outputs where
  "opening_outputs = default_valve_outputs\<lparr>open_motor := True\<rparr>"

definition closing_outputs :: valve_outputs where
  "closing_outputs = default_valve_outputs\<lparr>close_motor := True\<rparr>"

definition drain_outputs :: valve_outputs where
  "drain_outputs = default_valve_outputs\<lparr>drain := True\<rparr>"

definition ticked :: "water_valve \<Rightarrow> u64 \<Rightarrow> water_valve" where
  "ticked v t = fst (valve_tick v t)"

definition outs :: "water_valve \<Rightarrow> u64 \<Rightarrow> valve_outputs" where
  "outs v t = snd (valve_tick v t)"

definition turn_on_sequence_matches_yaml :: bool where
  "turn_on_sequence_matches_yaml =
    (let (v, trace) = drive (valve_turn_on valve_new 0) [0, 999, 1000, 14999, 15000, 15999, 16000] in
     map snd trace = [default_valve_outputs, default_valve_outputs, opening_outputs, opening_outputs,
       default_valve_outputs, default_valve_outputs, default_valve_outputs] \<and>
     wv_user_state v \<and> valve_state v = On)"

text \<open>The opened valve most tests start from.\<close>

definition opened_valve :: water_valve where
  "opened_valve = ticked (valve_turn_on valve_new 0) SEQUENCE_DURATION_MS"

definition turn_off_sequence_drives_close_then_drain :: bool where
  "turn_off_sequence_drives_close_then_drain =
    (let v0 = valve_turn_off opened_valve 20000;
         v1 = ticked v0 21500;
         v2 = ticked v1 34999;
         v3 = ticked v2 35500;
         v4 = ticked v3 36000;
         hold = drain_hold_ms default_valve_timing;
         v5 = ticked v4 (36000 + hold - 1)
     in outs v0 21500 = closing_outputs \<and> outs v1 34999 = closing_outputs \<and>
        outs v2 35500 = default_valve_outputs \<and> outs v3 36000 = drain_outputs \<and>
        \<not> wv_user_state v4 \<and>
        outs v4 (36000 + hold - 1) = drain_outputs \<and> outs v5 (36000 + hold) = default_valve_outputs)"

definition set_timing_changes_subsequent_sequences :: bool where
  "set_timing_changes_subsequent_sequences =
    (let v0 = valve_turn_on (valve_with_timing \<lparr>motor_run_secs = 2, drain_secs = 3\<rparr>) 0;
         v1 = ticked v0 1500;
         v2 = ticked v1 4000
     in outs v0 1500 = opening_outputs \<and> outs v1 4000 = default_valve_outputs \<and> valve_state v2 = On)"

definition drain_secs_zero_skips_draining_phase :: bool where
  "drain_secs_zero_skips_draining_phase =
    (let v0 = ticked (valve_turn_on (valve_with_timing \<lparr>motor_run_secs = 1, drain_secs = 0\<rparr>) 0) 3000;
         v1 = ticked (valve_turn_off v0 4000) 7000
     in valve_state v0 = On \<and> valve_state v1 = Off \<and> outs v1 7001 = default_valve_outputs)"

definition overlapping_turn_on_during_turn_off_ignored :: bool where
  "overlapping_turn_on_during_turn_off_ignored =
    (wv_user_state opened_valve \<and>
     outs (valve_turn_on (valve_turn_off opened_valve 20000) 25000) 25000 = closing_outputs)"

definition never_drives_both_motor_directions :: bool where
  "never_drives_both_motor_directions =
    (let (v, trace1) = drive (valve_turn_on valve_new 0) (map of_nat [0..<16001]);
         w = valve_turn_off (ticked v SEQUENCE_DURATION_MS) SEQUENCE_DURATION_MS;
         (x, trace2) = drive w (map of_nat [16000..<32001])
     in list_all (\<lambda>(t, p). \<not> (open_motor p \<and> close_motor p)) (trace1 @ trace2))"

definition turn_on_during_drain_cancels_drain :: bool where
  "turn_on_during_drain_cancels_drain =
    (let v0 = ticked (valve_turn_off opened_valve 20000) 36000;
         v1 = ticked v0 40000
     in outs v0 40000 = drain_outputs \<and> outs (valve_turn_on v1 50000) 51500 = opening_outputs)"

definition turn_on_when_already_on_is_noop :: bool where
  "turn_on_when_already_on_is_noop =
    (let v = valve_turn_on opened_valve 20000 in
     wv_user_state opened_valve \<and> \<not> valve_is_busy v \<and> outs v 20500 = default_valve_outputs)"

section \<open>The switch\<close>

definition secs :: "u64 \<Rightarrow> duration option" where
  "secs n = Some (duration_from_secs n)"

definition sticked :: "timed_switch \<Rightarrow> u64 \<Rightarrow> timed_switch" where
  "sticked s t = fst (switch_tick s t)"

definition auto_off_fires_after_duration :: bool where
  "auto_off_fires_after_duration =
    (let s0 = switch_turn_on (switch_new (secs 5)) 0; s1 = sticked s0 4999; s2 = sticked s1 5000
     in sw_on s0 \<and> sw_on s1 \<and> \<not> sw_on s2)"

definition no_auto_off_means_stays_on :: bool where
  "no_auto_off_means_stays_on = sw_on (sticked (switch_turn_on (switch_new None) 0) 60000)"

definition turn_on_resets_clock_only_when_off :: bool where
  "turn_on_resets_clock_only_when_off =
    (\<not> sw_on (sticked (switch_turn_on (switch_turn_on (switch_new (secs 5)) 0) 2000) 5000))"

definition manual_off_before_auto_off :: bool where
  "manual_off_before_auto_off =
    (\<not> sw_on (switch_turn_off (switch_turn_on (switch_new (secs 5)) 0) 1000))"

definition set_auto_off_shortens_live_window :: bool where
  "set_auto_off_shortens_live_window =
    (let s = sticked (switch_turn_on (switch_new (secs 60)) 0) 4000
     in sw_on s \<and> \<not> sw_on (sticked (switch_set_auto_off s (secs 3)) 4001))"

definition turn_on_for_overrides_configured_auto_off :: bool where
  "turn_on_for_overrides_configured_auto_off =
    (let s0 = switch_turn_on_for (switch_new (secs 600)) 0 (duration_from_secs 5);
         s1 = sticked s0 4999
     in sw_on s0 \<and> sw_on s1 \<and> \<not> sw_on (sticked s1 5000))"

definition override_cleared_on_subsequent_manual_turn_on :: bool where
  "override_cleared_on_subsequent_manual_turn_on =
    (let s0 = sticked (switch_turn_on_for (switch_new (secs 10)) 0 (duration_from_secs 2)) 2000;
         s1 = sticked (switch_turn_on s0 3000) 5000
     in \<not> sw_on s0 \<and> sw_on s1 \<and> \<not> sw_on (sticked s1 13000))"

definition set_auto_off_to_none_keeps_switch_on :: bool where
  "set_auto_off_to_none_keeps_switch_on =
    sw_on (sticked (switch_set_auto_off (switch_turn_on (switch_new (secs 5)) 0) None) 60000)"

section \<open>Calibration\<close>

abbreviation lit :: "rat \<Rightarrow> f32" where
  "lit \<equiv> f32_of_rat"

definition approx :: "f32 \<Rightarrow> f32 \<Rightarrow> f32 \<Rightarrow> bool" where
  "approx a b eps = f32_lt (f32_abs (f32_sub a b)) eps"

definition approx_at :: "calibration \<Rightarrow> rat \<Rightarrow> rat \<Rightarrow> rat \<Rightarrow> bool" where
  "approx_at c x b eps = (case cal_apply c (lit x) of
      None \<Rightarrow> False | Some a \<Rightarrow> approx a (lit b) (lit eps))"

definition with_cal :: "(rat \<times> rat) list \<Rightarrow> (calibration \<Rightarrow> bool) \<Rightarrow> bool" where
  "with_cal ps f = (case cal_new (map (\<lambda>(x, y). (lit x, lit y)) ps) of None \<Rightarrow> False | Some c \<Rightarrow> f c)"

definition battery_calibration_matches_yaml_anchors :: bool where
  "battery_calibration_matches_yaml_anchors =
    with_cal [(1130, 5), (2931, 122 / 10)] (\<lambda>cal.
      approx_at cal 1130 5 (1 / 10000) \<and> approx_at cal 2931 (122 / 10) (1 / 10000) \<and>
      approx_at cal (20305 / 10) (86 / 10) (1 / 1000))"

text \<open>The two sides of the chain at one input.\<close>

definition chain_agrees :: "calibration \<Rightarrow> calibration \<Rightarrow> calibration \<Rightarrow> rat \<Rightarrow> bool" where
  "chain_agrees chained s1 s2 x =
    (case (cal_apply chained (lit x), Option.bind (cal_apply s1 (lit x)) (cal_apply s2)) of
       (Some a, Some b) \<Rightarrow> approx a b (lit (1 / 1000))
     | _ \<Rightarrow> False)"

definition pressure_two_stage_chain_matches_yaml :: bool where
  "pressure_two_stage_chain_matches_yaml =
    with_cal [(37 / 100, 54 / 100), (262 / 100, 398 / 100)] (\<lambda>s1.
    with_cal [(54 / 100, 0), (45 / 10, 1034214 / 100000)] (\<lambda>s2.
      (case cal_then s1 s2 of
         None \<Rightarrow> False
       | Some chained \<Rightarrow>
           approx_at chained (37 / 100) 0 (1 / 1000) \<and>
           (case (cal_apply chained (lit (262 / 100)), cal_apply s2 (lit (398 / 100))) of
              (Some a, Some b) \<Rightarrow> approx a b (lit (1 / 1000)) | _ \<Rightarrow> False) \<and>
           chain_agrees chained s1 s2 (3 / 2) \<and> chain_agrees chained s1 s2 2)))"

definition extrapolation_uses_nearest_segment :: bool where
  "extrapolation_uses_nearest_segment =
    with_cal [(0, 0), (10, 100)] (\<lambda>cal.
      approx_at cal (- 5) (- 50) (1 / 10000) \<and> approx_at cal 15 150 (1 / 10000))"

definition rejects_fewer_than_two_points :: bool where
  "rejects_fewer_than_two_points = (cal_new [] = None \<and> cal_new [(lit 1, lit 2)] = None)"

definition rejects_duplicate_x_inputs :: bool where
  "rejects_duplicate_x_inputs = (cal_new [(lit 1, lit 2), (lit 1, lit 3)] = None)"

definition three_point_piecewise :: bool where
  "three_point_piecewise =
    with_cal [(0, 0), (1, 10), (2, 12)] (\<lambda>cal.
      approx_at cal (1 / 2) 5 (1 / 10000) \<and> approx_at cal (3 / 2) 11 (1 / 10000))"

section \<open>They pass: valve, switch, calibration\<close>

lemmas test_eval = ticked_def outs_def opened_valve_def opening_outputs_def closing_outputs_def
  drain_outputs_def valve_defs valve_new_def valve_with_timing_def default_valve_timing_def
  default_valve_outputs_def SETTLE_MS_def SEQUENCE_DURATION_MS_def valve_state_def valve_is_busy_def
  Let_def

lemma valve_tests_pass:
  "turn_on_sequence_matches_yaml" "turn_off_sequence_drives_close_then_drain"
  "set_timing_changes_subsequent_sequences" "drain_secs_zero_skips_draining_phase"
  "overlapping_turn_on_during_turn_off_ignored" "turn_on_during_drain_cancels_drain"
  "turn_on_when_already_on_is_noop"
  by code_simp+

lemma switch_tests_pass:
  "auto_off_fires_after_duration" "no_auto_off_means_stays_on" "turn_on_resets_clock_only_when_off"
  "manual_off_before_auto_off" "set_auto_off_shortens_live_window"
  "turn_on_for_overrides_configured_auto_off" "override_cleared_on_subsequent_manual_turn_on"
  "set_auto_off_to_none_keeps_switch_on"
  by code_simp+

lemma battery_test: "battery_calibration_matches_yaml_anchors"
  by code_simp

text \<open>The chain of the pressure sensor is evaluated in steps: the two stages, the points of the chain,
  and the four comparisons.\<close>

definition stage1 :: calibration where
  "stage1 = \<lparr>cal_points = [(Fin False (3103785 / 8388608), Fin False (9059697 / 16777216)),
     (Fin False (2747269 / 1048576), Fin False (8346665 / 2097152))]\<rparr>"

definition stage2 :: calibration where
  "stage2 = \<lparr>cal_points = [(Fin False (9059697 / 16777216), f32_zero),
     (Fin False (9 / 2), Fin False (1355565 / 131072))]\<rparr>"

definition both_stages :: calibration where
  "both_stages = \<lparr>cal_points = [(Fin False (3103785 / 8388608), f32_zero),
     (Fin False (2747269 / 1048576), Fin False (2355123 / 262144))]\<rparr>"

lemma stages:
  "cal_new (map (\<lambda>(x, y). (lit x, lit y)) [(37 / 100, 54 / 100), (262 / 100, 398 / 100)]) = Some stage1"
  "cal_new (map (\<lambda>(x, y). (lit x, lit y)) [(54 / 100, 0), (45 / 10, 1034214 / 100000)]) = Some stage2"
  by code_simp+

lemma stage_limits: "foldl f32_min (Inf False) (map snd (cal_points stage1)) = Fin False (9059697 / 16777216)"
  "foldl f32_max (Inf True) (map snd (cal_points stage1)) = Fin False (8346665 / 2097152)"
  by code_simp+

lemma calibration_tests_pass:
  "extrapolation_uses_nearest_segment"
  "rejects_fewer_than_two_points" "rejects_duplicate_x_inputs" "three_point_piecewise"
  by code_simp+

lemma stage_inputs:
  "List.map_filter (\<lambda>op. let y = fst op in
     if f32_le (Fin False (9059697 / 16777216)) y \<and> f32_le y (Fin False (8346665 / 2097152))
     then invert_self stage1 y else None) (cal_points stage2) = [Fin False (3103785 / 8388608)]"
  "dedup_close (sort_by f32_lt (map fst (cal_points stage1) @ [Fin False (3103785 / 8388608)])) =
     [Fin False (3103785 / 8388608), Fin False (2747269 / 1048576)]"
  by code_simp+

lemma stage_values:
  "cal_apply stage1 (Fin False (3103785 / 8388608)) = Some (Fin False (9059697 / 16777216))"
  "cal_apply stage1 (Fin False (2747269 / 1048576)) = Some (Fin False (8346665 / 2097152))"
  "cal_apply stage2 (Fin False (9059697 / 16777216)) = Some f32_zero"
  "cal_apply stage2 (Fin False (8346665 / 2097152)) = Some (Fin False (2355123 / 262144))"
  "cal_new [(Fin False (3103785 / 8388608), f32_zero),
     (Fin False (2747269 / 1048576), Fin False (2355123 / 262144))] = Some both_stages"
  by code_simp+

lemma stages_chained: "cal_then stage1 stage2 = Some both_stages"
  unfolding cal_then_def Let_def stage_limits
  by (simp add: stage_inputs [unfolded Let_def] stage_values)

lemma chain_value_37: "approx_at both_stages (37 / 100) 0 (1 / 1000)"
  by code_simp

lemma chain_value_15: "chain_agrees both_stages stage1 stage2 (3 / 2)"
  by code_simp

lemma chain_value_20: "chain_agrees both_stages stage1 stage2 2"
  by code_simp

lemma chain_value_262:
  "case (cal_apply both_stages (lit (262 / 100)), cal_apply stage2 (lit (398 / 100))) of
     (Some a, Some b) \<Rightarrow> approx a b (lit (1 / 1000)) | _ \<Rightarrow> False"
  by code_simp

lemma pressure_test_passes: "pressure_two_stage_chain_matches_yaml"
  unfolding pressure_two_stage_chain_matches_yaml_def with_cal_def stages option.case stages_chained
  by (intro conjI chain_value_37 chain_value_15 chain_value_20 chain_value_262)

lemma drive_safe: "drive v ts = (w, os) \<Longrightarrow> list_all (\<lambda>(t, p). \<not> (open_motor p \<and> close_motor p)) os"
proof (induction ts arbitrary: v w os)
  case (Cons t ts)
  obtain v' p w' ps where d: "valve_tick v t = (v', p)" "drive v' ts = (w', ps)"
    by fastforce
  have "\<not> (open_motor p \<and> close_motor p)"
    using valve_tick_at_most_one [of v t] d(1) by (auto simp: at_most_one_def)
  then show ?case
    using Cons.IH [OF d(2)] Cons.prems d by auto
qed simp

lemma motor_test_passes: "never_drives_both_motor_directions"
proof -
  have safe: "let (v, trace1) = drive a ts1; w = f v; (x, trace2) = drive w ts2
     in list_all (\<lambda>(t, p). \<not> (open_motor p \<and> close_motor p)) (trace1 @ trace2)" for a ts1 ts2 f
    by (auto simp: Let_def dest: drive_safe split: prod.split)
  show ?thesis
    unfolding never_drives_both_motor_directions_def by (rule safe)
qed

section \<open>The schedule\<close>

text \<open>chrono's date-times are those of \<open>naive_ops\<close>, nanoseconds since the Unix epoch; May 10, 2026 is
  day 20583. \<open>dt\<close> takes the day of that month.\<close>

definition dt :: "int \<Rightarrow> int \<Rightarrow> int \<Rightarrow> int" where
  "dt d h m = naive_minute (((20573 + d) * 24 + h) * 60 + m)"

definition hits :: "schedule \<Rightarrow> int \<Rightarrow> int \<Rightarrow> rule list" where
  "hits s last_t now = (case evaluate_range naive_ops s last_t now of None \<Rightarrow> [] | Some rs \<Rightarrow> rs)"

definition minute_hits :: "schedule \<Rightarrow> int \<Rightarrow> rule list" where
  "minute_hits s now = (case evaluate_minute naive_ops s now of None \<Rightarrow> [] | Some rs \<Rightarrow> rs)"

fun change_first :: "(rule \<Rightarrow> rule) \<Rightarrow> schedule \<Rightarrow> schedule" where
  "change_first f s = s\<lparr>sched_rules := (case sched_rules s of [] \<Rightarrow> [] | r # rs \<Rightarrow> f r # rs)\<rparr>"

definition yaml_default_fires_at_10_and_22 :: bool where
  "yaml_default_fires_at_10_and_22 =
    (map rule_id (hits default_schedule (dt 10 9 59) (dt 10 10 0)) = [''riego_exterior''])"

definition missed_minutes_are_recovered :: bool where
  "missed_minutes_are_recovered =
    (map rule_id (hits default_schedule (dt 10 9 55) (dt 10 10 31)) = [''riego_exterior'', ''riego_interior''])"

definition no_double_fire_at_minute_boundary :: bool where
  "no_double_fire_at_minute_boundary =
    (length (hits default_schedule (dt 10 9 59) (dt 10 10 0)) = 1 \<and>
     length (hits default_schedule (dt 10 10 0) (dt 10 10 1)) = 0)"

definition day_of_week_filter :: bool where
  "day_of_week_filter =
    (let s = change_first (\<lambda>r. r\<lparr>rule_days := [0, 1, 2, 3, 4]\<rparr>) default_schedule
     in length (minute_hits s (dt 11 10 0)) = 1 \<and> length (minute_hits s (dt 9 10 0)) = 0)"

definition disabled_rules_dont_fire :: bool where
  "disabled_rules_dont_fire =
    (minute_hits (change_first (\<lambda>r. r\<lparr>rule_enabled := False\<rparr>) default_schedule) (dt 10 10 0) = [])"

definition extreme_jump_is_capped_safely :: bool where
  "extreme_jump_is_capped_safely = (length (hits default_schedule (dt 10 0 0) (dt 15 23 59)) \<le> 5)"

lemma hits_due:
  "hits sch a b = due naive_ops naive_minute (sched_rules sch) (a div minute_ns + 1)
     (min (b div minute_ns) (a div minute_ns + 1500))"
  by (simp add: hits_def evaluate_range_spec [OF naive_civil_time naive_minute_clock] MAX_ITERS_def)

lemma minute_hits_matching:
  "minute_hits sch t =
     filter (\<lambda>r. matches_minute naive_ops r (naive_minute (t div minute_ns))) (sched_rules sch)"
  by (simp add: minute_hits_def evaluate_minute_spec [OF naive_civil_time naive_minute_clock])

text \<open>Five days after the last poll the window ends after 25 hours, with the four firings in it.\<close>

lemma due_quiet:
  "(\<And>i. k \<le> i \<Longrightarrow> i \<le> m \<Longrightarrow> filter (\<lambda>r. matches_minute ops r (mk i)) rules = []) \<Longrightarrow> due ops mk rules k m = []"
  by (auto simp: due_def)

lemma small_word: "0 \<le> x \<Longrightarrow> x < 60 \<Longrightarrow> uint (ucast (word_of_int x :: u32) :: u8) = x"
  by (simp add: unsigned_ucast_eq uint_word_of_int take_bit_eq_mod)

lemma word_in:
  assumes "0 \<le> x" "x < 60"
  shows "(ucast (word_of_int x :: u32) :: u8) \<in> set ws \<longleftrightarrow> x \<in> uint ` set ws"
proof -
  obtain w :: u8 where w: "ucast (word_of_int x :: u32) = w" "uint w = x"
    using small_word [OF assms] by blast
  have "w \<in> set ws \<longleftrightarrow> uint w \<in> uint ` set ws"
    by (auto dest: word_uint_eqI)
  with w show ?thesis by simp
qed

text \<open>When a rule matches the minute \<open>i\<close> since the epoch, by arithmetic on \<open>i\<close>.\<close>

lemma naive_matches:
  "matches_minute naive_ops r (naive_minute i) \<longleftrightarrow> rule_enabled r \<and>
     matches_dow r (c_weekday naive_ops (naive_minute i)) \<and>
     i div 60 mod 24 \<in> uint ` set (rule_hours r) \<and> i mod 60 \<in> uint ` set (rule_minutes r)"
proof -
  have "i div 60 mod 24 < 60"
    using pos_mod_bound [of 24 "i div 60"] by linarith
  then show ?thesis
    by (auto simp: matches_minute_def naive_ops_def naive_minute_def minute_ns_def word_in)
qed

lemma weekday: "c_weekday naive_ops (naive_minute i) = word_of_int ((i div 1440 + 3) mod 7)"
  by (simp add: naive_ops_def naive_minute_def minute_ns_def)

lemma minute_back: "naive_minute i div minute_ns = i"
  by (simp add: naive_minute_def minute_ns_def)

lemma default_matches:
  assumes "r \<in> set (sched_rules default_schedule)" "matches_minute naive_ops r (naive_minute i)"
  shows "i mod 720 = 600 \<or> i mod 720 = 630"
proof -
  have m: "(i div 60 mod 24 = 10 \<or> i div 60 mod 24 = 22) \<and> (i mod 60 = 0 \<or> i mod 60 = 30)"
    using naive_matches [of r i] assms by (auto simp: default_schedule_def)
  have "x mod 24 = 10 \<or> x mod 24 = 22 \<Longrightarrow> x mod 12 = 10" for x :: int
    by presburger
  with m have "i div 60 mod 12 = 10"
    by blast
  moreover have "i mod 720 = 60 * (i div 60 mod 12) + i mod 60"
    using zmod_zmult2_eq [of 12 i 60] by simp
  ultimately show ?thesis
    using m by auto
qed

lemma extreme_test_passes: "extreme_jump_is_capped_safely"
proof -
  let ?due = "due naive_ops naive_minute (sched_rules default_schedule)"
  let ?b = "20583 * 1440 :: int"
  have quiet: "?due k m = []" if "720 * q \<le> k" "m < 720 * q + 720"
      "m < 720 * q + 600 \<or> 720 * q + 600 < k \<and> m < 720 * q + 630 \<or> 720 * q + 630 < k" for k m q :: int
  proof (rule due_quiet)
    fix i
    assume i: "k \<le> i" "i \<le> m"
    have "i mod 720 = (i - 720 * q) mod 720"
      by (simp add: mod_diff_eq [symmetric])
    also have "\<dots> = i - 720 * q"
      using i that by simp
    finally have "i mod 720 \<noteq> 600" "i mod 720 \<noteq> 630"
      using i that by auto
    then show "filter (\<lambda>r. matches_minute naive_ops r (naive_minute i)) (sched_rules default_schedule) = []"
      using default_matches by (fastforce simp: filter_empty_conv)
  qed
  have split: "length (?due k (?b + 1500)) = length (?due k j) + length (?due (j + 1) (?b + 1500))"
    if "k \<le> j + 1" "j \<le> ?b + 1500" for k j
    by (simp only: due_append [OF that] length_append)
  have r0: "?due (?b + 1) (?b + 599) = []"
    by (rule quiet [of 41166]) simp_all
  have r1: "?due (?b + 601) (?b + 629) = []"
    by (rule quiet [of 41166]) simp_all
  have r2: "?due (?b + 631) (?b + 719) = []"
    by (rule quiet [of 41166]) simp_all
  have r3: "?due (?b + 720) (?b + 1319) = []"
    by (rule quiet [of 41167]) simp_all
  have r4: "?due (?b + 1321) (?b + 1349) = []"
    by (rule quiet [of 41167]) simp_all
  have r5: "?due (?b + 1351) (?b + 1439) = []"
    by (rule quiet [of 41167]) simp_all
  have r6: "?due (?b + 1440) (?b + 1500) = []"
    by (rule quiet [of 41168]) simp_all
  have one: "length (?due i i) \<le> 1" for i
    by (auto simp: due_def default_schedule_def naive_matches)
  have s0: "length (?due (?b + 1) (?b + 1500)) = length (?due (?b + 1) (?b + 599)) + length (?due (?b + 600) (?b + 1500))"
    using split [of "?b + 1" "?b + 599"] by simp
  have s1: "length (?due (?b + 600) (?b + 1500)) = length (?due (?b + 600) (?b + 600)) + length (?due (?b + 601) (?b + 1500))"
    using split [of "?b + 600" "?b + 600"] by simp
  have s2: "length (?due (?b + 601) (?b + 1500)) = length (?due (?b + 601) (?b + 629)) + length (?due (?b + 630) (?b + 1500))"
    using split [of "?b + 601" "?b + 629"] by simp
  have s3: "length (?due (?b + 630) (?b + 1500)) = length (?due (?b + 630) (?b + 630)) + length (?due (?b + 631) (?b + 1500))"
    using split [of "?b + 630" "?b + 630"] by simp
  have s4: "length (?due (?b + 631) (?b + 1500)) = length (?due (?b + 631) (?b + 719)) + length (?due (?b + 720) (?b + 1500))"
    using split [of "?b + 631" "?b + 719"] by simp
  have s5: "length (?due (?b + 720) (?b + 1500)) = length (?due (?b + 720) (?b + 1319)) + length (?due (?b + 1320) (?b + 1500))"
    using split [of "?b + 720" "?b + 1319"] by simp
  have s6: "length (?due (?b + 1320) (?b + 1500)) = length (?due (?b + 1320) (?b + 1320)) + length (?due (?b + 1321) (?b + 1500))"
    using split [of "?b + 1320" "?b + 1320"] by simp
  have s7: "length (?due (?b + 1321) (?b + 1500)) = length (?due (?b + 1321) (?b + 1349)) + length (?due (?b + 1350) (?b + 1500))"
    using split [of "?b + 1321" "?b + 1349"] by simp
  have s8: "length (?due (?b + 1350) (?b + 1500)) = length (?due (?b + 1350) (?b + 1350)) + length (?due (?b + 1351) (?b + 1500))"
    using split [of "?b + 1350" "?b + 1350"] by simp
  have s9: "length (?due (?b + 1351) (?b + 1500)) = length (?due (?b + 1351) (?b + 1439)) + length (?due (?b + 1440) (?b + 1500))"
    using split [of "?b + 1351" "?b + 1439"] by simp
  have "length (?due (?b + 1) (?b + 1500)) \<le> 4"
    unfolding s0 s1 s2 s3 s4 s5 s6 s7 s8 s9 r0 r1 r2 r3 r4 r5 r6 list.size
    using one [of "?b + 600"] one [of "?b + 630"] one [of "?b + 1320"] one [of "?b + 1350"] by linarith
  then show ?thesis
    by (simp add: extreme_jump_is_capped_safely_def hits_due dt_def naive_minute_def minute_ns_def)
qed

lemma schedule_tests_pass:
  "yaml_default_fires_at_10_and_22" "missed_minutes_are_recovered" "no_double_fire_at_minute_boundary"
  "day_of_week_filter" "disabled_rules_dont_fire"
  by (simp_all add: yaml_default_fires_at_10_and_22_def missed_minutes_are_recovered_def
     no_double_fire_at_minute_boundary_def day_of_week_filter_def disabled_rules_dont_fire_def
     hits_due minute_hits_matching dt_def minute_back due_def upto.simps naive_matches
     default_schedule_def matches_dow_def weekday)

section \<open>Webhooks\<close>

definition render_substitutes_known_vars :: bool where
  "render_substitutes_known_vars =
    (let vars = bm_insert ''flow_lph'' ''120.5'' (bm_insert ''event'' ''flow_alarm.fire'' []) in
     render_template (''{'' @ quoted ''text'' @ '':'' @ quoted ''{{event}} at {{flow_lph}} L/h'' @ ''}'') vars =
       ''{'' @ quoted ''text'' @ '':'' @ quoted ''flow_alarm.fire at 120.5 L/h'' @ ''}'')"

definition render_leaves_unknown_placeholders_intact :: bool where
  "render_leaves_unknown_placeholders_intact =
    (render_template ''{{event}} {{not_a_var}}'' (bm_insert ''event'' ''boot'' []) = ''boot {{not_a_var}}'')"

definition render_handles_repeated_placeholders :: bool where
  "render_handles_repeated_placeholders =
    (render_template ''{{device}} / {{device}}'' (bm_insert ''device'' ''doremorwater'' []) =
       ''doremorwater / doremorwater'')"

definition event_kind_serializes_to_dotted_form :: bool where
  "event_kind_serializes_to_dotted_form =
    (event_of_wire ''flow_alarm.fire'' = Some FlowAlarmFire \<and> event_of_wire ''ota.rollback'' = Some OtaRollback)"

definition recording_dispatcher_captures_in_order :: bool where
  "recording_dispatcher_captures_in_order =
    (let d = recording_dispatch \<lparr>rd_events = []\<rparr> (event_new Boot);
         d = recording_dispatch d (event_with (event_new FlowAlarmFire) ''flow_lph'' ''200'');
         (evs, d) = recording_take d
     in length evs = 2 \<and> we_kind (evs ! 0) = Boot \<and> we_kind (evs ! 1) = FlowAlarmFire \<and>
        map_of (we_vars (evs ! 1)) ''flow_lph'' = Some ''200'')"

lemma webhook_tests_pass:
  "render_substitutes_known_vars" "render_leaves_unknown_placeholders_intact"
  "render_handles_repeated_placeholders" "event_kind_serializes_to_dotted_form"
  "recording_dispatcher_captures_in_order"
  by code_simp+

section \<open>The configuration\<close>

text \<open>\<open>dflt\<close> is \<open>Config::default()\<close>. The store of the tests is the map of theory Traits; the codec
  is serde_json's, and the test that saves relies on its decoding what it encoded.\<close>

definition round_trip_defaults_through_nvs :: "'j config_codec \<Rightarrow> config \<Rightarrow> bool" where
  "round_trip_defaults_through_nvs codec dflt =
    (case config_save fake_nvs_ops codec dflt fake_nvs_new of
       (s, Inl e) \<Rightarrow> False
     | (s, Inr u) \<Rightarrow> (case config_load fake_nvs_ops codec dflt s of Inl e \<Rightarrow> False | Inr c \<Rightarrow> c = dflt))"

definition missing_nvs_returns_defaults :: "'j config_codec \<Rightarrow> config \<Rightarrow> bool" where
  "missing_nvs_returns_defaults codec dflt =
    (case config_load fake_nvs_ops codec dflt fake_nvs_new of Inl e \<Rightarrow> False | Inr c \<Rightarrow> c = dflt)"

definition cfg_with_secrets :: "config \<Rightarrow> config" where
  "cfg_with_secrets dflt = dflt\<lparr>
     cf_wifi := (cf_wifi dflt)\<lparr>wf_networks :=
       [\<lparr>wc_ssid = ''home'', wc_password = ''wifi-secret''\<rparr>, \<lparr>wc_ssid = ''guest'', wc_password = ''guest-secret''\<rparr>]\<rparr>,
     cf_mqtt := (cf_mqtt dflt)\<lparr>mq_password := ''mqtt-secret'', mq_client_key_pem := ''-----BEGIN MQTT KEY-----''\<rparr>,
     cf_https := (cf_https dflt)\<lparr>hs_key_pem := ''-----BEGIN HTTPS KEY-----''\<rparr>,
     cf_wireguard := (cf_wireguard dflt)\<lparr>wg_private_key := ''wg-private'', wg_peer_preshared_key := ''wg-psk''\<rparr>,
     cf_admin_token := ''admin-bearer''\<rparr>"

definition redact_blanks_every_secret :: "config \<Rightarrow> bool" where
  "redact_blanks_every_secret dflt =
    (let r = redact_secrets_for_api (cfg_with_secrets dflt) in
     list_all (\<lambda>n. wc_password n = []) (wf_networks (cf_wifi r)) \<and> mq_password (cf_mqtt r) = [] \<and>
     mq_client_key_pem (cf_mqtt r) = [] \<and> hs_key_pem (cf_https r) = [] \<and>
     wg_private_key (cf_wireguard r) = [] \<and> wg_peer_preshared_key (cf_wireguard r) = [] \<and>
     cf_admin_token r = [])"

definition redact_keeps_public_certs_and_ssids :: "config \<Rightarrow> bool" where
  "redact_keeps_public_certs_and_ssids dflt =
    (let c = cfg_with_secrets dflt;
         c = c\<lparr>cf_https := (cf_https c)\<lparr>hs_cert_pem := ''-----BEGIN HTTPS CERT-----''\<rparr>,
               cf_mqtt := (cf_mqtt c)\<lparr>mq_ca_cert_pem := ''-----BEGIN CA-----''\<rparr>,
               cf_wireguard := (cf_wireguard c)\<lparr>wg_peer_public_key := ''wg-pub''\<rparr>\<rparr>;
         r = redact_secrets_for_api c
     in wc_ssid (wf_networks (cf_wifi r) ! 0) = ''home'' \<and> hs_cert_pem (cf_https r) = ''-----BEGIN HTTPS CERT-----'' \<and>
        mq_ca_cert_pem (cf_mqtt r) = ''-----BEGIN CA-----'' \<and> wg_peer_public_key (cf_wireguard r) = ''wg-pub'')"

definition merge_preserves_empty_secrets_from_redacted_round_trip :: "config \<Rightarrow> bool" where
  "merge_preserves_empty_secrets_from_redacted_round_trip dflt =
    (let stored = cfg_with_secrets dflt;
         incoming = (redact_secrets_for_api stored)\<lparr>cf_timezone := ''UTC''\<rparr>;
         stored = merge_preserving_secrets stored incoming
     in cf_timezone stored = ''UTC'' \<and> hs_key_pem (cf_https stored) = ''-----BEGIN HTTPS KEY-----'' \<and>
        mq_password (cf_mqtt stored) = ''mqtt-secret'' \<and> cf_admin_token stored = ''admin-bearer'' \<and>
        wc_password (wf_networks (cf_wifi stored) ! 0) = ''wifi-secret'' \<and>
        wc_password (wf_networks (cf_wifi stored) ! 1) = ''guest-secret'')"

definition merge_overwrites_when_incoming_provides_new_secret :: "config \<Rightarrow> bool" where
  "merge_overwrites_when_incoming_provides_new_secret dflt =
    (let stored = cfg_with_secrets dflt;
         incoming = redact_secrets_for_api stored;
         incoming = incoming\<lparr>cf_https := (cf_https incoming)\<lparr>hs_key_pem := ''-----BEGIN NEW HTTPS KEY-----''\<rparr>,
           cf_admin_token := ''rotated''\<rparr>;
         stored = merge_preserving_secrets stored incoming
     in hs_key_pem (cf_https stored) = ''-----BEGIN NEW HTTPS KEY-----'' \<and> cf_admin_token stored = ''rotated'' \<and>
        mq_password (cf_mqtt stored) = ''mqtt-secret'')"

definition merge_wifi_password_match_by_ssid :: "config \<Rightarrow> bool" where
  "merge_wifi_password_match_by_ssid dflt =
    (let stored = cfg_with_secrets dflt;
         incoming = redact_secrets_for_api stored;
         incoming = incoming\<lparr>cf_wifi := (cf_wifi incoming)\<lparr>wf_networks :=
           [\<lparr>wc_ssid = ''guest'', wc_password = []\<rparr>, \<lparr>wc_ssid = ''home'', wc_password = []\<rparr>,
            \<lparr>wc_ssid = ''openCafe'', wc_password = []\<rparr>]\<rparr>\<rparr>;
         stored = merge_preserving_secrets stored incoming
     in wc_password (wf_networks (cf_wifi stored) ! 0) = ''guest-secret'' \<and>
        wc_password (wf_networks (cf_wifi stored) ! 1) = ''wifi-secret'' \<and>
        wc_password (wf_networks (cf_wifi stored) ! 2) = [])"

lemma config_tests_pass:
  "redact_blanks_every_secret dflt" "redact_keeps_public_certs_and_ssids dflt"
  "merge_preserves_empty_secrets_from_redacted_round_trip dflt"
  "merge_overwrites_when_incoming_provides_new_secret dflt" "merge_wifi_password_match_by_ssid dflt"
  "missing_nvs_returns_defaults codec dflt"
  by (simp_all add: redact_blanks_every_secret_def redact_keeps_public_certs_and_ssids_def
      merge_preserves_empty_secrets_from_redacted_round_trip_def cfg_with_secrets_def
      merge_overwrites_when_incoming_provides_new_secret_def merge_wifi_password_match_by_ssid_def
      missing_nvs_returns_defaults_def redact_secrets_for_api_def merge_preserving_secrets_def
      restore_secrets_from_def restore_network_def config_load_def fake_nvs_defs fake_nvs_new_def Let_def)

lemma config_round_trip_passes:
  assumes "cc_enc codec dflt = Inr bs" "cc_dec codec bs = Inr dflt"
  shows "round_trip_defaults_through_nvs codec dflt"
  using assms by (simp add: round_trip_defaults_through_nvs_def config_save_def config_load_def
      fake_nvs_defs Let_def)

section \<open>The log buffer\<close>

definition rec :: "u64 \<Rightarrow> string \<Rightarrow> log_record" where
  "rec ms msg = \<lparr>lr_monotonic_ms = ms, lr_level = 3, lr_target = ''test'', lr_message = msg\<rparr>"

definition ring_buffer_evicts_oldest :: bool where
  "ring_buffer_evicts_oldest =
    (let buf = foldl (\<lambda>b i. log_push b (rec (of_nat i) (''m'' @ show_nat i))) (log_buffer_new 3) [0..<5];
         snap = log_snapshot buf 10
     in length snap = 3 \<and> lr_message (snap ! 0) = ''m2'' \<and> lr_message (snap ! 2) = ''m4'')"

text \<open>What the receiver of subscriber \<open>i\<close> finds in its channel.\<close>

definition received :: "log_buffer \<Rightarrow> u64 \<Rightarrow> log_record list" where
  "received b i = (case map_of (lb_subscribers b) i of None \<Rightarrow> [] | Some ch \<Rightarrow> ch_queue ch)"

definition subscriber_receives_new_records :: bool where
  "subscriber_receives_new_records =
    (let (b, i) = log_subscribe (log_buffer_new 10) 8;
         b = log_push b (rec 1 ''hello'')
     in (case received b i of [] \<Rightarrow> False | r # _ \<Rightarrow> lr_message r = ''hello''))"

definition slow_subscriber_does_not_block_pushes :: bool where
  "slow_subscriber_does_not_block_pushes =
    (let (b, i) = log_subscribe (log_buffer_new 10) 2;
         b = foldl (\<lambda>b i. log_push b (rec (of_nat i) ''spam'')) b [0..<100]
     in length (log_snapshot b 100) = 10)"

definition unsubscribe_drops_sender :: bool where
  "unsubscribe_drops_sender =
    (let (b, i) = log_subscribe (log_buffer_new 10) 4;
         b = log_push (log_unsubscribe b i) (rec 1 ''after-unsub'')
     in length (log_snapshot b 10) = 1)"

lemma log_buffer_tests_pass:
  "ring_buffer_evicts_oldest" "subscriber_receives_new_records" "unsubscribe_drops_sender"
  by code_simp+

lemma spam_test_passes: "slow_subscriber_does_not_block_pushes"
proof -
  let ?rs = "map (\<lambda>i. rec (of_nat i) ''spam'') [0..<100]"
  let ?b = "fst (log_subscribe (log_buffer_new 10) 2)"
  have "lb_records (foldl log_push ?b ?rs) = last_n (lb_capacity ?b) (lb_records ?b @ ?rs)"
    by (rule records_run) (simp_all add: log_subscribe_def log_buffer_new_def Let_def)
  then have "length (lb_records (foldl log_push ?b ?rs)) = 10"
    by (simp add: log_subscribe_def log_buffer_new_def Let_def length_last_n del: upt_rec_numeral)
  then show ?thesis
    by (simp add: slow_subscriber_does_not_block_pushes_def Let_def log_snapshot_def case_prod_beta foldl_map
        del: upt_rec_numeral)
qed

section \<open>Home Assistant discovery\<close>

definition test_ctx :: device_context where
  "test_ctx = \<lparr>dc_base_topic = ''doremorwater'', dc_discovery_prefix = ''homeassistant'',
     dc_device_id = ''doremorwater'', dc_friendly_name = ''Doremorwater'', dc_sw_version = ''0.1.0'',
     dc_manufacturer = ''homebrew'', dc_model = ''watercontroller''\<rparr>"

definition pressure_sensor_topic_and_keys :: bool where
  "pressure_sensor_topic_and_keys =
    (let m = ha_sensor test_ctx \<lparr>sd_key = ''pressure'', sd_name = ''Pressure'', sd_unit = Some ''bar'',
           sd_device_class = Some ''pressure'', sd_state_class = Some ''measurement'', sd_icon = None,
           sd_precision = Some 2\<rparr>
     in dm_topic m = ''homeassistant/sensor/doremorwater_pressure/config'' \<and>
        (case dm_payload m of
           PSensor p \<Rightarrow> sp_unique_id p = ''doremorwater_pressure'' \<and>
             sp_state_topic p = ''doremorwater/pressure/state'' \<and>
             sp_unit_of_measurement p = Some ''bar'' \<and> sp_device_class p = Some ''pressure'' \<and>
             db_identifiers (sp_device p) ! 0 = ''doremorwater''
         | _ \<Rightarrow> False))"

definition switch_has_command_topic :: bool where
  "switch_has_command_topic =
    (case dm_payload (ha_switch test_ctx \<lparr>wd_key = ''water_control'', wd_name = ''Water control''\<rparr>) of
       PSwitch p \<Rightarrow> wp_command_topic p = ''doremorwater/water_control/set'' \<and>
         wp_state_topic p = ''doremorwater/water_control/state'' \<and> \<not> wp_optimistic p
     | _ \<Rightarrow> False)"

definition all_messages_includes_expected_entities :: bool where
  "all_messages_includes_expected_entities =
    (let topics = map dm_topic (all_messages test_ctx);
         some = (\<lambda>s. list_ex (\<lambda>t. contains_str t s) topics)
     in some ''sensor/doremorwater_battery'' \<and> some ''sensor/doremorwater_pressure'' \<and>
        some ''sensor/doremorwater_water_flow'' \<and> some ''sensor/doremorwater_water_total'' \<and>
        some ''switch/doremorwater_water_control'' \<and> some ''sensor/doremorwater_wifi_rssi'' \<and>
        some ''sensor/doremorwater_uptime'' \<and> length (all_messages test_ctx) = 13 \<and>
        some ''binary_sensor/doremorwater_flow_alarm'')"

lemma discovery_tests_pass:
  "pressure_sensor_topic_and_keys" "switch_has_command_topic" "all_messages_includes_expected_entities"
  by code_simp+

section \<open>The DNS responder and the fakes\<close>

definition make_query :: "bytes list \<Rightarrow> bytes" where
  "make_query names = [0x12, 0x34] @ [0x01, 0x00] @ [0x00, 0x01] @ [0x00, 0x00, 0x00, 0x00, 0x00, 0x00] @
     concat (map (\<lambda>l. of_nat (length l) # l) names) @ [0] @ [0x00, 0x01] @ [0x00, 0x01]"

definition answers_a_query :: bool where
  "answers_a_query =
    (case build_a_response (make_query [bytes_of ''captive'', bytes_of ''test'']) [10, 0, 4, 1] of
       Some (Some r) \<Rightarrow> take 2 r = [0x12, 0x34] \<and> r ! 2 AND 0x80 = 0x80 \<and>
         take 2 (drop 6 r) = [0x00, 0x01] \<and> drop (length r - 4) r = [10, 0, 4, 1]
     | _ \<Rightarrow> False)"

definition rejects_non_a_query :: bool where
  "rejects_non_a_query =
    (let q = make_query [bytes_of ''foo'']; n = length q; q = q[n - 4 := 0, n - 3 := 0x10]
     in build_a_response q [1, 2, 3, 4] = Some None)"

definition fake_gpio_records_changes :: bool where
  "fake_gpio_records_changes =
    (let g0 = fake_gpio_new ''test''; g1 = fake_gpio_set g0 True; g2 = fake_gpio_set g1 False
     in \<not> fg_state g0 \<and> fg_state g1 \<and> \<not> fg_state g2)"

definition fake_mqtt_routes_handler :: bool where
  "fake_mqtt_routes_handler =
    (let m = fake_mqtt_set_handler fake_mqtt_new (\<lambda>topic _ received. received @ [topic])
     in length (fake_mqtt_inject m ''doremorwater/water_control/set'' (bytes_of ''ON'') []) = 1)"

lemma responder_and_fake_tests_pass:
  "answers_a_query" "rejects_non_a_query" "fake_gpio_records_changes" "fake_mqtt_routes_handler"
  by code_simp+

section \<open>The version string\<close>

text \<open>\<open>crates/core/src/lib.rs\<close>; the version is that of the package at build time.\<close>

definition greeting :: "string \<Rightarrow> string" where
  "greeting version = ''watercontroller-core v'' @ version"

definition greeting_includes_version :: "string \<Rightarrow> bool" where
  "greeting_includes_version version =
    (contains_str (greeting version) version \<and> starts_with (greeting version) ''watercontroller-core'')"

lemma split_once_str_found: "p \<noteq> [] \<Longrightarrow> split_once_str p (xs @ p) \<noteq> None"
proof (induction xs)
  case Nil
  then obtain c cs where "p = c # cs"
    by (cases p) auto
  then show ?case
    using strip_pre_append [of p "[]"] by auto
qed (auto split: option.split)

lemma version_test_passes: "version \<noteq> [] \<Longrightarrow> greeting_includes_version version"
  using split_once_str_found [of version "''watercontroller-core v''"]
  by (simp add: greeting_includes_version_def greeting_def contains_str_def starts_with_def)

end
