(* ===== verification/App_Tests.thy ===== *)
theory App_Tests
  imports App Mqtt_Dispatch
begin

text \<open>
  The unit tests of \<open>app.rs\<close> and \<open>mqtt_dispatch.rs\<close> of \<open>crates/core\<close>, run on the model in the style of theory
  Core_Tests. The test clock stands still between calls of \<open>advance\<close>, so each call runs in the environment
  \<open>clock_at\<close> of its time; the dispatcher is none (\<open>NoopDispatcher\<close>) or the recorder. \<open>dflt\<close> is
  \<open>Config::default()\<close> with any WiFi seed of the build.
\<close>

section \<open>The harness of the tests\<close>

definition clock_at :: "u64 \<Rightarrow> (fake_nvs, int, recording_dispatcher option) env" where
  "clock_at t = \<lparr>env_mono = (\<lambda>_. t), env_wall = (\<lambda>_. 0), env_rfc3339 = (\<lambda>_. ''1970-01-01T00:00:00+00:00''),
     env_timestamp = id, env_enc_history = (\<lambda>_. None), env_dec_history = (\<lambda>_. None),
     env_nvs = fake_nvs_ops, env_dispatch = (\<lambda>d ev. map_option (\<lambda>r. recording_dispatch r ev) d),
     env_noop = None\<rparr>"

type_synonym tapp = "(fake_nvs, recording_dispatcher option) app"

definition app0 :: "config \<Rightarrow> tapp" where
  "app0 dflt = app_new (clock_at 0) dflt"

definition tick_at :: "u64 \<Rightarrow> tapp \<Rightarrow> tapp" where
  "tick_at t a = fst (app_tick (clock_at t) a)"

definition command_at :: "u64 \<Rightarrow> switch_command \<Rightarrow> tapp \<Rightarrow> tapp" where
  "command_at t c a = fst (switch_command (clock_at t) a c)"

definition shown :: "tapp \<Rightarrow> device_snapshot" where
  "shown a = app_snapshot a"

definition active :: "tapp \<Rightarrow> bool" where
  "active a = fa_active (sn_alarm (shown a))"

definition elapsed :: "tapp \<Rightarrow> u32" where
  "elapsed a = fa_elapsed_secs (sn_alarm (shown a))"

definition arm_alarm :: "u64 \<Rightarrow> rat \<Rightarrow> u32 \<Rightarrow> tapp \<Rightarrow> tapp" where
  "arm_alarm t threshold dur a = replace_config (clock_at t) a ((ap_config a)\<lparr>cf_flow_alarm :=
     \<lparr>al_enabled = True, al_threshold_lph = f32_of_rat threshold, al_duration_secs = dur\<rparr>\<rparr>)"

definition set_flow :: "rat \<Rightarrow> tapp \<Rightarrow> tapp" where
  "set_flow f a = app_update_state a (\<lambda>s. s\<lparr>sn_sensors := (sn_sensors s)\<lparr>flow_lph := Some (f32_of_rat f)\<rparr>\<rparr>)"

text \<open>Attaching a recorder, and taking what it has recorded.\<close>

definition record_events :: "tapp \<Rightarrow> tapp" where
  "record_events a = set_webhook_dispatcher a (Some \<lparr>rd_events = []\<rparr>)"

definition taken :: "tapp \<Rightarrow> webhook_event list \<times> tapp" where
  "taken a = (case ap_webhooks a of
      None \<Rightarrow> ([], a)
    | Some r \<Rightarrow> (case recording_take r of (evs, r') \<Rightarrow> (evs, a\<lparr>ap_webhooks := Some r'\<rparr>)))"

section \<open>The tests of the application\<close>

definition switch_command_sprinkler_round_trip :: "config \<Rightarrow> bool" where
  "switch_command_sprinkler_round_trip dflt =
    (let a = tick_at 0 (command_at 0 (Sprinkler1 True) (app0 dflt));
         b = tick_at 480000 a
     in st_sprinkler_1 (sn_switches (shown a)) \<and> \<not> st_sprinkler_1 (sn_switches (shown b)))"

definition replace_config_updates_sprinkler_auto_off_live :: "config \<Rightarrow> bool" where
  "replace_config_updates_sprinkler_auto_off_live dflt =
    (let a = tick_at 0 (command_at 0 (Sprinkler1 True) (app0 dflt));
         cfg = (ap_config a)\<lparr>cf_switches := (cf_switches (ap_config a))\<lparr>sprinkler_1_auto_off_secs := 120\<rparr>\<rparr>;
         b = tick_at 180000 (replace_config (clock_at 0) a cfg)
     in st_sprinkler_1 (sn_switches (shown a)) \<and> \<not> st_sprinkler_1 (sn_switches (shown b)))"

definition water_control_cannot_be_re_issued_during_sequence :: "config \<Rightarrow> bool" where
  "water_control_cannot_be_re_issued_during_sequence dflt =
    (let (a, r1) = switch_command (clock_at 0) (app0 dflt) (WaterControl True);
         (b, r2) = switch_command (clock_at 5000) (tick_at 5000 a) (WaterControl False)
     in r1 = CmdOk \<and> (case r2 of CmdBusy _ \<Rightarrow> True | _ \<Rightarrow> False))"

definition flow_alarm_fires_after_sustained_high_flow :: "config \<Rightarrow> bool" where
  "flow_alarm_fires_after_sustained_high_flow dflt =
    (let a = tick_at 0 (set_flow 200 (arm_alarm 0 50 10 (app0 dflt)));
         b = tick_at 5000 a;
         c = tick_at 11000 b
     in \<not> active a \<and> \<not> active b \<and> elapsed b = 5 \<and> active c \<and> 10 \<le> elapsed c)"

definition flow_alarm_ignored_while_sprinkler_on :: "config \<Rightarrow> bool" where
  "flow_alarm_ignored_while_sprinkler_on dflt =
    (let a = tick_at 0 (command_at 0 (Sprinkler1 True) (set_flow 200 (arm_alarm 0 50 5 (app0 dflt))));
         b = foldl (\<lambda>a i. set_flow 200 (tick_at (i * 1000) a)) a [1, 2, 3, 4, 5, 6, 7, 8, 9, 10]
     in \<not> active b \<and> elapsed b = 0)"

definition flow_alarm_resets_elapsed_when_flow_drops :: "config \<Rightarrow> bool" where
  "flow_alarm_resets_elapsed_when_flow_drops dflt =
    (let a = tick_at 10000 (tick_at 0 (set_flow 100 (arm_alarm 0 50 30 (app0 dflt))));
         b = tick_at 11000 (set_flow 5 a)
     in elapsed a = 10 \<and> elapsed b = 0)"

definition flow_alarm_emits_webhook_events_on_fire_and_clear :: "config \<Rightarrow> bool" where
  "flow_alarm_emits_webhook_events_on_fire_and_clear dflt =
    (let a = snd (taken (record_events (app0 dflt)));
         b = tick_at 0 (set_flow 100 (snd (taken (arm_alarm 0 50 5 a))));
         (fired, c) = taken (tick_at 6000 b);
         (cleared, d) = taken (clear_flow_alarm (clock_at 6000) c)
     in (case find (\<lambda>e. we_kind e = FlowAlarmFire) fired of
           None \<Rightarrow> False
         | Some e \<Rightarrow> map_of (we_vars e) ''threshold_lph'' = Some ''50.0'' \<and>
             map_of (we_vars e) ''duration_secs'' = Some ''5'') \<and>
        list_ex (\<lambda>e. we_kind e = FlowAlarmClear) cleared)"

definition replace_config_emits_config_changed :: "config \<Rightarrow> bool" where
  "replace_config_emits_config_changed dflt =
    (let a = snd (taken (record_events (app0 dflt)));
         evs = fst (taken (replace_config_section (clock_at 0) a (ap_config a) ''mqtt''))
     in length evs = 1 \<and> we_kind (evs ! 0) = ConfigChanged \<and>
        map_of (we_vars (evs ! 0)) ''section'' = Some ''mqtt'')"

definition flow_alarm_records_history_on_fire :: "config \<Rightarrow> bool" where
  "flow_alarm_records_history_on_fire dflt =
    (let a = arm_alarm 0 50 5 (app0 dflt);
         b = tick_at 6000 (tick_at 0 (set_flow 100 a));
         h = alarm_history b
     in alarm_history a = [] \<and> length h = 1 \<and> f32_le (f32_of_rat 50) (ae_flow_lph (h ! 0)) \<and>
        ae_duration_secs (h ! 0) = 5 \<and>
        length (alarm_history (clear_flow_alarm (clock_at 6000) b)) = 1)"

definition flow_alarm_latches_until_cleared :: "config \<Rightarrow> bool" where
  "flow_alarm_latches_until_cleared dflt =
    (let a = tick_at 6000 (tick_at 0 (set_flow 100 (arm_alarm 0 50 5 (app0 dflt))));
         b = foldl (\<lambda>a i. tick_at (6000 + i * 1000) a) (set_flow 0 a) [1, 2, 3, 4, 5, 6, 7, 8, 9, 10];
         c = clear_flow_alarm (clock_at 16000) b
     in active a \<and> active b \<and> \<not> active c \<and> elapsed c = 0)"

definition flow_alarm_disabled_resets_state :: "config \<Rightarrow> bool" where
  "flow_alarm_disabled_resets_state dflt =
    (let a = tick_at 2000 (tick_at 0 (set_flow 200 (arm_alarm 0 10 1 (app0 dflt))));
         cfg = (ap_config a)\<lparr>cf_flow_alarm := (cf_flow_alarm (ap_config a))\<lparr>al_enabled := False\<rparr>\<rparr>;
         b = tick_at 2000 (replace_config (clock_at 2000) a cfg)
     in active a \<and> \<not> active b \<and> elapsed b = 0)"

section \<open>The tests of the MQTT integration\<close>

text \<open>The client of these tests, \<open>CaptureMqtt\<close>, is the recording fake under another name; the payload encoder
  of the discovery messages is a parameter, as in theory Mqtt_Dispatch.\<close>

definition parse_command_routes_correctly :: bool where
  "parse_command_routes_correctly \<longleftrightarrow>
    parse_command ''doremorwater'' ''doremorwater/water_control/set'' (bytes_of ''ON'') = Some (WaterControl True) \<and>
    parse_command ''doremorwater'' ''doremorwater/sprinkler_1/set'' (bytes_of ''OFF'') = Some (Sprinkler1 False) \<and>
    parse_command ''doremorwater'' ''elsewhere/water_control/set'' (bytes_of ''ON'') = None \<and>
    parse_command ''doremorwater'' ''doremorwater/water_control/state'' (bytes_of ''ON'') = None \<and>
    parse_command ''doremorwater'' ''doremorwater/heater/set'' (bytes_of ''ON'') = None \<and>
    parse_command ''doremorwater'' ''doremorwater/water_control/set'' (bytes_of ''maybe'') = None"

definition on_connect_publishes_discovery_subscribes_routes_commands ::
    "(ha_payload \<Rightarrow> bytes) \<Rightarrow> config \<Rightarrow> bool" where
  "on_connect_publishes_discovery_subscribes_routes_commands enc dflt =
    (let app = app0 dflt;
         mqtt = foldl (fake_call (clock_at 0)) fake_mqtt_new (on_connect enc app ''test'');
         app = tick_at 0 (fake_mqtt_inject mqtt ''doremorwater/sprinkler_1/set'' (bytes_of ''ON'') app)
     in length (fm_published mqtt) = 14 \<and> length (fm_subscriptions mqtt) = 3 \<and>
        st_sprinkler_1 (sn_switches (shown app)))"

section \<open>They pass\<close>

lemma default_parts:
  assumes "default_config s p = Some dflt"
  shows "cf_switches dflt = default_switches_config" "cf_flow_alarm dflt = default_flow_alarm_config"
    "cf_mqtt dflt = default_mqtt_config" "wf_hostname (cf_wifi dflt) = default_hostname"
  using assms by (auto simp: default_config_def default_wifi_config_def Let_def split: option.splits)

text \<open>What the parts of the application are after each call, so that a run is evaluated part by part.\<close>

lemma clock_at_sel [simp]: "env_mono (clock_at t) = (\<lambda>_. t)" "env_nvs (clock_at t) = fake_nvs_ops"
  by (simp_all add: clock_at_def)

lemma clock_at_dispatch [simp]:
  "env_dispatch (clock_at t) d ev = map_option (\<lambda>r. \<lparr>rd_events = rd_events r @ [ev]\<rparr>) d"
  by (cases d) (simp_all add: clock_at_def recording_dispatch_def)

lemma tick_snapshot_parts:
  "sn_sensors (app_snapshot (fst (app_tick env a))) = sn_sensors (app_snapshot a)"
  "st_sprinkler_1 (sn_switches (app_snapshot (fst (app_tick env a)))) =
     sw_on (fst (switch_tick (ap_sprinkler1 a) (env_mono env (ap_reads a))))"
  by (simp_all add: app_tick_split)

lemma tick_at_parts [simp]:
  "ap_config (tick_at t a) = ap_config a" "ap_last_check (tick_at t a) = Some t"
  "ap_sprinkler1 (tick_at t a) = fst (switch_tick (ap_sprinkler1 a) t)"
  "ap_sprinkler2 (tick_at t a) = fst (switch_tick (ap_sprinkler2 a) t)"
  "sn_sensors (app_snapshot (tick_at t a)) = sn_sensors (app_snapshot a)"
  "st_sprinkler_1 (sn_switches (app_snapshot (tick_at t a))) = sw_on (fst (switch_tick (ap_sprinkler1 a) t))"
  "sn_alarm (app_snapshot (tick_at t a)) = alarm_rule (cf_flow_alarm (ap_config a))
     (sw_on (fst (switch_tick (ap_sprinkler1 a) t)) \<or> sw_on (fst (switch_tick (ap_sprinkler2 a) t)))
     (flow_above (app_snapshot a) (cf_flow_alarm (ap_config a))) (alarm_delta a t) (sn_alarm (app_snapshot a))"
  by (simp_all add: tick_at_def app_tick_alarm_rule tick_snapshot_parts)

lemma app0_parts [simp]:
  assumes "default_config s p = Some dflt"
  shows "ap_config (app0 dflt) = dflt" "app_snapshot (app0 dflt) = state_snapshot device_state_new"
    "ap_sprinkler1 (app0 dflt) = switch_new (Some (duration_from_secs 420))"
    "ap_sprinkler2 (app0 dflt) = switch_new (Some (duration_from_secs 300))"
    "ap_last_check (app0 dflt) = None" "ap_history (app0 dflt) = []"
  using assms by (simp_all add: app0_def app_new_def app_with_nvs_def Let_def default_parts app_snapshot_def
      auto_off_or_none_def default_switches_config_def stored_history_def as_u64_def)

lemma command_at_parts [simp]:
  "ap_config (command_at t c a) = ap_config a" "ap_last_check (command_at t c a) = ap_last_check a"
  "app_snapshot (command_at t c a) = app_snapshot a"
  "ap_sprinkler1 (command_at t (Sprinkler1 True) a) = switch_turn_on (ap_sprinkler1 a) t"
  "ap_sprinkler2 (command_at t (Sprinkler1 True) a) = ap_sprinkler2 a"
  by (simp_all add: command_at_def, simp_all add: switch_command_def)

lemma set_flow_parts [simp]:
  "ap_config (set_flow f a) = ap_config a" "ap_last_check (set_flow f a) = ap_last_check a"
  "ap_sprinkler1 (set_flow f a) = ap_sprinkler1 a" "ap_sprinkler2 (set_flow f a) = ap_sprinkler2 a"
  "ap_history (set_flow f a) = ap_history a"
  "sn_alarm (app_snapshot (set_flow f a)) = sn_alarm (app_snapshot a)"
  "flow_lph (sn_sensors (app_snapshot (set_flow f a))) = Some (f32_of_rat f)"
  by (simp_all add: set_flow_def)


lemma replace_parts [simp]:
  "ap_sprinkler1 (replace_config_section env a c n) =
     switch_set_auto_off (ap_sprinkler1 a) (auto_off_or_none (sprinkler_1_auto_off_secs (cf_switches c)))"
  "ap_sprinkler2 (replace_config_section env a c n) =
     switch_set_auto_off (ap_sprinkler2 a) (auto_off_or_none (sprinkler_2_auto_off_secs (cf_switches c)))"
  by (simp_all add: replace_config_section_def Let_def)

lemmas test_defs = shown_def active_def elapsed_def replace_config_def switch_defs as_millis_u64_def
  duration_from_secs_def auto_off_or_none_def switch_new_def sat_sub_def sat_add_def as_u64_def Let_def
  alarm_rule_def alarm_delta_def flow_above_def

lemma sprinkler_test_passes:
  assumes "default_config s p = Some dflt"
  shows "switch_command_sprinkler_round_trip dflt"
  unfolding switch_command_sprinkler_round_trip_def using assms by (simp add: test_defs)

lemma retime_test_passes:
  assumes "default_config s p = Some dflt"
  shows "replace_config_updates_sprinkler_auto_off_live dflt"
  unfolding replace_config_updates_sprinkler_auto_off_live_def using assms by (simp add: test_defs)

lemma test_flows [simp]:
  "f32_le (f32_of_rat 50) (f32_of_rat 200)" "f32_le (f32_of_rat 50) (f32_of_rat 100)"
  "\<not> f32_le (f32_of_rat 50) (f32_of_rat 5)" "\<not> f32_le (f32_of_rat 50) (f32_of_rat 0)"
  "f32_le (f32_of_rat 10) (f32_of_rat 200)"
  by code_simp+

lemma arm_parts [simp]:
  "ap_sprinkler1 (arm_alarm t th d a) = switch_set_auto_off (ap_sprinkler1 a)
     (auto_off_or_none (sprinkler_1_auto_off_secs (cf_switches (ap_config a))))"
  "ap_sprinkler2 (arm_alarm t th d a) = switch_set_auto_off (ap_sprinkler2 a)
     (auto_off_or_none (sprinkler_2_auto_off_secs (cf_switches (ap_config a))))"
  "cf_flow_alarm (ap_config (arm_alarm t th d a)) =
     \<lparr>al_enabled = True, al_threshold_lph = f32_of_rat th, al_duration_secs = d\<rparr>"
  "app_snapshot (arm_alarm t th d a) = app_snapshot a" "ap_last_check (arm_alarm t th d a) = ap_last_check a"
  "ap_history (arm_alarm t th d a) = ap_history a"
  by (simp_all add: arm_alarm_def replace_config_def)

lemma fresh_alarm [simp]: "sn_alarm (state_snapshot device_state_new) = \<lparr>fa_active = False, fa_elapsed_secs = 0\<rparr>"
  by (simp add: state_snapshot_def device_state_new_def default_snapshot_def default_flow_alarm_def)

lemma fire_test_passes:
  assumes "default_config s p = Some dflt"
  shows "flow_alarm_fires_after_sustained_high_flow dflt"
  unfolding flow_alarm_fires_after_sustained_high_flow_def using assms by (simp add: test_defs)

lemma foldl_keeps:
  "P a \<Longrightarrow> (\<And>a x. x \<in> set xs \<Longrightarrow> P a \<Longrightarrow> P (f a x)) \<Longrightarrow> P (foldl f a xs)"
  by (induction xs arbitrary: a) auto

text \<open>The sprinkler of the masking test stays on for its seven minutes, and so the alarm at rest.\<close>

definition masked :: "tapp \<Rightarrow> bool" where
  "masked a \<longleftrightarrow> ap_sprinkler1 a = \<lparr>sw_on = True, sw_on_since = Some 0,
       sw_auto_off = Some (duration_from_secs 420), sw_override = None\<rparr> \<and>
     cf_flow_alarm (ap_config a) = \<lparr>al_enabled = True, al_threshold_lph = f32_of_rat 50, al_duration_secs = 5\<rparr> \<and>
     sn_alarm (app_snapshot a) = \<lparr>fa_active = False, fa_elapsed_secs = 0\<rparr>"

lemma masked_tick: "masked a \<Longrightarrow> t < 420000 \<Longrightarrow> masked (tick_at t a)"
  by (auto simp: masked_def alarm_rule_def Let_def switch_tick_def effective_auto_off_def as_millis_u64_def
      duration_from_secs_def sat_sub_def as_u64_def)

lemma mask_test_passes:
  assumes "default_config s p = Some dflt"
  shows "flow_alarm_ignored_while_sprinkler_on dflt"
proof -
  have set_flow: "masked (set_flow f a)" if "masked a" for f a
    using that by (simp add: masked_def)
  have "masked (tick_at 0 (command_at 0 (Sprinkler1 True) (set_flow 200 (arm_alarm 0 50 5 (app0 dflt)))))"
    by (rule masked_tick) (use assms in \<open>simp_all add: masked_def switch_turn_on_def switch_set_auto_off_def
        switch_new_def default_parts default_switches_config_def auto_off_or_none_def as_u64_def\<close>)
  then have "masked (foldl (\<lambda>a i. set_flow 200 (tick_at (i * 1000) a))
      (tick_at 0 (command_at 0 (Sprinkler1 True) (set_flow 200 (arm_alarm 0 50 5 (app0 dflt)))))
      [1, 2, 3, 4, 5, 6, 7, 8, 9, 10])"
    by (rule foldl_keeps) (auto intro!: set_flow masked_tick)
  then show ?thesis
    by (simp add: flow_alarm_ignored_while_sprinkler_on_def masked_def active_def elapsed_def shown_def Let_def
        del: foldl_Cons)
qed

lemma drop_test_passes:
  assumes "default_config s p = Some dflt"
  shows "flow_alarm_resets_elapsed_when_flow_drops dflt"
  unfolding flow_alarm_resets_elapsed_when_flow_drops_def using assms by (simp add: test_defs)

lemma latch_test_passes:
  assumes "default_config s p = Some dflt"
  shows "flow_alarm_latches_until_cleared dflt"
proof -
  let ?a = "tick_at 6000 (tick_at 0 (set_flow 100 (arm_alarm 0 50 5 (app0 dflt))))"
  let ?P = "\<lambda>a. al_enabled (cf_flow_alarm (ap_config a)) \<and> active a"
  have a: "?P ?a"
    using assms by (simp add: test_defs)
  then have "?P (set_flow 0 ?a)" by (simp add: active_def shown_def)
  then have "?P (foldl (\<lambda>a i. tick_at (6000 + i * 1000) a) (set_flow 0 ?a) [1, 2, 3, 4, 5, 6, 7, 8, 9, 10])"
    by (rule foldl_keeps) (simp add: active_def shown_def alarm_rule_latched)
  with a show ?thesis
    by (simp add: flow_alarm_latches_until_cleared_def Let_def elapsed_def active_def shown_def
        del: foldl_Cons)
qed

lemma disable_test_passes:
  assumes "default_config s p = Some dflt"
  shows "flow_alarm_disabled_resets_state dflt"
  unfolding flow_alarm_disabled_resets_state_def using assms by (simp add: test_defs)

text \<open>The valve of the busy test: five seconds into a sequence of sixteen.\<close>

lemma valve_in_sequence:
  assumes "wv_phase v = PTurningOn 0" "wv_timing v = sw_valve_timing default_switches_config"
  shows "wv_phase (fst (valve_tick v 5000)) = PTurningOn 0"
  using assms by (simp add: valve_defs default_switches_config_def default_valve_timing_def sequence_ms_def
      motor_run_ms_def secs_to_ms_def as_u64_def SETTLE_MS_def Let_def sat_sub_def)

lemma water_test_passes:
  assumes "default_config s p = Some dflt"
  shows "water_control_cannot_be_re_issued_during_sequence dflt"
proof -
  let ?a = "fst (switch_command (clock_at 0) (app0 dflt) (WaterControl True))"
  have v0: "ap_valve (app0 dflt) = valve_with_timing (sw_valve_timing default_switches_config)"
    using assms by (simp add: app0_def app_new_def app_with_nvs_def Let_def stored_valve_state_def default_parts)
  then have a: "switch_command (clock_at 0) (app0 dflt) (WaterControl True) = (?a, CmdOk)"
    "wv_phase (ap_valve ?a) = PTurningOn 0" "wv_timing (ap_valve ?a) = sw_valve_timing default_switches_config"
    by (simp_all add: switch_command_def Let_def valve_with_timing_def valve_is_busy_def valve_turn_on_def)
  obtain n where "ap_valve (tick_at 5000 ?a) = fst (valve_tick (ap_valve ?a) 5000) \<or>
      ap_valve (tick_at 5000 ?a) = valve_turn_off (fst (valve_tick (ap_valve ?a) 5000)) n"
    using evaluate_valve [of "clock_at 5000" "tick_timers (clock_at 5000) ?a" 5000]
    by (auto simp: tick_at_def app_tick_split)
  then have "wv_phase (ap_valve (tick_at 5000 ?a)) = PTurningOn 0"
    using valve_in_sequence [OF a(2,3)] by (auto simp: valve_turn_off_def)
  moreover have "snd (switch_command (clock_at 0) (app0 dflt) (WaterControl True)) = CmdOk"
    by (subst a(1)) simp
  ultimately show ?thesis
    by (simp add: water_control_cannot_be_re_issued_during_sequence_def Let_def case_prod_beta
        switch_command_def [of "clock_at 5000"] valve_is_busy_def)
qed

text \<open>What a tick sends.\<close>

lemma tick_quiet: "\<not> tick_fires env a \<Longrightarrow> ap_webhooks (fst (app_tick env a)) = ap_webhooks a"
  unfolding tick_fires_def app_tick_split evaluate_flow_alarm_def Let_def by (auto split: if_splits)

lemma event_with_kind [simp]: "we_kind (event_with e k v) = we_kind e" "we_kind (event_new kind) = kind"
  "map_of (we_vars (event_with e k v)) = (map_of (we_vars e))(k \<mapsto> v)"
  by (simp_all add: event_with_def event_new_def)

lemma fired_parts:
  assumes "fa_active (sn_alarm (app_snapshot (evaluate_flow_alarm env a now)))"
    "\<not> fa_active (sn_alarm (app_snapshot a))"
  shows "\<exists>b f. ap_webhooks (evaluate_flow_alarm env a now) = ap_webhooks (emit_event env b
      (event_with (event_with (event_with (event_new FlowAlarmFire) ''flow_lph'' f)
         ''threshold_lph'' (fmt_f32 1 (al_threshold_lph (cf_flow_alarm (ap_config a)))))
         ''duration_secs'' (show_word (al_duration_secs (cf_flow_alarm (ap_config a)))))) \<and>
    ap_webhooks b = ap_webhooks a"
  using assms unfolding evaluate_flow_alarm_def Let_def
  by (auto split: if_splits intro!: exI)

lemma tick_sends:
  assumes "tick_fires env a"
  shows "\<exists>vs. ap_webhooks (fst (app_tick env a)) =
      env_dispatch env (ap_webhooks a) \<lparr>we_kind = FlowAlarmFire, we_vars = vs\<rparr> \<and>
    map_of vs ''threshold_lph'' = Some (fmt_f32 1 (al_threshold_lph (cf_flow_alarm (ap_config a)))) \<and>
    map_of vs ''duration_secs'' = Some (show_word (al_duration_secs (cf_flow_alarm (ap_config a))))"
proof -
  let ?t = "tick_timers env a" and ?now = "env_mono env (ap_reads a)"
  from assms obtain b f where b: "ap_webhooks (fst (app_tick env a)) = ap_webhooks (emit_event env b
      (event_with (event_with (event_with (event_new FlowAlarmFire) ''flow_lph'' f)
         ''threshold_lph'' (fmt_f32 1 (al_threshold_lph (cf_flow_alarm (ap_config a)))))
         ''duration_secs'' (show_word (al_duration_secs (cf_flow_alarm (ap_config a))))))"
    "ap_webhooks b = ap_webhooks a"
    using fired_parts [of env ?t ?now] by (auto simp: tick_fires_def app_tick_split)
  show ?thesis
    using emit_event_vars [of env b "event_with (event_with (event_with (event_new FlowAlarmFire) ''flow_lph'' f)
         ''threshold_lph'' (fmt_f32 1 (al_threshold_lph (cf_flow_alarm (ap_config a)))))
         ''duration_secs'' (show_word (al_duration_secs (cf_flow_alarm (ap_config a))))"] b
    by (auto simp: event_with_def event_new_def map_add_def)
qed

text \<open>What the recorder holds after an event and after a replaced configuration.\<close>

lemma emit_records:
  assumes "ap_webhooks a = Some r"
  shows "\<exists>vs. ap_webhooks (emit_event (clock_at t) a ev) = Some \<lparr>rd_events = rd_events r @ [ev\<lparr>we_vars := vs\<rparr>]\<rparr> \<and>
    map_of (we_vars ev) \<subseteq>\<^sub>m map_of vs"
  using emit_event_vars [of "clock_at t" a ev] assms
  by auto

lemma replace_records:
  assumes "ap_webhooks a = Some r"
  shows "\<exists>vs. ap_webhooks (replace_config_section (clock_at t) a c n) =
      Some \<lparr>rd_events = rd_events r @ [\<lparr>we_kind = ConfigChanged, we_vars = vs\<rparr>]\<rparr> \<and>
    map_of vs ''section'' = Some n"
proof -
  let ?ev = "event_with (event_new ConfigChanged) ''section'' n"
  obtain b where "ap_webhooks (replace_config_section (clock_at t) a c n) =
      ap_webhooks (emit_event (clock_at t) b ?ev)" "ap_webhooks b = Some r"
    using assms by (simp add: replace_config_section_def Let_def)
  with emit_records [OF this(2), of t ?ev] show ?thesis
    by (auto simp: event_with_def event_new_def map_le_def)
qed

lemma taken_parts [simp]:
  "ap_config (snd (taken a)) = ap_config a" "ap_last_check (snd (taken a)) = ap_last_check a"
  "ap_sprinkler1 (snd (taken a)) = ap_sprinkler1 a" "ap_sprinkler2 (snd (taken a)) = ap_sprinkler2 a"
  "app_snapshot (snd (taken a)) = app_snapshot a"
  "ap_webhooks a = Some r \<Longrightarrow> fst (taken a) = rd_events r"
  "ap_webhooks a = Some r \<Longrightarrow> ap_webhooks (snd (taken a)) = Some \<lparr>rd_events = []\<rparr>"
  by (auto simp: taken_def recording_take_def app_snapshot_def split: option.split)

lemma recorder_parts [simp]:
  "ap_config (record_events a) = ap_config a" "ap_last_check (record_events a) = ap_last_check a"
  "ap_sprinkler1 (record_events a) = ap_sprinkler1 a" "ap_sprinkler2 (record_events a) = ap_sprinkler2 a"
  "app_snapshot (record_events a) = app_snapshot a"
  "ap_webhooks (record_events a) = Some \<lparr>rd_events = []\<rparr>"
  by (simp_all add: record_events_def set_webhook_dispatcher_def app_snapshot_def)

lemma config_changed_test_passes: "replace_config_emits_config_changed dflt"
proof -
  have "ap_webhooks (snd (taken (record_events (app0 dflt)))) = Some \<lparr>rd_events = []\<rparr>" by simp
  from replace_records [OF this, of 0 "ap_config (snd (taken (record_events (app0 dflt))))" "''mqtt''"]
  show ?thesis
    by (auto simp: replace_config_emits_config_changed_def Let_def)
qed

lemma history_test_passes:
  assumes "default_config s p = Some dflt"
  shows "flow_alarm_records_history_on_fire dflt"
proof -
  let ?a = "tick_at 0 (set_flow 100 (arm_alarm 0 50 5 (app0 dflt)))"
  have 0: "\<not> tick_fires (clock_at 0) (set_flow 100 (arm_alarm 0 50 5 (app0 dflt)))"
    using assms by (simp add: tick_fires_def flip: tick_at_def) (simp add: test_defs)
  have 6: "tick_fires (clock_at 6000) ?a"
    using assms by (simp add: tick_fires_def flip: tick_at_def) (simp add: test_defs)
  have "ap_history ?a = []"
    using 0 assms by (simp add: tick_at_def tick_history)
  with 6 have "ap_history (tick_at 6000 ?a) = [fire_event (clock_at 6000) ?a]"
    by (simp add: tick_at_def [of 6000] tick_history push_history_def ALARM_HISTORY_CAP_def)
  then show ?thesis
    using assms by (simp add: flow_alarm_records_history_on_fire_def Let_def alarm_history_def fire_event_def)
qed

lemma printed [simp]: "fmt_f32 (Suc 0) (f32_of_rat 50) = ''50.0''" "show_word (5 :: u32) = ''5''"
  by code_simp+

lemma event_test_passes:
  assumes "default_config s p = Some dflt"
  shows "flow_alarm_emits_webhook_events_on_fire_and_clear dflt"
proof -
  let ?a = "snd (taken (record_events (app0 dflt)))"
  let ?f = "set_flow 100 (snd (taken (arm_alarm 0 50 5 ?a)))"
  let ?c = "snd (taken (tick_at 6000 (tick_at 0 ?f)))"
  have "\<exists>r. ap_webhooks (arm_alarm 0 50 5 ?a) = Some r"
    using replace_records [of ?a "\<lparr>rd_events = []\<rparr>" 0 _ "''all''"]
    unfolding arm_alarm_def replace_config_def by (meson taken_parts(7) recorder_parts(6))
  then have f: "ap_webhooks ?f = Some \<lparr>rd_events = []\<rparr>"
    by (auto simp: set_flow_def)
  have parts: "\<not> tick_fires (clock_at 0) ?f" "tick_fires (clock_at 6000) (tick_at 0 ?f)"
    "fa_active (sn_alarm (app_snapshot (tick_at 6000 (tick_at 0 ?f))))"
    using assms by (simp_all add: tick_fires_def flip: tick_at_def) (simp_all add: test_defs)
  have t0: "ap_webhooks (tick_at 0 ?f) = Some \<lparr>rd_events = []\<rparr>"
    using tick_quiet [OF parts(1)] f by (simp add: tick_at_def)
  obtain vs where vs: "ap_webhooks (tick_at 6000 (tick_at 0 ?f)) =
      Some \<lparr>rd_events = [\<lparr>we_kind = FlowAlarmFire, we_vars = vs\<rparr>]\<rparr>"
    "map_of vs ''threshold_lph'' = Some ''50.0''" "map_of vs ''duration_secs'' = Some ''5''"
    using tick_sends [OF parts(2)] t0
    by (auto simp: tick_at_def [of 6000])
  have c: "ap_webhooks ?c = Some \<lparr>rd_events = []\<rparr>" "fa_active (sn_alarm (app_snapshot ?c))"
    using vs(1) parts(3) by simp_all
  obtain ws where "ap_webhooks (clear_flow_alarm (clock_at 6000) ?c) =
      Some \<lparr>rd_events = [\<lparr>we_kind = FlowAlarmClear, we_vars = ws\<rparr>]\<rparr>"
    using c emit_records [of "app_update_state ?c (\<lambda>s. s\<lparr>sn_alarm := \<lparr>fa_active = False, fa_elapsed_secs = 0\<rparr>\<rparr>)"
        "\<lparr>rd_events = []\<rparr>" 6000 "event_new FlowAlarmClear"]
    by (auto simp: clear_flow_alarm_def Let_def event_new_def)
  then show ?thesis
    using vs by (simp add: flow_alarm_emits_webhook_events_on_fire_and_clear_def Let_def case_prod_beta)
qed

lemma parse_test_passes: parse_command_routes_correctly
  unfolding parse_command_routes_correctly_def by code_simp

lemma fake_calls:
  "fm_published (foldl (fake_call env) m cs) = fm_published m @
     concat (map (\<lambda>c. case c of CPublish t p opts \<Rightarrow> [(t, p, opts)] | _ \<Rightarrow> []) cs)"
  "fm_subscriptions (foldl (fake_call env) m cs) = fm_subscriptions m @
     concat (map (\<lambda>c. case c of CSubscribe t \<Rightarrow> [t] | _ \<Rightarrow> []) cs)"
  "fm_handler (foldl (fake_call env) m (cs @ [CSetHandler base])) = Some (route_message env base)"
  by (induction cs arbitrary: m)
     (auto simp: fake_call_def fake_mqtt_publish_def fake_mqtt_subscribe_def fake_mqtt_set_handler_def
       split: mqtt_call.split)

lemma connect_test_passes:
  assumes "default_config s p = Some dflt"
  shows "on_connect_publishes_discovery_subscribes_routes_commands enc dflt"
proof -
  let ?m = "foldl (fake_call (clock_at 0)) fake_mqtt_new (on_connect enc (app0 dflt) ''test'')"
  have "length (fm_published ?m) = 14" "length (fm_subscriptions ?m) = 3"
    unfolding fake_calls by (simp_all add: fake_mqtt_new_def on_connect_def Let_def all_messages_def)
  moreover have "\<exists>cs. on_connect enc (app0 dflt) ''test'' = cs @ [CSetHandler ''doremorwater'']"
    using assms by (simp add: on_connect_def Let_def default_parts default_mqtt_config_def)
  then have "fm_handler ?m = Some (route_message (clock_at 0) ''doremorwater'')"
    by (auto simp only: fake_calls)
  then have "fake_mqtt_inject ?m topic payload = route_message (clock_at 0) ''doremorwater'' topic payload"
    for topic payload
    by (simp add: fake_mqtt_inject_def fun_eq_iff)
  moreover have "parse_command ''doremorwater'' ''doremorwater/sprinkler_1/set'' (bytes_of ''ON'') = Some (Sprinkler1 True)"
    by code_simp
  ultimately show ?thesis
    using sprinkler_test_passes [OF assms]
    by (simp only: on_connect_publishes_discovery_subscribes_routes_commands_def route_message_def Let_def
        switch_command_sprinkler_round_trip_def option.case flip: command_at_def)
qed

text \<open>All thirteen of them pass.\<close>

theorem app_tests_pass:
  assumes "default_config s p = Some dflt"
  shows "list_all id [switch_command_sprinkler_round_trip dflt,
    replace_config_updates_sprinkler_auto_off_live dflt,
    water_control_cannot_be_re_issued_during_sequence dflt,
    flow_alarm_fires_after_sustained_high_flow dflt, flow_alarm_ignored_while_sprinkler_on dflt,
    flow_alarm_resets_elapsed_when_flow_drops dflt,
    flow_alarm_emits_webhook_events_on_fire_and_clear dflt, replace_config_emits_config_changed dflt,
    flow_alarm_records_history_on_fire dflt, flow_alarm_latches_until_cleared dflt,
    flow_alarm_disabled_resets_state dflt, parse_command_routes_correctly,
    on_connect_publishes_discovery_subscribes_routes_commands enc dflt]"
  using sprinkler_test_passes [OF assms] retime_test_passes [OF assms] water_test_passes [OF assms]
    fire_test_passes [OF assms] mask_test_passes [OF assms] drop_test_passes [OF assms]
    event_test_passes [OF assms] config_changed_test_passes history_test_passes [OF assms]
    latch_test_passes [OF assms] disable_test_passes [OF assms] parse_test_passes
    connect_test_passes [OF assms]
  by simp

end
