(* ===== verification/Spec2Isabelle.thy ===== *)
theory Spec2Isabelle
  imports Water_Valve Timed_Switch Calibration Schedule Webhook Config App HA_Discovery
    Mqtt_Dispatch Log_Buffer Flash_Kv Captive_Net Http_Server Web_Api
    Wifi_Supervisor Nostd_Main Sensors Pin_Task Firmware_Main Serial_Cli Ota_Update Webhook_Delivery
    Net_Services Nostd_Mqtt Host_Server Log_Streams Esp_Services Nostd_Router Device_System Startup
    App_Locks Esp_Threads App_Spec Sensor_Units Config_Writers Core_Tests App_Tests
begin

text \<open>
  A model of the water controller of this repository in HOL, with the theorems that make it correct.

  \<^bold>\<open>The program.\<close> The controller drives a motorised main valve (an open winding, a close winding, a
  drain) and two sprinklers, watches a flow meter, runs a schedule, and is operated over HTTP, MQTT
  and Home Assistant. \<open>crates/core\<close> holds the platform independent logic; \<open>crates/firmware\<close> (ESP-IDF)
  and \<open>crates/firmware-nostd\<close> (embassy) are two firmwares over it; \<open>crates/host\<close> has the fakes used
  for simulation. The application object of \<open>core::app\<close> owns the valve, the two switches and the
  configuration; everything else calls its methods.

  \<^bold>\<open>Theories and sources.\<close>

  \<^item> \<open>Prelude\<close>: machine integers as words with their arithmetic on \<open>nat\<close>, suffixes of lists, and the
    locale \<open>run_machine\<close>, which lifts an invariant of one step to every run.
  \<^item> \<open>Float32\<close>: \<open>f32\<close> as sign, exact rational magnitude, infinities and NaN, with rounding to nearest
    even. \<open>Text\<close>: the string and map operations of the standard library the program uses.
  \<^item> \<open>Water_Valve\<close> (\<open>core/water_valve.rs\<close>): the sequencer of the main valve and its timing.
  \<^item> \<open>Timed_Switch\<close> (\<open>core/switch.rs\<close>): a sprinkler with automatic switch-off.
  \<^item> \<open>Calibration\<close> (\<open>core/calibration.rs\<close>): piecewise linear calibration of a sensor.
  \<^item> \<open>Schedule\<close> (\<open>core/schedule.rs\<close>): rules and their evaluation over a
    range of minutes. The calendar is chrono's: a record of readings and the locale \<open>civil_time\<close>.
  \<^item> \<open>Webhook\<close> (\<open>core/webhook.rs\<close>): event kinds, templates, dispatchers.
  \<^item> \<open>Traits\<close> (\<open>core/traits.rs\<close>, \<open>host/fakes.rs\<close>): the platform traits; the locale \<open>nvs_store\<close> is the
    contract of the key-value store.
  \<^item> \<open>Device_State\<close> (\<open>core/state.rs\<close>, \<open>core/api.rs\<close>): the snapshot and the API types.
  \<^item> \<open>Config\<close> (\<open>core/config.rs\<close>): the configuration, its persistence, redaction and merge.
  \<^item> \<open>App\<close> (\<open>core/app.rs\<close>): commands, tick, flow alarm, history, events, persistence of the valve.
  \<^item> \<open>App_Locks\<close> (\<open>core/app.rs\<close> again): the same methods as the critical sections they are on
    threads, pools of threads over the locks, and the locale \<open>rely\<close> for what survives interruption.
  \<^item> \<open>Esp_Threads\<close> (the tick thread of \<open>firmware/main.rs\<close>): the ESP-IDF device as such a pool, with the
    pins: the tick thread beside any number of threads that call the application.
  \<^item> \<open>App_Spec\<close>: the specification of the application, an abstract device of five fields with one
    step per call, and the locale \<open>simulation\<close> that carries a step-wise refinement to every run.
  \<^item> \<open>HA_Discovery\<close> and \<open>Mqtt_Dispatch\<close> (\<open>core/ha_discovery.rs\<close>, \<open>core/mqtt_dispatch.rs\<close>).
  \<^item> \<open>Log_Buffer\<close> (\<open>core/log_buffer.rs\<close>): the ring buffer and its bounded subscribers.
  \<^item> \<open>Flash_Kv\<close> (\<open>firmware-nostd/nvs.rs\<close>): the store in flash, with the byte format of its blob.
  \<^item> \<open>Captive_Net\<close> (\<open>firmware-nostd/ap.rs\<close>, \<open>firmware/captive_dns.rs\<close>): DHCP and DNS in setup mode,
    every indexed read, slice and write an operation that may panic.
  \<^item> \<open>Http_Server\<close> (\<open>firmware/http_server.rs\<close>) and \<open>Web_Api\<close> (\<open>firmware-nostd/webapi.rs\<close>): the two
    HTTP interfaces; \<open>Host_Server\<close> (\<open>host/http.rs\<close>, the tick of \<open>host/main.rs\<close>): the simulator's.
  \<^item> \<open>Wifi_Supervisor\<close> (\<open>firmware/net_wifi.rs\<close>): the supervisor of the WiFi connection, one pass of
    its loop at a time; \<open>Nostd_Main\<close> (\<open>firmware-nostd/main.rs\<close>, \<open>wifiscan.rs\<close>): boot mode, connection
    task, clock and heartbeat of the other firmware.
  \<^item> \<open>Firmware_Main\<close> (\<open>firmware/main.rs\<close>, \<open>mqtt_client.rs\<close>, \<open>hw_nvs.rs\<close>, \<open>firmware-nostd/schedule.rs\<close>):
    boot, health check and MQTT supervisor of the ESP-IDF firmware, the schedule tasks of both.
  \<^item> \<open>Sensors\<close> (\<open>firmware-nostd/sensors.rs\<close>, \<open>firmware/main.rs\<close>, \<open>hw_adc.rs\<close>, \<open>hw_pcnt.rs\<close>): pulse
    counting and the sensor tasks; \<open>Pin_Task\<close>: the tick tasks of both firmwares with their pins.
  \<^item> \<open>Sensor_Units\<close>: what the default calibrations of \<open>core/config.rs\<close> make of every reading, over the
    relative error of \<open>f32\<close>.
  \<^item> \<open>Serial_Cli\<close> (\<open>firmware/serial_cli.rs\<close>, \<open>firmware-nostd/serial.rs\<close>): the serial consoles.
  \<^item> \<open>Ota_Update\<close> (\<open>firmware-nostd/ota.rs\<close>, \<open>firmware/net_ota.rs\<close>): the streaming update receiver.
  \<^item> \<open>Webhook_Delivery\<close> (\<open>webhook_dispatch.rs\<close>, \<open>firmware-nostd/webhook.rs\<close>): queues and requests.
  \<^item> \<open>Net_Services\<close> (\<open>firmware-nostd/sntp.rs\<close>, \<open>mdns.rs\<close>), \<open>Nostd_Mqtt\<close> (\<open>firmware-nostd/mqtt.rs\<close>) and
    \<open>Log_Streams\<close> (\<open>tee_log.rs\<close>, \<open>log_telnet.rs\<close>, the WebSocket senders, \<open>logbuf.rs\<close>, \<open>telnet.rs\<close>).
  \<^item> \<open>Nostd_Router\<close> (\<open>build_app\<close> of \<open>firmware-nostd/main.rs\<close>): the routes over \<open>Web_Api\<close>.
  \<^item> \<open>Esp_Services\<close> (\<open>firmware/tls_certgen.rs\<close>, \<open>mdns_init.rs\<close>, \<open>task_util.rs\<close>, \<open>spawn\<close> of
    \<open>http_server.rs\<close>): what the firmware builds on C libraries, as sequences of calls.
  \<^item> \<open>Device_System\<close>: what a task of either firmware may do to the shared application (\<open>acts\<close>), the
    locale \<open>control_device\<close> of a device whose calls are uninterrupted, with the no_std firmware and its
    tasks as its interpretation, the simulator as a second step relation, and the section writes of
    the ESP-IDF server that interrupt each other.
  \<^item> \<open>Config_Writers\<close>: writers of the configuration on several threads, each a save and a replace.
  \<^item> \<open>Core_Tests\<close>, \<open>App_Tests\<close>: the unit tests of the crates, under their own names, run on the model.
  \<^item> \<open>Startup\<close> (the \<open>main\<close> functions, \<open>core/build.rs\<close>, \<open>firmware-nostd/build.rs\<close>, \<open>firmware/diag.rs\<close>): the
    order in which the firmwares start their parts, the build scripts, the heap and task report.

  \<^bold>\<open>Modelling.\<close> A struct is a record, an enum a datatype, an integer a word of its width; text is a
  list of characters, a byte string a list of 8 bit words. A method is a function from the state to
  the new state and its result, and interleavings are lists of such steps. Of the application's methods
  this is exact where tasks are cooperative (no_std); on threads (ESP-IDF, simulator) a method is a
  sequence of critical sections, which \<open>App_Locks\<close> relates to the method and interleaves. A panic is \<open>None\<close> (or the outer \<open>None\<close> of a nested option),
  an error value is \<open>Inl\<close>. The clock is a sequence of readings consumed in call order, so nothing is
  assumed about it unless a theorem says so. Third-party code is an argument: chrono's calendar,
  serde's JSON codecs, the flash and radio drivers, the OTA partition. What the proofs need of it
  is a locale or a named hypothesis (a codec that decodes what it encoded, a NOR flash that reads
  back what was written after an erase), and each such hypothesis has a concrete instance.

  \<^bold>\<open>Loops.\<close> Loops over data are structural or well-founded recursions with their termination proofs.
  The minute loop of the schedule has the program's own cap (\<open>MAX_ITERS\<close>, 1500 steps) as its fuel,
  which suffices for polls up to 25 hours apart. The two nested loops of the update receiver recurse
  on the bytes still expected, and their termination is part of a theorem. Server and task loops never
  end; they are modelled by their bodies, and a run is a list of passes with what each pass observes.

  \<^bold>\<open>What the theorems show.\<close>

  \<^item> Valve: never two outputs at once; opposite motor directions at least a settle window apart; a
    refinement of the four-state machine of the documentation; the exact output programme of an
    opening and a closing; a started opening completes.
  \<^item> Devices: from power on the two windings are never both driven, on the no_std firmware over every
    interleaving of requests, messages, polls, console input and ticks, where moreover the limits in
    force are those of the configuration, and on the ESP-IDF firmware over every interleaving of its
    threads, between any two critical sections and pin writes.
  \<^item> Switches: no reachable switch stays on past its limit; an activation lasts exactly its duration.
  \<^item> Application: every run from boot is a run of the abstract device, and what a tick drives is what
    the water state of that device allows; the alarm part of a tick is the documented rule; the alarm is latched and keeps the
    valve from staying open; a leak fires it in time where ticks are a second apart; the history is the
    last sixteen firings; the limits in force are those
    of the configuration; a reboot restores the last completed position; the water never starts
    without a command; a command's full behaviour.
  \<^item> Tests: every unit test of the repository holds of the model, except one that is about serde; the
    definitions are the test bodies, so a change of the model that contradicts a test is noticed.
  \<^item> Threads: no calls on the application can deadlock, and every run of them ends; a tick keeps the
    alarm's promise and a replacement of the configuration takes effect whatever other threads do
    between their sections, except that two replacements can mix.
  \<^item> Configuration and stores: what is saved is loaded; the redacted view does not depend on the
    secrets and writing it back changes nothing; the flash blob parses back to the map it came from.
  \<^item> Schedule: over polls that never go back and are at most 25 h apart, each matching minute fires exactly once.
  \<^item> HTTP: without the token nothing changes, every writing route answers 401 and no secret of the
    redacted fields is shown; an acknowledged write is durable
    and a refused one void; an upload reboots only into a completely written image. Reading a section
    gives the same JSON on both firmwares.
  \<^item> Services: the certificate generator stops at the first failure and releases everything it
    initialised, whatever mbedTLS answers.
  \<^item> Network: no datagram crashes the setup services; the mDNS responder answers exactly the queries
    for its name; the clock set by SNTP shows the server's time; a dead link is given up and the
    networks of the current list are tried in order; MQTT attempts keep their distance, and both
    firmwares present the same device to the broker while the base topic is that of the session.
  \<^item> Hardware: the level written to the pins never drives both windings; the pulse total is exact
    across the wrap-around of the counter, and the sensor task fails only on a calibration that is
    too short.
  \<^item> Updates: an upload touches only the inactive slot and boots only a complete image.
  \<^item> Webhooks: the queue is bounded and in order; a reader recovers the request that was written; a
    configuration change reaches exactly its enabled subscribers.
  \<^item> Simulator: it acknowledges the writes the device acknowledges, with the same result, if they are
    typed as JSON, and refuses them otherwise.
  \<^item> Where the code falls short of its documentation a theorem states what it does instead: the alarm
    that cannot fire under sub-second ticks, the reboot in the middle of an opening, the store
    poisoned by an oversized value, the corrupted length, the network switch before a failed save,
    the write lost between two writers, the limits they mix and the store they leave apart from the
    running configuration, the certificate that stops every boot, the sections the
    no_std firmware refuses with status 200, the TLS server that takes the control loop down with it,
    the quotes only one build script removes, the calibration in volts applied to counts, the flow
    factor per minute applied per second.

  \<^bold>\<open>Not modelled.\<close> What a driver does inside a step of the start (clocks, pins, radio, the emulated
  Ethernet interface); sockets and TLS below the modelled connections and the accept loops around
  them; the publish channel of embassy and the log bridge of the simulator; the embedded page and the
  empty WireGuard module. Log output is left out except where it is the subject.
\<close>

end
